(* ===== verification/Viator_Prelude.thy ===== *)
theory Viator_Prelude
  imports Complex_Main "HOL-Library.Char_ord" "HOL-Library.List_Lexorder"
    "HOL-Library.Product_Lexorder" "HOL-Library.Multiset"
begin

text \<open>
  What the VIATOR components share: the Python values they compute with (text, instants, floats,
  truth values of optional text, ordered dictionaries), the runtime services they call, and the
  generic lemmas on lists, options and rounding that the component theories use.

  \<^item> \<open>str\<close> is a list of code points. The model's alphabet is \<open>char\<close>, the code points 0 to 255, so
    a label of the model is a text over Latin-1; the order on text is Python's (by code point).
  \<^item> \<open>float\<close> is \<open>real\<close>: the arithmetic is exact where the program rounds to 53 bits. \<open>round(x, n)\<close>
    is \<open>py_round\<close>, half to even.
  \<^item> An aware \<open>datetime\<close> is an \<open>instant\<close>: microseconds since 1970-01-01T00:00Z.
  \<^item> The Unicode database (\<open>unicodedata.normalize\<close>, \<open>casefold\<close>, \<open>upper\<close>, \<open>lower\<close>) and SHA-256 are the
    fields of a \<open>runtime\<close> record that the definitions take as an argument: the theorems hold for
    every such table. \<open>ascii_runtime\<close> is the table of the ASCII range, used by the witnesses.
\<close>

section \<open>Automation collections\<close>

named_theorems py_simps "evaluation of the model's Python helpers"
named_theorems bounds_intros "introduction rules for values that lie between 0 and 1"

section \<open>Errors, text and truth values\<close>

datatype py_error = IndexError | KeyError | AttributeError | TypeError | OverflowError | ValueError string | ValidationError string

type_synonym str = string
type_synonym instant = int

record runtime =
  rt_nfkc :: "str \<Rightarrow> str"
  rt_casefold :: "str \<Rightarrow> str"
  rt_upper :: "str \<Rightarrow> str"
  rt_lower :: "str \<Rightarrow> str"
  rt_digest :: "str \<Rightarrow> str"

definition ascii_upper :: "char \<Rightarrow> char" where
  "ascii_upper c = (let n = of_char c :: nat in if 97 \<le> n \<and> n \<le> 122 then char_of (n - 32) else c)"

definition ascii_lower :: "char \<Rightarrow> char" where
  "ascii_lower c = (let n = of_char c :: nat in if 65 \<le> n \<and> n \<le> 90 then char_of (n + 32) else c)"

definition ascii_runtime :: runtime where
  "ascii_runtime = \<lparr>rt_nfkc = (\<lambda>s. s), rt_casefold = map ascii_lower, rt_upper = map ascii_upper,
     rt_lower = map ascii_lower, rt_digest = (\<lambda>s. s)\<rparr>"

text \<open>The truth value of an optional text, and Python's \<open>a or b\<close> on two of them.\<close>

definition truthy :: "str option \<Rightarrow> bool" where
  "truthy x = (case x of None \<Rightarrow> False | Some s \<Rightarrow> s \<noteq> [])"

definition or_empty :: "str option \<Rightarrow> str" where
  "or_empty x = (case x of None \<Rightarrow> [] | Some s \<Rightarrow> s)"

definition none_if_empty :: "str \<Rightarrow> str option" where
  "none_if_empty s = (if s = [] then None else Some s)"

definition or_text :: "str option \<Rightarrow> str option \<Rightarrow> str option" where
  "or_text a b = (if truthy a then a else b)"

lemma truthy_simps [simp]: "truthy None = False" "truthy (Some s) = (s \<noteq> [])"
  by (simp_all add: truthy_def)

lemma or_empty_simps [simp]: "or_empty None = []" "or_empty (Some s) = s"
  by (simp_all add: or_empty_def)

lemma none_if_empty_Some [simp]: "none_if_empty s = Some t \<longleftrightarrow> s = t \<and> t \<noteq> []"
  by (auto simp: none_if_empty_def)

lemma none_if_empty_None [simp]: "none_if_empty s = None \<longleftrightarrow> s = []"
  by (simp add: none_if_empty_def)

lemma truthyD: "truthy x \<Longrightarrow> \<exists>s. x = Some s \<and> s \<noteq> []"
  by (cases x) auto

section \<open>Character classes and trimming\<close>

text \<open>
  \<open>\s\<close> and \<open>str.strip\<close> take the same characters as blank; in Latin-1 they are these. \<open>\d\<close> is the
  decimal digits; \<open>str.isdigit\<close> also takes the three superscripts.
\<close>

definition is_space :: "char \<Rightarrow> bool" where
  "is_space c = (let n = of_char c :: nat in
     (9 \<le> n \<and> n \<le> 13) \<or> (28 \<le> n \<and> n \<le> 32) \<or> n = 133 \<or> n = 160)"

definition is_decimal :: "char \<Rightarrow> bool" where
  "is_decimal c = (let n = of_char c :: nat in 48 \<le> n \<and> n \<le> 57)"

definition is_digit_char :: "char \<Rightarrow> bool" where
  "is_digit_char c = (is_decimal c \<or> (let n = of_char c :: nat in n = 178 \<or> n = 179 \<or> n = 185))"

definition is_lower_az :: "char \<Rightarrow> bool" where
  "is_lower_az c = (let n = of_char c :: nat in 97 \<le> n \<and> n \<le> 122)"

definition is_upper_az :: "char \<Rightarrow> bool" where
  "is_upper_az c = (let n = of_char c :: nat in 65 \<le> n \<and> n \<le> 90)"

definition is_ascii_letter :: "char \<Rightarrow> bool" where
  "is_ascii_letter c = (is_lower_az c \<or> is_upper_az c)"

text \<open>\<open>\w\<close> in Latin-1: letters, digits and the other numerics, and the underscore.\<close>

definition is_word_char :: "char \<Rightarrow> bool" where
  "is_word_char c = (let n = of_char c :: nat in
     is_ascii_letter c \<or> is_digit_char c \<or> n = 95 \<or> n = 170 \<or> n = 181 \<or> n = 186 \<or>
     (188 \<le> n \<and> n \<le> 190) \<or> (192 \<le> n \<and> n \<noteq> 215 \<and> n \<noteq> 247))"

definition py_isdigit :: "str \<Rightarrow> bool" where
  "py_isdigit s = (s \<noteq> [] \<and> list_all is_digit_char s)"

definition py_strip :: "str \<Rightarrow> str" where
  "py_strip s = rev (dropWhile is_space (rev (dropWhile is_space s)))"

definition strip_chars :: "char list \<Rightarrow> str \<Rightarrow> str" where
  "strip_chars cs s = rev (dropWhile (\<lambda>c. c \<in> set cs) (rev (dropWhile (\<lambda>c. c \<in> set cs) s)))"

definition starts_with :: "str \<Rightarrow> str \<Rightarrow> bool" where
  "starts_with s p = (take (length p) s = p)"

definition ends_with :: "str \<Rightarrow> str \<Rightarrow> bool" where
  "ends_with s p = (length p \<le> length s \<and> drop (length s - length p) s = p)"

lemma starts_with_append [simp]: "starts_with (p @ s) p"
  by (simp add: starts_with_def)

lemma starts_with_iff: "starts_with s p \<longleftrightarrow> (\<exists>t. s = p @ t)"
  unfolding starts_with_def by (metis append_take_drop_id append_eq_conv_conj)

lemma ends_with_iff: "ends_with s p \<longleftrightarrow> (\<exists>t. s = t @ p)"
  unfolding ends_with_def
  by (metis append_take_drop_id append_eq_append_conv_if diff_le_self drop_append
      append_Nil diff_diff_cancel drop_all length_append le_add2 length_drop)

text \<open>\<open>re.sub(r"[...]+", "", s)\<close> for a class of characters: every run of them goes.\<close>

definition remove_class :: "(char \<Rightarrow> bool) \<Rightarrow> str \<Rightarrow> str" where
  "remove_class P s = filter (\<lambda>c. \<not> P c) s"

text \<open>\<open>str.join\<close> and \<open>str.split()\<close> (on blanks).\<close>

fun py_join :: "str \<Rightarrow> str list \<Rightarrow> str" where
  "py_join sep [] = []"
| "py_join sep [x] = x"
| "py_join sep (x # y # ys) = x @ sep @ py_join sep (y # ys)"

fun split_ws_acc :: "str \<Rightarrow> str \<Rightarrow> str list" where
  "split_ws_acc acc [] = (if acc = [] then [] else [rev acc])"
| "split_ws_acc acc (c # cs) =
     (if is_space c then (if acc = [] then split_ws_acc [] cs else rev acc # split_ws_acc [] cs)
      else split_ws_acc (c # acc) cs)"

definition py_split :: "str \<Rightarrow> str list" where
  "py_split s = split_ws_acc [] s"

section \<open>Numbers as text\<close>

definition digit_char :: "nat \<Rightarrow> char" where
  "digit_char n = char_of (48 + n)"

fun show_nat :: "nat \<Rightarrow> str" where
  "show_nat n = (if n < 10 then [digit_char n] else show_nat (n div 10) @ [digit_char (n mod 10)])"

declare show_nat.simps [simp del]

definition show_int :: "int \<Rightarrow> str" where
  "show_int i = (if i < 0 then ''-'' @ show_nat (nat (- i)) else show_nat (nat i))"

text \<open>An integer in at least \<open>w\<close> digits, zeros in front.\<close>

definition zero_pad :: "nat \<Rightarrow> nat \<Rightarrow> str" where
  "zero_pad w n = replicate (w - length (show_nat n)) (CHR ''0'') @ show_nat n"

lemma show_nat_nonempty [simp]: "show_nat n \<noteq> []"
  by (subst show_nat.simps) simp

lemma is_decimal_digit_char [simp]: "n < 10 \<Longrightarrow> is_decimal (digit_char n)"
  by (simp add: is_decimal_def digit_char_def of_char_mod_256 Let_def)

lemma of_char_digit_char [simp]: "n < 10 \<Longrightarrow> of_char (digit_char n) = (48 + n :: nat)"
  by (simp add: digit_char_def)

lemma show_nat_decimal: "list_all is_decimal (show_nat n)"
proof (induction n rule: show_nat.induct)
  case (1 n)
  then show ?case by (subst show_nat.simps) (auto simp: not_less)
qed

text \<open>The value of a string of digits.\<close>

definition digits_value :: "str \<Rightarrow> nat" where
  "digits_value ds = foldl (\<lambda>v c. v * 10 + (of_char c - 48)) 0 (filter is_decimal ds)"

lemma digits_value_snoc [simp]:
  "is_decimal c \<Longrightarrow> digits_value (ds @ [c]) = digits_value ds * 10 + (of_char c - 48)"
  by (simp add: digits_value_def)

lemma digits_value_show_nat: "digits_value (show_nat n) = n"
proof (induction n rule: show_nat.induct)
  case (1 n)
  show ?case
  proof (cases "n < 10")
    case True
    then show ?thesis by (subst show_nat.simps) (simp add: digits_value_def)
  next
    case False
    with 1 show ?thesis by (subst show_nat.simps) simp
  qed
qed

lemma show_int_nonempty [simp]: "show_int n \<noteq> []"
  by (simp add: show_int_def)

section \<open>Rounding\<close>

definition round_half_even :: "real \<Rightarrow> int" where
  "round_half_even x = (let f = \<lfloor>x\<rfloor>; d = x - of_int f in
     if d < 1/2 then f else if d > 1/2 then f + 1 else if even f then f else f + 1)"

definition py_round :: "nat \<Rightarrow> real \<Rightarrow> real" where
  "py_round n x = of_int (round_half_even (x * 10 ^ n)) / 10 ^ n"

lemma round_half_even_of_int [simp]: "round_half_even (of_int k) = k"
  by (simp add: round_half_even_def)

lemma round_half_even_le: "x \<le> of_int k \<Longrightarrow> round_half_even x \<le> k"
  unfolding round_half_even_def Let_def by (simp split: if_splits; linarith)

lemma round_half_even_ge: "of_int k \<le> x \<Longrightarrow> k \<le> round_half_even x"
  unfolding round_half_even_def Let_def by (simp add: le_floor_iff split: if_splits; linarith)

lemma round_half_even_error: "\<bar>of_int (round_half_even x) - x\<bar> \<le> 1/2"
  unfolding round_half_even_def Let_def
  by (simp split: if_splits; linarith)

lemma py_round_le_1: "x \<le> 1 \<Longrightarrow> py_round n x \<le> 1"
proof -
  assume "x \<le> 1"
  then have "x * 10 ^ n \<le> of_int (10 ^ n)" by simp
  then have "round_half_even (x * 10 ^ n) \<le> 10 ^ n" by (rule round_half_even_le)
  then have "(of_int (round_half_even (x * 10 ^ n)) :: real) \<le> of_int (10 ^ n)"
    by (simp only: of_int_le_iff)
  then show ?thesis by (simp add: py_round_def divide_le_eq)
qed

lemma py_round_ge_0: "0 \<le> x \<Longrightarrow> 0 \<le> py_round n x"
proof -
  assume "0 \<le> x"
  then have "of_int 0 \<le> x * 10 ^ n" by simp
  then have "0 \<le> round_half_even (x * 10 ^ n)" by (rule round_half_even_ge)
  then show ?thesis by (simp add: py_round_def)
qed

lemma py_round_error: "\<bar>py_round n x - x\<bar> \<le> 1 / (2 * 10 ^ n)"
proof -
  have "py_round n x - x = (of_int (round_half_even (x * 10 ^ n)) - x * 10 ^ n) / 10 ^ n"
    by (simp add: py_round_def diff_divide_distrib)
  then have "\<bar>py_round n x - x\<bar> = \<bar>of_int (round_half_even (x * 10 ^ n)) - x * 10 ^ n\<bar> / 10 ^ n"
    by (simp only: abs_divide) simp
  also have "\<dots> \<le> (1/2) / 10 ^ n"
    by (rule divide_right_mono [OF round_half_even_error]) simp
  finally show ?thesis by simp
qed

lemma py_round_0 [simp]: "py_round n 0 = 0"
  using round_half_even_of_int [of 0] by (simp add: py_round_def)

lemma py_round_1 [simp]: "py_round n 1 = 1"
  using round_half_even_of_int [of "10 ^ n"] by (simp add: py_round_def)

text \<open>
  \<open>f"{round(x, n):.nf}"\<close>: the rounded value in fixed notation. A negative number that rounds to
  zero keeps its sign, as a float does.
\<close>

definition fixed_text :: "nat \<Rightarrow> real \<Rightarrow> str" where
  "fixed_text n x = (let k = nat \<bar>round_half_even (x * 10 ^ n)\<bar> in
     (if x < 0 then ''-'' else []) @ show_nat (k div 10 ^ n) @ ''.'' @ zero_pad n (k mod 10 ^ n))"

text \<open>A share of a whole, as the scores of the program are.\<close>

definition unit_interval :: "real \<Rightarrow> bool" where
  "unit_interval x = (0 \<le> x \<and> x \<le> 1)"

definition unit_option :: "real option \<Rightarrow> bool" where
  "unit_option x = (case x of None \<Rightarrow> True | Some v \<Rightarrow> unit_interval v)"

lemma unit_option_simps [simp]: "unit_option None" "unit_option (Some v) = unit_interval v"
  by (simp_all add: unit_option_def)

lemma unit_round [bounds_intros]: "unit_interval x \<Longrightarrow> unit_interval (py_round n x)"
  by (simp add: unit_interval_def py_round_le_1 py_round_ge_0)

lemma unit_ratio [bounds_intros]:
  "a \<le> b \<Longrightarrow> unit_interval (real a / real b)"
  by (cases "b = 0") (auto simp: unit_interval_def divide_le_eq)

lemma unit_mult [bounds_intros]:
  "unit_interval x \<Longrightarrow> unit_interval y \<Longrightarrow> unit_interval (x * y)"
  by (auto simp: unit_interval_def intro: mult_le_one)

text \<open>The mean of values between 0 and 1 is between 0 and 1.\<close>

lemma sum_list_unit:
  "\<forall>x \<in> set xs. unit_interval x \<Longrightarrow> 0 \<le> sum_list xs \<and> sum_list xs \<le> real (length xs)"
  by (induction xs) (auto simp: unit_interval_def)

lemma unit_mean [bounds_intros]:
  "\<forall>x \<in> set xs. unit_interval x \<Longrightarrow> unit_interval (sum_list xs / real (length xs))"
  using sum_list_unit [of xs] by (cases "xs = []") (auto simp: unit_interval_def divide_le_eq)

section \<open>Lists as Python uses them\<close>

text \<open>\<open>dict.fromkeys(xs)\<close> as a list: each value once, in order of first appearance.\<close>

fun dedup :: "'a list \<Rightarrow> 'a list" where
  "dedup [] = []"
| "dedup (x # xs) = x # dedup (filter (\<lambda>y. y \<noteq> x) xs)"

text \<open>\<open>enumerate(xs)\<close>, and \<open>min(xs, key=...)\<close>: the first least element.\<close>

definition py_enumerate :: "'a list \<Rightarrow> (nat \<times> 'a) list" where
  "py_enumerate xs = zip [0..<length xs] xs"

definition min_by :: "('a \<Rightarrow> 'b::linorder) \<Rightarrow> 'a list \<Rightarrow> 'a option" where
  "min_by f xs = (if xs = [] then None else Some (arg_min_list f xs))"

text \<open>An ordered dictionary as an association list: setting a key keeps its place.\<close>

fun alist_set :: "'k \<Rightarrow> 'v \<Rightarrow> ('k \<times> 'v) list \<Rightarrow> ('k \<times> 'v) list" where
  "alist_set k v [] = [(k, v)]"
| "alist_set k v ((k', v') # kvs) =
     (if k = k' then (k, v) # kvs else (k', v') # alist_set k v kvs)"

definition alist_get :: "('k \<times> 'v) list \<Rightarrow> 'k \<Rightarrow> 'v \<Rightarrow> 'v" where
  "alist_get kvs k d = (case map_of kvs k of None \<Rightarrow> d | Some v \<Rightarrow> v)"

text \<open>A loop that can raise: the first error ends it.\<close>

fun map_err :: "('a \<Rightarrow> py_error + 'b) \<Rightarrow> 'a list \<Rightarrow> py_error + 'b list" where
  "map_err f [] = Inr []"
| "map_err f (x # xs) =
     (case f x of
        Inl e \<Rightarrow> Inl e
      | Inr y \<Rightarrow> (case map_err f xs of Inl e \<Rightarrow> Inl e | Inr ys \<Rightarrow> Inr (y # ys)))"

lemma set_dedup [simp]: "set (dedup xs) = set xs"
  by (induction xs rule: dedup.induct) auto

lemma distinct_dedup [simp]: "distinct (dedup xs)"
  by (induction xs rule: dedup.induct) auto

lemma dedup_id: "distinct xs \<Longrightarrow> dedup xs = xs"
proof (induction xs)
  case (Cons x xs)
  then have "filter (\<lambda>y. y \<noteq> x) xs = xs" by (auto intro: filter_True)
  with Cons show ?case by simp
qed simp

lemma dedup_eq_Nil [simp]: "dedup xs = [] \<longleftrightarrow> xs = []"
  by (cases xs) auto

lemma length_dedup: "length (dedup xs) = card (set xs)"
  by (metis distinct_card distinct_dedup set_dedup)

lemma set_py_enumerate: "set (py_enumerate xs) = {(i, xs ! i) | i. i < length xs}"
  by (force simp: py_enumerate_def set_zip)

lemma py_enumerate_mem [simp]: "(i, x) \<in> set (py_enumerate xs) \<longleftrightarrow> i < length xs \<and> x = xs ! i"
  by (auto simp: set_py_enumerate)

lemma length_py_enumerate [simp]: "length (py_enumerate xs) = length xs"
  by (simp add: py_enumerate_def)

lemma map_fst_py_enumerate [simp]: "map fst (py_enumerate xs) = [0..<length xs]"
  by (simp add: py_enumerate_def)

lemma map_snd_py_enumerate [simp]: "map snd (py_enumerate xs) = xs"
  by (simp add: py_enumerate_def)

lemma py_enumerate_nth [simp]: "i < length xs \<Longrightarrow> py_enumerate xs ! i = (i, xs ! i)"
  by (simp add: py_enumerate_def)

lemma min_by_mem: "min_by f xs = Some x \<Longrightarrow> x \<in> set xs"
  by (auto simp: min_by_def arg_min_list_in split: if_splits)

lemma min_by_le: "min_by f xs = Some x \<Longrightarrow> y \<in> set xs \<Longrightarrow> f x \<le> f y"
  by (auto simp: min_by_def f_arg_min_list_f split: if_splits)

lemma min_by_None [simp]: "min_by f xs = None \<longleftrightarrow> xs = []"
  by (simp add: min_by_def)

lemma map_of_alist_set [simp]: "map_of (alist_set k v kvs) = (map_of kvs)(k \<mapsto> v)"
  by (induction kvs) auto

lemma fst_alist_set [simp]: "fst ` set (alist_set k v kvs) = insert k (fst ` set kvs)"
proof -
  have "dom (map_of (alist_set k v kvs)) = insert k (dom (map_of kvs))" by simp
  then show ?thesis by (simp only: dom_map_of_conv_image_fst)
qed

lemma distinct_alist_set: "distinct (map fst kvs) \<Longrightarrow> distinct (map fst (alist_set k v kvs))"
proof (induction kvs)
  case (Cons a kvs)
  then have "fst a \<notin> fst ` set (alist_set k v kvs)" if "k \<noteq> fst a" using that by simp
  with Cons show ?case by (cases a) simp
qed simp

lemma map_err_Inr_iff:
  "map_err f xs = Inr ys \<longleftrightarrow> length ys = length xs \<and> (\<forall>i < length xs. f (xs ! i) = Inr (ys ! i))"
proof (induction xs arbitrary: ys)
  case Nil
  then show ?case by auto
next
  case (Cons x xs)
  show ?case
  proof (cases ys)
    case Nil
    then show ?thesis by (auto split: sum.splits)
  next
    case (Cons y ys')
    then show ?thesis
      using Cons.IH [of ys'] by (auto simp: All_less_Suc2 split: sum.splits)
  qed
qed

lemma map_err_total: "\<forall>x \<in> set xs. \<exists>y. f x = Inr y \<Longrightarrow> \<exists>ys. map_err f xs = Inr ys"
proof (induction xs)
  case (Cons x xs)
  then obtain y ys where "f x = Inr y" "map_err f xs = Inr ys" by auto
  then show ?case by simp
qed simp

end
