(* ===== verification/Canonical.thy ===== *)
theory Canonical
  imports Viator_Prelude
begin

text \<open>
  The canonical journey of \<open>app/journey/canonical\<close>: the frozen pydantic classes as records, their
  field bounds and \<open>model_validator\<close>s as the predicates \<open>valid_...\<close>, the derived properties of a
  journey, the transfers derived from its legs (\<open>derive_transfers\<close>), the marking of transfer legs
  (\<open>mark_transfers\<close>) and the mode families (\<open>mode_family\<close>).

  A record of the model is what the class's constructor was given; \<open>valid_journey\<close> says that the
  constructors accepted it. \<open>model_copy\<close> does not validate, so the operations that copy a leg are
  proved to keep validity.
\<close>

section \<open>Services and modes\<close>

datatype transport_mode = RAIL | BUS | COACH | TRAM | SUBWAY | FERRY | CABLEWAY | FUNICULAR
  | AIR | TAXI | OTHER

definition mode_text :: "transport_mode \<Rightarrow> str" where
  "mode_text m = (case m of RAIL \<Rightarrow> ''RAIL'' | BUS \<Rightarrow> ''BUS'' | COACH \<Rightarrow> ''COACH'' | TRAM \<Rightarrow> ''TRAM''
     | SUBWAY \<Rightarrow> ''SUBWAY'' | FERRY \<Rightarrow> ''FERRY'' | CABLEWAY \<Rightarrow> ''CABLEWAY'' | FUNICULAR \<Rightarrow> ''FUNICULAR''
     | AIR \<Rightarrow> ''AIR'' | TAXI \<Rightarrow> ''TAXI'' | OTHER \<Rightarrow> ''OTHER'')"

definition EXACT :: "(str \<times> transport_mode) list" where
  "EXACT = [
     (''RAIL'', RAIL), (''TRAIN'', RAIL), (''LONG_DISTANCE'', RAIL), (''SUBURBAN'', RAIL),
     (''URBANRAIL'', RAIL), (''MONORAIL'', RAIL), (''BUS'', BUS), (''TROLLEYBUS'', BUS),
     (''COACH'', COACH), (''TRAM'', TRAM), (''STREETCAR'', TRAM), (''SUBWAY'', SUBWAY),
     (''METRO'', SUBWAY), (''UNDERGROUND'', SUBWAY), (''FERRY'', FERRY), (''WATER'', FERRY),
     (''WATERWAY'', FERRY), (''BOAT'', FERRY), (''SHIP'', FERRY), (''GONDOLA'', CABLEWAY),
     (''CABLE_CAR'', CABLEWAY), (''AERIAL_LIFT'', CABLEWAY), (''TELECABIN'', CABLEWAY),
     (''CABLEWAY'', CABLEWAY), (''FUNICULAR'', FUNICULAR), (''AIRPLANE'', AIR), (''AIR'', AIR),
     (''TAXI'', TAXI)]"

definition SUFFIXES :: "(str \<times> transport_mode) list" where
  "SUFFIXES = [(''_RAIL'', RAIL), (''_BUS'', BUS), (''_TRAM'', TRAM), (''_SUBWAY'', SUBWAY),
     (''_FERRY'', FERRY)]"

fun family_by_suffix :: "str \<Rightarrow> (str \<times> transport_mode) list \<Rightarrow> transport_mode" where
  "family_by_suffix mode [] = OTHER"
| "family_by_suffix mode ((suffix, family) # rest) =
     (if ends_with mode suffix then family else family_by_suffix mode rest)"

definition mode_family :: "runtime \<Rightarrow> str option \<Rightarrow> transport_mode" where
  "mode_family rt source_mode =
     (let mode = map (\<lambda>c. if c = CHR ''-'' then CHR ''_'' else c)
                   (rt_upper rt (py_strip (or_empty source_mode)))
      in case map_of EXACT mode of
           Some family \<Rightarrow> family
         | None \<Rightarrow> family_by_suffix mode SUFFIXES)"

record product_category =
  pc_code :: "str option"
  pc_name :: "str option"

record canonical_operator =
  op_ref :: "str option"
  op_name :: "str option"
  op_code :: "str option"
  op_url :: "str option"

record canonical_service =
  sv_mode :: transport_mode
  sv_product_category :: "product_category option"
  sv_line :: "str option"
  sv_train_number :: "str option"
  sv_published_name :: "str option"
  sv_route_long_name :: "str option"
  sv_line_ref :: "str option"
  sv_journey_ref :: "str option"
  sv_destination_text :: "str option"
  sv_operator :: "canonical_operator option"
  sv_feed :: "str option"

section \<open>Places and times\<close>

record geo_position =
  lat :: real
  lon :: real

record canonical_stop_place =
  sp_ref :: str
  sp_source :: str
  sp_name :: "str option"
  sp_uic :: "str option"
  sp_codes :: "(str \<times> str) list"
  sp_parent_ref :: "str option"
  sp_unresolved_token :: "str option"
  sp_position :: "geo_position option"
  sp_country :: "str option"
  sp_station_id :: "str option"
  sp_station_parent_id :: "str option"

record canonical_quay =
  qu_ref :: str
  qu_name :: "str option"
  qu_public_code :: "str option"
  qu_position :: "geo_position option"

datatype location_kind = Stop | Coordinate

record canonical_location =
  loc_kind :: location_kind
  loc_name :: "str option"
  loc_stop_place :: "canonical_stop_place option"
  loc_quay :: "canonical_quay option"
  loc_position :: "geo_position option"

text \<open>Every instant is in UTC: \<open>astimezone(UTC)\<close> keeps the instant.\<close>

record canonical_timing =
  timetabled :: instant
  estimated :: "instant option"
  local_timezone :: "str option"

section \<open>Legs and journeys\<close>

datatype leg_kind = Timed | Transfer | Continuous

record canonical_leg =
  leg_kind :: leg_kind
  leg_origin :: canonical_location
  leg_destination :: canonical_location
  leg_departure :: "canonical_timing option"
  leg_arrival :: "canonical_timing option"
  leg_duration_seconds :: int
  leg_distance_meters :: "real option"
  leg_service :: "canonical_service option"
  leg_continuous_mode :: "str option"
  leg_source_mode :: "str option"

datatype provider = Motis | Otp | Hafas | Ojp
datatype journey_role = Viator | Reference

record journey_source =
  js_provider :: provider
  js_role :: journey_role
  js_session_id :: "str option"
  js_engine :: "str option"
  js_adapter_version :: int
  js_stitched_from_sessions :: "str list"
  js_via_hubs :: "str list"

record canonical_journey =
  j_id :: str
  j_source :: journey_source
  j_legs :: "canonical_leg list"
  j_departure :: "canonical_timing option"
  j_arrival :: "canonical_timing option"
  j_duration_seconds :: int
  j_source_transfer_count :: "int option"

definition is_timed :: "canonical_leg \<Rightarrow> bool" where
  "is_timed leg = (leg_kind leg = Timed)"

section \<open>Validation\<close>

definition is_viator_id :: "str \<Rightarrow> bool" where
  "is_viator_id s = (length s = 8 \<and> list_all is_upper_az (take 2 s) \<and> s ! 2 = CHR ''-''
     \<and> list_all is_decimal (drop 3 s))"

definition opt_all :: "('a \<Rightarrow> bool) \<Rightarrow> 'a option \<Rightarrow> bool" where
  "opt_all P x = (case x of None \<Rightarrow> True | Some v \<Rightarrow> P v)"

definition valid_position :: "geo_position \<Rightarrow> bool" where
  "valid_position p = (-90 \<le> lat p \<and> lat p \<le> 90 \<and> -180 \<le> lon p \<and> lon p \<le> 180)"

definition valid_stop_place :: "canonical_stop_place \<Rightarrow> bool" where
  "valid_stop_place s = (sp_ref s \<noteq> [] \<and> sp_source s \<noteq> []
     \<and> opt_all (\<lambda>u. length u = 7 \<and> list_all is_decimal u) (sp_uic s)
     \<and> opt_all valid_position (sp_position s)
     \<and> opt_all (\<lambda>c. length c = 2 \<and> list_all is_upper_az c) (sp_country s)
     \<and> opt_all is_viator_id (sp_station_id s) \<and> opt_all is_viator_id (sp_station_parent_id s))"

definition valid_location :: "canonical_location \<Rightarrow> bool" where
  "valid_location l = ((loc_kind l = Stop \<longleftrightarrow> loc_stop_place l \<noteq> None)
     \<and> \<not> (loc_quay l \<noteq> None \<and> loc_stop_place l = None)
     \<and> opt_all valid_stop_place (loc_stop_place l) \<and> opt_all valid_position (loc_position l)
     \<and> opt_all (\<lambda>q. qu_ref q \<noteq> [] \<and> opt_all valid_position (qu_position q)) (loc_quay l))"

definition service_on_timed_legs_only :: "canonical_leg \<Rightarrow> bool" where
  "service_on_timed_legs_only leg = (leg_kind leg = Timed \<longleftrightarrow> leg_service leg \<noteq> None)"

definition valid_leg :: "canonical_leg \<Rightarrow> bool" where
  "valid_leg leg = (service_on_timed_legs_only leg \<and> valid_location (leg_origin leg)
     \<and> valid_location (leg_destination leg) \<and> 0 \<le> leg_duration_seconds leg
     \<and> opt_all (\<lambda>d. 0 \<le> d) (leg_distance_meters leg))"

definition valid_journey :: "canonical_journey \<Rightarrow> bool" where
  "valid_journey j = (j_id j \<noteq> [] \<and> 1 \<le> js_adapter_version (j_source j)
     \<and> list_all valid_leg (j_legs j) \<and> 0 \<le> j_duration_seconds j
     \<and> opt_all (\<lambda>n. 0 \<le> n) (j_source_transfer_count j))"

section \<open>Derived values\<close>

definition timed_legs :: "canonical_journey \<Rightarrow> canonical_leg list" where
  "timed_legs j = filter is_timed (j_legs j)"

fun first_timed_departure :: "canonical_leg list \<Rightarrow> canonical_timing option" where
  "first_timed_departure [] = None"
| "first_timed_departure (leg # legs) =
     (if is_timed leg then leg_departure leg else first_timed_departure legs)"

definition first_boarding :: "canonical_journey \<Rightarrow> canonical_timing option" where
  "first_boarding j = first_timed_departure (j_legs j)"

fun first_timed_arrival :: "canonical_leg list \<Rightarrow> canonical_timing option" where
  "first_timed_arrival [] = None"
| "first_timed_arrival (leg # legs) =
     (if is_timed leg then leg_arrival leg else first_timed_arrival legs)"

definition last_alighting :: "canonical_journey \<Rightarrow> canonical_timing option" where
  "last_alighting j = first_timed_arrival (rev (j_legs j))"

definition transit_duration_seconds :: "canonical_journey \<Rightarrow> int option" where
  "transit_duration_seconds j =
     (if \<not> list_ex is_timed (j_legs j) then None
      else (let walking = sum_list (map leg_duration_seconds (filter (\<lambda>l. \<not> is_timed l) (j_legs j)))
            in Some (max 0 (j_duration_seconds j - walking))))"

definition transfer_count :: "canonical_journey \<Rightarrow> int" where
  "transfer_count j = max 0 (int (length (timed_legs j)) - 1)"

definition add_mode :: "transport_mode list \<Rightarrow> canonical_leg \<Rightarrow> transport_mode list" where
  "add_mode seen leg = (case leg_service leg of
       None \<Rightarrow> seen
     | Some s \<Rightarrow> (if sv_mode s \<in> set seen then seen else seen @ [sv_mode s]))"

definition modes :: "canonical_journey \<Rightarrow> transport_mode list" where
  "modes j = foldl add_mode [] (timed_legs j)"

section \<open>Transfers\<close>

text \<open>\<open>int(delta.total_seconds())\<close>: whole seconds, towards zero.\<close>

definition whole_seconds :: "int \<Rightarrow> int" where
  "whole_seconds us = (if us \<ge> 0 then us div 1000000 else - ((- us) div 1000000))"

record canonical_transfer =
  tr_from_leg :: nat
  tr_to_leg :: nat
  tr_alight_at :: "canonical_stop_place option"
  tr_board_at :: "canonical_stop_place option"
  tr_connection_seconds :: "int option"
  tr_walk_seconds :: int
  tr_min_connection_seconds :: "int option"

definition connection_between :: "canonical_leg \<Rightarrow> canonical_leg \<Rightarrow> int option" where
  "connection_between before leg =
     (case (leg_arrival before, leg_departure leg) of
        (Some a, Some d) \<Rightarrow> Some (whole_seconds (timetabled d - timetabled a))
      | _ \<Rightarrow> None)"

definition transfer_between :: "nat \<times> canonical_leg \<Rightarrow> nat \<times> canonical_leg \<Rightarrow> int \<Rightarrow> canonical_transfer" where
  "transfer_between p q walk =
     \<lparr>tr_from_leg = fst p, tr_to_leg = fst q,
      tr_alight_at = loc_stop_place (leg_destination (snd p)),
      tr_board_at = loc_stop_place (leg_origin (snd q)),
      tr_connection_seconds = connection_between (snd p) (snd q),
      tr_walk_seconds = walk, tr_min_connection_seconds = None\<rparr>"

text \<open>The loop of \<open>derive_transfers\<close>: the last timed leg met with its index, and the walk since.\<close>

fun transfers_loop ::
  "(nat \<times> canonical_leg) option \<Rightarrow> int \<Rightarrow> (nat \<times> canonical_leg) list \<Rightarrow> canonical_transfer list" where
  "transfers_loop previous walk [] = []"
| "transfers_loop previous walk ((index, leg) # rest) =
     (if \<not> is_timed leg
      then transfers_loop previous
             (if previous = None then walk else walk + leg_duration_seconds leg) rest
      else (case previous of
              None \<Rightarrow> transfers_loop (Some (index, leg)) 0 rest
            | Some before \<Rightarrow> transfer_between before (index, leg) walk
                             # transfers_loop (Some (index, leg)) 0 rest))"

definition derive_transfers :: "canonical_leg list \<Rightarrow> canonical_transfer list" where
  "derive_transfers legs = transfers_loop None 0 (py_enumerate legs)"

definition transfers :: "canonical_journey \<Rightarrow> canonical_transfer list" where
  "transfers j = derive_transfers (j_legs j)"

definition timed_indices :: "canonical_leg list \<Rightarrow> nat list" where
  "timed_indices legs = map fst (filter (\<lambda>(i, leg). is_timed leg) (py_enumerate legs))"

definition mark_transfers :: "canonical_leg list \<Rightarrow> canonical_leg list" where
  "mark_transfers legs =
     (let timed = timed_indices legs in
      if length timed < 2 then legs
      else map (\<lambda>(index, leg).
                  if \<not> is_timed leg \<and> hd timed < index \<and> index < last timed
                  then leg\<lparr>leg_kind := Transfer\<rparr> else leg)
             (py_enumerate legs))"


section \<open>Lemmas\<close>

lemma opt_all_simps [simp]: "opt_all P None" "opt_all P (Some x) = P x"
  by (simp_all add: opt_all_def)

lemma opt_all_mono: "opt_all P x \<Longrightarrow> (\<And>v. P v \<Longrightarrow> Q v) \<Longrightarrow> opt_all Q x"
  by (cases x) auto

lemma valid_leg_timed: "valid_leg leg \<Longrightarrow> is_timed leg \<longleftrightarrow> leg_service leg \<noteq> None"
  by (simp add: valid_leg_def service_on_timed_legs_only_def is_timed_def)

lemma valid_journey_legs: "valid_journey j \<Longrightarrow> leg \<in> set (j_legs j) \<Longrightarrow> valid_leg leg"
  by (simp add: valid_journey_def list_all_iff)

lemma first_timed_departure_filter:
  "first_timed_departure legs =
     (case filter is_timed legs of [] \<Rightarrow> None | leg # _ \<Rightarrow> leg_departure leg)"
  by (induction legs) auto

lemma first_timed_arrival_filter:
  "first_timed_arrival legs =
     (case filter is_timed legs of [] \<Rightarrow> None | leg # _ \<Rightarrow> leg_arrival leg)"
  by (induction legs) auto

lemma first_boarding_timed:
  "first_boarding j = (if timed_legs j = [] then None else leg_departure (hd (timed_legs j)))"
  by (simp add: first_boarding_def first_timed_departure_filter timed_legs_def split: list.splits)

lemma last_alighting_timed:
  "last_alighting j = (if timed_legs j = [] then None else leg_arrival (last (timed_legs j)))"
proof -
  have "filter is_timed (rev (j_legs j)) = rev (timed_legs j)"
    by (simp add: timed_legs_def rev_filter)
  then show ?thesis
    unfolding last_alighting_def first_timed_arrival_filter
    by (auto simp: last_rev hd_rev [symmetric] split: list.splits)
qed

subsection \<open>Derived transfers\<close>

definition walk_between :: "canonical_leg list \<Rightarrow> nat \<Rightarrow> nat \<Rightarrow> int" where
  "walk_between legs i k = sum_list (map leg_duration_seconds (take (k - Suc i) (drop (Suc i) legs)))"

definition transfer_at :: "canonical_leg list \<Rightarrow> nat \<times> nat \<Rightarrow> canonical_transfer" where
  "transfer_at legs p =
     transfer_between (fst p, legs ! fst p) (snd p, legs ! snd p) (walk_between legs (fst p) (snd p))"

lemma walk_between_Suc_self [simp]: "walk_between legs i (Suc i) = 0"
  by (simp add: walk_between_def)

lemma walk_between_Suc:
  assumes "i < k" "k < length legs"
  shows "walk_between legs i (Suc k) = walk_between legs i k + leg_duration_seconds (legs ! k)"
proof -
  have "take (Suc k - Suc i) (drop (Suc i) legs) = take (k - Suc i) (drop (Suc i) legs) @ [legs ! k]"
    using assms take_Suc_conv_app_nth [of "k - Suc i" "drop (Suc i) legs"]
    by (simp add: Suc_diff_le Suc_leI flip: Suc_diff_Suc)
  then show ?thesis by (simp add: walk_between_def)
qed

lemma enumerate_split_nth:
  assumes "py_enumerate legs = pre @ (n, leg) # ps"
  shows "n = length pre \<and> leg = legs ! n \<and> n < length legs"
proof -
  have len: "length pre < length legs" using arg_cong [OF assms, of length] by simp
  then have "py_enumerate legs ! length pre = (length pre, legs ! length pre)" by simp
  with assms len show ?thesis by (simp add: nth_append)
qed

lemma transfers_loop_some:
  assumes "py_enumerate legs = pre @ ps" "i < length pre"
    and "walk = walk_between legs i (length pre)"
  shows "transfers_loop (Some (i, legs ! i)) walk ps =
     (let idx = map fst (filter (\<lambda>(k, leg). is_timed leg) ps)
      in map (transfer_at legs) (zip (i # idx) idx))"
  using assms
proof (induction ps arbitrary: pre i walk)
  case Nil
  then show ?case by simp
next
  case (Cons p ps)
  obtain n leg where p: "p = (n, leg)" by (cases p)
  from Cons.prems(1) have n: "n = length pre" "leg = legs ! n" "n < length legs"
    using enumerate_split_nth [of legs pre n leg ps] by (auto simp: p)
  have split: "py_enumerate legs = (pre @ [p]) @ ps" using Cons.prems(1) by simp
  show ?case
  proof (cases "is_timed leg")
    case False
    have "walk + leg_duration_seconds leg = walk_between legs i (length (pre @ [p]))"
      using Cons.prems n walk_between_Suc [of i n legs] by simp
    from Cons.IH [OF split _ this] Cons.prems(2) False show ?thesis by (simp add: p)
  next
    case True
    have "transfers_loop (Some (n, legs ! n)) 0 ps =
       (let idx = map fst (filter (\<lambda>(k, leg). is_timed leg) ps)
        in map (transfer_at legs) (zip (n # idx) idx))"
      by (rule Cons.IH [OF split]) (simp_all add: n)
    then show ?thesis
      using True Cons.prems(3) n by (simp add: p Let_def transfer_at_def)
  qed
qed

lemma transfers_loop_none:
  assumes "py_enumerate legs = pre @ ps"
  shows "transfers_loop None 0 ps =
     (let idx = map fst (filter (\<lambda>(k, leg). is_timed leg) ps)
      in map (transfer_at legs) (zip idx (tl idx)))"
  using assms
proof (induction ps arbitrary: pre)
  case Nil
  then show ?case by simp
next
  case (Cons p ps)
  obtain n leg where p: "p = (n, leg)" by (cases p)
  from Cons.prems(1) have n: "n = length pre" "leg = legs ! n"
    using enumerate_split_nth [of legs pre n leg ps] by (auto simp: p)
  have split: "py_enumerate legs = (pre @ [p]) @ ps" using Cons.prems(1) by simp
  show ?case
  proof (cases "is_timed leg")
    case False
    with Cons.IH [OF split] show ?thesis by (simp add: p)
  next
    case True
    with transfers_loop_some [OF split, of n 0] n show ?thesis by (simp add: p Let_def)
  qed
qed

lemma derive_transfers_timed_pairs:
  "derive_transfers legs =
     map (transfer_at legs) (zip (timed_indices legs) (tl (timed_indices legs)))"
  using transfers_loop_none [of legs "[]" "py_enumerate legs"]
  by (simp add: derive_transfers_def timed_indices_def Let_def)

lemma length_timed_indices: "length (timed_indices legs) = length (filter is_timed legs)"
proof -
  have "filter is_timed (map snd (py_enumerate legs)) =
        map snd (filter (\<lambda>(i, leg). is_timed leg) (py_enumerate legs))"
    by (simp only: filter_map comp_def case_prod_unfold)
  then show ?thesis by (simp add: timed_indices_def)
qed

lemma set_timed_indices: "set (timed_indices legs) = {i. i < length legs \<and> is_timed (legs ! i)}"
  by (auto simp: timed_indices_def image_iff)

lemma sorted_timed_indices: "sorted_wrt (<) (timed_indices legs)"
proof -
  have "sorted_wrt (<) (map fst (py_enumerate legs))" by simp
  then have "sorted_wrt (\<lambda>p q. fst p < fst q) (py_enumerate legs)" by (unfold sorted_wrt_map)
  then have "sorted_wrt (\<lambda>p q. fst p < fst q) (filter (\<lambda>(i, leg). is_timed leg) (py_enumerate legs))"
    by (rule sorted_wrt_filter)
  then show ?thesis by (simp add: timed_indices_def sorted_wrt_map)
qed

lemma length_derive_transfers: "length (derive_transfers legs) = length (filter is_timed legs) - 1"
  by (simp add: derive_transfers_timed_pairs length_timed_indices)

subsection \<open>Marking transfers\<close>

lemma length_mark_transfers [simp]: "length (mark_transfers legs) = length legs"
  by (simp add: mark_transfers_def Let_def)

definition between_rides :: "canonical_leg list \<Rightarrow> nat \<Rightarrow> bool" where
  "between_rides legs i = (\<not> is_timed (legs ! i) \<and>
     (\<exists>a < i. is_timed (legs ! a)) \<and> (\<exists>b. i < b \<and> b < length legs \<and> is_timed (legs ! b)))"

lemma sorted_hd_last:
  assumes "sorted_wrt (<) (xs :: nat list)" "x \<in> set xs"
  shows "hd xs \<le> x" "x \<le> last xs"
proof -
  show "hd xs \<le> x" using assms by (cases xs) (auto simp: less_imp_le)
  show "x \<le> last xs"
    using assms by (cases xs rule: rev_cases) (auto simp: sorted_wrt_append less_imp_le)
qed

lemma timed_between_iff:
  assumes "i < length legs" "\<not> is_timed (legs ! i)"
  shows "between_rides legs i \<longleftrightarrow>
    2 \<le> length (timed_indices legs) \<and> hd (timed_indices legs) < i \<and> i < last (timed_indices legs)"
proof
  assume "between_rides legs i"
  then obtain a b where ab: "a < i" "is_timed (legs ! a)" "i < b" "b < length legs" "is_timed (legs ! b)"
    unfolding between_rides_def by blast
  then have mem: "a \<in> set (timed_indices legs)" "b \<in> set (timed_indices legs)"
    using assms by (auto simp: set_timed_indices)
  have "card {a, b} \<le> card (set (timed_indices legs))" using mem by (intro card_mono) auto
  then have "2 \<le> length (timed_indices legs)" using ab card_length [of "timed_indices legs"] by simp
  moreover note sorted_hd_last [OF sorted_timed_indices mem(1)] sorted_hd_last [OF sorted_timed_indices mem(2)]
  ultimately show "2 \<le> length (timed_indices legs) \<and> hd (timed_indices legs) < i \<and> i < last (timed_indices legs)"
    using ab by linarith
next
  assume h: "2 \<le> length (timed_indices legs) \<and> hd (timed_indices legs) < i \<and> i < last (timed_indices legs)"
  then have "timed_indices legs \<noteq> []" by auto
  then have "hd (timed_indices legs) \<in> set (timed_indices legs)" "last (timed_indices legs) \<in> set (timed_indices legs)"
    by auto
  with h assms show "between_rides legs i"
    unfolding between_rides_def set_timed_indices by blast
qed

lemma mark_transfers_nth:
  assumes "i < length legs"
  shows "mark_transfers legs ! i =
    (if between_rides legs i then (legs ! i)\<lparr>leg_kind := Transfer\<rparr> else legs ! i)"
proof (cases "is_timed (legs ! i)")
  case True
  with assms show ?thesis by (simp add: mark_transfers_def Let_def between_rides_def)
next
  case False
  with assms timed_between_iff [OF assms False] show ?thesis
    by (simp add: mark_transfers_def Let_def)
qed

lemma mark_transfers_timed [simp]:
  "i < length legs \<Longrightarrow> is_timed (mark_transfers legs ! i) = is_timed (legs ! i)"
  by (auto simp: mark_transfers_nth is_timed_def between_rides_def)

lemma between_rides_mark_transfers [simp]:
  "i < length legs \<Longrightarrow> between_rides (mark_transfers legs) i = between_rides legs i"
  unfolding between_rides_def
  by (metis (no_types, opaque_lifting) length_mark_transfers less_trans mark_transfers_timed)

lemma mark_transfers_idem: "mark_transfers (mark_transfers legs) = mark_transfers legs"
  by (rule nth_equalityI) (simp_all add: mark_transfers_nth)

lemma mark_transfers_rides: "filter is_timed (mark_transfers legs) = filter is_timed legs"
proof -
  have *: "filter is_timed xs = filter is_timed ys"
    if "length xs = length ys" "\<forall>i < length xs. xs ! i = ys ! i \<or> (\<not> is_timed (xs ! i) \<and> \<not> is_timed (ys ! i))"
    for xs ys :: "canonical_leg list"
    using that
  proof (induction xs ys rule: list_induct2)
    case (Cons x xs y ys)
    then show ?case by (auto simp: All_less_Suc2)
  qed simp
  show ?thesis
    by (rule *) (auto simp: mark_transfers_nth between_rides_def is_timed_def)
qed

lemma mark_transfers_valid: "list_all valid_leg legs \<Longrightarrow> list_all valid_leg (mark_transfers legs)"
  by (auto simp: list_all_length mark_transfers_nth between_rides_def valid_leg_def
      service_on_timed_legs_only_def is_timed_def)

subsection \<open>Durations and modes\<close>

lemma transit_duration_bounds:
  assumes "valid_journey j" "transit_duration_seconds j = Some d"
  shows "0 \<le> d \<and> d \<le> j_duration_seconds j"
proof -
  have "0 \<le> sum_list (map leg_duration_seconds (filter (\<lambda>l. \<not> is_timed l) (j_legs j)))"
    using assms(1) by (intro sum_list_nonneg) (auto simp: valid_journey_def list_all_iff valid_leg_def)
  with assms show ?thesis
    by (auto simp: transit_duration_seconds_def valid_journey_def Let_def split: if_splits)
qed

lemma foldl_add_mode:
  "distinct seen \<Longrightarrow> distinct (foldl add_mode seen legs) \<and>
     set (foldl add_mode seen legs) = set seen \<union> {sv_mode s | s leg. leg \<in> set legs \<and> leg_service leg = Some s}"
proof (induction legs arbitrary: seen)
  case (Cons leg legs)
  have d: "distinct (add_mode seen leg)" using Cons.prems by (auto simp: add_mode_def split: option.splits)
  have s: "set (add_mode seen leg) = set seen \<union> {sv_mode s | s. leg_service leg = Some s}"
    by (auto simp: add_mode_def split: option.splits)
  show ?case using Cons.IH [OF d] s by auto
qed simp

lemma modes_distinct: "distinct (modes j)"
  by (simp add: modes_def foldl_add_mode)

end
