(* ===== verification/Lcs_Alignment.thy ===== *)
theory Lcs_Alignment
  imports Viator_Prelude "HOL-Library.Sublist"
begin

text \<open>
  The two longest-common-subsequence routines of the journey code: \<open>aligned\<close> of
  \<open>app/journey/matching/spines.py\<close> (any \<open>match\<close>, three moves weighed) and the loop of
  \<open>_aligned_pairs\<close> of \<open>app/journey/canonical/journey_fingerprint.py\<close> (a match is always taken).
  Both fill a table of \<open>rows + 1\<close> rows of \<open>cols + 1\<close> numbers from the last row up, then walk it
  from the first cell with two indices.

  The contract they implement is the locale \<open>aligner\<close>: the pairs are a common subsequence under
  the match, and no common subsequence is longer. The lemmas show that the table holds the length
  of a longest common subsequence of every two suffixes, that both walks return one, and that the
  two routines return the same pairs for every match.
\<close>

section \<open>The routines\<close>

text \<open>
  One row of the table from the row below it. \<open>cell matched down right diagonal\<close> is the value
  of a cell from its match and its three neighbours.
\<close>

fun dp_row :: "(bool \<Rightarrow> nat \<Rightarrow> nat \<Rightarrow> nat \<Rightarrow> nat) \<Rightarrow> ('a \<Rightarrow> 'b \<Rightarrow> bool) \<Rightarrow> 'a \<Rightarrow> 'b list \<Rightarrow> nat list \<Rightarrow> nat list" where
  "dp_row cell m x [] below = [0]"
| "dp_row cell m x (y # ys) below =
     (let right = dp_row cell m x ys (tl below)
      in cell (m x y) (hd below) (hd right) (hd (tl below)) # right)"

fun dp_table :: "(bool \<Rightarrow> nat \<Rightarrow> nat \<Rightarrow> nat \<Rightarrow> nat) \<Rightarrow> ('a \<Rightarrow> 'b \<Rightarrow> bool) \<Rightarrow> 'a list \<Rightarrow> 'b list \<Rightarrow> nat list list" where
  "dp_table cell m [] ys = [replicate (length ys + 1) 0]"
| "dp_table cell m (x # xs) ys =
     (let table = dp_table cell m xs ys in dp_row cell m x ys (hd table) # table)"

definition weighed_cell :: "bool \<Rightarrow> nat \<Rightarrow> nat \<Rightarrow> nat \<Rightarrow> nat" where
  "weighed_cell matched down right diagonal =
     (let best = max down right in if matched then max best (diagonal + 1) else best)"

definition greedy_cell :: "bool \<Rightarrow> nat \<Rightarrow> nat \<Rightarrow> nat \<Rightarrow> nat" where
  "greedy_cell matched down right diagonal = (if matched then diagonal + 1 else max down right)"

function aligned_from ::
  "nat list list \<Rightarrow> ('a \<Rightarrow> 'b \<Rightarrow> bool) \<Rightarrow> 'a list \<Rightarrow> 'b list \<Rightarrow> nat \<Rightarrow> nat \<Rightarrow> ('a \<times> 'b) list" where
  "aligned_from table m left right i j =
     (if i < length left \<and> j < length right then
        (if m (left ! i) (right ! j) \<and> table ! i ! j = table ! (i + 1) ! (j + 1) + 1
         then (left ! i, right ! j) # aligned_from table m left right (i + 1) (j + 1)
         else if table ! (i + 1) ! j \<ge> table ! i ! (j + 1)
         then aligned_from table m left right (i + 1) j
         else aligned_from table m left right i (j + 1))
      else [])"
  by pat_completeness auto
termination
  by (relation "measure (\<lambda>(_, _, left, right, i, j). (length left - i) + (length right - j))") auto

function greedy_from ::
  "nat list list \<Rightarrow> ('a \<Rightarrow> 'b \<Rightarrow> bool) \<Rightarrow> 'a list \<Rightarrow> 'b list \<Rightarrow> nat \<Rightarrow> nat \<Rightarrow> ('a \<times> 'b) list" where
  "greedy_from table m left right i j =
     (if i < length left \<and> j < length right then
        (if m (left ! i) (right ! j)
         then (left ! i, right ! j) # greedy_from table m left right (i + 1) (j + 1)
         else if table ! (i + 1) ! j \<ge> table ! i ! (j + 1)
         then greedy_from table m left right (i + 1) j
         else greedy_from table m left right i (j + 1))
      else [])"
  by pat_completeness auto
termination
  by (relation "measure (\<lambda>(_, _, left, right, i, j). (length left - i) + (length right - j))") auto

declare aligned_from.simps [simp del] greedy_from.simps [simp del]

definition aligned :: "'a list \<Rightarrow> 'b list \<Rightarrow> ('a \<Rightarrow> 'b \<Rightarrow> bool) \<Rightarrow> ('a \<times> 'b) list" where
  "aligned left right m = aligned_from (dp_table weighed_cell m left right) m left right 0 0"

definition greedy_pairs :: "('a \<Rightarrow> 'b \<Rightarrow> bool) \<Rightarrow> 'a list \<Rightarrow> 'b list \<Rightarrow> ('a \<times> 'b) list" where
  "greedy_pairs m left right = greedy_from (dp_table greedy_cell m left right) m left right 0 0"

section \<open>The contract\<close>

definition common_subseq :: "('a \<Rightarrow> 'b \<Rightarrow> bool) \<Rightarrow> 'a list \<Rightarrow> 'b list \<Rightarrow> ('a \<times> 'b) list \<Rightarrow> bool" where
  "common_subseq m xs ys ps =
     (subseq (map fst ps) xs \<and> subseq (map snd ps) ys \<and> (\<forall>(a, b) \<in> set ps. m a b))"

locale aligner =
  fixes match :: "'a \<Rightarrow> 'b \<Rightarrow> bool" and align :: "'a list \<Rightarrow> 'b list \<Rightarrow> ('a \<times> 'b) list"
  assumes sound: "common_subseq match xs ys (align xs ys)"
    and longest: "common_subseq match xs ys ps \<Longrightarrow> length ps \<le> length (align xs ys)"
begin

lemma length_le_left: "length (align xs ys) \<le> length xs"
  using sound [of xs ys] by (auto simp: common_subseq_def dest: list_emb_length)

lemma length_le_right: "length (align xs ys) \<le> length ys"
  using sound [of xs ys] by (auto simp: common_subseq_def dest: list_emb_length)

lemma length_le_max: "length (align xs ys) \<le> max (length xs) (length ys)"
  using length_le_left [of xs ys] by simp

lemma pair_matches: "(a, b) \<in> set (align xs ys) \<Longrightarrow> match a b"
  using sound [of xs ys] by (auto simp: common_subseq_def)

lemma subseq_left: "subseq (map fst (align xs ys)) xs"
  using sound [of xs ys] by (simp add: common_subseq_def)

lemma subseq_right: "subseq (map snd (align xs ys)) ys"
  using sound [of xs ys] by (simp add: common_subseq_def)

lemma pair_left: "(a, b) \<in> set (align xs ys) \<Longrightarrow> a \<in> set xs"
  using subseq_left [of xs ys] by (force elim: list_emb_set)

lemma pair_right: "(a, b) \<in> set (align xs ys) \<Longrightarrow> b \<in> set ys"
  using subseq_right [of xs ys] by (force elim: list_emb_set)

text \<open>Two lists that match element by element are aligned in full.\<close>

lemma align_all: "list_all2 match xs ys \<Longrightarrow> length (align xs ys) = length xs"
proof -
  assume r: "list_all2 match xs ys"
  then have "common_subseq match xs ys (zip xs ys)"
    by (auto simp: common_subseq_def list_all2_iff map_fst_zip_take map_snd_zip_take)
  from longest [OF this] length_le_left [of xs ys] r show ?thesis
    by (simp add: list_all2_lengthD)
qed

lemma no_pair_iff: "align xs ys = [] \<longleftrightarrow> (\<forall>x \<in> set xs. \<forall>y \<in> set ys. \<not> match x y)"
proof
  assume e: "align xs ys = []"
  show "\<forall>x \<in> set xs. \<forall>y \<in> set ys. \<not> match x y"
  proof (intro ballI notI)
    fix x y assume "x \<in> set xs" "y \<in> set ys" "match x y"
    then have "common_subseq match xs ys [(x, y)]"
      by (simp add: common_subseq_def subseq_singleton_left)
    from longest [OF this] e show False by simp
  qed
next
  assume "\<forall>x \<in> set xs. \<forall>y \<in> set ys. \<not> match x y"
  then show "align xs ys = []"
    using pair_matches pair_left pair_right by (cases "align xs ys") (auto, metis list.set_intros(1))
qed

end

section \<open>The length of a longest common subsequence\<close>

fun lcs_len :: "('a \<Rightarrow> 'b \<Rightarrow> bool) \<Rightarrow> 'a list \<Rightarrow> 'b list \<Rightarrow> nat" where
  "lcs_len m [] ys = 0"
| "lcs_len m (x # xs) [] = 0"
| "lcs_len m (x # xs) (y # ys) =
     (let best = max (lcs_len m xs (y # ys)) (lcs_len m (x # xs) ys)
      in if m x y then max best (lcs_len m xs ys + 1) else best)"

lemma lcs_len_Nil_right [simp]: "lcs_len m xs [] = 0"
  by (cases xs) simp_all

lemma common_subseq_Nil [simp]: "common_subseq m xs ys []"
  by (simp add: common_subseq_def)

lemma common_subseq_le_lcs_len: "common_subseq m xs ys ps \<Longrightarrow> length ps \<le> lcs_len m xs ys"
proof (induction m xs ys arbitrary: ps rule: lcs_len.induct)
  case (3 m x xs y ys)
  show ?case
  proof (cases ps)
    case (Cons p qs)
    obtain a b where p: "p = (a, b)" by (cases p)
    consider "common_subseq m xs (y # ys) ps" | "common_subseq m (x # xs) ys ps"
      | "a = x" "b = y" "common_subseq m xs ys qs"
      using "3.prems" by (auto simp: common_subseq_def Cons p split: if_splits)
    then show ?thesis
    proof cases
      case 1
      with "3.IH"(1) show ?thesis by (fastforce simp: Let_def)
    next
      case 2
      with "3.IH"(2) show ?thesis by (fastforce simp: Let_def)
    next
      case 3
      moreover from 3 "3.prems" have "m x y" by (auto simp: common_subseq_def Cons p)
      ultimately show ?thesis using "3.IH"(3) [of _ qs] by (simp add: Cons Let_def)
    qed
  qed simp
qed (auto simp: common_subseq_def dest: list_emb_length)

text \<open>
  Dropping one element shortens a longest common subsequence by one at most; so, whatever the
  match is, taking a matching pair of heads is always best.
\<close>

lemma lcs_len_Cons_left: "lcs_len m (x # xs) ys \<le> lcs_len m xs ys + 1"
proof (induction ys)
  case (Cons y ys)
  have "lcs_len m xs ys \<le> lcs_len m xs (y # ys)" by (cases xs) (auto simp: Let_def le_max_iff_disj)
  with Cons show ?case by (auto simp: Let_def)
qed simp

lemma lcs_len_Cons_right: "lcs_len m xs (y # ys) \<le> lcs_len m xs ys + 1"
proof (induction xs)
  case (Cons x xs)
  have "lcs_len m xs ys \<le> lcs_len m (x # xs) ys" by (cases ys) (auto simp: Let_def le_max_iff_disj)
  with Cons show ?case by (auto simp: Let_def)
qed simp

lemma lcs_len_match: "m x y \<Longrightarrow> lcs_len m (x # xs) (y # ys) = lcs_len m xs ys + 1"
  using lcs_len_Cons_left [of m x xs ys] lcs_len_Cons_right [of m xs y ys]
  by (auto simp: Let_def)

lemma lcs_len_no_match:
  "\<not> m x y \<Longrightarrow> lcs_len m (x # xs) (y # ys) = max (lcs_len m xs (y # ys)) (lcs_len m (x # xs) ys)"
  by (simp add: Let_def)

text \<open>A cell is right when it computes the length from the three neighbouring lengths.\<close>

definition cell_ok :: "(bool \<Rightarrow> nat \<Rightarrow> nat \<Rightarrow> nat \<Rightarrow> nat) \<Rightarrow> bool" where
  "cell_ok cell = (\<forall>d r g. cell False d r g = max d r \<and>
     (d \<le> g + 1 \<and> r \<le> g + 1 \<longrightarrow> cell True d r g = g + 1))"

lemma cell_ok_weighed: "cell_ok weighed_cell"
  by (auto simp: cell_ok_def weighed_cell_def Let_def)

lemma cell_ok_greedy: "cell_ok greedy_cell"
  by (auto simp: cell_ok_def greedy_cell_def)

lemma cell_lcs:
  assumes "cell_ok cell"
  shows "cell (m x y) (lcs_len m xs (y # ys)) (lcs_len m (x # xs) ys) (lcs_len m xs ys)
         = lcs_len m (x # xs) (y # ys)"
  using assms lcs_len_Cons_left [of m x xs ys] lcs_len_Cons_right [of m xs y ys]
    lcs_len_match [of m x y xs ys] lcs_len_no_match [of m x y xs ys]
  by (cases "m x y") (simp_all add: cell_ok_def del: lcs_len.simps)

definition suffix_lengths :: "('a \<Rightarrow> 'b \<Rightarrow> bool) \<Rightarrow> 'a list \<Rightarrow> 'b list \<Rightarrow> nat list" where
  "suffix_lengths m xs ys = map (\<lambda>j. lcs_len m xs (drop j ys)) [0..<length ys + 1]"

lemma suffix_lengths_Nil [simp]: "suffix_lengths m xs [] = [0]"
  by (simp add: suffix_lengths_def)

lemma suffix_lengths_Cons [simp]:
  "suffix_lengths m xs (y # ys) = lcs_len m xs (y # ys) # suffix_lengths m xs ys"
  unfolding suffix_lengths_def by (simp del: upt_Suc add: upt_conv_Cons map_Suc_upt [symmetric])

lemma hd_suffix_lengths [simp]: "hd (suffix_lengths m xs ys) = lcs_len m xs ys"
  by (cases ys) simp_all

lemma dp_row_lcs:
  assumes "cell_ok cell"
  shows "dp_row cell m x ys (suffix_lengths m xs ys) = suffix_lengths m (x # xs) ys"
  by (induction ys) (simp_all add: Let_def cell_lcs [OF assms] del: lcs_len.simps)

lemma dp_table_lcs:
  assumes "cell_ok cell"
  shows "dp_table cell m xs ys = map (\<lambda>i. suffix_lengths m (drop i xs) ys) [0..<length xs + 1]"
proof (induction xs)
  case Nil
  have "suffix_lengths m [] ys = replicate (length ys + 1) 0"
    by (induction ys) simp_all
  then show ?case by simp
next
  case (Cons x xs)
  have "hd (dp_table cell m xs ys) = suffix_lengths m xs ys"
    by (simp add: Cons.IH upt_conv_Cons del: upt_Suc)
  moreover have "[0..<length (x # xs) + 1] = 0 # map Suc [0..<length xs + 1]"
    by (simp add: upt_conv_Cons map_Suc_upt del: upt_Suc)
  ultimately show ?case
    by (simp add: Let_def Cons.IH dp_row_lcs [OF assms] comp_def del: upt_Suc)
qed

lemma dp_table_nth:
  assumes "cell_ok cell" "i \<le> length xs" "j \<le> length ys"
  shows "dp_table cell m xs ys ! i ! j = lcs_len m (drop i xs) (drop j ys)"
  using assms by (simp add: dp_table_lcs suffix_lengths_def del: upt_Suc)

section \<open>Both walks take a longest common subsequence\<close>

text \<open>The walk over suffixes: what both index loops compute.\<close>

fun walk :: "('a \<Rightarrow> 'b \<Rightarrow> bool) \<Rightarrow> 'a list \<Rightarrow> 'b list \<Rightarrow> ('a \<times> 'b) list" where
  "walk m [] ys = []"
| "walk m (x # xs) [] = []"
| "walk m (x # xs) (y # ys) =
     (if m x y then (x, y) # walk m xs ys
      else if lcs_len m xs (y # ys) \<ge> lcs_len m (x # xs) ys then walk m xs (y # ys)
      else walk m (x # xs) ys)"

lemma walk_Nil_right [simp]: "walk m xs [] = []"
  by (cases xs) simp_all

lemma length_walk: "length (walk m xs ys) = lcs_len m xs ys"
  by (induction m xs ys rule: walk.induct)
    (auto simp: lcs_len_match lcs_len_no_match max_def simp del: lcs_len.simps(3))

lemma common_subseq_walk: "common_subseq m xs ys (walk m xs ys)"
  by (induction m xs ys rule: walk.induct)
    (auto simp: common_subseq_def simp del: lcs_len.simps(3))

lemma aligned_from_walk:
  "aligned_from (dp_table weighed_cell m xs ys) m xs ys i j = walk m (drop i xs) (drop j ys)"
proof (induction "dp_table weighed_cell m xs ys" m xs ys i j rule: aligned_from.induct)
  case (1 m xs ys i j)
  note nth = dp_table_nth [OF cell_ok_weighed, of _ xs _ ys m]
  show ?case
  proof (cases "i < length xs \<and> j < length ys")
    case True
    then have d: "drop i xs = xs ! i # drop (Suc i) xs" "drop j ys = ys ! j # drop (Suc j) ys"
      by (simp_all add: Cons_nth_drop_Suc)
    with True 1 show ?thesis
      by (subst aligned_from.simps) (auto simp: nth d lcs_len_match simp del: lcs_len.simps(3))
  next
    case False
    then show ?thesis by (subst aligned_from.simps) auto
  qed
qed

lemma greedy_from_walk:
  "greedy_from (dp_table greedy_cell m xs ys) m xs ys i j = walk m (drop i xs) (drop j ys)"
proof (induction "dp_table greedy_cell m xs ys" m xs ys i j rule: greedy_from.induct)
  case (1 m xs ys i j)
  note nth = dp_table_nth [OF cell_ok_greedy, of _ xs _ ys m]
  show ?case
  proof (cases "i < length xs \<and> j < length ys")
    case True
    then have d: "drop i xs = xs ! i # drop (Suc i) xs" "drop j ys = ys ! j # drop (Suc j) ys"
      by (simp_all add: Cons_nth_drop_Suc)
    with True 1 show ?thesis
      by (subst greedy_from.simps) (auto simp: nth d simp del: lcs_len.simps(3))
  next
    case False
    then show ?thesis by (subst greedy_from.simps) auto
  qed
qed

lemma aligned_walk: "aligned left right m = walk m left right"
  by (simp add: aligned_def aligned_from_walk)

lemma greedy_pairs_walk: "greedy_pairs m left right = walk m left right"
  by (simp add: greedy_pairs_def greedy_from_walk)

lemma aligner_walk: "aligner m (walk m)"
  by unfold_locales (simp_all add: common_subseq_walk length_walk common_subseq_le_lcs_len)

interpretation weighed: aligner m "\<lambda>left right. aligned left right m" for m
  unfolding aligned_walk by (rule aligner_walk)

interpretation greedy: aligner m "greedy_pairs m" for m
  using aligner_walk [of m] by (simp add: greedy_pairs_walk [abs_def])

end
