(* ===== verification/Fingerprint.thy ===== *)
theory Fingerprint
  imports Canonical Lcs_Alignment
begin

text \<open>
  \<open>JourneyFingerprint\<close> of \<open>app/journey/canonical/journey_fingerprint.py\<close>: the spine of a journey
  (its timed legs as mode, station keys and minutes), its two keys, the tolerant equivalence and
  the similarity in [0, 1]. SHA-256 is the runtime's \<open>rt_digest\<close>.
\<close>

section \<open>Definitions\<close>

definition NO_STATION :: str where "NO_STATION = ''NONE''"

definition location_or_stop_position :: "canonical_location \<Rightarrow> geo_position option" where
  "location_or_stop_position l = (case loc_position l of
       Some p \<Rightarrow> Some p
     | None \<Rightarrow> (case loc_stop_place l of None \<Rightarrow> None | Some s \<Rightarrow> sp_position s))"

definition geo_key :: "geo_position \<Rightarrow> str" where
  "geo_key p = ''GEO:'' @ fixed_text 3 (lat p) @ '','' @ fixed_text 3 (lon p)"

definition station_key :: "canonical_location \<Rightarrow> str" where
  "station_key l =
     (case loc_stop_place l of
        None \<Rightarrow> (case location_or_stop_position l of Some p \<Rightarrow> geo_key p | None \<Rightarrow> NO_STATION)
      | Some s \<Rightarrow>
          (if truthy (sp_uic s) then ''UIC:'' @ or_empty (sp_uic s)
           else if truthy (sp_unresolved_token s)
           then ''UNRESOLVED:'' @ sp_source s @ '':'' @ or_empty (sp_unresolved_token s)
           else (case location_or_stop_position l of
                   Some p \<Rightarrow> geo_key p
                 | None \<Rightarrow> ''UNRESOLVED:'' @ sp_source s @ '':'' @ sp_ref s)))"

record spine_leg =
  sl_mode :: transport_mode
  sl_board :: str
  sl_alight :: str
  sl_board_minute :: "int option"
  sl_alight_minute :: "int option"

definition keys_agree :: "str \<Rightarrow> str \<Rightarrow> bool" where
  "keys_agree a b = (a = b \<and> a \<noteq> NO_STATION)"

definition same_place :: "spine_leg \<Rightarrow> spine_leg \<Rightarrow> bool" where
  "same_place a b = (sl_mode a = sl_mode b \<and> keys_agree (sl_board a) (sl_board b)
     \<and> keys_agree (sl_alight a) (sl_alight b))"

text \<open>\<open>int(timestamp // 60)\<close> of an instant in microseconds.\<close>

definition minute_of :: "instant \<Rightarrow> int" where
  "minute_of t = t div 60000000"

type_synonym journey_fingerprint = "spine_leg list"

definition minute_text :: "int option \<Rightarrow> str" where
  "minute_text m = (case m of None \<Rightarrow> ''None'' | Some k \<Rightarrow> show_int k)"

definition spine_key :: "runtime \<Rightarrow> journey_fingerprint \<Rightarrow> str" where
  "spine_key rt spine =
     (if spine = [] then []
      else rt_digest rt (py_join ''|''
        (map (\<lambda>l. mode_text (sl_mode l) @ '':'' @ sl_board l @ ''-'' @ sl_alight l) spine)))"

definition strict_key :: "runtime \<Rightarrow> journey_fingerprint \<Rightarrow> str" where
  "strict_key rt spine =
     (if spine = [] then []
      else rt_digest rt (spine_key rt spine @ ''|'' @ py_join ''|''
        (map (\<lambda>l. minute_text (sl_board_minute l) @ ''-'' @ minute_text (sl_alight_minute l)) spine)))"

definition delta_seconds :: "int option \<Rightarrow> int option \<Rightarrow> int option" where
  "delta_seconds a b = (case (a, b) of (Some x, Some y) \<Rightarrow> Some (\<bar>x - y\<bar> * 60) | _ \<Rightarrow> None)"

definition within_minutes :: "spine_leg \<Rightarrow> spine_leg \<Rightarrow> int \<Rightarrow> bool" where
  "within_minutes a b tolerance =
     (case (delta_seconds (sl_board_minute a) (sl_board_minute b),
            delta_seconds (sl_alight_minute a) (sl_alight_minute b)) of
        (Some board, Some alight) \<Rightarrow> board \<le> tolerance \<and> alight \<le> tolerance
      | _ \<Rightarrow> False)"

definition time_agreement :: "spine_leg \<Rightarrow> spine_leg \<Rightarrow> int \<Rightarrow> real" where
  "time_agreement a b tolerance =
     (case (delta_seconds (sl_board_minute a) (sl_board_minute b),
            delta_seconds (sl_alight_minute a) (sl_alight_minute b)) of
        (Some board, Some alight) \<Rightarrow>
          (if tolerance \<le> 0 then (if board = 0 \<and> alight = 0 then 1 else 0)
           else max 0 (1 - real_of_int (board + alight) / real_of_int (2 * tolerance)))
      | _ \<Rightarrow> 0)"

definition aligned_pairs :: "journey_fingerprint \<Rightarrow> journey_fingerprint \<Rightarrow> (spine_leg \<times> spine_leg) list" where
  "aligned_pairs left right = greedy_pairs same_place left right"

definition equivalent :: "journey_fingerprint \<Rightarrow> journey_fingerprint \<Rightarrow> int \<Rightarrow> bool" where
  "equivalent self other tolerance =
     (if self = [] \<or> length self \<noteq> length other then False
      else list_all (\<lambda>(a, b). same_place a b \<and> within_minutes a b tolerance) (zip self other))"

definition similarity :: "journey_fingerprint \<Rightarrow> journey_fingerprint \<Rightarrow> int \<Rightarrow> real" where
  "similarity self other tolerance =
     (if self = [] \<or> other = [] then 0
      else (let pairs = aligned_pairs self other in
        if pairs = [] then 0
        else (let timing = sum_list (map (\<lambda>(a, b). time_agreement a b tolerance) pairs) / real (length pairs)
              in py_round 4 (real (length pairs) / real (max (length self) (length other)) * timing))))"

fun spine_of :: "canonical_leg list \<Rightarrow> spine_leg list" where
  "spine_of [] = []"
| "spine_of (leg # legs) =
     (if \<not> is_timed leg then spine_of legs
      else (case leg_service leg of
              None \<Rightarrow> spine_of legs
            | Some s \<Rightarrow>
                \<lparr>sl_mode = sv_mode s, sl_board = station_key (leg_origin leg),
                 sl_alight = station_key (leg_destination leg),
                 sl_board_minute = map_option (\<lambda>t. minute_of (timetabled t)) (leg_departure leg),
                 sl_alight_minute = map_option (\<lambda>t. minute_of (timetabled t)) (leg_arrival leg)\<rparr>
                # spine_of legs))"

definition fingerprint_of :: "canonical_journey \<Rightarrow> journey_fingerprint" where
  "fingerprint_of j = spine_of (j_legs j)"

section \<open>Station keys\<close>

lemma geo_key_prefix [simp]:
  "starts_with (geo_key p) ''GEO:''" "\<not> starts_with (geo_key p) ''UIC:''"
  by (simp_all add: geo_key_def starts_with_def)

lemma station_key_uic:
  "starts_with (station_key l) ''UIC:'' \<longleftrightarrow>
     (\<exists>s. loc_stop_place l = Some s \<and> truthy (sp_uic s))"
  by (auto simp: station_key_def NO_STATION_def starts_with_def geo_key_def
      split: option.splits)

lemma station_key_uic_eq:
  assumes "loc_stop_place l = Some s" "truthy (sp_uic s)"
    and "loc_stop_place l' = Some s'" "truthy (sp_uic s')"
  shows "station_key l = station_key l' \<longleftrightarrow> sp_uic s = sp_uic s'"
  using assms by (auto simp: station_key_def dest!: truthyD)

lemma same_place_sym: "same_place a b \<longleftrightarrow> same_place b a"
  by (auto simp: same_place_def keys_agree_def)

lemma same_place_trans: "same_place a b \<Longrightarrow> same_place b c \<Longrightarrow> same_place a c"
  by (auto simp: same_place_def keys_agree_def)

lemma delta_seconds_sym: "delta_seconds a b = delta_seconds b a"
  by (auto simp: delta_seconds_def split: option.splits)

lemma within_minutes_sym: "within_minutes a b t \<longleftrightarrow> within_minutes b a t"
  by (simp add: within_minutes_def delta_seconds_sym)

section \<open>Similarity\<close>

lemma delta_seconds_nonneg: "delta_seconds a b = Some d \<Longrightarrow> 0 \<le> d"
  by (auto simp: delta_seconds_def split: option.splits)

lemma unit_time_agreement: "unit_interval (time_agreement a b t)"
proof -
  have "0 \<le> real_of_int (x + y) / real_of_int (2 * t)" if "0 \<le> x" "0 \<le> y" "0 < t" for x y
    using that by simp
  then show ?thesis
    by (fastforce simp: time_agreement_def unit_interval_def max_def
        dest: delta_seconds_nonneg split: option.splits)
qed

lemma similarity_unit: "unit_interval (similarity a b t)"
proof (cases "a = [] \<or> b = [] \<or> aligned_pairs a b = []")
  case True
  then show ?thesis by (auto simp: similarity_def unit_interval_def)
next
  case False
  let ?p = "aligned_pairs a b"
  have "unit_interval (real (length ?p) / real (max (length a) (length b)))"
    unfolding aligned_pairs_def by (rule unit_ratio [OF greedy.length_le_max])
  moreover have "unit_interval (sum_list (map (\<lambda>(x, y). time_agreement x y t) ?p) / real (length ?p))"
    using unit_mean [of "map (\<lambda>(x, y). time_agreement x y t) ?p"] by (simp add: unit_time_agreement case_prod_beta)
  ultimately have "unit_interval (py_round 4 (real (length ?p) / real (max (length a) (length b)) *
      (sum_list (map (\<lambda>(x, y). time_agreement x y t) ?p) / real (length ?p))))"
    by (intro unit_round unit_mult)
  with False show ?thesis by (simp only: similarity_def Let_def) auto
qed

text \<open>A leg whose two stations and two minutes are known.\<close>

definition complete_leg :: "spine_leg \<Rightarrow> bool" where
  "complete_leg l = (sl_board l \<noteq> NO_STATION \<and> sl_alight l \<noteq> NO_STATION
     \<and> sl_board_minute l \<noteq> None \<and> sl_alight_minute l \<noteq> None)"

lemma complete_leg_same_place [simp]: "complete_leg l \<Longrightarrow> same_place l l"
  by (simp add: complete_leg_def same_place_def keys_agree_def)

lemma time_agreement_self: "complete_leg l \<Longrightarrow> time_agreement l l t = 1"
  by (auto simp: complete_leg_def time_agreement_def delta_seconds_def)

lemma walk_self: "\<forall>x \<in> set xs. m x x \<Longrightarrow> walk m xs xs = zip xs xs"
  by (induction xs) auto

lemma similarity_self:
  assumes "spine \<noteq> []" "\<forall>l \<in> set spine. complete_leg l"
  shows "similarity spine spine t = 1"
proof -
  have p: "aligned_pairs spine spine = zip spine spine"
    using assms(2) by (simp add: aligned_pairs_def greedy_pairs_walk walk_self)
  have "map (\<lambda>(a, b). time_agreement a b t) (zip spine spine) = replicate (length spine) 1"
    using assms(2) by (intro nth_equalityI) (auto simp: time_agreement_self)
  with assms(1) show ?thesis by (simp add: similarity_def p sum_list_replicate)
qed

lemma within_minutes_self: "complete_leg l \<Longrightarrow> 0 \<le> t \<Longrightarrow> within_minutes l l t"
  by (auto simp: complete_leg_def within_minutes_def delta_seconds_def)

lemma equivalent_refl:
  "spine \<noteq> [] \<Longrightarrow> \<forall>l \<in> set spine. complete_leg l \<Longrightarrow> 0 \<le> t \<Longrightarrow> equivalent spine spine t"
  by (auto simp: equivalent_def list_all_length within_minutes_self)

lemma equivalent_sym: "equivalent a b t \<longleftrightarrow> equivalent b a t"
  by (auto simp: equivalent_def list_all_length same_place_sym within_minutes_sym)

text \<open>
  Equivalent journeys align leg by leg: the walk over a spine pairs every leg with the leg at
  its own place, so the share of legs that line up is 1.
\<close>

lemma walk_all2: "list_all2 m xs ys \<Longrightarrow> walk m xs ys = zip xs ys"
  by (induction xs ys rule: list_all2_induct) auto

lemma equivalent_aligned:
  "equivalent a b t \<Longrightarrow> aligned_pairs a b = zip a b \<and> length a = length b"
  by (auto simp: equivalent_def aligned_pairs_def greedy_pairs_walk list_all2_iff list_all_iff
      intro!: walk_all2 split: if_splits)

section \<open>What a fingerprint depends on\<close>

lemma spine_of_timed: "spine_of legs = spine_of (filter is_timed legs)"
  by (induction legs) (auto split: option.splits)

lemma spine_of_mark_transfers: "spine_of (mark_transfers legs) = spine_of legs"
  using mark_transfers_rides spine_of_timed by metis

lemma length_spine_of:
  "list_all valid_leg legs \<Longrightarrow> length (spine_of legs) = length (filter is_timed legs)"
  by (induction legs) (auto simp: valid_leg_timed split: option.splits)

end
