(* ===== verification/Match_Reasons.thy ===== *)
theory Match_Reasons
  imports Canonical
begin

text \<open>
  The reason vocabulary of the matching engine (\<open>app/journey/matching/reasons.py\<close>) and the
  classes of \<open>canonical/journey_similarity_result.py\<close> that carry it. A code is a constructor of
  \<open>reason_code\<close>: the module's closed set of constants, so \<open>reason\<close>, which refuses a code outside
  \<open>SENTENCES\<close>, has no failing branch on it (\<open>SENTENCES_total\<close>). \<open>str.format\<close> on the sentences is
  \<open>py_format\<close>; a missing field is \<open>None\<close>.
\<close>

section \<open>Codes and severities\<close>

datatype reason_code = EXACT_FINGERPRINT | LABEL_SPACING_ONLY | MODE_WORD_ONLY | CATEGORY_DIFFERS
  | LOCATION_ONLY | SAME_COMPLEX | ENDPOINT_UNRESOLVED | LINE_LABEL_DIFFERS
  | IDENTIFIER_KINDS_DIFFER | IDENTIFIER_MISSING | OPERATOR_DIFFERS | TRANSFER_COUNT_DIFFERS
  | TRAIN_NUMBER_EQUAL | TRAIN_NUMBER_DIFFERS | TRAIN_NUMBER_DIFFERS_SAME_MINUTES
  | STATIONS_BY_POSITION | LOCAL_ACCESS_RIDE | SPLITS_AFTER_SHARED_RIDE | SHORTER_TRANSFER
  | REJOINS_AFTER_SPLIT | OUTSIDE_REFERENCE_WINDOW | ENDPOINT_STATION_DIFFERS
  | DEPARTURE_OUTSIDE_TOLERANCE | ARRIVAL_OUTSIDE_TOLERANCE | NO_TRANSIT_LEG | NO_CANDIDATE
  | SCORE_TOO_LOW | PAIRED_ELSEWHERE

definition code_table :: "(reason_code \<times> str) list" where
  "code_table = [
     (EXACT_FINGERPRINT, ''exact_fingerprint''), (LABEL_SPACING_ONLY, ''label_spacing_only''),
     (MODE_WORD_ONLY, ''mode_word_only''), (CATEGORY_DIFFERS, ''category_differs''),
     (LOCATION_ONLY, ''location_only''), (SAME_COMPLEX, ''same_complex''),
     (ENDPOINT_UNRESOLVED, ''endpoint_unresolved''), (LINE_LABEL_DIFFERS, ''line_label_differs''),
     (IDENTIFIER_KINDS_DIFFER, ''identifier_kinds_differ''),
     (IDENTIFIER_MISSING, ''identifier_missing''), (OPERATOR_DIFFERS, ''operator_differs''),
     (TRANSFER_COUNT_DIFFERS, ''transfer_count_differs''),
     (TRAIN_NUMBER_EQUAL, ''train_number_equal''),
     (TRAIN_NUMBER_DIFFERS, ''train_number_differs''),
     (TRAIN_NUMBER_DIFFERS_SAME_MINUTES, ''train_number_differs_same_minutes''),
     (STATIONS_BY_POSITION, ''stations_by_position''), (LOCAL_ACCESS_RIDE, ''local_access_ride''),
     (SPLITS_AFTER_SHARED_RIDE, ''splits_after_shared_ride''),
     (SHORTER_TRANSFER, ''shorter_transfer''), (REJOINS_AFTER_SPLIT, ''rejoins_after_split''),
     (OUTSIDE_REFERENCE_WINDOW, ''outside_reference_window''),
     (ENDPOINT_STATION_DIFFERS, ''endpoint_station_differs''),
     (DEPARTURE_OUTSIDE_TOLERANCE, ''departure_outside_tolerance''),
     (ARRIVAL_OUTSIDE_TOLERANCE, ''arrival_outside_tolerance''),
     (NO_TRANSIT_LEG, ''no_transit_leg''), (NO_CANDIDATE, ''no_candidate''),
     (SCORE_TOO_LOW, ''score_too_low''), (PAIRED_ELSEWHERE, ''paired_elsewhere'')]"

definition code_text :: "reason_code \<Rightarrow> str" where
  "code_text c = (case map_of code_table c of Some s \<Rightarrow> s | None \<Rightarrow> [])"

definition code_of_text :: "str \<Rightarrow> reason_code option" where
  "code_of_text s = map_of (map (\<lambda>(c, t). (t, c)) code_table) s"

datatype reason_severity = Info | Warning | Veto | Gate
datatype match_verdict = Same_service | Probably_same | Different

definition SEVERITY_RANK :: "reason_severity \<Rightarrow> nat" where
  "SEVERITY_RANK s = (case s of Veto \<Rightarrow> 0 | Gate \<Rightarrow> 1 | Warning \<Rightarrow> 2 | Info \<Rightarrow> 3)"

record match_reason =
  r_code :: reason_code
  r_severity :: reason_severity
  r_leg :: "nat option"
  r_left_value :: "str option"
  r_right_value :: "str option"

section \<open>Sentences\<close>

definition SENTENCES :: "(reason_code \<times> str) list" where
  "SENTENCES = [
     (EXACT_FINGERPRINT, ''''),
     (LABEL_SPACING_ONLY, ''''),
     (MODE_WORD_ONLY, ''''),
     (CATEGORY_DIFFERS, ''product names differ: {left_value} / {right_value}''),
     (LOCATION_ONLY, ''''),
     (SAME_COMPLEX, ''''),
     (ENDPOINT_UNRESOLVED, ''stations could not be compared (no shared station code)''),
     (LINE_LABEL_DIFFERS, ''line labels differ: {left_value} / {right_value}''),
     (IDENTIFIER_KINDS_DIFFER, ''one source gives no train number''),
     (IDENTIFIER_MISSING, ''one source gives no train number''),
     (OPERATOR_DIFFERS, ''operators differ''),
     (TRANSFER_COUNT_DIFFERS, ''{left_value} / {right_value} changes''),
     (TRAIN_NUMBER_EQUAL, ''''),
     (TRAIN_NUMBER_DIFFERS, ''different trains: {left_value} / {right_value}''),
     (TRAIN_NUMBER_DIFFERS_SAME_MINUTES,
       ''same times, the sources number the train differently: {left_value} / {right_value}''),
     (STATIONS_BY_POSITION, ''stations compared by position (no shared station code)''),
     (LOCAL_ACCESS_RIDE, ''{side} adds a local ride to the station''),
     (SPLITS_AFTER_SHARED_RIDE, ''same train to {left_value}, then different trains''),
     (SHORTER_TRANSFER, ''{left} changes in {left_min} min, {right} in {right_min} min''),
     (REJOINS_AFTER_SPLIT, ''different trains, then the same again from {left_value}''),
     (OUTSIDE_REFERENCE_WINDOW, ''leaves after {right}'' @ [CHR 39] @ ''s last connection''),
     (ENDPOINT_STATION_DIFFERS, ''different first or last station''),
     (DEPARTURE_OUTSIDE_TOLERANCE, ''departures {left_min} min apart''),
     (ARRIVAL_OUTSIDE_TOLERANCE, ''arrivals {left_min} min apart''),
     (NO_TRANSIT_LEG, ''walk only''),
     (NO_CANDIDATE, ''no journey on the other side''),
     (SCORE_TOO_LOW, ''too different to be the same journey''),
     (PAIRED_ELSEWHERE, ''its closest match is paired with another journey'')]"

definition reason :: "reason_code \<Rightarrow> reason_severity \<Rightarrow> nat option \<Rightarrow> str option \<Rightarrow> str option \<Rightarrow> match_reason" where
  "reason code severity leg left_value right_value =
     \<lparr>r_code = code, r_severity = severity, r_leg = leg, r_left_value = left_value,
      r_right_value = right_value\<rparr>"

text \<open>
  \<open>int(text)\<close>: blanks around, a sign, decimal digits with single underscores between them;
  anything else raises \<open>ValueError\<close> (\<open>None\<close>).
\<close>

fun underscores_ok :: "str \<Rightarrow> bool" where
  "underscores_ok [] = True"
| "underscores_ok [c] = is_decimal c"
| "underscores_ok (c # d # cs) =
     (is_decimal c \<and> (if d = CHR ''_'' then cs \<noteq> [] \<and> underscores_ok cs else underscores_ok (d # cs)))"

definition py_int :: "str \<Rightarrow> int option" where
  "py_int text =
     (let s = py_strip text;
          negative = (s \<noteq> [] \<and> hd s = CHR ''-'');
          body = (if s \<noteq> [] \<and> (hd s = CHR ''-'' \<or> hd s = CHR ''+'') then tl s else s)
      in if body \<noteq> [] \<and> underscores_ok body
         then Some (if negative then - int (digits_value body) else int (digits_value body))
         else None)"

definition minutes_text :: "str option \<Rightarrow> str" where
  "minutes_text value = (case value of
       None \<Rightarrow> ''?''
     | Some v \<Rightarrow> (case py_int v of
           None \<Rightarrow> v
         | Some n \<Rightarrow> show_int (round_half_even (real_of_int \<bar>n\<bar> / 60))))"

text \<open>\<open>str.format\<close> with simple fields \<open>{name}\<close>; \<open>None\<close> for a name it is not given (\<open>KeyError\<close>).\<close>

function py_format :: "(str \<times> str) list \<Rightarrow> str \<Rightarrow> str option" where
  "py_format env [] = Some []"
| "py_format env (c # cs) =
     (if c = CHR ''{''
      then (case map_of env (takeWhile (\<lambda>d. d \<noteq> CHR ''}'') cs) of
              None \<Rightarrow> None
            | Some v \<Rightarrow> map_option (\<lambda>t. v @ t)
                          (py_format env (drop 1 (dropWhile (\<lambda>d. d \<noteq> CHR ''}'') cs))))
      else map_option (\<lambda>t. c # t) (py_format env cs))"
  by pat_completeness auto
termination
proof (relation "measure (\<lambda>(env, s). length s)")
  fix env c cs x2
  show "((env, drop 1 (dropWhile (\<lambda>d. d \<noteq> CHR ''}'') cs)), env, c # cs) \<in> measure (\<lambda>(env, s). length s)"
    using length_dropWhile_le [of "\<lambda>d. d \<noteq> CHR ''}''" cs] by simp
qed auto

definition or_unknown :: "str option \<Rightarrow> str" where
  "or_unknown v = (case v of Some s \<Rightarrow> s | None \<Rightarrow> ''?'')"

definition sentence :: "match_reason \<Rightarrow> str \<Rightarrow> str \<Rightarrow> str option" where
  "sentence item left right =
     (let template = (case map_of SENTENCES (r_code item) of Some t \<Rightarrow> t | None \<Rightarrow> '''')
      in py_format
           [(''left'', left), (''right'', right),
            (''side'', if r_left_value item \<noteq> None then left else right),
            (''left_value'', or_unknown (r_left_value item)),
            (''right_value'', or_unknown (r_right_value item)),
            (''left_min'', minutes_text (r_left_value item)),
            (''right_min'', minutes_text (r_right_value item))] template)"

definition SUMMARIES :: "(reason_code \<times> str) list" where
  "SUMMARIES = [
     (CATEGORY_DIFFERS, ''product names differ''),
     (ENDPOINT_UNRESOLVED, ''stations could not be compared (no shared station code)''),
     (LINE_LABEL_DIFFERS, ''line labels differ''),
     (OPERATOR_DIFFERS, ''operators differ''),
     (TRANSFER_COUNT_DIFFERS, ''a different number of changes''),
     (TRAIN_NUMBER_DIFFERS, ''different train numbers''),
     (TRAIN_NUMBER_DIFFERS_SAME_MINUTES, ''same times, the sources number the train differently''),
     (STATIONS_BY_POSITION, ''stations compared by position (no shared station code)''),
     (LOCAL_ACCESS_RIDE, ''a local ride to the station on one side, left out''),
     (SPLITS_AFTER_SHARED_RIDE, ''the same train first, then different trains''),
     (SHORTER_TRANSFER, ''after a shared train, one side changes much faster''),
     (REJOINS_AFTER_SPLIT, ''different trains, then the same again''),
     (OUTSIDE_REFERENCE_WINDOW,
       ''{left} journeys after {right}'' @ [CHR 39] @ ''s last connection, not compared''),
     (ENDPOINT_STATION_DIFFERS, ''different first or last station''),
     (DEPARTURE_OUTSIDE_TOLERANCE, ''departures too far apart''),
     (ARRIVAL_OUTSIDE_TOLERANCE, ''arrivals too far apart''),
     (NO_TRANSIT_LEG, ''walk only''),
     (SCORE_TOO_LOW, ''too different to be the same journey'')]"

definition summary_sentence :: "str \<Rightarrow> int \<Rightarrow> str \<Rightarrow> str \<Rightarrow> str option" where
  "summary_sentence code n left right =
     (let template = (case code_of_text code of
            None \<Rightarrow> ''''
          | Some c \<Rightarrow> (case map_of SUMMARIES c of Some t \<Rightarrow> t | None \<Rightarrow> ''''))
      in if template = '''' \<or> n \<le> 0 then Some ''''
         else map_option (\<lambda>text. if n > 1 then text @ '' ('' @ show_int n @ '' times)'' else text)
                (py_format [(''left'', left), (''right'', right)] template))"

section \<open>Lemmas\<close>

lemma reason_simps [simp]:
  "r_code (reason c s l a b) = c" "r_severity (reason c s l a b) = s"
  "r_leg (reason c s l a b) = l" "r_left_value (reason c s l a b) = a"
  "r_right_value (reason c s l a b) = b"
  by (simp_all add: reason_def)

instantiation reason_severity :: linorder
begin

definition less_eq_reason_severity :: "reason_severity \<Rightarrow> reason_severity \<Rightarrow> bool" where
  "s \<le> t \<longleftrightarrow> SEVERITY_RANK s \<le> SEVERITY_RANK t"

definition less_reason_severity :: "reason_severity \<Rightarrow> reason_severity \<Rightarrow> bool" where
  "s < t \<longleftrightarrow> SEVERITY_RANK s < SEVERITY_RANK t"

instance
proof
  fix s t :: reason_severity
  show "s \<le> t \<Longrightarrow> t \<le> s \<Longrightarrow> s = t"
    by (cases s; cases t) (simp_all add: less_eq_reason_severity_def SEVERITY_RANK_def)
qed (auto simp: less_eq_reason_severity_def less_reason_severity_def)

end

lemma code_table_distinct: "distinct (map fst code_table)" "distinct (map snd code_table)"
  by code_simp+

lemma code_table_total: "\<exists>t. (c, t) \<in> set code_table"
proof -
  have "map_of code_table c \<noteq> None" by (cases c) (simp_all add: code_table_def)
  then show ?thesis by (auto dest: map_of_SomeD)
qed

lemma code_text_iff: "code_text c = t \<longleftrightarrow> (c, t) \<in> set code_table"
proof -
  obtain u where "(c, u) \<in> set code_table" using code_table_total by blast
  with code_table_distinct(1) have "map_of code_table c = Some u" by simp
  then show ?thesis
    by (simp add: code_text_def flip: map_of_eq_Some_iff [OF code_table_distinct(1)])
qed

lemma code_of_text_iff: "code_of_text t = Some c \<longleftrightarrow> (c, t) \<in> set code_table"
proof -
  have "distinct (map fst (map (\<lambda>(c, t). (t, c)) code_table))"
    using code_table_distinct(2) by (simp add: comp_def case_prod_beta' del: distinct_map)
  then show ?thesis unfolding code_of_text_def by (subst map_of_eq_Some_iff) auto
qed

lemma code_of_text_code_text: "code_of_text (code_text c) = Some c"
  using code_text_iff [of c "code_text c"] by (simp add: code_of_text_iff)

lemma code_text_of_text: "code_of_text s = Some c \<Longrightarrow> code_text c = s"
  by (simp add: code_of_text_iff code_text_iff)

lemma code_text_inj: "code_text c = code_text d \<Longrightarrow> c = d"
  by (metis code_of_text_code_text option.inject)

text \<open>Whether a sentence can be formatted depends on the names given, not on their values.\<close>

lemma py_format_names:
  "map fst env = map fst env' \<Longrightarrow> py_format env t \<noteq> None \<longleftrightarrow> py_format env' t \<noteq> None"
proof (induction env t rule: py_format.induct)
  case (2 env c cs)
  have "map_of env k = None \<longleftrightarrow> map_of env' k = None" for k
    using "2.prems" by (metis map_of_eq_None_iff set_map)
  note this [of "takeWhile (\<lambda>d. d \<noteq> CHR ''}'') cs"]
  with 2 show ?case by (auto split: option.splits)
qed simp

definition FIELDS :: "(str \<times> str) list" where
  "FIELDS = [(''left'', []), (''right'', []), (''side'', []), (''left_value'', []),
     (''right_value'', []), (''left_min'', []), (''right_min'', [])]"

lemma SENTENCES_format: "list_all (\<lambda>(c, t). py_format FIELDS t \<noteq> None) SENTENCES"
  by code_simp

lemma SUMMARIES_format: "list_all (\<lambda>(c, t). py_format (take 2 FIELDS) t \<noteq> None) SUMMARIES"
  by code_simp

lemma SENTENCES_total: "\<exists>t. map_of SENTENCES c = Some t"
proof -
  have "map fst SENTENCES = map fst code_table" by code_simp
  then have "c \<in> fst ` set SENTENCES" using code_table_total [of c] by (metis fst_conv image_eqI set_map)
  then show ?thesis by (metis map_of_eq_None_iff not_None_eq)
qed

lemma sentence_total: "\<exists>t. sentence item left right = Some t"
proof -
  obtain t where t: "map_of SENTENCES (r_code item) = Some t" using SENTENCES_total by blast
  then have "py_format FIELDS t \<noteq> None"
    using SENTENCES_format by (auto simp: list_all_iff dest!: map_of_SomeD)
  with t show ?thesis
    unfolding sentence_def Let_def by (subst not_None_eq [symmetric], subst py_format_names [of _ FIELDS])
      (simp_all add: FIELDS_def)
qed

lemma summary_sentence_total: "\<exists>t. summary_sentence code n left right = Some t"
proof (cases "\<exists>c t. code_of_text code = Some c \<and> map_of SUMMARIES c = Some t")
  case True
  then obtain c t where ct: "code_of_text code = Some c" "map_of SUMMARIES c = Some t" by blast
  then have "py_format (take 2 FIELDS) t \<noteq> None"
    using SUMMARIES_format by (auto simp: list_all_iff dest!: map_of_SomeD)
  then have "py_format [(''left'', left), (''right'', right)] t \<noteq> None"
    by (subst py_format_names [of _ "take 2 FIELDS"]) (simp_all add: FIELDS_def)
  with ct show ?thesis by (auto simp: summary_sentence_def Let_def)
next
  case False
  then show ?thesis by (auto simp: summary_sentence_def Let_def split: option.splits)
qed

subsection \<open>Printed numbers read back\<close>

lemma is_decimal_not_underscore: "is_decimal c \<Longrightarrow> c \<noteq> CHR ''_''"
  by (auto simp: is_decimal_def Let_def)

lemma underscores_ok_decimal: "list_all is_decimal ds \<Longrightarrow> underscores_ok ds"
  by (induction ds rule: underscores_ok.induct) (auto dest: is_decimal_not_underscore)

lemma is_decimal_not_space: "is_decimal c \<Longrightarrow> \<not> is_space c"
  by (auto simp: is_decimal_def is_space_def Let_def)

lemma py_strip_no_space:
  assumes "s \<noteq> []" "\<not> is_space (hd s)" "\<not> is_space (last s)"
  shows "py_strip s = s"
proof -
  have "dropWhile is_space s = s" using assms by (cases s) auto
  moreover have "dropWhile is_space (rev s) = rev s" using assms by (cases s rule: rev_cases) auto
  ultimately show ?thesis by (simp add: py_strip_def)
qed

lemma py_int_show_int: "py_int (show_int n) = Some n"
proof -
  have ne: "show_nat k \<noteq> []" for k by simp
  have all: "\<forall>c \<in> set (show_nat k). is_decimal c" for k
    using show_nat_decimal by (simp add: list_all_iff)
  have hd: "is_decimal (hd (show_nat k))" "is_decimal (last (show_nat k))" for k
    using all [of k] ne [of k] by auto
  have blank: "\<not> is_space (hd (show_nat k))" "\<not> is_space (last (show_nat k))" for k
    using hd [of k] is_decimal_not_space by blast+
  have strip: "py_strip (show_int n) = show_int n"
    by (rule py_strip_no_space) (auto simp: show_int_def blank is_space_def [of "CHR ''-''"])
  have signs: "hd (show_nat k) \<noteq> CHR ''-''" "hd (show_nat k) \<noteq> CHR ''+''" for k
    using hd(1) [of k] by (auto simp: is_decimal_def Let_def)
  have ok: "underscores_ok (show_nat k)" for k
    by (rule underscores_ok_decimal [OF show_nat_decimal])
  show ?thesis
    by (simp add: py_int_def strip)
      (simp add: show_int_def signs ok digits_value_show_nat)
qed

end
