(* ===== verification/Match_Stations.thy ===== *)
theory Match_Stations
  imports Fingerprint Match_Reasons
begin

text \<open>
  Station agreement (\<open>app/journey/matching/stations.py\<close>): the table that decides whether two leg
  ends are the same station, the great-circle distance, and M4's position fallback.
\<close>

section \<open>Definitions\<close>

datatype agreement = AGREE | CONFLICT | UNKNOWN

record station_agreement =
  sa_agreement :: agreement
  sa_note :: "reason_code option"

abbreviation plain :: "agreement \<Rightarrow> station_agreement" where
  "plain a \<equiv> \<lparr>sa_agreement = a, sa_note = None\<rparr>"

definition conflict :: "station_agreement \<Rightarrow> bool" where
  "conflict s = (sa_agreement s = CONFLICT)"

definition for_endpoint_gate :: "station_agreement \<Rightarrow> agreement" where
  "for_endpoint_gate s =
     (if sa_agreement s = AGREE \<and> sa_note s = Some LOCATION_ONLY then UNKNOWN else sa_agreement s)"

text \<open>\<open>parent in parents_of_the_other\<close>, where a missing parent is in no set.\<close>

definition shares_complex :: "canonical_stop_place \<Rightarrow> canonical_stop_place \<Rightarrow> bool" where
  "shares_complex a b =
     (sp_station_parent_id a \<noteq> None \<and>
      sp_station_parent_id a \<in> {sp_station_id b, sp_station_parent_id b} - {None})"

definition compare_stations :: "canonical_location \<Rightarrow> canonical_location \<Rightarrow> station_agreement" where
  "compare_stations left right =
     (let by_key =
        (let key_a = station_key left; key_b = station_key right in
         if starts_with key_a ''UIC:'' \<and> starts_with key_b ''UIC:''
         then (if key_a = key_b then plain AGREE else plain CONFLICT)
         else if starts_with key_a ''GEO:'' \<and> key_a = key_b
         then \<lparr>sa_agreement = AGREE, sa_note = Some LOCATION_ONLY\<rparr>
         else plain UNKNOWN)
      in case (loc_stop_place left, loc_stop_place right) of
           (Some a, Some b) \<Rightarrow>
             (if truthy (sp_station_id a) \<and> truthy (sp_station_id b)
              then (if sp_station_id a = sp_station_id b then plain AGREE
                    else if shares_complex a b \<or> shares_complex b a
                    then \<lparr>sa_agreement = AGREE, sa_note = Some SAME_COMPLEX\<rparr>
                    else plain CONFLICT)
              else by_key)
         | _ \<Rightarrow> by_key)"

definition position_of :: "canonical_location \<Rightarrow> geo_position option" where
  "position_of l = (case loc_position l of
       Some p \<Rightarrow> Some p
     | None \<Rightarrow> (case loc_stop_place l of Some s \<Rightarrow> sp_position s | None \<Rightarrow> None))"

definition EARTH_RADIUS_M :: real where "EARTH_RADIUS_M = 63710088 / 10"

definition radians :: "real \<Rightarrow> real" where "radians d = d * pi / 180"

definition distance_m :: "geo_position \<Rightarrow> geo_position \<Rightarrow> real" where
  "distance_m a b =
     (let lat_a = radians (lat a); lat_b = radians (lat b);
          d_lat = lat_b - lat_a; d_lon = radians (lon b - lon a);
          h = sin (d_lat / 2) ^ 2 + cos lat_a * cos lat_b * sin (d_lon / 2) ^ 2
      in 2 * EARTH_RADIUS_M * arcsin (min 1 (sqrt h)))"

definition with_position_fallback ::
  "station_agreement \<Rightarrow> canonical_location \<Rightarrow> canonical_location \<Rightarrow> int \<Rightarrow> station_agreement" where
  "with_position_fallback found left right fallback_m =
     (if sa_agreement found \<noteq> UNKNOWN \<or> fallback_m \<le> 0 then found
      else (case (position_of left, position_of right) of
              (Some a, Some b) \<Rightarrow>
                (if distance_m a b > real_of_int fallback_m then found
                 else \<lparr>sa_agreement = AGREE, sa_note = Some STATIONS_BY_POSITION\<rparr>)
            | _ \<Rightarrow> found))"

text \<open>\<open>arcsin\<close> and \<open>pi\<close> do not compute; everything else here does, so evaluation leaves a distance alone.\<close>

declare distance_m_def [code del]

section \<open>The table is symmetric, and its station-id rows decide first\<close>

lemma shares_complex_sym:
  "shares_complex a b \<or> shares_complex b a \<longleftrightarrow> shares_complex b a \<or> shares_complex a b"
  by blast

lemma compare_stations_sym: "compare_stations a b = compare_stations b a"
proof -
  have key: "(if starts_with x ''UIC:'' \<and> starts_with y ''UIC:''
       then if x = y then plain AGREE else plain CONFLICT
       else if starts_with x ''GEO:'' \<and> x = y
       then \<lparr>sa_agreement = AGREE, sa_note = Some LOCATION_ONLY\<rparr> else plain UNKNOWN) =
     (if starts_with y ''UIC:'' \<and> starts_with x ''UIC:''
       then if y = x then plain AGREE else plain CONFLICT
       else if starts_with y ''GEO:'' \<and> y = x
       then \<lparr>sa_agreement = AGREE, sa_note = Some LOCATION_ONLY\<rparr> else plain UNKNOWN)" for x y
    by auto
  show ?thesis
    unfolding compare_stations_def Let_def
    by (subst key) (auto split: option.splits)
qed

lemma compare_stations_placed:
  assumes "loc_stop_place l = Some a" "loc_stop_place r = Some b"
    and "truthy (sp_station_id a)" "truthy (sp_station_id b)"
  shows "sa_agreement (compare_stations l r) = (if sp_station_id a = sp_station_id b
      \<or> shares_complex a b \<or> shares_complex b a then AGREE else CONFLICT)"
  using assms by (simp add: compare_stations_def)

lemma compare_stations_known_self:
  assumes "loc_stop_place l = Some a" "truthy (sp_station_id a) \<or> truthy (sp_uic a)"
  shows "compare_stations l l = plain AGREE"
  using assms station_key_uic [of l] by (auto simp: compare_stations_def Let_def)

text \<open>A conflict needs two station ids or two UIC codes: nothing weaker makes one.\<close>

lemma compare_stations_conflict:
  assumes "conflict (compare_stations l r)"
  obtains a b where "loc_stop_place l = Some a" "loc_stop_place r = Some b"
    and "truthy (sp_station_id a) \<and> truthy (sp_station_id b) \<and> sp_station_id a \<noteq> sp_station_id b
         \<or> truthy (sp_uic a) \<and> truthy (sp_uic b) \<and> sp_uic a \<noteq> sp_uic b"
proof -
  have "\<exists>a b. loc_stop_place l = Some a \<and> loc_stop_place r = Some b \<and>
     (truthy (sp_station_id a) \<and> truthy (sp_station_id b) \<and> sp_station_id a \<noteq> sp_station_id b
      \<or> truthy (sp_uic a) \<and> truthy (sp_uic b) \<and> sp_uic a \<noteq> sp_uic b)"
    using assms station_key_uic [of l] station_key_uic [of r]
    by (auto simp: conflict_def compare_stations_def Let_def station_key_uic_eq
        split: option.splits if_splits)
  then show ?thesis using that by blast
qed

section \<open>The fallback\<close>

lemma fallback_keeps_decided:
  "sa_agreement found \<noteq> UNKNOWN \<Longrightarrow> with_position_fallback found l r m = found"
  by (simp add: with_position_fallback_def)

lemma fallback_agreement:
  "sa_agreement (with_position_fallback found l r m) \<in> {sa_agreement found, AGREE}"
  by (auto simp: with_position_fallback_def split: option.splits)

lemma fallback_note:
  "sa_note (with_position_fallback found l r m) \<in> {sa_note found, Some STATIONS_BY_POSITION}"
  by (auto simp: with_position_fallback_def split: option.splits)

lemma fallback_conflict [simp]:
  "conflict (with_position_fallback found l r m) \<longleftrightarrow> conflict found"
  by (auto simp: with_position_fallback_def conflict_def split: option.splits)

section \<open>Distances\<close>

lemma distance_m_sym: "distance_m a b = distance_m b a"
proof -
  have "sin ((radians (lat b) - radians (lat a)) / 2) = - sin ((radians (lat a) - radians (lat b)) / 2)"
    by (simp flip: sin_minus add: minus_divide_left)
  moreover have "radians (lon b - lon a) / 2 = - (radians (lon a - lon b) / 2)"
    by (simp add: radians_def field_simps)
  ultimately show ?thesis by (simp add: distance_m_def Let_def mult.commute mult.left_commute)
qed

lemma distance_m_self [simp]: "distance_m a a = 0"
  by (simp add: distance_m_def radians_def)

lemma haversine_nonneg:
  assumes "valid_position a" "valid_position b"
  shows "0 \<le> sin (x / 2) ^ 2 + cos (radians (lat a)) * cos (radians (lat b)) * sin (y / 2) ^ 2"
proof -
  have "0 \<le> cos (radians (lat p))" if "valid_position p" for p :: geo_position
  proof (rule cos_ge_zero)
    show "- (pi / 2) \<le> radians (lat p)"
      using that pi_ge_zero mult_right_mono [of "-90" "lat p" pi]
      by (simp add: valid_position_def radians_def)
    show "radians (lat p) \<le> pi / 2"
      using that pi_ge_zero mult_right_mono [of "lat p" 90 pi]
      by (simp add: valid_position_def radians_def)
  qed
  with assms show ?thesis by (intro add_nonneg_nonneg mult_nonneg_nonneg) auto
qed

lemma distance_m_bounds:
  assumes "valid_position a" "valid_position b"
  shows "0 \<le> distance_m a b" "distance_m a b \<le> EARTH_RADIUS_M * pi"
proof -
  define h where "h = sin ((radians (lat b) - radians (lat a)) / 2) ^ 2 +
     cos (radians (lat a)) * cos (radians (lat b)) * sin (radians (lon b - lon a) / 2) ^ 2"
  have h: "0 \<le> h" unfolding h_def by (rule haversine_nonneg [OF assms])
  have d: "distance_m a b = 2 * EARTH_RADIUS_M * arcsin (min 1 (sqrt h))"
    by (simp add: distance_m_def Let_def h_def)
  have "0 \<le> arcsin (min 1 (sqrt h))" using h by (intro arcsin_nonneg) auto
  then show "0 \<le> distance_m a b" by (simp add: d EARTH_RADIUS_M_def)
  have "arcsin (min 1 (sqrt h)) \<le> pi / 2"
  proof (rule arcsin_ubound)
    show "- 1 \<le> min 1 (sqrt h)" using real_sqrt_ge_zero [OF h] by linarith
  qed simp
  then show "distance_m a b \<le> EARTH_RADIUS_M * pi" by (simp add: d EARTH_RADIUS_M_def)
qed

lemma position_of_sym_fallback:
  "with_position_fallback found l r m = with_position_fallback found r l m"
  by (auto simp: with_position_fallback_def distance_m_sym split: option.splits)

end
