(* ===== verification/Match_Identifiers.thy ===== *)
theory Match_Identifiers
  imports Match_Stations
begin

text \<open>
  Service identity (\<open>app/journey/matching/identifiers.py\<close>): the normalised labels, the train
  number and the line of a service, and the three answers of \<open>compare_services\<close>. The regular
  expressions are written out over characters: \<open>_SEPARATORS\<close> as a character class, \<open>_NUMBERED\<close> as
  \<open>numbered\<close> (its category has no digit and its number is a whole run of digits, so the match is
  the one split the text has).
\<close>

section \<open>Labels\<close>

definition MODE_WORDS :: "transport_mode \<Rightarrow> str list" where
  "MODE_WORDS m = (case m of
       TRAM \<Rightarrow> [''strassenbahn'', ''tramway'', ''tram'', ''str'']
     | BUS \<Rightarrow> [''bus''] | COACH \<Rightarrow> [''coach''] | FERRY \<Rightarrow> [''ferry'', ''schiff'']
     | SUBWAY \<Rightarrow> [''metro''] | _ \<Rightarrow> [])"

definition is_separator :: "char \<Rightarrow> bool" where
  "is_separator c = (is_space c \<or> c = CHR ''-'' \<or> c = CHR ''.'' \<or> c = CHR ''_'')"

definition is_gap :: "char \<Rightarrow> bool" where
  "is_gap c = (is_space c \<or> c = CHR ''-'' \<or> c = CHR ''.'')"

definition fold_text :: "runtime \<Rightarrow> str \<Rightarrow> str" where
  "fold_text rt text = py_strip (rt_casefold rt (rt_nfkc rt text))"

text \<open>The end of \<open>re.match(rf"{word}(?![a-z])[\s\-.]*", text)\<close>, if it matches.\<close>

definition word_end :: "str \<Rightarrow> str \<Rightarrow> nat option" where
  "word_end word text =
     (if starts_with text word \<and> (let rest = drop (length word) text in rest = [] \<or> \<not> is_lower_az (hd rest))
      then Some (length word + length (takeWhile is_gap (drop (length word) text)))
      else None)"

fun drop_mode_word :: "str list \<Rightarrow> str \<Rightarrow> str \<times> bool" where
  "drop_mode_word [] folded = (folded, False)"
| "drop_mode_word (word # words) folded =
     (case word_end word folded of
        Some e \<Rightarrow> if e < length folded then (drop e folded, True) else drop_mode_word words folded
      | None \<Rightarrow> drop_mode_word words folded)"

definition normalise_label :: "runtime \<Rightarrow> str option \<Rightarrow> transport_mode option \<Rightarrow> str \<times> bool" where
  "normalise_label rt text mode =
     (if \<not> truthy text then ([], False)
      else (let (folded, dropped) =
              drop_mode_word (case mode of None \<Rightarrow> [] | Some m \<Rightarrow> MODE_WORDS m) (fold_text rt (or_empty text))
            in (remove_class is_separator folded, dropped)))"

definition number_text :: "runtime \<Rightarrow> str \<Rightarrow> str" where
  "number_text rt text =
     (let compact = remove_class is_separator (fold_text rt text) in
      if py_isdigit compact
      then (let significant = dropWhile (\<lambda>c. c = CHR ''0'') compact
            in if significant = [] then ''0'' else significant)
      else compact)"

text \<open>\<open>^(\D*)(\d{3,6}[a-z]?)(?:\s+[^\d\s].*)?$\<close>: the category and the number.\<close>

definition numbered :: "str \<Rightarrow> (str \<times> str) option" where
  "numbered text =
     (let category = takeWhile (\<lambda>c. \<not> is_decimal c) text;
          after = dropWhile (\<lambda>c. \<not> is_decimal c) text;
          digits = takeWhile is_decimal after;
          rest = dropWhile is_decimal after;
          letter = (if rest \<noteq> [] \<and> is_ascii_letter (hd rest) then [hd rest] else []);
          tail = drop (length letter) rest;
          name = dropWhile is_space tail
      in if 3 \<le> length digits \<and> length digits \<le> 6 \<and>
            (tail = [] \<or>
             (is_space (hd tail) \<and> name \<noteq> [] \<and> \<not> is_decimal (hd name) \<and> CHR 10 \<notin> set (tl name)))
         then Some (category, digits @ letter) else None)"

section \<open>Identities\<close>

record identity =
  id_number :: "str option"
  id_line :: "str option"
  id_category :: "str option"
  id_raw_number :: "str option"
  id_raw_line :: "str option"
  id_raw_category :: "str option"
  id_line_dropped_mode_word :: bool

definition category_of :: "runtime \<Rightarrow> canonical_service \<Rightarrow> str option" where
  "category_of rt service =
     (let code = (case sv_product_category service of None \<Rightarrow> None | Some c \<Rightarrow> pc_code c)
      in if truthy code then Some (fold_text rt (or_empty code)) else None)"

definition given_number :: "runtime \<Rightarrow> canonical_service \<Rightarrow> str option \<times> str option" where
  "given_number rt service =
     (let raw = py_strip (or_empty (sv_train_number service))
      in if raw \<noteq> [] then (Some (number_text rt raw), Some raw) else (None, None))"

definition published_text :: "runtime \<Rightarrow> canonical_service \<Rightarrow> str" where
  "published_text rt service = py_strip (rt_nfkc rt (or_empty (sv_published_name service)))"

definition published_numbered :: "runtime \<Rightarrow> canonical_service \<Rightarrow> (str \<times> str) option" where
  "published_numbered rt service =
     (if sv_mode service \<noteq> RAIL \<or> published_text rt service = [] then None
      else numbered (published_text rt service))"

definition is_the_train_label :: "str \<Rightarrow> str \<Rightarrow> str option \<Rightarrow> bool" where
  "is_the_train_label line number category =
     (if \<not> ends_with line number then False
      else (let pre = rev (dropWhile (\<lambda>c. c = CHR ''0'') (rev (take (length line - length number) line)))
            in pre = [] \<or> pre = or_empty category))"

definition identity_of :: "runtime \<Rightarrow> canonical_service \<Rightarrow> identity" where
  "identity_of rt service =
     (let (number0, raw_number0) = given_number rt service;
          category0 = category_of rt service;
          published = published_text rt service;
          num = published_numbered rt service;
          raw_category = (case num of None \<Rightarrow> None | Some (c, _) \<Rightarrow> none_if_empty (py_strip c));
          (number, raw_number) = (case num of
              Some (_, n) \<Rightarrow> (if number0 = None then (Some (number_text rt n), Some published)
                              else (number0, raw_number0))
            | None \<Rightarrow> (number0, raw_number0));
          category = (case (category0, raw_category) of
              (None, Some c) \<Rightarrow> none_if_empty (remove_class is_separator (fold_text rt c))
            | _ \<Rightarrow> category0);
          given_line = py_strip (or_empty (sv_line service));
          raw_line = (if given_line \<noteq> [] then Some given_line
                      else if num = None then none_if_empty published else None);
          (line, dropped) = normalise_label rt raw_line (Some (sv_mode service));
          is_label = (case number of None \<Rightarrow> False
            | Some n \<Rightarrow> line \<noteq> [] \<and> is_the_train_label line n category);
          (line', raw_line', dropped') = (if is_label then ([], None, False) else (line, raw_line, dropped))
      in \<lparr>id_number = number, id_line = none_if_empty line', id_category = category,
          id_raw_number = raw_number, id_raw_line = raw_line', id_raw_category = raw_category,
          id_line_dropped_mode_word = dropped'\<rparr>)"

definition line_forms :: "identity \<Rightarrow> str set" where
  "line_forms i = (case id_line i of
       None \<Rightarrow> {}
     | Some line \<Rightarrow>
         (if line = [] then {}
          else {line} \<union> (case id_category i of
              None \<Rightarrow> {}
            | Some category \<Rightarrow>
                (if category \<noteq> [] \<and> \<not> starts_with line category then {category @ line} else {}))))"

section \<open>Comparing services\<close>

datatype identifier_kind = Number | Line

record service_comparison =
  sc_agreement :: agreement
  sc_kind :: "identifier_kind option"
  sc_reasons :: "match_reason list"

definition category_label :: "canonical_service \<Rightarrow> identity \<Rightarrow> str option" where
  "category_label service i =
     (case sv_product_category service of
        Some c \<Rightarrow> (if truthy (pc_code c) then pc_code c else or_text (id_raw_category i) (id_category i))
      | None \<Rightarrow> or_text (id_raw_category i) (id_category i))"

definition label_reasons :: "identity \<Rightarrow> identity \<Rightarrow> nat option \<Rightarrow> match_reason list" where
  "label_reasons a b leg =
     (if id_raw_line a \<noteq> id_raw_line b
      then [reason (if id_line_dropped_mode_word a \<or> id_line_dropped_mode_word b
                    then MODE_WORD_ONLY else LABEL_SPACING_ONLY) Info leg (id_raw_line a) (id_raw_line b)]
      else [])"

definition compare_services ::
  "runtime \<Rightarrow> canonical_service \<Rightarrow> canonical_service \<Rightarrow> nat option \<Rightarrow> service_comparison" where
  "compare_services rt left right leg =
     (let a = identity_of rt left; b = identity_of rt right in
      if id_number a \<noteq> None \<and> id_number b \<noteq> None then
        (if id_number a \<noteq> id_number b
         then \<lparr>sc_agreement = CONFLICT, sc_kind = Some Number, sc_reasons =
                [reason TRAIN_NUMBER_DIFFERS Veto leg (id_raw_number a) (id_raw_number b)]\<rparr>
         else \<lparr>sc_agreement = AGREE, sc_kind = Some Number, sc_reasons =
                [reason TRAIN_NUMBER_EQUAL Info leg None None] @
                (if truthy (id_category a) \<and> truthy (id_category b) \<and> id_category a \<noteq> id_category b
                 then [reason CATEGORY_DIFFERS Info leg (category_label left a) (category_label right b)]
                 else [])\<rparr>)
      else if id_line a \<noteq> None \<and> id_line b \<noteq> None then
        (if line_forms a \<inter> line_forms b \<noteq> {}
         then \<lparr>sc_agreement = AGREE, sc_kind = Some Line, sc_reasons = label_reasons a b leg\<rparr>
         else \<lparr>sc_agreement = CONFLICT, sc_kind = Some Line, sc_reasons =
                [reason LINE_LABEL_DIFFERS Warning leg (id_raw_line a) (id_raw_line b)]\<rparr>)
      else if (id_number a \<noteq> None \<or> id_line a \<noteq> None) \<and> (id_number b \<noteq> None \<or> id_line b \<noteq> None)
      then \<lparr>sc_agreement = UNKNOWN, sc_kind = None, sc_reasons = [reason IDENTIFIER_KINDS_DIFFER Info leg None None]\<rparr>
      else \<lparr>sc_agreement = UNKNOWN, sc_kind = None, sc_reasons = [reason IDENTIFIER_MISSING Info leg None None]\<rparr>)"

section \<open>Lemmas\<close>

lemma identity_line_nonempty: "id_line (identity_of rt s) = Some l \<Longrightarrow> l \<noteq> []"
  by (auto simp: identity_of_def Let_def split: prod.splits option.splits if_splits)

lemma line_forms_line: "id_line (identity_of rt s) = Some l \<Longrightarrow> l \<in> line_forms (identity_of rt s)"
  using identity_line_nonempty [of rt s l] by (simp add: line_forms_def)

text \<open>Where a train number comes from: the service's own field, else a rail leg's published name.\<close>

lemma identity_number:
  "id_number (identity_of rt s) =
     (case fst (given_number rt s) of
        Some n \<Rightarrow> Some n
      | None \<Rightarrow> map_option (\<lambda>(c, n). number_text rt n) (published_numbered rt s))"
  by (auto simp: identity_of_def Let_def split: prod.splits option.splits)

lemma identity_number_rail_only:
  "fst (given_number rt s) = None \<Longrightarrow> sv_mode s \<noteq> RAIL \<Longrightarrow> id_number (identity_of rt s) = None"
  by (simp add: identity_number published_numbered_def)

lemma compare_services_sym:
  "sc_agreement (compare_services rt a b leg) = sc_agreement (compare_services rt b a leg')
   \<and> sc_kind (compare_services rt a b leg) = sc_kind (compare_services rt b a leg')"
  by (auto simp: compare_services_def Let_def Int_commute)

lemma compare_services_self:
  assumes "id_number (identity_of rt s) \<noteq> None \<or> id_line (identity_of rt s) \<noteq> None"
  shows "sc_agreement (compare_services rt s s leg) = AGREE"
  using assms line_forms_line [of rt s] by (auto simp: compare_services_def Let_def)

text \<open>Only two identifiers of the same kind can conflict.\<close>

lemma compare_services_conflict:
  assumes "sc_agreement (compare_services rt l r leg) = CONFLICT"
  shows "(sc_kind (compare_services rt l r leg) = Some Number \<and>
          (\<exists>m n. id_number (identity_of rt l) = Some m \<and> id_number (identity_of rt r) = Some n \<and> m \<noteq> n))
       \<or> (sc_kind (compare_services rt l r leg) = Some Line \<and>
          (id_number (identity_of rt l) = None \<or> id_number (identity_of rt r) = None) \<and>
          (\<exists>m n. id_line (identity_of rt l) = Some m \<and> id_line (identity_of rt r) = Some n \<and> m \<noteq> n))"
proof -
  have "m \<noteq> n" if "id_line (identity_of rt l) = Some m" "id_line (identity_of rt r) = Some n"
      "line_forms (identity_of rt l) \<inter> line_forms (identity_of rt r) = {}" for m n
    using that line_forms_line [of rt l m] line_forms_line [of rt r n] by blast
  with assms show ?thesis by (auto simp: compare_services_def Let_def split: if_splits)
qed

lemma compare_services_kinds_differ:
  assumes "id_number (identity_of rt l) = Some n" "id_number (identity_of rt r) = None"
    and "id_line (identity_of rt l) = None"
  shows "sc_agreement (compare_services rt l r leg) = UNKNOWN \<and> sc_kind (compare_services rt l r leg) = None"
  using assms by (simp add: compare_services_def Let_def)

lemma compare_services_reasons_nonempty:
  "sc_agreement (compare_services rt l r leg) = CONFLICT \<Longrightarrow>
     \<exists>x. sc_reasons (compare_services rt l r leg) = [x]"
  by (auto simp: compare_services_def Let_def split: if_splits)

lemma label_reasons_info: "x \<in> set (label_reasons a b leg) \<Longrightarrow> r_severity x = Info"
  by (auto simp: label_reasons_def split: if_splits)

lemma compare_services_severity:
  "x \<in> set (sc_reasons (compare_services rt l r leg)) \<Longrightarrow>
     sc_agreement (compare_services rt l r leg) \<noteq> CONFLICT \<Longrightarrow> r_severity x = Info"
  by (auto simp: compare_services_def Let_def dest: label_reasons_info split: if_splits)

text \<open>A leading zero never makes two train numbers differ.\<close>

lemma number_text_digits:
  assumes "fold_text rt s = s" "py_isdigit s" "list_all is_decimal s"
  shows "number_text rt s = (let t = dropWhile (\<lambda>c. c = CHR ''0'') s in if t = [] then ''0'' else t)"
proof -
  have "\<not> is_separator c" if "is_decimal c" for c
    using that is_decimal_not_space [OF that] by (auto simp: is_separator_def is_decimal_def Let_def)
  then have "remove_class is_separator s = s"
    using assms(3) by (auto simp: remove_class_def list_all_iff intro!: filter_True)
  with assms show ?thesis by (simp add: number_text_def)
qed

lemma number_text_leading_zeros:
  assumes "\<And>t. list_all is_decimal t \<Longrightarrow> fold_text rt t = t"
    and "s \<noteq> []" "list_all is_decimal s"
  shows "number_text rt (replicate k (CHR ''0'') @ s) = number_text rt s"
proof -
  have zero: "is_decimal (CHR ''0'')" by (simp add: is_decimal_def)
  have "list_all is_decimal (replicate k (CHR ''0'') @ s)"
    using assms(3) zero by (auto simp: list_all_iff)
  moreover have "py_isdigit t" if "list_all is_decimal t" "t \<noteq> []" for t
    using that by (auto simp: py_isdigit_def list_all_iff is_digit_char_def)
  moreover have "dropWhile (\<lambda>c. c = CHR ''0'') (replicate k (CHR ''0'') @ s)
      = dropWhile (\<lambda>c. c = CHR ''0'') s"
    by (induction k) simp_all
  ultimately show ?thesis using assms by (simp add: number_text_digits)
qed

end
