(* ===== verification/Match_Profiles.thy ===== *)
theory Match_Profiles
  imports Canonical
begin

text \<open>
  Match profiles (\<open>app/journey/matching/profiles.py\<close>): the frozen settings of a comparison with
  their bounds, the three built-in ones, and \<open>profile_from_config\<close>, which lays platform settings
  over a built-in profile one by one. How pydantic reads a setting's value as a number is the
  argument \<open>pydantic_coerce\<close>; the bounds the fields declare are the model's.
\<close>

section \<open>The profile\<close>

datatype train_number_policy = Veto_always | Veto_unless_same_minutes | Penalty
datatype endpoint_policy = Allow | Reject

definition LOCAL_ACCESS_MODES :: "transport_mode list" where
  "LOCAL_ACCESS_MODES = [TRAM, BUS, SUBWAY, FERRY, CABLEWAY, FUNICULAR]"

record weights =
  w_time :: real
  w_station :: real
  w_route :: real
  w_service :: real
  w_transfers :: real
  w_operator :: real

definition default_weights :: weights where
  "default_weights = \<lparr>w_time = 30/100, w_station = 25/100, w_route = 15/100, w_service = 15/100,
     w_transfers = 10/100, w_operator = 5/100\<rparr>"

record match_profile =
  mp_name :: str
  departure_tolerance_s :: int
  arrival_tolerance_s :: int
  same_service_min :: real
  probable_min :: real
  train_number_conflict :: train_number_policy
  line_conflict_penalty :: real
  unresolved_endpoints :: endpoint_policy
  position_fallback_m :: int
  transfer_difference_s :: int
  local_access_modes :: "transport_mode list"
  use_route_aliases :: bool
  mp_weights :: weights

definition default_profile :: "str \<Rightarrow> match_profile" where
  "default_profile name =
     \<lparr>mp_name = name, departure_tolerance_s = 120, arrival_tolerance_s = 120,
      same_service_min = 90/100, probable_min = 75/100,
      train_number_conflict = Veto_unless_same_minutes, line_conflict_penalty = 10/100,
      unresolved_endpoints = Allow, position_fallback_m = 1000, transfer_difference_s = 300,
      local_access_modes = LOCAL_ACCESS_MODES, use_route_aliases = False,
      mp_weights = default_weights\<rparr>"

definition JOURNEY_REFERENCE :: match_profile where
  "JOURNEY_REFERENCE = (default_profile ''journey_reference'')\<lparr>unresolved_endpoints := Allow\<rparr>"

definition JOURNEY_ENGINES :: match_profile where
  "JOURNEY_ENGINES = (default_profile ''journey_engines'')\<lparr>departure_tolerance_s := 60,
     arrival_tolerance_s := 60, unresolved_endpoints := Allow\<rparr>"

definition COVERAGE_ALIGNMENT :: match_profile where
  "COVERAGE_ALIGNMENT = (default_profile ''coverage_alignment'')\<lparr>unresolved_endpoints := Reject\<rparr>"

definition BUILT_IN :: "(str \<times> match_profile) list" where
  "BUILT_IN = map (\<lambda>p. (mp_name p, p)) [JOURNEY_REFERENCE, JOURNEY_ENGINES, COVERAGE_ALIGNMENT]"

definition valid_weights :: "weights \<Rightarrow> bool" where
  "valid_weights w = (0 \<le> w_time w \<and> 0 \<le> w_station w \<and> 0 \<le> w_route w \<and> 0 \<le> w_service w
     \<and> 0 \<le> w_transfers w \<and> 0 \<le> w_operator w)"

definition valid_profile :: "match_profile \<Rightarrow> bool" where
  "valid_profile p = (mp_name p \<noteq> []
     \<and> 0 \<le> departure_tolerance_s p \<and> departure_tolerance_s p \<le> 1800
     \<and> 0 \<le> arrival_tolerance_s p \<and> arrival_tolerance_s p \<le> 1800
     \<and> unit_interval (same_service_min p) \<and> unit_interval (probable_min p)
     \<and> unit_interval (line_conflict_penalty p)
     \<and> 0 \<le> position_fallback_m p \<and> position_fallback_m p \<le> 5000
     \<and> 60 \<le> transfer_difference_s p \<and> transfer_difference_s p \<le> 3600
     \<and> valid_weights (mp_weights p))"

section \<open>Platform settings\<close>

datatype setting_value = SNone | SBool bool | SInt int | SFloat real | SStr str | SOther

record pydantic_coerce =
  co_int :: "setting_value \<Rightarrow> int option"
  co_float :: "setting_value \<Rightarrow> real option"

datatype profile_field = F_departure_tolerance_s | F_arrival_tolerance_s | F_same_service_min
  | F_probable_min | F_train_number_conflict | F_unresolved_endpoints | F_position_fallback_m
  | F_transfer_difference_s

definition SETTING_FIELDS :: "(str \<times> profile_field) list" where
  "SETTING_FIELDS = [
     (''DEPARTURE_TOLERANCE_S'', F_departure_tolerance_s),
     (''ARRIVAL_TOLERANCE_S'', F_arrival_tolerance_s),
     (''SAME_SERVICE_MIN_PCT'', F_same_service_min),
     (''PROBABLE_MIN_PCT'', F_probable_min),
     (''TRAIN_NUMBER_CONFLICT'', F_train_number_conflict),
     (''UNRESOLVED_ENDPOINTS'', F_unresolved_endpoints),
     (''POSITION_FALLBACK_M'', F_position_fallback_m),
     (''TRANSFER_DIFFERENCE_S'', F_transfer_difference_s)]"

definition PERCENT_FIELDS :: "profile_field list" where
  "PERCENT_FIELDS = [F_same_service_min, F_probable_min]"

definition settings_prefix :: "str \<Rightarrow> str" where
  "settings_prefix name =
     (if name = mp_name COVERAGE_ALIGNMENT then ''COVERAGE_MATCH_'' else ''JOURNEY_MATCH_'')"

definition policy_of_text :: "setting_value \<Rightarrow> train_number_policy option" where
  "policy_of_text v = (if v = SStr ''veto'' then Some Veto_always
     else if v = SStr ''veto_unless_same_minutes'' then Some Veto_unless_same_minutes
     else if v = SStr ''penalty'' then Some Penalty else None)"

definition endpoints_of_text :: "setting_value \<Rightarrow> endpoint_policy option" where
  "endpoints_of_text v = (if v = SStr ''allow'' then Some Allow
     else if v = SStr ''reject'' then Some Reject else None)"

definition bounded :: "'a::linorder \<Rightarrow> 'a \<Rightarrow> 'a option \<Rightarrow> 'a option" where
  "bounded lo hi x = (case x of None \<Rightarrow> None | Some v \<Rightarrow> if lo \<le> v \<and> v \<le> hi then Some v else None)"

text \<open>
  \<open>MatchProfile.model_validate({**profile.model_dump(), field: value})\<close>: the profile with the
  field set, \<open>None\<close> for a \<open>ValidationError\<close>. The other fields come from a valid profile.
\<close>

definition with_field :: "pydantic_coerce \<Rightarrow> match_profile \<Rightarrow> profile_field \<Rightarrow> setting_value \<Rightarrow> match_profile option" where
  "with_field pyd p f v = (case f of
       F_departure_tolerance_s \<Rightarrow> map_option (\<lambda>n. p\<lparr>departure_tolerance_s := n\<rparr>) (bounded 0 1800 (co_int pyd v))
     | F_arrival_tolerance_s \<Rightarrow> map_option (\<lambda>n. p\<lparr>arrival_tolerance_s := n\<rparr>) (bounded 0 1800 (co_int pyd v))
     | F_same_service_min \<Rightarrow> map_option (\<lambda>x. p\<lparr>same_service_min := x\<rparr>) (bounded 0 1 (co_float pyd v))
     | F_probable_min \<Rightarrow> map_option (\<lambda>x. p\<lparr>probable_min := x\<rparr>) (bounded 0 1 (co_float pyd v))
     | F_train_number_conflict \<Rightarrow> map_option (\<lambda>x. p\<lparr>train_number_conflict := x\<rparr>) (policy_of_text v)
     | F_unresolved_endpoints \<Rightarrow> map_option (\<lambda>x. p\<lparr>unresolved_endpoints := x\<rparr>) (endpoints_of_text v)
     | F_position_fallback_m \<Rightarrow> map_option (\<lambda>n. p\<lparr>position_fallback_m := n\<rparr>) (bounded 0 5000 (co_int pyd v))
     | F_transfer_difference_s \<Rightarrow> map_option (\<lambda>n. p\<lparr>transfer_difference_s := n\<rparr>) (bounded 60 3600 (co_int pyd v)))"

definition percent_value :: "profile_field \<Rightarrow> setting_value \<Rightarrow> setting_value" where
  "percent_value f v =
     (if f \<in> set PERCENT_FIELDS
      then (case v of SInt n \<Rightarrow> SFloat (real_of_int n / 100) | SFloat x \<Rightarrow> SFloat (x / 100) | _ \<Rightarrow> v)
      else v)"

definition overlay_setting ::
  "pydantic_coerce \<Rightarrow> (str \<rightharpoonup> setting_value) \<Rightarrow> str \<Rightarrow> match_profile \<Rightarrow> str \<times> profile_field \<Rightarrow> match_profile" where
  "overlay_setting pyd values pre profile sf =
     (case values (pre @ fst sf) of
        None \<Rightarrow> profile
      | Some v \<Rightarrow>
          (if v = SNone then profile
           else (case with_field pyd profile (snd sf) (percent_value (snd sf) v) of
                   None \<Rightarrow> profile
                 | Some profile' \<Rightarrow> profile')))"

definition profile_from_config ::
  "pydantic_coerce \<Rightarrow> (str \<rightharpoonup> setting_value) \<Rightarrow> str \<Rightarrow> py_error + match_profile" where
  "profile_from_config pyd values name =
     (case map_of BUILT_IN name of
        None \<Rightarrow> Inl KeyError
      | Some profile \<Rightarrow>
          Inr (foldl (overlay_setting pyd values (settings_prefix name)) profile SETTING_FIELDS))"

section \<open>Lemmas\<close>

lemmas built_in_defs = JOURNEY_REFERENCE_def JOURNEY_ENGINES_def COVERAGE_ALIGNMENT_def
  default_profile_def default_weights_def

lemma bounded_Some: "bounded lo hi x = Some v \<Longrightarrow> lo \<le> v \<and> v \<le> hi"
  by (auto simp: bounded_def split: option.splits if_splits)

lemma valid_built_in: "map_of BUILT_IN name = Some p \<Longrightarrow> valid_profile p \<and> mp_name p = name"
  by (auto simp: BUILT_IN_def valid_profile_def valid_weights_def built_in_defs unit_interval_def
      split: if_splits)

lemma with_field_valid:
  "valid_profile p \<Longrightarrow> with_field pyd p f v = Some q \<Longrightarrow> valid_profile q"
  by (cases f) (auto simp: with_field_def valid_profile_def unit_interval_def dest: bounded_Some)

text \<open>What no setting can change.\<close>

definition profile_frame :: "match_profile \<Rightarrow> str \<times> real \<times> transport_mode list \<times> bool \<times> weights" where
  "profile_frame p = (mp_name p, line_conflict_penalty p, local_access_modes p, use_route_aliases p, mp_weights p)"

lemma with_field_frame: "with_field pyd p f v = Some q \<Longrightarrow> profile_frame q = profile_frame p"
  by (cases f) (auto simp: with_field_def profile_frame_def)

lemma overlay_setting_valid:
  "valid_profile p \<Longrightarrow> valid_profile (overlay_setting pyd values pre p sf)"
  by (auto simp: overlay_setting_def intro: with_field_valid split: option.splits)

lemma overlay_setting_frame: "profile_frame (overlay_setting pyd values pre p sf) = profile_frame p"
  by (auto simp: overlay_setting_def with_field_frame split: option.splits)

lemma foldl_overlay:
  "valid_profile p \<Longrightarrow> valid_profile (foldl (overlay_setting pyd values pre) p sfs)
     \<and> profile_frame (foldl (overlay_setting pyd values pre) p sfs) = profile_frame p"
  by (induction sfs arbitrary: p) (auto simp: overlay_setting_valid overlay_setting_frame)

end
