(* ===== verification/Match_Spines.thy ===== *)
theory Match_Spines
  imports Match_Identifiers Match_Profiles
begin

text \<open>
  The rides the engine compares (\<open>app/journey/matching/spines.py\<close>): a journey's timed legs with
  their place, M10's trimming of local access rides, and the two matches the alignments run under.
  \<open>aligned\<close> itself is in \<open>Lcs_Alignment\<close>.

  \<open>Ride.service\<close> is the leg's service, asserted to be there; \<open>rides_of\<close> keeps the legs that have
  one, so a ride of the model holds it (\<open>ride_service\<close>, \<open>rides_of_service\<close>).
\<close>

section \<open>Rides\<close>

record ride =
  ride_index :: nat
  ride_leg :: canonical_leg
  ride_service :: canonical_service

definition ride_mode :: "ride \<Rightarrow> transport_mode" where
  "ride_mode r = sv_mode (ride_service r)"

definition ride_departure :: "ride \<Rightarrow> instant option" where
  "ride_departure r = map_option timetabled (leg_departure (ride_leg r))"

definition ride_arrival :: "ride \<Rightarrow> instant option" where
  "ride_arrival r = map_option timetabled (leg_arrival (ride_leg r))"

fun timed_services :: "canonical_leg list \<Rightarrow> (canonical_leg \<times> canonical_service) list" where
  "timed_services [] = []"
| "timed_services (leg # legs) =
     (if is_timed leg
      then (case leg_service leg of None \<Rightarrow> timed_services legs | Some s \<Rightarrow> (leg, s) # timed_services legs)
      else timed_services legs)"

definition rides_of :: "canonical_journey \<Rightarrow> ride list" where
  "rides_of j = map (\<lambda>(i, (leg, s)). \<lparr>ride_index = i, ride_leg = leg, ride_service = s\<rparr>)
                  (py_enumerate (timed_services (j_legs j)))"

definition seconds_between :: "instant option \<Rightarrow> instant option \<Rightarrow> int option" where
  "seconds_between a b = (case (a, b) of (Some x, Some y) \<Rightarrow> Some (whole_seconds (y - x)) | _ \<Rightarrow> None)"

definition within_s :: "instant option \<Rightarrow> instant option \<Rightarrow> int \<Rightarrow> bool" where
  "within_s a b tolerance_s = (case seconds_between a b of None \<Rightarrow> False | Some d \<Rightarrow> \<bar>d\<bar> \<le> tolerance_s)"

definition same_minutes :: "ride \<Rightarrow> ride \<Rightarrow> bool" where
  "same_minutes a b =
     (case (ride_departure a, ride_departure b, ride_arrival a, ride_arrival b) of
        (Some da, Some db, Some aa, Some ab) \<Rightarrow> minute_of da = minute_of db \<and> minute_of aa = minute_of ab
      | _ \<Rightarrow> False)"

definition times_agree :: "match_profile \<Rightarrow> ride \<Rightarrow> ride \<Rightarrow> bool" where
  "times_agree p a b = (within_s (ride_departure a) (ride_departure b) (departure_tolerance_s p)
     \<and> within_s (ride_arrival a) (ride_arrival b) (arrival_tolerance_s p))"

definition route_match :: "ride \<Rightarrow> ride \<Rightarrow> bool" where
  "route_match a b = (ride_mode a = ride_mode b
     \<and> \<not> conflict (compare_stations (leg_origin (ride_leg a)) (leg_origin (ride_leg b)))
     \<and> \<not> conflict (compare_stations (leg_destination (ride_leg a)) (leg_destination (ride_leg b))))"

definition ride_match :: "match_profile \<Rightarrow> ride \<Rightarrow> ride \<Rightarrow> bool" where
  "ride_match p a b = (route_match a b \<and> times_agree p a b)"

section \<open>M10: local access rides\<close>

record trimmed =
  t_left :: "ride list"
  t_right :: "ride list"
  left_out_left :: "nat list"
  left_out_right :: "nat list"

definition local_ride :: "match_profile \<Rightarrow> ride \<Rightarrow> bool" where
  "local_ride p r = (ride_mode r \<in> set (local_access_modes p))"

definition trim_one_end :: "match_profile \<Rightarrow> bool \<Rightarrow> ride list \<Rightarrow> ride list \<Rightarrow> ride list \<times> nat option" where
  "trim_one_end p leading rides other =
     (if length rides < 2 \<or> other = [] then (rides, None)
      else (let r = (if leading then hd rides else last rides);
                edge = (if leading then hd other else last other);
                gap = (if leading then seconds_between (ride_arrival r) (ride_departure edge)
                       else seconds_between (ride_arrival edge) (ride_departure r))
            in if \<not> local_ride p r then (rides, None)
               else if (case gap of None \<Rightarrow> True | Some g \<Rightarrow> g < - departure_tolerance_s p)
               then (rides, None)
               else if route_match r edge \<and> times_agree p r edge then (rides, None)
               else (if leading then tl rides else butlast rides, Some (ride_index r))))"

definition opt_list :: "'a option \<Rightarrow> 'a list" where
  "opt_list x = (case x of None \<Rightarrow> [] | Some v \<Rightarrow> [v])"

definition trim_local_access :: "ride list \<Rightarrow> ride list \<Rightarrow> match_profile \<Rightarrow> trimmed" where
  "trim_local_access left right p =
     (let (left1, cut_l1) = trim_one_end p True left right;
          (right1, cut_r1) = trim_one_end p True right left1;
          (left2, cut_l2) = trim_one_end p False left1 right1;
          (right2, cut_r2) = trim_one_end p False right1 left2
      in \<lparr>t_left = left2, t_right = right2,
          left_out_left = sort (opt_list cut_l1 @ opt_list cut_l2),
          left_out_right = sort (opt_list cut_r1 @ opt_list cut_r2)\<rparr>)"

section \<open>Rides of a journey\<close>

lemma timed_services_eq:
  "list_all valid_leg legs \<Longrightarrow> map fst (timed_services legs) = filter is_timed legs"
  by (induction legs) (auto simp: valid_leg_timed split: option.splits)

lemma timed_services_mem:
  "(leg, s) \<in> set (timed_services legs) \<Longrightarrow> leg \<in> set legs \<and> is_timed leg \<and> leg_service leg = Some s"
  by (induction legs) (auto split: option.splits if_splits)

lemma rides_of_nth:
  "i < length (rides_of j) \<Longrightarrow> rides_of j ! i =
     \<lparr>ride_index = i, ride_leg = fst (timed_services (j_legs j) ! i),
      ride_service = snd (timed_services (j_legs j) ! i)\<rparr>"
  by (simp add: rides_of_def case_prod_beta)

lemma ride_indices: "map ride_index (rides_of j) = [0..<length (rides_of j)]"
  by (rule nth_equalityI) (simp_all add: rides_of_nth)

lemma rides_of_service:
  assumes "r \<in> set (rides_of j)"
  shows "ride_leg r \<in> set (j_legs j)" "is_timed (ride_leg r)" "leg_service (ride_leg r) = Some (ride_service r)"
proof -
  obtain i where i: "i < length (rides_of j)" "r = rides_of j ! i" using assms by (metis in_set_conv_nth)
  have "timed_services (j_legs j) ! i \<in> set (timed_services (j_legs j))"
    using i by (simp add: rides_of_def)
  then have "(ride_leg r, ride_service r) \<in> set (timed_services (j_legs j))"
    using i by (simp add: rides_of_nth)
  from timed_services_mem [OF this] show "ride_leg r \<in> set (j_legs j)" "is_timed (ride_leg r)"
    "leg_service (ride_leg r) = Some (ride_service r)" by auto
qed

lemma map_ride_leg: "map ride_leg (rides_of j) = map fst (timed_services (j_legs j))"
  by (rule nth_equalityI) (simp_all add: rides_of_def case_prod_beta)

lemma rides_of_legs: "valid_journey j \<Longrightarrow> map ride_leg (rides_of j) = timed_legs j"
  by (simp add: map_ride_leg timed_services_eq timed_legs_def valid_journey_def)

lemma rides_of_empty: "valid_journey j \<Longrightarrow> rides_of j = [] \<longleftrightarrow> timed_legs j = []"
  using rides_of_legs by fastforce

section \<open>Symmetry\<close>

lemma whole_seconds_minus: "whole_seconds (- x) = - whole_seconds x"
  by (auto simp: whole_seconds_def)

lemma seconds_between_swap: "seconds_between b a = map_option uminus (seconds_between a b)"
  using whole_seconds_minus by (auto simp: seconds_between_def split: option.splits) (metis minus_diff_eq)

lemma seconds_between_None: "seconds_between a b = None \<longleftrightarrow> a = None \<or> b = None"
  by (auto simp: seconds_between_def split: option.splits)

lemma within_s_sym: "within_s a b t \<longleftrightarrow> within_s b a t"
  by (simp add: within_s_def seconds_between_swap [of b a] split: option.splits)

lemma times_agree_sym: "times_agree p a b \<longleftrightarrow> times_agree p b a"
  by (simp add: times_agree_def within_s_sym)

lemma route_match_sym: "route_match a b \<longleftrightarrow> route_match b a"
  by (auto simp: route_match_def compare_stations_sym)

lemma ride_match_sym: "ride_match p a b \<longleftrightarrow> ride_match p b a"
  by (simp add: ride_match_def route_match_sym times_agree_sym)

section \<open>What trimming leaves out\<close>

text \<open>
  One end: the rides split into a cut part of at most one ride, local when there is one, and the
  kept part, which is not empty when the rides were not.
\<close>

lemma trim_one_end_cases:
  assumes "trim_one_end p leading rides other = (kept, gone)"
  obtains (kept) "kept = rides" "gone = None"
  | (lead) r where "leading" "rides = r # kept" "gone = Some (ride_index r)" "local_ride p r" "kept \<noteq> []"
  | (trail) r where "\<not> leading" "rides = kept @ [r]" "gone = Some (ride_index r)" "local_ride p r" "kept \<noteq> []"
proof (cases "gone")
  case None
  with assms that(1) show ?thesis
    by (auto simp: trim_one_end_def Let_def split: if_splits)
next
  case (Some i)
  then have two: "2 \<le> length rides"
    and r: "local_ride p (if leading then hd rides else last rides)"
      "i = ride_index (if leading then hd rides else last rides)"
      "kept = (if leading then tl rides else butlast rides)"
    using assms by (auto simp: trim_one_end_def Let_def split: if_splits)
  show ?thesis
  proof (cases leading)
    case True
    with two r Some that(2) [of "hd rides"] show ?thesis by (cases rides; cases kept) auto
  next
    case False
    with two r Some that(3) [of "last rides"] show ?thesis by (cases rides rule: rev_cases; cases kept) auto
  qed
qed

text \<open>Both ends of one side, the other side standing for whatever it was at each step.\<close>

definition trim_split :: "match_profile \<Rightarrow> ride list \<Rightarrow> ride list \<Rightarrow> nat list \<Rightarrow> bool" where
  "trim_split p rides kept out = (\<exists>pre post. rides = pre @ kept @ post \<and> length pre \<le> 1 \<and> length post \<le> 1
     \<and> (\<forall>r \<in> set (pre @ post). local_ride p r) \<and> out = sort (map ride_index (pre @ post))
     \<and> (rides \<noteq> [] \<longrightarrow> kept \<noteq> []))"

lemma trim_two_ends:
  assumes "trim_one_end p True rides o1 = (r1, c1)" "trim_one_end p False r1 o2 = (r2, c2)"
  shows "trim_split p rides r2 (sort (opt_list c1 @ opt_list c2))"
proof -
  obtain pre where pre: "rides = pre @ r1" "length pre \<le> 1" "\<forall>r \<in> set pre. local_ride p r"
    "opt_list c1 = map ride_index pre" "rides \<noteq> [] \<longrightarrow> r1 \<noteq> []"
    using assms(1)
  proof (cases rule: trim_one_end_cases)
    case kept
    then show ?thesis using that [of "[]"] by (simp add: opt_list_def)
  next
    case (lead r)
    then show ?thesis using that [of "[r]"] by (simp add: opt_list_def)
  qed simp
  obtain post where post: "r1 = r2 @ post" "length post \<le> 1" "\<forall>r \<in> set post. local_ride p r"
    "opt_list c2 = map ride_index post" "r1 \<noteq> [] \<longrightarrow> r2 \<noteq> []"
    using assms(2)
  proof (cases rule: trim_one_end_cases)
    case kept
    then show ?thesis using that [of "[]"] by (simp add: opt_list_def)
  next
    case (trail r)
    then show ?thesis using that [of "[r]"] by (simp add: opt_list_def)
  qed simp
  have "rides = pre @ r2 @ post" using pre(1) post(1) by simp
  moreover have "\<forall>r \<in> set (pre @ post). local_ride p r" using pre(3) post(3) by auto
  moreover have "opt_list c1 @ opt_list c2 = map ride_index (pre @ post)" using pre(4) post(4) by simp
  moreover have "rides \<noteq> [] \<longrightarrow> r2 \<noteq> []" using pre(5) post(5) by blast
  ultimately show ?thesis unfolding trim_split_def using pre(2) post(2) by metis
qed

lemma trim_local_access_split:
  "trim_split p left (t_left (trim_local_access left right p)) (left_out_left (trim_local_access left right p))"
  "trim_split p right (t_right (trim_local_access left right p)) (left_out_right (trim_local_access left right p))"
proof -
  obtain l1 cl1 where 1: "trim_one_end p True left right = (l1, cl1)" by fastforce
  obtain r1 cr1 where 2: "trim_one_end p True right l1 = (r1, cr1)" by fastforce
  obtain l2 cl2 where 3: "trim_one_end p False l1 r1 = (l2, cl2)" by fastforce
  obtain r2 cr2 where 4: "trim_one_end p False r1 l2 = (r2, cr2)" by fastforce
  have t: "trim_local_access left right p = \<lparr>t_left = l2, t_right = r2,
      left_out_left = sort (opt_list cl1 @ opt_list cl2), left_out_right = sort (opt_list cr1 @ opt_list cr2)\<rparr>"
    by (simp add: trim_local_access_def 1 2 3 4)
  show "trim_split p left (t_left (trim_local_access left right p)) (left_out_left (trim_local_access left right p))"
    using trim_two_ends [OF 1 3] by (simp add: t)
  show "trim_split p right (t_right (trim_local_access left right p)) (left_out_right (trim_local_access left right p))"
    using trim_two_ends [OF 2 4] by (simp add: t)
qed

lemma trim_split_nonempty: "trim_split p rides kept out \<Longrightarrow> kept = [] \<longleftrightarrow> rides = []"
  by (auto simp: trim_split_def)

lemma trim_split_subset: "trim_split p rides kept out \<Longrightarrow> set kept \<subseteq> set rides"
  by (auto simp: trim_split_def)

end
