(* ===== verification/Match_Features.thy ===== *)
theory Match_Features
  imports Match_Spines
begin

text \<open>
  The features of one pair (\<open>app/journey/matching/features.py\<close>): \<open>analyse\<close> trims and aligns the
  rides of the two journeys and computes everything the gates and the score read. It raises
  \<open>IndexError\<close> when a side has no ride, and \<open>JourneyMatchFeatures\<close> refuses a share outside [0, 1];
  \<open>analyse_Inr\<close> shows that only the first can happen.
\<close>

section \<open>Operators\<close>

definition LEGAL_FORMS :: "str list" where
  "LEGAL_FORMS = [''ag'', ''gmbh'', ''sa'', ''s.p.a.'', ''spa'', ''se'', ''ltd'', ''plc'', ''bv'', ''nv'',
     ''as'', ''ab'', ''oy'']"

text \<open>\<open>\b\<close> between two characters, \<open>None\<close> for an end of the text.\<close>

definition boundary :: "char option \<Rightarrow> char option \<Rightarrow> bool" where
  "boundary a b = ((opt_all is_word_char a \<and> a \<noteq> None) \<noteq> (opt_all is_word_char b \<and> b \<noteq> None))"

definition first_char :: "str \<Rightarrow> char option" where
  "first_char s = (case s of [] \<Rightarrow> None | c # _ \<Rightarrow> Some c)"

text \<open>
  The length of \<open>\b(?:ag|...)\b\.?\<close> at a place, where \<open>before\<close> is the character in front of it:
  the first alternative that ends at a word boundary, and a full stop after it.
\<close>

definition legal_form_at :: "char option \<Rightarrow> str \<Rightarrow> nat option" where
  "legal_form_at before s =
     (if \<not> boundary before (first_char s) then None
      else (case find (\<lambda>a. starts_with s a \<and> boundary (Some (last a)) (first_char (drop (length a) s))) LEGAL_FORMS of
              None \<Rightarrow> None
            | Some a \<Rightarrow> Some (length a + (if first_char (drop (length a) s) = Some (CHR ''.'') then 1 else 0))))"

function sub_legal_forms :: "char option \<Rightarrow> str \<Rightarrow> str" where
  "sub_legal_forms before [] = []"
| "sub_legal_forms before (c # cs) =
     (case legal_form_at before (c # cs) of
        None \<Rightarrow> c # sub_legal_forms (Some c) cs
      | Some n \<Rightarrow> CHR '' '' # sub_legal_forms (Some ((c # cs) ! (n - 1))) (drop (n - 1) cs))"
  by pat_completeness auto
termination
  by (relation "measure (\<lambda>(b, s). length s)") auto

definition drop_delfi_prefix :: "str \<Rightarrow> str" where
  "drop_delfi_prefix s =
     (let digits = takeWhile is_decimal s; rest = dropWhile is_decimal s;
          after = dropWhile (\<lambda>c. c = CHR ''_'') rest
      in if digits \<noteq> [] \<and> rest \<noteq> [] \<and> hd rest = CHR ''_'' then dropWhile is_space after else s)"

definition operator_name :: "runtime \<Rightarrow> str option \<Rightarrow> str option" where
  "operator_name rt name =
     (if \<not> truthy name then None
      else (let folded = fold_text rt (or_empty name);
                folded = drop_delfi_prefix folded;
                folded = sub_legal_forms None folded;
                ws = py_split (map (\<lambda>c. if is_word_char c then c else CHR '' '') folded)
            in none_if_empty (py_join '' '' ws)))"

definition operators :: "runtime \<Rightarrow> ride list \<Rightarrow> str set" where
  "operators rt rides =
     set (List.map_filter (\<lambda>r. operator_name rt (case sv_operator (ride_service r) of
            None \<Rightarrow> None | Some op \<Rightarrow> op_name op)) rides)"

section \<open>Overlaps\<close>

record aligned_ride =
  ar_left :: ride
  ar_right :: ride
  ar_service :: service_comparison

record journey_match_features =
  departure_delta :: "int option"
  arrival_delta :: "int option"
  duration_delta :: "int option"
  transfer_count_delta :: int
  station_overlap :: "real option"
  operator_overlap :: "real option"
  service_overlap :: "real option"
  route_overlap :: "real option"
  fingerprint_similarity :: real

definition valid_features :: "journey_match_features \<Rightarrow> bool" where
  "valid_features f = (unit_option (station_overlap f) \<and> unit_option (operator_overlap f)
     \<and> unit_option (service_overlap f) \<and> unit_option (route_overlap f)
     \<and> unit_interval (fingerprint_similarity f))"

record pair_analysis =
  pa_trimmed :: trimmed
  pa_rides :: "aligned_ride list"
  pa_route_pairs :: nat
  pa_first_station :: station_agreement
  pa_last_station :: station_agreement
  pa_station_notes :: "(nat \<times> reason_code) list"
  pa_features :: journey_match_features

abbreviation pa_left :: "pair_analysis \<Rightarrow> ride list" where
  "pa_left a \<equiv> t_left (pa_trimmed a)"

abbreviation pa_right :: "pair_analysis \<Rightarrow> ride list" where
  "pa_right a \<equiv> t_right (pa_trimmed a)"

definition end_agreement :: "canonical_location \<Rightarrow> canonical_location \<Rightarrow> bool \<Rightarrow> match_profile \<Rightarrow> station_agreement" where
  "end_agreement a b times_ok p =
     (let found = compare_stations a b
      in if times_ok then with_position_fallback found a b (position_fallback_m p) else found)"

definition overlap :: "station_agreement list \<Rightarrow> real option" where
  "overlap agreements =
     (let comparable = filter (\<lambda>s. sa_agreement s \<noteq> UNKNOWN) agreements
      in if comparable = [] then None
         else (let agreeing = length (filter (\<lambda>s. sa_agreement s = AGREE) comparable)
               in Some (py_round 4 (real agreeing / real (length comparable)))))"

definition service_values :: "aligned_ride list \<Rightarrow> real list" where
  "service_values rides = List.map_filter (\<lambda>r.
     if sc_agreement (ar_service r) = AGREE then Some 1
     else if sc_agreement (ar_service r) = CONFLICT \<and> sc_kind (ar_service r) = Some Number then Some 0
     else None) rides"

definition service_overlap_of :: "aligned_ride list \<Rightarrow> real option" where
  "service_overlap_of rides =
     (let values = service_values rides
      in if values = [] then None else Some (py_round 4 (sum_list values / real (length values))))"

definition end_rides_agree :: "ride \<Rightarrow> ride \<Rightarrow> match_profile \<Rightarrow> bool" where
  "end_rides_agree a b p = (ride_mode a = ride_mode b \<and> times_agree p a b)"

definition inner_ends :: "trimmed \<Rightarrow> aligned_ride \<Rightarrow> (canonical_location \<times> canonical_location) list" where
  "inner_ends t r =
     (if (ar_left r, ar_right r) \<noteq> (hd (t_left t), hd (t_right t))
      then [(leg_origin (ride_leg (ar_left r)), leg_origin (ride_leg (ar_right r)))] else []) @
     (if (ar_left r, ar_right r) \<noteq> (last (t_left t), last (t_right t))
      then [(leg_destination (ride_leg (ar_left r)), leg_destination (ride_leg (ar_right r)))] else [])"

definition inner_agreements ::
  "aligned_ride list \<Rightarrow> trimmed \<Rightarrow> match_profile \<Rightarrow> station_agreement list \<times> (nat \<times> reason_code) list" where
  "inner_agreements rides t p =
     (let found = concat (map (\<lambda>r. map (\<lambda>(l, r'). (ride_index (ar_left r), end_agreement l r' True p)) (inner_ends t r)) rides)
      in (map snd found,
          List.map_filter (\<lambda>(i, s). map_option (\<lambda>note. (i, note)) (sa_note s)) found))"

section \<open>The analysis\<close>

definition analyse ::
  "runtime \<Rightarrow> canonical_journey \<Rightarrow> canonical_journey \<Rightarrow> match_profile \<Rightarrow> py_error + pair_analysis" where
  "analyse rt left right p =
     (let t = trim_local_access (rides_of left) (rides_of right) p;
          l_rides = t_left t; r_rides = t_right t;
          pairs = aligned l_rides r_rides (ride_match p);
          rides = map (\<lambda>(a, b). \<lparr>ar_left = a, ar_right = b, ar_service =
                     compare_services rt (ride_service a) (ride_service b) (Some (ride_index a))\<rparr>) pairs
      in if l_rides = [] \<or> r_rides = [] then Inl IndexError
         else (let
            first_l = hd l_rides; first_r = hd r_rides; last_l = last l_rides; last_r = last r_rides;
            first_station = end_agreement (leg_origin (ride_leg first_l)) (leg_origin (ride_leg first_r))
                              (end_rides_agree first_l first_r p) p;
            last_station = end_agreement (leg_destination (ride_leg last_l)) (leg_destination (ride_leg last_r))
                              (end_rides_agree last_l last_r p) p;
            (inner, inner_notes) = inner_agreements rides t p;
            agreements = [first_station, last_station] @ inner;
            notes = List.map_filter (\<lambda>(i, s). map_option (\<lambda>note. (i, note)) (sa_note s))
                      [(ride_index first_l, first_station), (ride_index last_l, last_station)] @ inner_notes;
            route_pairs = length (aligned l_rides r_rides route_match);
            l_ops = operators rt l_rides; r_ops = operators rt r_rides;
            tolerance = max (departure_tolerance_s p) (arrival_tolerance_s p);
            l_span = seconds_between (ride_departure first_l) (ride_arrival last_l);
            r_span = seconds_between (ride_departure first_r) (ride_arrival last_r);
            features =
              \<lparr>departure_delta = seconds_between (ride_departure first_l) (ride_departure first_r),
               arrival_delta = seconds_between (ride_arrival last_l) (ride_arrival last_r),
               duration_delta = (case (l_span, r_span) of (Some l, Some r) \<Rightarrow> Some (r - l) | _ \<Rightarrow> None),
               transfer_count_delta = (int (length r_rides) - 1) - (int (length l_rides) - 1),
               station_overlap = overlap agreements,
               operator_overlap = (if l_ops \<noteq> {} \<and> r_ops \<noteq> {}
                 then Some (py_round 4 (real (card (l_ops \<inter> r_ops)) / real (card (l_ops \<union> r_ops)))) else None),
               service_overlap = service_overlap_of rides,
               route_overlap = Some (py_round 4 (real route_pairs / real (max (length l_rides) (length r_rides)))),
               fingerprint_similarity = similarity (fingerprint_of left) (fingerprint_of right) tolerance\<rparr>
          in if \<not> valid_features features then Inl (ValidationError ''JourneyMatchFeatures'')
             else Inr \<lparr>pa_trimmed = t, pa_rides = rides, pa_route_pairs = route_pairs,
                      pa_first_station = first_station, pa_last_station = last_station,
                      pa_station_notes = dedup notes, pa_features = features\<rparr>))"

section \<open>Every share is between 0 and 1\<close>

lemma unit_overlap [bounds_intros]: "unit_option (overlap xs)"
proof -
  have "length (filter (\<lambda>s. sa_agreement s = AGREE) ys) \<le> length ys" for ys :: "station_agreement list"
    by simp
  then show ?thesis by (auto simp: overlap_def Let_def intro!: bounds_intros simp del: filter_filter)
qed

lemma unit_service_overlap [bounds_intros]: "unit_option (service_overlap_of rides)"
proof -
  have "\<forall>v \<in> set (service_values rides). unit_interval v"
    by (auto simp: service_values_def map_filter_def unit_interval_def)
  then show ?thesis by (auto simp: service_overlap_of_def Let_def intro!: bounds_intros)
qed

lemma finite_operators [simp]: "finite (operators rt rides)"
  by (simp add: operators_def)

lemma unit_jaccard [bounds_intros]:
  "finite A \<Longrightarrow> finite B \<Longrightarrow> unit_interval (real (card (A \<inter> B)) / real (card (A \<union> B)))"
  by (rule unit_ratio, rule card_mono) auto

lemma unit_route_overlap [bounds_intros]:
  "unit_interval (real (length (aligned l r route_match)) / real (max (length l) (length r)))"
  by (rule unit_ratio [OF weighed.length_le_max])

lemma analyse_rides_empty:
  "t_left (trim_local_access (rides_of l) (rides_of r) p) = [] \<longleftrightarrow> rides_of l = []"
  "t_right (trim_local_access (rides_of l) (rides_of r) p) = [] \<longleftrightarrow> rides_of r = []"
  by (rule trim_split_nonempty [OF trim_local_access_split(1)],
      rule trim_split_nonempty [OF trim_local_access_split(2)])

lemma analyse_Inl: "rides_of l = [] \<or> rides_of r = [] \<Longrightarrow> analyse rt l r p = Inl IndexError"
  by (simp add: analyse_def Let_def analyse_rides_empty)

lemma analyse_Inr:
  assumes "rides_of l \<noteq> []" "rides_of r \<noteq> []"
  shows "\<exists>a. analyse rt l r p = Inr a"
  using assms
  by (simp add: analyse_def Let_def analyse_rides_empty valid_features_def case_prod_beta
      bounds_intros similarity_unit)

text \<open>What an analysis is made of: the facts the gates and the score need.\<close>

definition analysis_ok :: "match_profile \<Rightarrow> canonical_journey \<Rightarrow> canonical_journey \<Rightarrow> pair_analysis \<Rightarrow> bool" where
  "analysis_ok p l r a =
     (pa_left a \<noteq> [] \<and> pa_right a \<noteq> [] \<and> valid_features (pa_features a)
      \<and> trim_split p (rides_of l) (pa_left a) (left_out_left (pa_trimmed a))
      \<and> trim_split p (rides_of r) (pa_right a) (left_out_right (pa_trimmed a))
      \<and> departure_delta (pa_features a) =
          seconds_between (ride_departure (hd (pa_left a))) (ride_departure (hd (pa_right a)))
      \<and> arrival_delta (pa_features a) =
          seconds_between (ride_arrival (last (pa_left a))) (ride_arrival (last (pa_right a)))
      \<and> transfer_count_delta (pa_features a) = int (length (pa_right a)) - int (length (pa_left a))
      \<and> (\<forall>x \<in> set (pa_rides a). ar_left x \<in> set (pa_left a) \<and> ar_right x \<in> set (pa_right a)
            \<and> ride_match p (ar_left x) (ar_right x)))"

lemma analyse_trimmed:
  assumes "analyse rt l r p = Inr a"
  shows "pa_trimmed a = trim_local_access (rides_of l) (rides_of r) p"
    "pa_rides a = map (\<lambda>(x, y). \<lparr>ar_left = x, ar_right = y, ar_service =
        compare_services rt (ride_service x) (ride_service y) (Some (ride_index x))\<rparr>)
        (aligned (pa_left a) (pa_right a) (ride_match p))"
    "valid_features (pa_features a)" "pa_left a \<noteq> []" "pa_right a \<noteq> []"
    "departure_delta (pa_features a) =
       seconds_between (ride_departure (hd (pa_left a))) (ride_departure (hd (pa_right a)))"
    "arrival_delta (pa_features a) =
       seconds_between (ride_arrival (last (pa_left a))) (ride_arrival (last (pa_right a)))"
    "transfer_count_delta (pa_features a) = int (length (pa_right a)) - int (length (pa_left a))"
    "pa_first_station a = end_agreement (leg_origin (ride_leg (hd (pa_left a)))) (leg_origin (ride_leg (hd (pa_right a))))
       (end_rides_agree (hd (pa_left a)) (hd (pa_right a)) p) p"
    "pa_last_station a = end_agreement (leg_destination (ride_leg (last (pa_left a)))) (leg_destination (ride_leg (last (pa_right a))))
       (end_rides_agree (last (pa_left a)) (last (pa_right a)) p) p"
  using assms by (auto simp: analyse_def Let_def case_prod_beta split: if_splits)

lemma analysis_ok_analyse:
  assumes "analyse rt l r p = Inr a"
  shows "analysis_ok p l r a"
proof -
  note f = analyse_trimmed [OF assms]
  have "ar_left x \<in> set (pa_left a) \<and> ar_right x \<in> set (pa_right a) \<and> ride_match p (ar_left x) (ar_right x)"
    if "x \<in> set (pa_rides a)" for x
    using that weighed.pair_matches weighed.pair_left weighed.pair_right by (fastforce simp: f(2))
  then show ?thesis
    unfolding analysis_ok_def using f trim_local_access_split(1) [of p "rides_of l" "rides_of r"]
      trim_local_access_split(2) [of p "rides_of r" "rides_of l"] by simp
qed

end
