(* ===== verification/Match_Scoring.thy ===== *)
theory Match_Scoring
  imports Match_Features
begin

text \<open>
  Gates, score and verdict of one pair (\<open>app/journey/matching/scoring.py\<close>), and M8's account of a
  split. \<open>assess_passed\<close> says exactly which analyses pass; the other lemmas bound the score, order
  the reasons and tie the verdict to them.
\<close>

section \<open>Reasons in order\<close>

definition ordered :: "match_reason list \<Rightarrow> match_reason list" where
  "ordered found = sort_key (\<lambda>item. SEVERITY_RANK (r_severity item)) (dedup found)"

record assessment =
  as_passed :: bool
  as_score :: real
  as_verdict :: match_verdict
  as_exact :: bool
  as_reasons :: "match_reason list"

section \<open>Gates\<close>

text \<open>
  A train-number conflict carries one reason (\<open>compare_services_reasons_nonempty\<close>), whose values
  the policy's reason keeps. The result says whether the conflict vetoes the pair.
\<close>

definition number_conflict :: "match_profile \<Rightarrow> aligned_ride \<Rightarrow> match_reason \<times> bool" where
  "number_conflict p r =
     (let found = hd (sc_reasons (ar_service r));
          (code, severity, vetoes) =
            (if train_number_conflict p = Veto_unless_same_minutes \<and> same_minutes (ar_left r) (ar_right r)
             then (TRAIN_NUMBER_DIFFERS_SAME_MINUTES, Warning, False)
             else if train_number_conflict p = Penalty then (TRAIN_NUMBER_DIFFERS, Warning, False)
             else (TRAIN_NUMBER_DIFFERS, Veto, True))
      in (reason code (if severity = Veto then Veto else Warning) (Some (ride_index (ar_left r)))
            (r_left_value found) (r_right_value found), vetoes))"

definition outside_tolerance :: "int option \<Rightarrow> int \<Rightarrow> bool" where
  "outside_tolerance delta tolerance = (case delta of None \<Rightarrow> True | Some d \<Rightarrow> \<bar>d\<bar> > tolerance)"

definition time_gate :: "pair_analysis \<Rightarrow> match_profile \<Rightarrow> match_reason list" where
  "time_gate a p =
     (let dep = departure_delta (pa_features a); arr = arrival_delta (pa_features a) in
      (if outside_tolerance dep (departure_tolerance_s p)
       then [reason DEPARTURE_OUTSIDE_TOLERANCE Gate None (map_option show_int dep) None] else []) @
      (if outside_tolerance arr (arrival_tolerance_s p)
       then [reason ARRIVAL_OUTSIDE_TOLERANCE Gate None (map_option show_int arr) None] else []))"

definition station_gate_end :: "match_profile \<Rightarrow> nat \<times> station_agreement \<Rightarrow> match_reason list \<times> match_reason list" where
  "station_gate_end p e = (case for_endpoint_gate (snd e) of
       CONFLICT \<Rightarrow> ([reason ENDPOINT_STATION_DIFFERS Veto (Some (fst e)) None None], [])
     | UNKNOWN \<Rightarrow> (if unresolved_endpoints p = Reject
                    then ([reason ENDPOINT_UNRESOLVED Gate (Some (fst e)) None None], [])
                    else ([], [reason ENDPOINT_UNRESOLVED Info (Some (fst e)) None None]))
     | AGREE \<Rightarrow> ([], []))"

definition gate_ends :: "pair_analysis \<Rightarrow> (nat \<times> station_agreement) list" where
  "gate_ends a = [(ride_index (hd (pa_left a)), pa_first_station a),
                  (ride_index (last (pa_left a)), pa_last_station a)]"

definition station_gate :: "pair_analysis \<Rightarrow> match_profile \<Rightarrow> match_reason list \<times> match_reason list" where
  "station_gate a p =
     (let found = map (station_gate_end p) (gate_ends a) in (concat (map fst found), concat (map snd found)))"

section \<open>Score\<close>

definition transfers_component :: "int \<Rightarrow> real" where
  "transfers_component delta = (if delta = 0 then 1 else if delta = 1 then 1/2 else 0)"

definition abs_or_zero :: "int option \<Rightarrow> int" where
  "abs_or_zero d = (case d of None \<Rightarrow> 0 | Some x \<Rightarrow> \<bar>x\<bar>)"

definition time_component :: "journey_match_features \<Rightarrow> match_profile \<Rightarrow> real" where
  "time_component f p =
     (let tolerance = departure_tolerance_s p + arrival_tolerance_s p;
          dep = abs_or_zero (departure_delta f); arr = abs_or_zero (arrival_delta f)
      in if tolerance > 0 then max 0 (1 - real_of_int (dep + arr) / real_of_int tolerance)
         else if dep = arr \<and> arr = 0 then 1 else 0)"

text \<open>The components with their weights, in the order of the dictionary.\<close>

definition components :: "pair_analysis \<Rightarrow> match_profile \<Rightarrow> (real \<times> real option) list" where
  "components a p =
     (let f = pa_features a; w = mp_weights p in
      [(w_time w, Some (time_component f p)),
       (w_station w, station_overlap f),
       (w_route w, route_overlap f),
       (w_service w, service_overlap f),
       (w_transfers w, Some (transfers_component \<bar>transfer_count_delta f\<bar>)),
       (w_operator w, operator_overlap f)])"

fun weighted_totals :: "(real \<times> real option) list \<Rightarrow> real \<Rightarrow> real \<Rightarrow> real \<times> real" where
  "weighted_totals [] tot weighted = (tot, weighted)"
| "weighted_totals ((w, None) # cs) tot weighted = weighted_totals cs tot weighted"
| "weighted_totals ((w, Some v) # cs) tot weighted = weighted_totals cs (tot + w) (weighted + w * v)"

definition score :: "pair_analysis \<Rightarrow> match_profile \<Rightarrow> nat \<Rightarrow> real" where
  "score a p penalties =
     (let (tot, weighted) = weighted_totals (components a p) 0 0;
          mean = (if tot > 0 then weighted / tot else 0)
      in py_round 2 (min 1 (max 0 (mean - line_conflict_penalty p * real penalties))))"

section \<open>Services and context\<close>

fun service_reasons :: "match_profile \<Rightarrow> aligned_ride list \<Rightarrow> match_reason list \<times> nat \<times> bool" where
  "service_reasons p [] = ([], 0, False)"
| "service_reasons p (r # rs) =
     (let (found, penalties, vetoed) = service_reasons p rs; comparison = ar_service r in
      if sc_agreement comparison = CONFLICT \<and> sc_kind comparison = Some Number
      then (let (item, veto) = number_conflict p r
            in (item # found, (if train_number_conflict p = Penalty then 1 else 0) + penalties, veto \<or> vetoed))
      else (filter (\<lambda>item. r_code item \<noteq> TRAIN_NUMBER_EQUAL) (sc_reasons comparison) @ found,
            (if sc_agreement comparison = CONFLICT then 1 else 0) + penalties, vetoed))"

definition context_reasons :: "pair_analysis \<Rightarrow> match_reason list" where
  "context_reasons a =
     map (\<lambda>i. reason LOCAL_ACCESS_RIDE Info (Some i) (Some ''local ride'') None) (left_out_left (pa_trimmed a)) @
     map (\<lambda>i. reason LOCAL_ACCESS_RIDE Info (Some i) None (Some ''local ride'')) (left_out_right (pa_trimmed a)) @
     map (\<lambda>(leg, note). reason note Info (Some leg) None None) (pa_station_notes a) @
     (if transfer_count_delta (pa_features a) \<noteq> 0
      then [reason TRANSFER_COUNT_DIFFERS Info None (Some (show_int (int (length (pa_left a)) - 1)))
              (Some (show_int (int (length (pa_right a)) - 1)))] else []) @
     (if operator_overlap (pa_features a) = Some 0 then [reason OPERATOR_DIFFERS Info None None None] else [])"

section \<open>M8: splits\<close>

text \<open>
  \<open>ride.left is not analysis.left[k]\<close> compares objects; the rides of a journey have pairwise
  distinct indices (\<open>ride_indices\<close>), so the model compares those.
\<close>

fun shared_prefix :: "aligned_ride list \<Rightarrow> ride list \<Rightarrow> ride list \<Rightarrow> nat" where
  "shared_prefix (x # xs) (l # ls) (r # rs) =
     (if ride_index (ar_left x) \<noteq> ride_index l \<or> ride_index (ar_right x) \<noteq> ride_index r then 0
      else 1 + shared_prefix xs ls rs)"
| "shared_prefix _ _ _ = 0"

definition wait_after :: "ride list \<Rightarrow> nat \<Rightarrow> int option" where
  "wait_after rides k =
     (if k \<ge> length rides then None
      else seconds_between (ride_arrival (rides ! (k - 1))) (ride_departure (rides ! k)))"

definition split_reasons :: "pair_analysis \<Rightarrow> match_profile \<Rightarrow> match_reason list" where
  "split_reasons a p =
     (let shared = shared_prefix (pa_rides a) (pa_left a) (pa_right a) in
      if shared = 0 \<or> (shared = length (pa_left a) \<and> shared = length (pa_right a)) then []
      else (let
         lst = pa_rides a ! (shared - 1);
         leg = Some (ride_index (ar_left lst));
         later = drop shared (pa_rides a)
       in [reason SPLITS_AFTER_SHARED_RIDE Info leg
             (loc_name (leg_destination (ride_leg (ar_left lst))))
             (loc_name (leg_destination (ride_leg (ar_right lst))))] @
          (case (wait_after (pa_left a) shared, wait_after (pa_right a) shared) of
             (Some wl, Some wr) \<Rightarrow>
               (if \<bar>wl - wr\<bar> \<ge> transfer_difference_s p
                then [reason SHORTER_TRANSFER Warning leg (Some (show_int wl)) (Some (show_int wr))] else [])
           | _ \<Rightarrow> []) @
          (case later of
             [] \<Rightarrow> []
           | x # _ \<Rightarrow> [reason REJOINS_AFTER_SPLIT Info (Some (ride_index (ar_left x)))
                         (loc_name (leg_origin (ride_leg (ar_left x))))
                         (loc_name (leg_origin (ride_leg (ar_right x))))])))"

section \<open>The assessment\<close>

definition assess :: "pair_analysis \<Rightarrow> match_profile \<Rightarrow> bool \<Rightarrow> assessment" where
  "assess a p exact =
     (let (station_stops, station_notes) = station_gate a p;
          stops = time_gate a p @ station_stops;
          (service, penalties, vetoed) = service_reasons p (pa_rides a);
          context = station_notes @ service @ context_reasons a
      in if stops \<noteq> [] \<or> vetoed
         then (let context' = (if list_ex (\<lambda>item. r_code item = DEPARTURE_OUTSIDE_TOLERANCE \<or>
                                   r_code item = ARRIVAL_OUTSIDE_TOLERANCE) stops
                               then context @ split_reasons a p else context)
               in \<lparr>as_passed = False, as_score = 0, as_verdict = Different, as_exact = False,
                   as_reasons = ordered (stops @ context')\<rparr>)
         else (let warned = list_ex (\<lambda>item. r_severity item = Warning) context in
           if exact
           then \<lparr>as_passed = True, as_score = 1,
                 as_verdict = (if warned then Probably_same else Same_service), as_exact = True,
                 as_reasons = ordered (reason EXACT_FINGERPRINT Info None None None # context)\<rparr>
           else (let
              value = score a p penalties;
              verdict = (if value \<ge> same_service_min p \<and> \<not> warned then Same_service
                         else if value \<ge> probable_min p then Probably_same else Different);
              context' = (if verdict = Different
                then context @ [reason SCORE_TOO_LOW Gate None (Some (fixed_text 2 value)) None] else context)
            in \<lparr>as_passed = (verdict \<noteq> Different), as_score = value, as_verdict = verdict,
                as_exact = False, as_reasons = ordered context'\<rparr>)))"

section \<open>Lemmas: order of the reasons\<close>

lemma set_ordered [simp]: "set (ordered xs) = set xs"
  by (simp add: ordered_def)

lemma distinct_ordered [simp]: "distinct (ordered xs)"
  by (simp add: ordered_def)

lemma ordered_sorted: "sorted (map (\<lambda>x. SEVERITY_RANK (r_severity x)) (ordered xs))"
  by (simp add: ordered_def)

text \<open>Within a severity, the reasons keep the order they were found in.\<close>

lemma ordered_stable:
  "filter (\<lambda>x. r_severity x = s) (ordered xs) = filter (\<lambda>x. r_severity x = s) (dedup xs)"
proof -
  have "r_severity x = s \<longleftrightarrow> SEVERITY_RANK (r_severity x) = SEVERITY_RANK s" for x :: match_reason
    by (cases "r_severity x"; cases s) (simp_all add: SEVERITY_RANK_def)
  then show ?thesis by (simp add: ordered_def sort_key_stable)
qed

section \<open>Lemmas: the score\<close>

lemma weighted_totals_bounds:
  assumes "\<forall>(w, v) \<in> set cs. 0 \<le> w \<and> unit_option v" "0 \<le> weighted" "weighted \<le> tot"
    and "weighted_totals cs tot weighted = (t, w')"
  shows "0 \<le> w' \<and> w' \<le> t"
  using assms
proof (induction cs tot weighted rule: weighted_totals.induct)
  case (3 w v cs tot weighted)
  then have "0 \<le> w" "0 \<le> v" "v \<le> 1" by (auto simp: unit_interval_def)
  then have "0 \<le> w * v" "w * v \<le> w" by (auto intro: mult_left_le)
  with 3 show ?case by auto
qed auto

lemma score_unit: "unit_interval (score a p n)"
  unfolding score_def Let_def case_prod_beta by (rule unit_round) (auto simp: unit_interval_def)

lemma score_mean_unit:
  assumes "valid_profile p" "valid_features (pa_features a)"
    and "weighted_totals (components a p) 0 0 = (t, w)"
  shows "unit_interval (if t > 0 then w / t else 0)"
proof -
  have "\<forall>(w, v) \<in> set (components a p). 0 \<le> w \<and> unit_option v"
    using assms(1,2) by (auto simp: components_def Let_def valid_profile_def valid_weights_def
        valid_features_def unit_interval_def time_component_def transfers_component_def abs_or_zero_def
        split: option.splits)
  from weighted_totals_bounds [OF this _ _ assms(3)] show ?thesis
    by (auto simp: unit_interval_def divide_le_eq)
qed

lemma round_half_even_mono: "x \<le> y \<Longrightarrow> round_half_even x \<le> round_half_even y"
proof (cases "\<lfloor>x\<rfloor> = \<lfloor>y\<rfloor>")
  case True
  moreover assume "x \<le> y"
  ultimately show ?thesis by (auto simp: round_half_even_def Let_def)
next
  case False
  moreover assume "x \<le> y"
  ultimately have "\<lfloor>x\<rfloor> + 1 \<le> \<lfloor>y\<rfloor>" using floor_mono [of x y] by linarith
  moreover have "round_half_even x \<le> \<lfloor>x\<rfloor> + 1" "\<lfloor>y\<rfloor> \<le> round_half_even y"
    by (auto simp: round_half_even_def Let_def)
  ultimately show ?thesis by linarith
qed

lemma py_round_mono: "x \<le> y \<Longrightarrow> py_round n x \<le> py_round n y"
  by (simp add: py_round_def divide_right_mono round_half_even_mono)

lemma score_antimono:
  assumes "valid_profile p" "m \<le> n"
  shows "score a p n \<le> score a p m"
proof -
  have "line_conflict_penalty p * real m \<le> line_conflict_penalty p * real n"
    using assms by (intro mult_left_mono) (auto simp: valid_profile_def unit_interval_def)
  then show ?thesis
    unfolding score_def Let_def case_prod_beta by (intro py_round_mono) auto
qed

section \<open>Lemmas: gates and verdict\<close>

text \<open>The three gates as the module describes them.\<close>

definition gate_times :: "pair_analysis \<Rightarrow> match_profile \<Rightarrow> bool" where
  "gate_times a p = (\<exists>d e. departure_delta (pa_features a) = Some d \<and> \<bar>d\<bar> \<le> departure_tolerance_s p
     \<and> arrival_delta (pa_features a) = Some e \<and> \<bar>e\<bar> \<le> arrival_tolerance_s p)"

definition endpoint_passes :: "match_profile \<Rightarrow> station_agreement \<Rightarrow> bool" where
  "endpoint_passes p s = (for_endpoint_gate s = AGREE \<or>
     for_endpoint_gate s = UNKNOWN \<and> unresolved_endpoints p = Allow)"

definition gate_stations :: "pair_analysis \<Rightarrow> match_profile \<Rightarrow> bool" where
  "gate_stations a p = (endpoint_passes p (pa_first_station a) \<and> endpoint_passes p (pa_last_station a))"

definition number_vetoes :: "match_profile \<Rightarrow> aligned_ride \<Rightarrow> bool" where
  "number_vetoes p r = (sc_agreement (ar_service r) = CONFLICT \<and> sc_kind (ar_service r) = Some Number \<and>
     (train_number_conflict p = Veto_always \<or>
      train_number_conflict p = Veto_unless_same_minutes \<and> \<not> same_minutes (ar_left r) (ar_right r)))"

definition gates :: "pair_analysis \<Rightarrow> match_profile \<Rightarrow> bool" where
  "gates a p = (gate_times a p \<and> gate_stations a p \<and> (\<forall>r \<in> set (pa_rides a). \<not> number_vetoes p r))"

lemma time_gate_empty: "time_gate a p = [] \<longleftrightarrow> gate_times a p"
  by (auto simp: time_gate_def gate_times_def outside_tolerance_def Let_def not_less split: option.splits)

lemma station_gate_end_empty: "fst (station_gate_end p e) = [] \<longleftrightarrow> endpoint_passes p (snd e)"
  by (cases "unresolved_endpoints p")
    (auto simp: station_gate_end_def endpoint_passes_def split: agreement.splits)

lemma station_gate_empty: "fst (station_gate a p) = [] \<longleftrightarrow> gate_stations a p"
  by (simp add: station_gate_def gate_ends_def gate_stations_def station_gate_end_empty Let_def)

lemma service_reasons_veto:
  "snd (snd (service_reasons p rs)) \<longleftrightarrow> (\<exists>r \<in> set rs. number_vetoes p r)"
proof (induction rs)
  case (Cons r rs)
  have "snd (number_conflict p r) \<longleftrightarrow> (train_number_conflict p = Veto_always \<or>
      train_number_conflict p = Veto_unless_same_minutes \<and> \<not> same_minutes (ar_left r) (ar_right r))"
    by (cases "train_number_conflict p") (auto simp: number_conflict_def Let_def)
  with Cons show ?case by (auto simp: Let_def case_prod_beta number_vetoes_def)
qed simp

text \<open>The reasons gathered whether the pair passes or not, and whether one is a warning.\<close>

definition pair_context :: "pair_analysis \<Rightarrow> match_profile \<Rightarrow> match_reason list" where
  "pair_context a p = snd (station_gate a p) @ fst (service_reasons p (pa_rides a)) @ context_reasons a"

definition pair_penalties :: "pair_analysis \<Rightarrow> match_profile \<Rightarrow> nat" where
  "pair_penalties a p = fst (snd (service_reasons p (pa_rides a)))"

definition pair_warned :: "pair_analysis \<Rightarrow> match_profile \<Rightarrow> bool" where
  "pair_warned a p = (\<exists>x \<in> set (pair_context a p). r_severity x = Warning)"

lemma stops_iff:
  "(time_gate a p @ fst (station_gate a p) \<noteq> [] \<or> snd (snd (service_reasons p (pa_rides a)))) \<longleftrightarrow> \<not> gates a p"
  by (auto simp: gates_def time_gate_empty station_gate_empty service_reasons_veto)

lemma assess_refused: "\<not> gates a p \<Longrightarrow> \<not> as_passed (assess a p e) \<and> as_verdict (assess a p e) = Different
    \<and> as_score (assess a p e) = 0 \<and> \<not> as_exact (assess a p e)"
  using stops_iff [of a p] by (simp add: assess_def Let_def case_prod_beta)

lemma assess_exact:
  assumes "gates a p"
  shows "assess a p True = \<lparr>as_passed = True, as_score = 1,
     as_verdict = (if pair_warned a p then Probably_same else Same_service), as_exact = True,
     as_reasons = ordered (reason EXACT_FINGERPRINT Info None None None # pair_context a p)\<rparr>"
  using assms stops_iff [of a p]
  by (simp add: assess_def Let_def case_prod_beta pair_context_def pair_warned_def list_ex_iff)

lemma assess_scored:
  assumes "gates a p"
  shows "as_score (assess a p False) = score a p (pair_penalties a p)"
    "as_verdict (assess a p False) =
       (if score a p (pair_penalties a p) \<ge> same_service_min p \<and> \<not> pair_warned a p then Same_service
        else if score a p (pair_penalties a p) \<ge> probable_min p then Probably_same else Different)"
    "as_passed (assess a p False) \<longleftrightarrow> as_verdict (assess a p False) \<noteq> Different"
  using assms stops_iff [of a p]
  by (simp_all add: assess_def Let_def case_prod_beta pair_context_def pair_warned_def list_ex_iff
      pair_penalties_def)

lemma assess_passed_iff:
  "as_passed (assess a p e) \<longleftrightarrow> gates a p \<and>
     (e \<or> score a p (pair_penalties a p) \<ge> probable_min p \<or>
      (score a p (pair_penalties a p) \<ge> same_service_min p \<and> \<not> pair_warned a p))"
proof (cases "gates a p")
  case True
  then show ?thesis by (cases e) (simp_all add: assess_exact assess_scored)
qed (simp add: assess_refused)

lemma assess_verdict_passed: "as_passed (assess a p e) \<longleftrightarrow> as_verdict (assess a p e) \<noteq> Different"
proof (cases "gates a p")
  case True
  then show ?thesis by (cases e) (simp_all add: assess_exact assess_scored)
qed (simp add: assess_refused)

lemma assess_score_unit: "unit_interval (as_score (assess a p e))"
proof (cases "gates a p")
  case True
  then show ?thesis
    by (cases e) (simp_all add: assess_exact assess_scored score_unit, simp add: unit_interval_def)
qed (simp add: assess_refused unit_interval_def)

lemma assess_same_service_no_warning:
  "as_verdict (assess a p e) = Same_service \<Longrightarrow> \<not> pair_warned a p"
proof (cases "gates a p")
  case True
  then show "as_verdict (assess a p e) = Same_service \<Longrightarrow> ?thesis"
    by (cases e) (auto simp: assess_exact assess_scored split: if_splits)
qed (simp add: assess_refused)

lemma assess_reasons_ordered:
  "\<exists>found. as_reasons (assess a p e) = ordered found"
  by (auto simp: assess_def Let_def case_prod_beta)

end
