(* ===== verification/Match_Engine.thy ===== *)
theory Match_Engine
  imports Match_Scoring
begin

text \<open>
  \<open>compare\<close>, the matching engine's entry point (\<open>app/journey/matching/engine.py\<close>), with the reason
  counts and the per-journey metadata of its result. Every journey with a ride on one side is
  weighed against every one on the other; the passing candidates are accepted best first, each
  journey at most once. The contract of the acceptance loop is the locale \<open>one_to_one\<close>.
\<close>

section \<open>Results\<close>

record similarity_result =
  sr_left_id :: str
  sr_right_id :: str
  sr_verdict :: match_verdict
  sr_score :: real
  sr_exact :: bool
  sr_features :: journey_match_features
  sr_reasons :: "match_reason list"

record unmatched_journey =
  um_journey_id :: str
  um_closest_id :: "str option"
  um_reasons :: "match_reason list"

record comparison_summary =
  cs_same_service :: nat
  cs_probably_same :: nat
  cs_left_only :: nat
  cs_right_only :: nat
  cs_uncomparable_left :: nat
  cs_uncomparable_right :: nat

record journey_comparison =
  jc_engine_version :: int
  jc_profile :: str
  jc_pairs :: "similarity_result list"
  jc_left_only :: "unmatched_journey list"
  jc_right_only :: "unmatched_journey list"
  jc_uncomparable_left :: "str list"
  jc_uncomparable_right :: "str list"
  jc_summary :: comparison_summary

definition ENGINE_VERSION :: int where "ENGINE_VERSION = 1"

definition VERDICT_RANK :: "match_verdict \<Rightarrow> nat" where
  "VERDICT_RANK v = (case v of Same_service \<Rightarrow> 0 | Probably_same \<Rightarrow> 1 | Different \<Rightarrow> 2)"

section \<open>Candidates\<close>

record candidate =
  c_left :: nat
  c_right :: nat
  c_left_id :: str
  c_right_id :: str
  c_analysis :: pair_analysis
  c_assessment :: assessment

definition departure_gap :: "candidate \<Rightarrow> int" where
  "departure_gap c = (case departure_delta (pa_features (c_analysis c)) of
       Some d \<Rightarrow> \<bar>d\<bar> | None \<Rightarrow> 2 ^ 62)"

definition exact_pair :: "runtime \<Rightarrow> canonical_journey \<Rightarrow> canonical_journey \<Rightarrow> bool" where
  "exact_pair rt left right =
     (let key = strict_key rt (fingerprint_of left)
      in key \<noteq> [] \<and> key = strict_key rt (fingerprint_of right))"

text \<open>\<open>JourneySimilarityResult\<close> refuses a score outside [0, 1].\<close>

definition result_of :: "canonical_journey list \<Rightarrow> canonical_journey list \<Rightarrow> candidate \<Rightarrow> py_error + similarity_result" where
  "result_of left right c =
     (if \<not> unit_interval (as_score (c_assessment c)) then Inl (ValidationError ''JourneySimilarityResult'')
      else Inr \<lparr>sr_left_id = j_id (left ! c_left c), sr_right_id = j_id (right ! c_right c),
         sr_verdict = as_verdict (c_assessment c), sr_score = as_score (c_assessment c),
         sr_exact = as_exact (c_assessment c), sr_features = pa_features (c_analysis c),
         sr_reasons = as_reasons (c_assessment c)\<rparr>)"

definition closest :: "candidate list \<Rightarrow> candidate option" where
  "closest candidates = min_by (\<lambda>c. (departure_gap c, c_left_id c, c_right_id c)) candidates"

definition unmatched ::
  "canonical_journey \<Rightarrow> candidate list \<Rightarrow> canonical_journey list \<Rightarrow> bool \<Rightarrow> unmatched_journey" where
  "unmatched journey candidates others left_side =
     (case closest candidates of
        None \<Rightarrow> \<lparr>um_journey_id = j_id journey, um_closest_id = None,
                 um_reasons = [reason NO_CANDIDATE Info None None None]\<rparr>
      | Some c \<Rightarrow>
          (let other = others ! (if left_side then c_right c else c_left c);
               found = as_reasons (c_assessment c)
           in \<lparr>um_journey_id = j_id journey, um_closest_id = Some (j_id other),
               um_reasons = (if as_passed (c_assessment c)
                 then reason PAIRED_ELSEWHERE Info None None None # found else found)\<rparr>))"

definition rank_key :: "candidate \<Rightarrow> nat \<times> real \<times> int \<times> str \<times> str" where
  "rank_key c = (VERDICT_RANK (as_verdict (c_assessment c)), - as_score (c_assessment c),
     departure_gap c, c_left_id c, c_right_id c)"

text \<open>The acceptance loop over the sorted candidates, with the sides' used journeys.\<close>

fun accept :: "('c \<Rightarrow> 'l) \<Rightarrow> ('c \<Rightarrow> 'r) \<Rightarrow> 'l list \<Rightarrow> 'r list \<Rightarrow> 'c list \<Rightarrow> 'c list" where
  "accept lft rgt used_left used_right [] = []"
| "accept lft rgt used_left used_right (c # cs) =
     (if lft c \<in> set used_left \<or> rgt c \<in> set used_right
      then accept lft rgt used_left used_right cs
      else c # accept lft rgt (lft c # used_left) (rgt c # used_right) cs)"

definition comparable :: "canonical_journey list \<Rightarrow> nat list" where
  "comparable js = map fst (filter (\<lambda>(i, j). timed_legs j \<noteq> []) (py_enumerate js))"

definition weigh :: "runtime \<Rightarrow> canonical_journey list \<Rightarrow> canonical_journey list \<Rightarrow> match_profile \<Rightarrow> nat \<times> nat \<Rightarrow> py_error + candidate" where
  "weigh rt left right p ij =
     (case analyse rt (left ! fst ij) (right ! snd ij) p of
        Inl e \<Rightarrow> Inl e
      | Inr a \<Rightarrow> Inr \<lparr>c_left = fst ij, c_right = snd ij, c_left_id = j_id (left ! fst ij),
           c_right_id = j_id (right ! snd ij), c_analysis = a,
           c_assessment = assess a p (exact_pair rt (left ! fst ij) (right ! snd ij))\<rparr>)"

definition accepted_of :: "candidate list \<Rightarrow> candidate list" where
  "accepted_of candidates =
     (let passing = sort_key rank_key (filter (\<lambda>c. as_passed (c_assessment c)) candidates)
      in sort_key (\<lambda>c. (c_left c, c_right c)) (accept c_left c_right [] [] passing))"

definition compare ::
  "runtime \<Rightarrow> canonical_journey list \<Rightarrow> canonical_journey list \<Rightarrow> match_profile \<Rightarrow> py_error + journey_comparison" where
  "compare rt left right p =
     (let comparable_left = comparable left; comparable_right = comparable right in
      case map_err (weigh rt left right p) (List.product comparable_left comparable_right) of
        Inl e \<Rightarrow> Inl e
      | Inr candidates \<Rightarrow>
          (let accepted = accepted_of candidates;
               used_left = map c_left accepted; used_right = map c_right accepted in
           case map_err (result_of left right) accepted of
             Inl e \<Rightarrow> Inl e
           | Inr pairs \<Rightarrow>
               (let
                  left_only = map (\<lambda>i. unmatched (left ! i) (filter (\<lambda>c. c_left c = i) candidates) right True)
                                (filter (\<lambda>i. i \<notin> set used_left) comparable_left);
                  right_only = map (\<lambda>j. unmatched (right ! j) (filter (\<lambda>c. c_right c = j) candidates) left False)
                                (filter (\<lambda>j. j \<notin> set used_right) comparable_right);
                  uncomparable_left = map (\<lambda>i. j_id (left ! i)) (filter (\<lambda>i. i \<notin> set comparable_left) [0..<length left]);
                  uncomparable_right = map (\<lambda>j. j_id (right ! j)) (filter (\<lambda>j. j \<notin> set comparable_right) [0..<length right])
                in Inr \<lparr>jc_engine_version = ENGINE_VERSION, jc_profile = mp_name p, jc_pairs = pairs, jc_left_only = left_only,
                      jc_right_only = right_only, jc_uncomparable_left = uncomparable_left,
                      jc_uncomparable_right = uncomparable_right,
                      jc_summary = \<lparr>cs_same_service = length (filter (\<lambda>q. sr_verdict q = Same_service) pairs),
                        cs_probably_same = length (filter (\<lambda>q. sr_verdict q = Probably_same) pairs),
                        cs_left_only = length left_only, cs_right_only = length right_only,
                        cs_uncomparable_left = length uncomparable_left,
                        cs_uncomparable_right = length uncomparable_right\<rparr>\<rparr>)))"

section \<open>Reason counts and metadata\<close>

text \<open>The groups of the unpaired journeys: a refused pair that both sides name counts once.\<close>

fun refused_groups :: "(str \<times> str) list \<Rightarrow> (unmatched_journey \<times> bool) list \<Rightarrow> match_reason list list" where
  "refused_groups seen [] = []"
| "refused_groups seen ((item, left_side) # rest) =
     (case um_closest_id item of
        None \<Rightarrow> um_reasons item # refused_groups seen rest
      | Some other \<Rightarrow>
          (let key = (if left_side then (um_journey_id item, other) else (other, um_journey_id item))
           in if key \<in> set seen then refused_groups seen rest
              else um_reasons item # refused_groups (key # seen) rest))"

definition reason_groups :: "journey_comparison \<Rightarrow> match_reason list list" where
  "reason_groups c = map sr_reasons (jc_pairs c) @
     refused_groups [] (map (\<lambda>i. (i, True)) (jc_left_only c) @ map (\<lambda>i. (i, False)) (jc_right_only c))"

definition bump :: "(reason_code \<times> nat) list \<Rightarrow> reason_code \<Rightarrow> (reason_code \<times> nat) list" where
  "bump counts code = alist_set code (alist_get counts code 0 + 1) counts"

definition count_group :: "(reason_code \<times> nat) list \<Rightarrow> match_reason list \<Rightarrow> (reason_code \<times> nat) list" where
  "count_group counts found = foldl bump counts (dedup (map r_code found))"

definition reason_counts :: "journey_comparison \<Rightarrow> (reason_code \<times> nat) list" where
  "reason_counts c = sort_key (\<lambda>(code, n). code_text code) (foldl count_group [] (reason_groups c))"

datatype comparison_bucket = Common | Left_only | Right_only | Uncomparable

record comparison_metadata =
  cm_bucket :: comparison_bucket
  cm_paired_with :: "str option"
  cm_verdict :: "match_verdict option"
  cm_score :: "real option"
  cm_reasons :: "match_reason list"

definition pair_metadata :: "str \<Rightarrow> similarity_result \<Rightarrow> comparison_metadata" where
  "pair_metadata other pair = \<lparr>cm_bucket = Common, cm_paired_with = Some other,
     cm_verdict = Some (sr_verdict pair), cm_score = Some (sr_score pair), cm_reasons = sr_reasons pair\<rparr>"

definition single_metadata :: "comparison_bucket \<Rightarrow> match_reason list \<Rightarrow> comparison_metadata" where
  "single_metadata bucket found = \<lparr>cm_bucket = bucket, cm_paired_with = None, cm_verdict = None,
     cm_score = None, cm_reasons = found\<rparr>"

definition metadata ::
  "journey_comparison \<Rightarrow> (str \<rightharpoonup> comparison_metadata) \<times> (str \<rightharpoonup> comparison_metadata)" where
  "metadata c =
     ((Map.empty ++ map_of (rev (map (\<lambda>q. (sr_left_id q, pair_metadata (sr_right_id q) q)) (jc_pairs c))))
        ++ map_of (rev (map (\<lambda>u. (um_journey_id u, single_metadata Left_only (um_reasons u))) (jc_left_only c)))
        ++ map_of (rev (map (\<lambda>i. (i, single_metadata Uncomparable [])) (jc_uncomparable_left c))),
      (Map.empty ++ map_of (rev (map (\<lambda>q. (sr_right_id q, pair_metadata (sr_left_id q) q)) (jc_pairs c))))
        ++ map_of (rev (map (\<lambda>u. (um_journey_id u, single_metadata Right_only (um_reasons u))) (jc_right_only c)))
        ++ map_of (rev (map (\<lambda>i. (i, single_metadata Uncomparable [])) (jc_uncomparable_right c))))"


section \<open>The contract of the acceptance loop\<close>

text \<open>
  What the loop promises on candidates that come best first: it keeps some of them, uses each
  journey at most once, and leaves a candidate out only for one that ranks no worse and takes one
  of its two journeys.
\<close>

locale one_to_one =
  fixes lft :: "'c \<Rightarrow> 'l" and rgt :: "'c \<Rightarrow> 'r" and key :: "'c \<Rightarrow> 'k::linorder"
    and pick :: "'c list \<Rightarrow> 'c list"
  assumes chosen: "set (pick cs) \<subseteq> set cs"
    and left_once: "distinct (map lft (pick cs))"
    and right_once: "distinct (map rgt (pick cs))"
    and blocked: "sorted (map key cs) \<Longrightarrow> c \<in> set cs \<Longrightarrow>
          \<exists>a \<in> set (pick cs). (lft a = lft c \<or> rgt a = rgt c) \<and> key a \<le> key c"
begin

lemma distinct_pick: "distinct (pick cs)"
  using left_once by (simp add: distinct_map)

lemma unused_not_candidate:
  assumes "sorted (map key cs)" "c \<in> set cs" "lft c \<notin> lft ` set (pick cs)"
  shows "rgt c \<in> rgt ` set (pick cs)"
  using blocked [OF assms(1,2)] assms(3) by (metis image_eqI)

text \<open>A candidate that strictly beats every other one on its two journeys is chosen.\<close>

lemma best_chosen:
  assumes "sorted (map key cs)" "c \<in> set cs"
    and "\<And>d. d \<in> set cs \<Longrightarrow> d \<noteq> c \<Longrightarrow> lft d = lft c \<or> rgt d = rgt c \<Longrightarrow> key c < key d"
  shows "c \<in> set (pick cs)"
proof -
  obtain a where a: "a \<in> set (pick cs)" "lft a = lft c \<or> rgt a = rgt c" "key a \<le> key c"
    using blocked [OF assms(1,2)] by blast
  then have "a = c" using assms(3) [of a] chosen [of cs] by (metis leD subsetD)
  with a(1) show ?thesis by simp
qed

lemma length_pick_le: "length (pick cs) \<le> card (lft ` set cs)" "length (pick cs) \<le> card (rgt ` set cs)"
proof -
  have "card (lft ` set (pick cs)) \<le> card (lft ` set cs)" "card (rgt ` set (pick cs)) \<le> card (rgt ` set cs)"
    using chosen [of cs] by (simp_all add: card_mono image_mono)
  then show "length (pick cs) \<le> card (lft ` set cs)" "length (pick cs) \<le> card (rgt ` set cs)"
    using distinct_card [OF left_once [of cs]] distinct_card [OF right_once [of cs]] by simp_all
qed

end

lemma accept_subset: "set (accept lft rgt ul ur cs) \<subseteq> set cs"
  by (induction cs arbitrary: ul ur) auto

lemma accept_fresh:
  "distinct (map lft (accept lft rgt ul ur cs)) \<and> distinct (map rgt (accept lft rgt ul ur cs))
   \<and> lft ` set (accept lft rgt ul ur cs) \<inter> set ul = {} \<and> rgt ` set (accept lft rgt ul ur cs) \<inter> set ur = {}"
proof (induction cs arbitrary: ul ur)
  case (Cons c cs)
  show ?case
  proof (cases "lft c \<in> set ul \<or> rgt c \<in> set ur")
    case True
    with Cons show ?thesis by simp
  next
    case False
    with Cons.IH [of "lft c # ul" "rgt c # ur"] show ?thesis by auto
  qed
qed simp

lemma accept_blocked:
  assumes "sorted (map key cs)" "c \<in> set cs"
  shows "lft c \<in> set ul \<or> rgt c \<in> set ur \<or>
    (\<exists>a \<in> set (accept lft rgt ul ur cs). (lft a = lft c \<or> rgt a = rgt c) \<and> key a \<le> key c)"
  using assms
proof (induction cs arbitrary: ul ur)
  case (Cons d ds)
  show ?case
  proof (cases "c = d")
    case True
    then show ?thesis by auto
  next
    case False
    then have c: "c \<in> set ds" "key d \<le> key c" "sorted (map key ds)" using Cons.prems by auto
    show ?thesis
    proof (cases "lft d \<in> set ul \<or> rgt d \<in> set ur")
      case True
      with Cons.IH [OF c(3,1), of ul ur] show ?thesis by simp
    next
      case new: False
      from Cons.IH [OF c(3,1), of "lft d # ul" "rgt d # ur"] c(2) new show ?thesis by auto
    qed
  qed
qed simp

interpretation acc: one_to_one lft rgt key "accept lft rgt [] []"
  for lft :: "'c \<Rightarrow> 'l" and rgt :: "'c \<Rightarrow> 'r" and key :: "'c \<Rightarrow> 'k::linorder"
proof unfold_locales
  show "set (accept lft rgt [] [] cs) \<subseteq> set cs" for cs by (rule accept_subset)
  show "distinct (map lft (accept lft rgt [] [] cs))" "distinct (map rgt (accept lft rgt [] [] cs))" for cs
    using accept_fresh [of lft rgt "[]" "[]" cs] by blast+
  show "\<exists>a \<in> set (accept lft rgt [] [] cs). (lft a = lft c \<or> rgt a = rgt c) \<and> key a \<le> key c"
    if "sorted (map key cs)" "c \<in> set cs" for cs c
    using accept_blocked [OF that, of lft "[]" rgt "[]"] by simp
qed

section \<open>Candidates of a comparison\<close>

lemma set_comparable: "set (comparable js) = {i. i < length js \<and> timed_legs (js ! i) \<noteq> []}"
  by (auto simp: comparable_def image_iff)

lemma distinct_comparable: "distinct (comparable js)"
proof -
  have "distinct (map fst (py_enumerate js))" by simp
  then show ?thesis unfolding comparable_def by (rule distinct_map_filter)
qed

definition passing :: "candidate list \<Rightarrow> candidate list" where
  "passing cs = sort_key rank_key (filter (\<lambda>c. as_passed (c_assessment c)) cs)"

lemma set_passing [simp]: "set (passing cs) = {c \<in> set cs. as_passed (c_assessment c)}"
  by (simp add: passing_def)

lemma sorted_passing: "sorted (map rank_key (passing cs))"
  by (simp add: passing_def)

lemma accepted_of_passing:
  "accepted_of cs = sort_key (\<lambda>c. (c_left c, c_right c)) (accept c_left c_right [] [] (passing cs))"
  by (simp add: accepted_of_def passing_def)

lemma set_accepted [simp]: "set (accepted_of cs) = set (accept c_left c_right [] [] (passing cs))"
  by (simp add: accepted_of_passing)

lemma accepted_in: "c \<in> set (accepted_of cs) \<Longrightarrow> c \<in> set cs \<and> as_passed (c_assessment c)"
  using acc.chosen [of c_left c_right "passing cs"] by auto

lemma distinct_map_sort_key: "distinct (map f (sort_key g xs)) = distinct (map f xs)"
  by (simp add: distinct_map)

lemma accepted_once: "distinct (map c_left (accepted_of cs))" "distinct (map c_right (accepted_of cs))"
  unfolding accepted_of_passing distinct_map_sort_key by (rule acc.left_once acc.right_once)+

text \<open>What \<open>weigh\<close> makes of one pair of journeys, and of all of them.\<close>

definition candidate_ok ::
  "runtime \<Rightarrow> canonical_journey list \<Rightarrow> canonical_journey list \<Rightarrow> match_profile \<Rightarrow> candidate \<Rightarrow> bool" where
  "candidate_ok rt left right p c =
     (c_left c \<in> set (comparable left) \<and> c_right c \<in> set (comparable right)
      \<and> c_left_id c = j_id (left ! c_left c) \<and> c_right_id c = j_id (right ! c_right c)
      \<and> analyse rt (left ! c_left c) (right ! c_right c) p = Inr (c_analysis c)
      \<and> c_assessment c = assess (c_analysis c) p (exact_pair rt (left ! c_left c) (right ! c_right c)))"

lemma weigh_Inr:
  "weigh rt left right p ij = Inr c \<Longrightarrow> c_left c = fst ij \<and> c_right c = snd ij
     \<and> c_left_id c = j_id (left ! fst ij) \<and> c_right_id c = j_id (right ! snd ij)
     \<and> analyse rt (left ! fst ij) (right ! snd ij) p = Inr (c_analysis c)
     \<and> c_assessment c = assess (c_analysis c) p (exact_pair rt (left ! fst ij) (right ! snd ij))"
  by (auto simp: weigh_def split: sum.splits)

lemma candidates_of:
  assumes "map_err (weigh rt left right p) (List.product (comparable left) (comparable right)) = Inr cs"
  shows "\<forall>c \<in> set cs. candidate_ok rt left right p c"
    "map (\<lambda>c. (c_left c, c_right c)) cs = List.product (comparable left) (comparable right)"
proof -
  let ?ps = "List.product (comparable left) (comparable right)"
  have len: "length cs = length ?ps" and w: "\<And>k. k < length ?ps \<Longrightarrow> weigh rt left right p (?ps ! k) = Inr (cs ! k)"
    using assms by (auto simp: map_err_Inr_iff)
  show "map (\<lambda>c. (c_left c, c_right c)) cs = ?ps"
    using len weigh_Inr [OF w] by (intro nth_equalityI) simp_all
  show "\<forall>c \<in> set cs. candidate_ok rt left right p c"
  proof
    fix c assume "c \<in> set cs"
    then obtain k where k: "k < length ?ps" "c = cs ! k" using len by (metis in_set_conv_nth)
    have "?ps ! k \<in> set ?ps" using k(1) by (rule nth_mem)
    then have "fst (?ps ! k) \<in> set (comparable left)" "snd (?ps ! k) \<in> set (comparable right)"
      by auto
    with weigh_Inr [OF w [OF k(1)]] k(2) show "candidate_ok rt left right p c"
      by (simp add: candidate_ok_def)
  qed
qed

lemma candidate_exists:
  assumes "map_err (weigh rt left right p) (List.product (comparable left) (comparable right)) = Inr cs"
    and "i \<in> set (comparable left)" "j \<in> set (comparable right)"
  shows "\<exists>c \<in> set cs. c_left c = i \<and> c_right c = j"
proof -
  have "(i, j) \<in> set (map (\<lambda>c. (c_left c, c_right c)) cs)"
    using candidates_of(2) [OF assms(1)] assms(2,3) by simp
  then show ?thesis by auto
qed

lemma weigh_total:
  assumes "\<forall>j \<in> set left \<union> set right. valid_journey j"
  shows "\<exists>cs. map_err (weigh rt left right p) (List.product (comparable left) (comparable right)) = Inr cs"
proof (rule map_err_total, rule ballI)
  fix ij assume "ij \<in> set (List.product (comparable left) (comparable right))"
  then obtain i j where ij: "ij = (i, j)" "i < length left" "timed_legs (left ! i) \<noteq> []"
    "j < length right" "timed_legs (right ! j) \<noteq> []"
    by (auto simp: set_comparable)
  then have "rides_of (left ! i) \<noteq> []" "rides_of (right ! j) \<noteq> []"
    using assms rides_of_empty by (metis UnI1 UnI2 nth_mem)+
  then obtain a where "analyse rt (left ! i) (right ! j) p = Inr a" using analyse_Inr by blast
  then show "\<exists>c. weigh rt left right p ij = Inr c" by (simp add: weigh_def ij(1))
qed

text \<open>The parts of a comparison that returned.\<close>

definition compared ::
  "runtime \<Rightarrow> canonical_journey list \<Rightarrow> canonical_journey list \<Rightarrow> match_profile \<Rightarrow> candidate list \<Rightarrow> journey_comparison \<Rightarrow> bool" where
  "compared rt left right p cs c =
     (map_err (weigh rt left right p) (List.product (comparable left) (comparable right)) = Inr cs
      \<and> map_err (result_of left right) (accepted_of cs) = Inr (jc_pairs c)
      \<and> jc_left_only c = map (\<lambda>i. unmatched (left ! i) (filter (\<lambda>c. c_left c = i) cs) right True)
          (filter (\<lambda>i. i \<notin> set (map c_left (accepted_of cs))) (comparable left))
      \<and> jc_right_only c = map (\<lambda>j. unmatched (right ! j) (filter (\<lambda>c. c_right c = j) cs) left False)
          (filter (\<lambda>j. j \<notin> set (map c_right (accepted_of cs))) (comparable right))
      \<and> jc_uncomparable_left c = map (\<lambda>i. j_id (left ! i)) (filter (\<lambda>i. i \<notin> set (comparable left)) [0..<length left])
      \<and> jc_uncomparable_right c = map (\<lambda>j. j_id (right ! j)) (filter (\<lambda>j. j \<notin> set (comparable right)) [0..<length right])
      \<and> cs_same_service (jc_summary c) = length (filter (\<lambda>q. sr_verdict q = Same_service) (jc_pairs c))
      \<and> cs_probably_same (jc_summary c) = length (filter (\<lambda>q. sr_verdict q = Probably_same) (jc_pairs c))
      \<and> cs_left_only (jc_summary c) = length (jc_left_only c)
      \<and> cs_right_only (jc_summary c) = length (jc_right_only c)
      \<and> cs_uncomparable_left (jc_summary c) = length (jc_uncomparable_left c)
      \<and> cs_uncomparable_right (jc_summary c) = length (jc_uncomparable_right c))"

lemma compare_compared:
  assumes "compare rt left right p = Inr c"
  obtains cs where "compared rt left right p cs c"
  using assms that by (auto simp: compare_def compared_def Let_def split: sum.splits)

lemma result_of_scores:
  "candidate_ok rt left right p x \<Longrightarrow> \<exists>q. result_of left right x = Inr q"
  by (simp add: result_of_def candidate_ok_def assess_score_unit)

lemma result_of_Inr:
  "result_of left right x = Inr q \<Longrightarrow> sr_left_id q = j_id (left ! c_left x) \<and> sr_right_id q = j_id (right ! c_right x)
     \<and> sr_verdict q = as_verdict (c_assessment x) \<and> sr_score q = as_score (c_assessment x)
     \<and> sr_exact q = as_exact (c_assessment x) \<and> sr_features q = pa_features (c_analysis x)
     \<and> sr_reasons q = as_reasons (c_assessment x) \<and> unit_interval (sr_score q)"
  by (auto simp: result_of_def split: if_splits)

lemma compared_pairs:
  assumes "compared rt left right p cs c"
  shows "length (jc_pairs c) = length (accepted_of cs)"
    "k < length (accepted_of cs) \<Longrightarrow> result_of left right (accepted_of cs ! k) = Inr (jc_pairs c ! k)"
    "map sr_left_id (jc_pairs c) = map (\<lambda>x. j_id (left ! c_left x)) (accepted_of cs)"
    "map sr_right_id (jc_pairs c) = map (\<lambda>x. j_id (right ! c_right x)) (accepted_of cs)"
    "map sr_verdict (jc_pairs c) = map (\<lambda>x. as_verdict (c_assessment x)) (accepted_of cs)"
proof -
  have r: "length (jc_pairs c) = length (accepted_of cs)"
    "\<And>k. k < length (accepted_of cs) \<Longrightarrow> result_of left right (accepted_of cs ! k) = Inr (jc_pairs c ! k)"
    using assms by (auto simp: compared_def map_err_Inr_iff)
  show "length (jc_pairs c) = length (accepted_of cs)" by (rule r)
  show "k < length (accepted_of cs) \<Longrightarrow> result_of left right (accepted_of cs ! k) = Inr (jc_pairs c ! k)" by (rule r)
  note f = result_of_Inr [OF r(2)]
  show "map sr_left_id (jc_pairs c) = map (\<lambda>x. j_id (left ! c_left x)) (accepted_of cs)"
    "map sr_right_id (jc_pairs c) = map (\<lambda>x. j_id (right ! c_right x)) (accepted_of cs)"
    "map sr_verdict (jc_pairs c) = map (\<lambda>x. as_verdict (c_assessment x)) (accepted_of cs)"
    using f r(1) by (auto intro: nth_equalityI)
qed

lemma compared_pair_candidate:
  assumes "compared rt left right p cs c" "q \<in> set (jc_pairs c)"
  obtains x where "x \<in> set (accepted_of cs)" "result_of left right x = Inr q" "x \<in> set cs"
    "candidate_ok rt left right p x" "as_passed (c_assessment x)"
proof -
  from assms(2) obtain k where k: "k < length (jc_pairs c)" "q = jc_pairs c ! k" by (metis in_set_conv_nth)
  note l = compared_pairs(1,2) [OF assms(1)]
  let ?x = "accepted_of cs ! k"
  have x: "?x \<in> set (accepted_of cs)" using k(1) l(1) by (metis nth_mem)
  have "\<forall>c \<in> set cs. candidate_ok rt left right p c"
    using assms(1) candidates_of(1) by (simp add: compared_def)
  then show ?thesis using that [of ?x] x accepted_in [OF x] l(2) [of k] k l(1) by auto
qed

end
