(* ===== verification/Engine_Laws.thy ===== *)
theory Engine_Laws
  imports Match_Engine
begin

text \<open>
  What a comparison promises, over the contract \<open>one_to_one\<close> of the acceptance loop: it returns on
  well-formed journeys, accounts for every journey of both sides once, pairs no two that fail a
  gate, is stable, counts its reasons and gives each journey card its bucket.
\<close>

section \<open>Returning, and accounting for every journey\<close>

lemma compare_returns:
  assumes "\<forall>j \<in> set left \<union> set right. valid_journey j"
  obtains c where "compare rt left right p = Inr c"
proof -
  obtain cs where cs: "map_err (weigh rt left right p) (List.product (comparable left) (comparable right)) = Inr cs"
    using weigh_total [OF assms] by blast
  have "\<forall>x \<in> set (accepted_of cs). \<exists>q. result_of left right x = Inr q"
    using candidates_of(1) [OF cs] accepted_in result_of_scores by blast
  from map_err_total [OF this] obtain ps where "map_err (result_of left right) (accepted_of cs) = Inr ps" by blast
  with cs that show ?thesis by (simp add: compare_def Let_def)
qed

lemma index_partition:
  assumes "distinct us" "set us \<subseteq> set ks" "distinct ks" "set ks \<subseteq> {..<n}"
  shows "mset us + mset (filter (\<lambda>i. i \<notin> set us) ks) + mset (filter (\<lambda>i. i \<notin> set ks) [0..<n]) = mset [0..<n]"
proof -
  let ?xs = "us @ filter (\<lambda>i. i \<notin> set us) ks @ filter (\<lambda>i. i \<notin> set ks) [0..<n]"
  have "distinct ?xs" using assms by auto
  moreover have "set ?xs = set [0..<n]" using assms by auto
  ultimately have "mset ?xs = mset [0..<n]" by (metis distinct_upt set_eq_iff_mset_eq_distinct)
  then show ?thesis by (simp add: add.assoc)
qed

lemma ids_partition:
  assumes "distinct us" "set us \<subseteq> set (comparable js)"
  shows "mset (map (\<lambda>i. j_id (js ! i)) us)
       + mset (map (\<lambda>i. j_id (js ! i)) (filter (\<lambda>i. i \<notin> set us) (comparable js)))
       + mset (map (\<lambda>i. j_id (js ! i)) (filter (\<lambda>i. i \<notin> set (comparable js)) [0..<length js]))
       = mset (map j_id js)"
proof -
  let ?f = "\<lambda>i. j_id (js ! i)"
  have "set (comparable js) \<subseteq> {..<length js}" by (auto simp: set_comparable)
  from index_partition [OF assms distinct_comparable this]
  have "image_mset ?f (mset us + mset (filter (\<lambda>i. i \<notin> set us) (comparable js))
      + mset (filter (\<lambda>i. i \<notin> set (comparable js)) [0..<length js])) = image_mset ?f (mset [0..<length js])"
    by (rule arg_cong)
  moreover have "map ?f [0..<length js] = map j_id js" by (intro nth_equalityI) simp_all
  ultimately show ?thesis by (metis image_mset_union mset_map)
qed

lemma um_id_unmatched [simp]: "um_journey_id (unmatched j cs os s) = j_id j"
  by (simp add: unmatched_def Let_def split: option.splits)

lemma compared_used:
  assumes "compared rt left right p cs c"
  shows "set (map c_left (accepted_of cs)) \<subseteq> set (comparable left)"
    "set (map c_right (accepted_of cs)) \<subseteq> set (comparable right)"
proof -
  have "\<forall>x \<in> set cs. candidate_ok rt left right p x"
    using assms candidates_of(1) by (simp add: compared_def)
  then have "candidate_ok rt left right p x" if "x \<in> set (accepted_of cs)" for x
    using accepted_in [OF that] by blast
  then show "set (map c_left (accepted_of cs)) \<subseteq> set (comparable left)"
    "set (map c_right (accepted_of cs)) \<subseteq> set (comparable right)"
    by (fastforce simp: candidate_ok_def simp del: set_accepted)+
qed

lemma compared_partition:
  assumes "compared rt left right p cs c"
  shows "mset (map sr_left_id (jc_pairs c)) + mset (map um_journey_id (jc_left_only c))
      + mset (jc_uncomparable_left c) = mset (map j_id left)"
    "mset (map sr_right_id (jc_pairs c)) + mset (map um_journey_id (jc_right_only c))
      + mset (jc_uncomparable_right c) = mset (map j_id right)"
proof -
  note used = compared_used [OF assms] and pairs = compared_pairs(3,4) [OF assms]
  have l: "map um_journey_id (jc_left_only c)
      = map (\<lambda>i. j_id (left ! i)) (filter (\<lambda>i. i \<notin> set (map c_left (accepted_of cs))) (comparable left))"
    "map um_journey_id (jc_right_only c)
      = map (\<lambda>i. j_id (right ! i)) (filter (\<lambda>i. i \<notin> set (map c_right (accepted_of cs))) (comparable right))"
    using assms by (simp_all add: compared_def)
  have u: "jc_uncomparable_left c = map (\<lambda>i. j_id (left ! i)) (filter (\<lambda>i. i \<notin> set (comparable left)) [0..<length left])"
    "jc_uncomparable_right c = map (\<lambda>j. j_id (right ! j)) (filter (\<lambda>j. j \<notin> set (comparable right)) [0..<length right])"
    using assms by (simp_all add: compared_def)
  have "map sr_left_id (jc_pairs c) = map (\<lambda>i. j_id (left ! i)) (map c_left (accepted_of cs))"
    "map sr_right_id (jc_pairs c) = map (\<lambda>i. j_id (right ! i)) (map c_right (accepted_of cs))"
    by (simp_all add: pairs del: set_accepted)
  then show "mset (map sr_left_id (jc_pairs c)) + mset (map um_journey_id (jc_left_only c))
      + mset (jc_uncomparable_left c) = mset (map j_id left)"
    "mset (map sr_right_id (jc_pairs c)) + mset (map um_journey_id (jc_right_only c))
      + mset (jc_uncomparable_right c) = mset (map j_id right)"
    unfolding l u using ids_partition [OF accepted_once(1) used(1)] ids_partition [OF accepted_once(2) used(2)]
    by simp_all
qed

lemma compare_partition:
  assumes "compare rt left right p = Inr c"
  shows "mset (map sr_left_id (jc_pairs c)) + mset (map um_journey_id (jc_left_only c))
      + mset (jc_uncomparable_left c) = mset (map j_id left)"
    "mset (map sr_right_id (jc_pairs c)) + mset (map um_journey_id (jc_right_only c))
      + mset (jc_uncomparable_right c) = mset (map j_id right)"
  by (rule compare_compared [OF assms], erule compared_partition)+

lemma compare_lengths:
  assumes "compare rt left right p = Inr c"
  shows "length (jc_pairs c) + length (jc_left_only c) + length (jc_uncomparable_left c) = length left"
    "length (jc_pairs c) + length (jc_right_only c) + length (jc_uncomparable_right c) = length right"
  using compare_partition [OF assms, THEN arg_cong [of _ _ size]] by simp_all

text \<open>With distinct ids on a side, every id is in exactly one of its three lists, once.\<close>

lemma compare_left_distinct:
  assumes "compare rt left right p = Inr c" "distinct (map j_id left)"
  shows "distinct (map sr_left_id (jc_pairs c) @ map um_journey_id (jc_left_only c) @ jc_uncomparable_left c)"
  using compare_partition(1) [OF assms(1)] assms(2)
  by (metis add.assoc mset_append mset_eq_imp_distinct_iff)

lemma compare_right_distinct:
  assumes "compare rt left right p = Inr c" "distinct (map j_id right)"
  shows "distinct (map sr_right_id (jc_pairs c) @ map um_journey_id (jc_right_only c) @ jc_uncomparable_right c)"
  using compare_partition(2) [OF assms(1)] assms(2)
  by (metis add.assoc mset_append mset_eq_imp_distinct_iff)

lemma compare_left_ids:
  assumes "compare rt left right p = Inr c"
  shows "sr_left_id ` set (jc_pairs c) \<union> um_journey_id ` set (jc_left_only c) \<union> set (jc_uncomparable_left c) = j_id ` set left"
  using arg_cong [OF compare_partition(1) [OF assms], of set_mset] by simp

lemma compare_right_ids:
  assumes "compare rt left right p = Inr c"
  shows "sr_right_id ` set (jc_pairs c) \<union> um_journey_id ` set (jc_right_only c) \<union> set (jc_uncomparable_right c) = j_id ` set right"
  using arg_cong [OF compare_partition(2) [OF assms], of set_mset] by simp

section \<open>Pairs passed the gates\<close>

lemma compare_pair:
  assumes "compare rt left right p = Inr c" "q \<in> set (jc_pairs c)"
  obtains l r a where "l \<in> set left" "r \<in> set right" "sr_left_id q = j_id l" "sr_right_id q = j_id r"
    "analyse rt l r p = Inr a" "as_passed (assess a p (exact_pair rt l r))"
    "sr_verdict q = as_verdict (assess a p (exact_pair rt l r))"
    "sr_score q = as_score (assess a p (exact_pair rt l r))"
    "sr_exact q = as_exact (assess a p (exact_pair rt l r))"
    "sr_reasons q = as_reasons (assess a p (exact_pair rt l r))" "sr_features q = pa_features a"
proof -
  obtain cs where cs: "compared rt left right p cs c" by (rule compare_compared [OF assms(1)])
  obtain x where x: "result_of left right x = Inr q" "candidate_ok rt left right p x" "as_passed (c_assessment x)"
    using compared_pair_candidate [OF cs assms(2)] by blast
  have "c_left x < length left" "c_right x < length right"
    using x(2) by (auto simp: candidate_ok_def set_comparable)
  then show ?thesis
    using that [of "left ! c_left x" "right ! c_right x" "c_analysis x"] x(2,3) result_of_Inr [OF x(1)]
    by (simp add: candidate_ok_def)
qed

section \<open>Stability\<close>

text \<open>The rank of a pair: verdict, score, departure difference, ids.\<close>

definition gap_of :: "journey_match_features \<Rightarrow> int" where
  "gap_of f = (case departure_delta f of Some d \<Rightarrow> \<bar>d\<bar> | None \<Rightarrow> 2 ^ 62)"

definition pair_rank :: "similarity_result \<Rightarrow> nat \<times> real \<times> int \<times> str \<times> str" where
  "pair_rank q = (VERDICT_RANK (sr_verdict q), - sr_score q, gap_of (sr_features q), sr_left_id q, sr_right_id q)"

definition weighed_rank :: "canonical_journey \<Rightarrow> canonical_journey \<Rightarrow> pair_analysis \<Rightarrow> assessment \<Rightarrow> nat \<times> real \<times> int \<times> str \<times> str" where
  "weighed_rank l r a s = (VERDICT_RANK (as_verdict s), - as_score s, gap_of (pa_features a), j_id l, j_id r)"

lemma rank_key_result:
  "result_of left right x = Inr q \<Longrightarrow> candidate_ok rt left right p x \<Longrightarrow> rank_key x = pair_rank q"
  using result_of_Inr [of left right x q]
  by (simp add: rank_key_def pair_rank_def departure_gap_def gap_of_def candidate_ok_def)

lemma rank_key_candidate:
  "candidate_ok rt left right p x \<Longrightarrow>
     rank_key x = weighed_rank (left ! c_left x) (right ! c_right x) (c_analysis x) (c_assessment x)"
  by (simp add: rank_key_def weighed_rank_def departure_gap_def gap_of_def candidate_ok_def)

lemma accepted_result:
  assumes "compared rt left right p cs c" "x \<in> set (accepted_of cs)"
  obtains q where "q \<in> set (jc_pairs c)" "result_of left right x = Inr q"
proof -
  from assms(2) obtain k where k: "k < length (accepted_of cs)" "x = accepted_of cs ! k" by (metis in_set_conv_nth)
  then have "result_of left right x = Inr (jc_pairs c ! k)" "k < length (jc_pairs c)"
    using compared_pairs(1,2) [OF assms(1)] by auto
  then show ?thesis using that nth_mem by blast
qed

lemma accepted_blocks:
  assumes "compared rt left right p cs c" "x \<in> set cs" "as_passed (c_assessment x)"
  obtains q y where "q \<in> set (jc_pairs c)" "y \<in> set (accepted_of cs)" "result_of left right y = Inr q"
    "c_left y = c_left x \<or> c_right y = c_right x" "pair_rank q \<le> rank_key x"
proof -
  have "x \<in> set (passing cs)" using assms(2,3) by simp
  from acc.blocked [where key = rank_key, OF sorted_passing this, of c_left c_right] obtain y where
    y: "y \<in> set (accepted_of cs)" "c_left y = c_left x \<or> c_right y = c_right x" "rank_key y \<le> rank_key x"
    by auto
  from accepted_result [OF assms(1) y(1)] obtain q where
    q: "q \<in> set (jc_pairs c)" "result_of left right y = Inr q" by blast
  have "candidate_ok rt left right p y"
    using candidates_of(1) accepted_in [OF y(1)] assms(1) by (auto simp: compared_def)
  from rank_key_result [OF q(2) this] y(3) have "pair_rank q \<le> rank_key x" by simp
  with that q y show ?thesis by blast
qed

lemma compare_stable:
  assumes "compare rt left right p = Inr c" "l \<in> set left" "r \<in> set right" "valid_journey l" "valid_journey r"
    and "analyse rt l r p = Inr a" "as_passed (assess a p (exact_pair rt l r))"
  shows "\<exists>q \<in> set (jc_pairs c). (sr_left_id q = j_id l \<or> sr_right_id q = j_id r)
           \<and> pair_rank q \<le> weighed_rank l r a (assess a p (exact_pair rt l r))"
proof -
  obtain cs where cs: "compared rt left right p cs c" by (rule compare_compared [OF assms(1)])
  then have m: "map_err (weigh rt left right p) (List.product (comparable left) (comparable right)) = Inr cs"
    by (simp add: compared_def)
  obtain i j where i: "i < length left" "left ! i = l" and j: "j < length right" "right ! j = r"
    using assms(2,3) by (metis in_set_conv_nth)
  have "rides_of l \<noteq> []" "rides_of r \<noteq> []" using assms(6) analyse_Inl by fastforce+
  then have "timed_legs l \<noteq> []" "timed_legs r \<noteq> []" using rides_of_empty assms(4,5) by auto
  then have "i \<in> set (comparable left)" "j \<in> set (comparable right)" using i j by (auto simp: set_comparable)
  from candidate_exists [OF m this] obtain x where x: "x \<in> set cs" "c_left x = i" "c_right x = j" by blast
  with candidates_of(1) [OF m] have ok: "candidate_ok rt left right p x" by blast
  then have a: "c_analysis x = a" "c_assessment x = assess a p (exact_pair rt l r)"
    using assms(6) x i j by (auto simp: candidate_ok_def)
  from accepted_blocks [OF cs x(1)] assms(7) a(2) obtain q y where
    q: "q \<in> set (jc_pairs c)" "result_of left right y = Inr q"
       "c_left y = c_left x \<or> c_right y = c_right x" "pair_rank q \<le> rank_key x" by metis
  have "sr_left_id q = j_id l \<or> sr_right_id q = j_id r"
    using q(3) result_of_Inr [OF q(2)] x i j by auto
  moreover have "pair_rank q \<le> weighed_rank l r a (assess a p (exact_pair rt l r))"
    using q(4) rank_key_candidate [OF ok] x i j a by simp
  ultimately show ?thesis using q(1) by blast
qed

section \<open>Why a journey is unpaired\<close>

text \<open>The codes only the engine or a coverage cell gives: no weighing of a pair ever finds them.\<close>

definition engine_code :: "reason_code \<Rightarrow> bool" where
  "engine_code k = (k = PAIRED_ELSEWHERE \<or> k = NO_CANDIDATE \<or> k = OUTSIDE_REFERENCE_WINDOW)"

lemma r_code_reason [simp]: "r_code (reason k s l a b) = k"
  by (simp add: reason_def)

lemma end_agreement_note: "sa_note (end_agreement a b ok p) = Some n \<Longrightarrow> \<not> engine_code n"
  by (auto simp: end_agreement_def compare_stations_def with_position_fallback_def Let_def engine_code_def
      split: if_splits option.splits prod.splits)

lemma inner_notes_codes: "(i, n) \<in> set (snd (inner_agreements rides t p)) \<Longrightarrow> \<not> engine_code n"
  by (auto simp: inner_agreements_def Let_def map_filter_def dest: end_agreement_note)

lemma station_notes_analyse:
  assumes "analyse rt l r p = Inr a"
  shows "pa_station_notes a = dedup (List.map_filter (\<lambda>(i, s). map_option (\<lambda>note. (i, note)) (sa_note s))
      [(ride_index (hd (pa_left a)), pa_first_station a), (ride_index (last (pa_left a)), pa_last_station a)]
    @ snd (inner_agreements (pa_rides a) (pa_trimmed a) p))"
  using assms unfolding analyse_def Let_def case_prod_beta
  by (simp only: sum.distinct sum.inject HOL.simp_thms split: if_split_asm) (drule sym, simp only: pair_analysis.select_convs)+

lemma station_notes_codes:
  assumes "analyse rt l r p = Inr a" "(i, n) \<in> set (pa_station_notes a)"
  shows "\<not> engine_code n"
proof -
  have "sa_note (pa_first_station a) = Some n \<or> sa_note (pa_last_station a) = Some n
      \<or> (i, n) \<in> set (snd (inner_agreements (pa_rides a) (pa_trimmed a) p))"
    using assms(2) unfolding station_notes_analyse [OF assms(1)] by (auto simp: map_filter_simps split: option.splits)
  then show ?thesis
    using end_agreement_note inner_notes_codes unfolding analyse_trimmed(9,10) [OF assms(1)] by blast
qed

lemma compare_services_codes: "x \<in> set (sc_reasons (compare_services rt u v k)) \<Longrightarrow> \<not> engine_code (r_code x)"
  by (auto simp: compare_services_def label_reasons_def Let_def engine_code_def split: if_splits)

lemma service_reasons_codes:
  assumes "\<forall>r \<in> set rs. \<forall>x \<in> set (sc_reasons (ar_service r)). \<not> engine_code (r_code x)"
    "x \<in> set (fst (service_reasons p rs))"
  shows "\<not> engine_code (r_code x)"
  using assms
proof (induction rs)
  case (Cons r rs)
  have "\<not> engine_code (r_code (fst (number_conflict p r)))"
    by (simp add: number_conflict_def Let_def engine_code_def)
  with Cons show ?case by (auto simp: Let_def case_prod_beta split: if_splits)
qed simp

lemma context_reasons_codes:
  "analyse rt l r p = Inr a \<Longrightarrow> x \<in> set (context_reasons a) \<Longrightarrow> \<not> engine_code (r_code x)"
  by (auto simp: context_reasons_def split: if_splits dest: station_notes_codes) (simp_all add: engine_code_def)

lemma gate_codes:
  "x \<in> set (time_gate a p) \<Longrightarrow> \<not> engine_code (r_code x)"
  "x \<in> set (fst (station_gate a p)) \<union> set (snd (station_gate a p)) \<Longrightarrow> \<not> engine_code (r_code x)"
  "x \<in> set (split_reasons a p) \<Longrightarrow> \<not> engine_code (r_code x)"
  by (auto simp: time_gate_def station_gate_def gate_ends_def station_gate_end_def split_reasons_def
      engine_code_def Let_def split: if_splits agreement.splits option.splits list.splits)

lemma assess_codes:
  assumes "analyse rt l r p = Inr a" "x \<in> set (as_reasons (assess a p e))"
  shows "\<not> engine_code (r_code x)"
proof -
  have "\<forall>r \<in> set (pa_rides a). \<forall>x \<in> set (sc_reasons (ar_service r)). \<not> engine_code (r_code x)"
    using compare_services_codes by (auto simp: analyse_trimmed(2) [OF assms(1)])
  note svc = service_reasons_codes [OF this]
  have "x \<in> set (time_gate a p) \<union> set (fst (station_gate a p)) \<union> set (snd (station_gate a p))
      \<union> set (fst (service_reasons p (pa_rides a))) \<union> set (context_reasons a) \<union> set (split_reasons a p)
      \<or> r_code x \<in> {EXACT_FINGERPRINT, SCORE_TOO_LOW}"
    using assms(2) by (auto simp: assess_def Let_def case_prod_beta split: if_splits)
  then show ?thesis
    using gate_codes(1) [of x a p] gate_codes(2) [of x a p] gate_codes(3) [of x a p] svc [of x p]
      context_reasons_codes [OF assms(1), of x] by (auto simp: engine_code_def)
qed

text \<open>An unpaired journey of the left side, with the candidate its reasons come from.\<close>

lemma left_only_closest:
  assumes "compared rt left right p cs c" "u \<in> set (jc_left_only c)"
  obtains i where "i \<in> set (comparable left)" "i \<notin> set (map c_left (accepted_of cs))"
    "u = unmatched (left ! i) (filter (\<lambda>x. c_left x = i) cs) right True"
  using assms by (auto simp: compared_def)

lemma unmatched_closest:
  assumes "closest cs = Some x"
  shows "unmatched j cs others s = \<lparr>um_journey_id = j_id j,
     um_closest_id = Some (j_id (others ! (if s then c_right x else c_left x))),
     um_reasons = (if as_passed (c_assessment x)
        then reason PAIRED_ELSEWHERE Info None None None # as_reasons (c_assessment x)
        else as_reasons (c_assessment x))\<rparr>"
  using assms by (simp add: unmatched_def Let_def)

lemma paired_elsewhere_left:
  assumes "compare rt left right p = Inr c" "u \<in> set (jc_left_only c)"
    and "PAIRED_ELSEWHERE \<in> r_code ` set (um_reasons u)"
  obtains l r a q where "l \<in> set left" "r \<in> set right" "um_journey_id u = j_id l" "um_closest_id u = Some (j_id r)"
    "analyse rt l r p = Inr a" "as_passed (assess a p (exact_pair rt l r))"
    "q \<in> set (jc_pairs c)" "sr_right_id q = j_id r" "pair_rank q \<le> weighed_rank l r a (assess a p (exact_pair rt l r))"
proof -
  obtain cs where cs: "compared rt left right p cs c" by (rule compare_compared [OF assms(1)])
  then have ok: "\<forall>x \<in> set cs. candidate_ok rt left right p x" using candidates_of(1) by (simp add: compared_def)
  obtain i where i: "i \<in> set (comparable left)" "i \<notin> set (map c_left (accepted_of cs))"
    "u = unmatched (left ! i) (filter (\<lambda>x. c_left x = i) cs) right True"
    using left_only_closest [OF cs assms(2)] by blast
  have "closest (filter (\<lambda>x. c_left x = i) cs) \<noteq> None"
    using assms(3) by (auto simp: i(3) unmatched_def split: option.splits)
  then obtain x where x: "closest (filter (\<lambda>x. c_left x = i) cs) = Some x" by blast
  then have "x \<in> set (filter (\<lambda>x. c_left x = i) cs)" unfolding closest_def by (rule min_by_mem)
  then have xi: "x \<in> set cs" "c_left x = i" and xok: "candidate_ok rt left right p x" using ok by auto
  have "as_passed (c_assessment x)"
    using assms(3) xok assess_codes by (fastforce simp: i(3) unmatched_closest [OF x] candidate_ok_def engine_code_def split: if_splits)
  from accepted_blocks [OF cs xi(1) this] obtain q y where
    q: "q \<in> set (jc_pairs c)" "y \<in> set (accepted_of cs)" "result_of left right y = Inr q"
       "c_left y = c_left x \<or> c_right y = c_right x" "pair_rank q \<le> rank_key x" by metis
  have "c_left y \<noteq> c_left x" using i(2) q(2) xi(2) by (metis image_eqI list.set_map)
  then have "sr_right_id q = j_id (right ! c_right x)" using q(4) result_of_Inr [OF q(3)] by simp
  moreover have "c_left x < length left" "c_right x < length right"
    using xok by (auto simp: candidate_ok_def set_comparable)
  ultimately show ?thesis
    using that [of "left ! c_left x" "right ! c_right x" "c_analysis x" q] xok q xi
      rank_key_candidate [OF xok] \<open>as_passed (c_assessment x)\<close>
    by (simp add: candidate_ok_def i(3) unmatched_closest [OF x])
qed

section \<open>Reason counts\<close>

lemma alist_get_map_of: "alist_get kvs k d = (case map_of kvs k of None \<Rightarrow> d | Some v \<Rightarrow> v)"
  by (simp add: alist_get_def)

lemma foldl_bump:
  assumes "distinct ks"
  shows "alist_get (foldl bump counts ks) k 0 = alist_get counts k 0 + (if k \<in> set ks then 1 else 0)"
  using assms
  by (induction ks arbitrary: counts) (auto simp: bump_def alist_get_map_of)

lemma foldl_count_group:
  "alist_get (foldl count_group counts gs) k 0 = alist_get counts k 0 + length (filter (\<lambda>g. k \<in> r_code ` set g) gs)"
  by (induction gs arbitrary: counts) (auto simp: count_group_def foldl_bump)

lemma foldl_bump_keys:
  "distinct (map fst counts) \<Longrightarrow> distinct (map fst (foldl bump counts ks))"
  by (induction ks arbitrary: counts) (simp_all add: bump_def distinct_alist_set)

lemma foldl_count_group_keys:
  "distinct (map fst counts) \<Longrightarrow> distinct (map fst (foldl count_group counts gs))"
  by (induction gs arbitrary: counts) (simp_all add: count_group_def foldl_bump_keys)

lemma map_of_sort_key:
  assumes "distinct (map fst kvs)"
  shows "map_of (sort_key f kvs) = map_of kvs"
proof (rule map_of_eqI)
  show "\<forall>k \<in> set (map fst (sort_key f kvs)). map_of (sort_key f kvs) k = map_of kvs k"
    using assms by (auto simp: map_of_eq_Some_iff distinct_map)
qed auto

lemma reason_counts_get:
  "alist_get (reason_counts c) k 0 = length (filter (\<lambda>g. k \<in> r_code ` set g) (reason_groups c))"
proof -
  have "distinct (map fst (foldl count_group [] (reason_groups c)))" by (rule foldl_count_group_keys) simp
  from map_of_sort_key [OF this, of "\<lambda>(code, n). code_text code"] show ?thesis
    using foldl_count_group [of "[]" "reason_groups c" k] by (simp add: reason_counts_def alist_get_map_of)
qed

lemma reason_counts_keys:
  "distinct (map fst (reason_counts c))" "sorted (map (code_text \<circ> fst) (reason_counts c))"
proof -
  have "distinct (map fst (foldl count_group [] (reason_groups c)))" by (rule foldl_count_group_keys) simp
  then show "distinct (map fst (reason_counts c))" by (simp add: reason_counts_def distinct_map)
  show "sorted (map (code_text \<circ> fst) (reason_counts c))"
    using sorted_sort_key [of "\<lambda>(code, n). code_text code" "foldl count_group [] (reason_groups c)"]
    by (simp add: reason_counts_def case_prod_beta' comp_def)
qed

text \<open>How many groups there are: a refused pair counts once, whichever sides name it.\<close>

definition refused_key :: "unmatched_journey \<times> bool \<Rightarrow> str \<times> str" where
  "refused_key x = (if snd x then (um_journey_id (fst x), the (um_closest_id (fst x)))
     else (the (um_closest_id (fst x)), um_journey_id (fst x)))"

lemma length_refused_groups:
  "length (refused_groups seen xs) = length (filter (\<lambda>x. um_closest_id (fst x) = None) xs)
     + card (refused_key ` {x \<in> set xs. um_closest_id (fst x) \<noteq> None} - set seen)"
proof (induction seen xs rule: refused_groups.induct)
  case (2 seen item left_side rest)
  let ?K = "refused_key ` {x \<in> set rest. um_closest_id (fst x) \<noteq> None}"
  show ?case
  proof (cases "um_closest_id item")
    case None
    then have "{x \<in> set ((item, left_side) # rest). um_closest_id (fst x) \<noteq> None} = {x \<in> set rest. um_closest_id (fst x) \<noteq> None}"
      by auto
    with None 2 show ?thesis by simp
  next
    case (Some other)
    let ?k = "refused_key (item, left_side)"
    have "{x \<in> set ((item, left_side) # rest). um_closest_id (fst x) \<noteq> None}
        = insert (item, left_side) {x \<in> set rest. um_closest_id (fst x) \<noteq> None}" using Some by auto
    then have eq: "refused_key ` {x \<in> set ((item, left_side) # rest). um_closest_id (fst x) \<noteq> None} = insert ?k ?K" by simp
    have k: "(if left_side then (um_journey_id item, other) else (other, um_journey_id item)) = ?k"
      by (simp add: refused_key_def Some)
    show ?thesis
    proof (cases "?k \<in> set seen")
      case True
      with 2(2) [OF Some] Some k eq show ?thesis by (simp add: Let_def)
    next
      case False
      have "insert ?k ?K - set seen = insert ?k (?K - set (?k # seen))" using False by auto
      then have "card (insert ?k ?K - set seen) = Suc (card (?K - set (?k # seen)))" by simp
      with 2(3) [OF Some] Some k eq False show ?thesis by (simp add: Let_def)
    qed
  qed
qed simp

lemma length_reason_groups:
  "length (reason_groups c) = length (jc_pairs c)
     + length (filter (\<lambda>u. um_closest_id u = None) (jc_left_only c @ jc_right_only c))
     + card ((\<lambda>u. (um_journey_id u, the (um_closest_id u))) ` {u \<in> set (jc_left_only c). um_closest_id u \<noteq> None}
         \<union> (\<lambda>u. (the (um_closest_id u), um_journey_id u)) ` {u \<in> set (jc_right_only c). um_closest_id u \<noteq> None})"
proof -
  let ?xs = "map (\<lambda>i. (i, True)) (jc_left_only c) @ map (\<lambda>i. (i, False)) (jc_right_only c)"
  have "refused_key ` {x \<in> set ?xs. um_closest_id (fst x) \<noteq> None}
      = (\<lambda>u. (um_journey_id u, the (um_closest_id u))) ` {u \<in> set (jc_left_only c). um_closest_id u \<noteq> None}
      \<union> (\<lambda>u. (the (um_closest_id u), um_journey_id u)) ` {u \<in> set (jc_right_only c). um_closest_id u \<noteq> None}"
    (is "refused_key ` ?X = _")
  proof -
    have "?X = (\<lambda>i. (i, True)) ` {u \<in> set (jc_left_only c). um_closest_id u \<noteq> None}
        \<union> (\<lambda>i. (i, False)) ` {u \<in> set (jc_right_only c). um_closest_id u \<noteq> None}" by auto
    moreover have "refused_key (u, True) = (um_journey_id u, the (um_closest_id u))"
      "refused_key (u, False) = (the (um_closest_id u), um_journey_id u)" for u by (simp_all add: refused_key_def)
    ultimately show ?thesis by (simp only: image_Un image_image)
  qed
  then show ?thesis using length_refused_groups [of "[]" ?xs]
    by (simp add: reason_groups_def filter_map comp_def)
qed

lemma compare_summary_counts:
  assumes "compare rt left right p = Inr c"
  shows "cs_same_service (jc_summary c) + cs_probably_same (jc_summary c) = length (jc_pairs c)"
    "cs_left_only (jc_summary c) = length (jc_left_only c)" "cs_right_only (jc_summary c) = length (jc_right_only c)"
    "cs_uncomparable_left (jc_summary c) = length (jc_uncomparable_left c)"
    "cs_uncomparable_right (jc_summary c) = length (jc_uncomparable_right c)"
proof -
  obtain cs where cs: "compared rt left right p cs c" by (rule compare_compared [OF assms])
  have "sr_verdict q \<noteq> Different" if "q \<in> set (jc_pairs c)" for q
  proof (rule compare_pair [OF assms that])
    fix l r a assume "as_passed (assess a p (exact_pair rt l r))" "sr_verdict q = as_verdict (assess a p (exact_pair rt l r))"
    then show ?thesis using assess_verdict_passed [of a p] by simp
  qed
  then have "filter (\<lambda>q. sr_verdict q = Probably_same) (jc_pairs c) = filter (\<lambda>q. sr_verdict q \<noteq> Same_service) (jc_pairs c)"
    by (intro filter_cong) (simp, metis match_verdict.exhaust match_verdict.distinct(1))
  then have "length (filter (\<lambda>q. sr_verdict q = Same_service) (jc_pairs c))
      + length (filter (\<lambda>q. sr_verdict q = Probably_same) (jc_pairs c)) = length (jc_pairs c)"
    by (simp add: sum_length_filter_compl)
  with cs show "cs_same_service (jc_summary c) + cs_probably_same (jc_summary c) = length (jc_pairs c)"
    by (simp add: compared_def)
  from cs show "cs_left_only (jc_summary c) = length (jc_left_only c)" "cs_right_only (jc_summary c) = length (jc_right_only c)"
    "cs_uncomparable_left (jc_summary c) = length (jc_uncomparable_left c)"
    "cs_uncomparable_right (jc_summary c) = length (jc_uncomparable_right c)" by (simp_all add: compared_def)
qed

section \<open>Journey cards\<close>

text \<open>Three dictionaries filled one after the other, whose keys are all different.\<close>

lemma map_of_rev_distinct:
  "distinct (map fst kvs) \<Longrightarrow> map_of (rev kvs) k = Some v \<longleftrightarrow> (k, v) \<in> set kvs"
  by (simp add: rev_map [symmetric] map_of_eq_Some_iff)

lemma three_layers:
  assumes "distinct (map fst as @ map fst bs @ map fst cs)"
  shows "(map_of (rev as) ++ map_of (rev bs) ++ map_of (rev cs)) k = Some v
    \<longleftrightarrow> (k, v) \<in> set as \<union> set bs \<union> set cs"
proof -
  have "map_of (rev as) ++ map_of (rev bs) ++ map_of (rev cs) = map_of (rev (as @ bs @ cs))"
    by (simp add: map_of_append)
  then show ?thesis using map_of_rev_distinct [of "as @ bs @ cs" k v] assms by auto
qed

lemma metadata_left:
  assumes "compare rt left right p = Inr c" "distinct (map j_id left)"
  shows "fst (metadata c) k = Some m \<longleftrightarrow>
    (\<exists>q \<in> set (jc_pairs c). k = sr_left_id q \<and> m = pair_metadata (sr_right_id q) q)
    \<or> (\<exists>u \<in> set (jc_left_only c). k = um_journey_id u \<and> m = single_metadata Left_only (um_reasons u))
    \<or> (k \<in> set (jc_uncomparable_left c) \<and> m = single_metadata Uncomparable [])"
proof -
  have "distinct (map fst (map (\<lambda>q. (sr_left_id q, pair_metadata (sr_right_id q) q)) (jc_pairs c))
     @ map fst (map (\<lambda>u. (um_journey_id u, single_metadata Left_only (um_reasons u))) (jc_left_only c))
     @ map fst (map (\<lambda>i. (i, single_metadata Uncomparable [])) (jc_uncomparable_left c)))"
    using compare_left_distinct [OF assms] by (simp add: comp_def)
  from three_layers [OF this, of k m] show ?thesis by (auto simp: metadata_def)
qed

lemma metadata_right:
  assumes "compare rt left right p = Inr c" "distinct (map j_id right)"
  shows "snd (metadata c) k = Some m \<longleftrightarrow>
    (\<exists>q \<in> set (jc_pairs c). k = sr_right_id q \<and> m = pair_metadata (sr_left_id q) q)
    \<or> (\<exists>u \<in> set (jc_right_only c). k = um_journey_id u \<and> m = single_metadata Right_only (um_reasons u))
    \<or> (k \<in> set (jc_uncomparable_right c) \<and> m = single_metadata Uncomparable [])"
proof -
  have "distinct (map fst (map (\<lambda>q. (sr_right_id q, pair_metadata (sr_left_id q) q)) (jc_pairs c))
     @ map fst (map (\<lambda>u. (um_journey_id u, single_metadata Right_only (um_reasons u))) (jc_right_only c))
     @ map fst (map (\<lambda>i. (i, single_metadata Uncomparable [])) (jc_uncomparable_right c)))"
    using compare_right_distinct [OF assms] by (simp add: comp_def)
  from three_layers [OF this, of k m] show ?thesis by (auto simp: metadata_def)
qed

lemma metadata_dom:
  assumes "compare rt left right p = Inr c"
  shows "dom (fst (metadata c)) = j_id ` set left" "dom (snd (metadata c)) = j_id ` set right"
  using compare_left_ids [OF assms] compare_right_ids [OF assms]
  by (auto simp: metadata_def dom_map_of_conv_image_fst image_image)

lemma metadata_paired:
  assumes "compare rt left right p = Inr c" "distinct (map j_id left)" "distinct (map j_id right)"
  shows "(\<exists>m. fst (metadata c) x = Some m \<and> cm_paired_with m = Some y)
     \<longleftrightarrow> (\<exists>m. snd (metadata c) y = Some m \<and> cm_paired_with m = Some x)"
proof -
  have "(\<exists>m. fst (metadata c) x = Some m \<and> cm_paired_with m = Some y)
      \<longleftrightarrow> (\<exists>q \<in> set (jc_pairs c). sr_left_id q = x \<and> sr_right_id q = y)"
    by (auto simp: metadata_left [OF assms(1,2)] pair_metadata_def single_metadata_def)
  moreover have "(\<exists>m. snd (metadata c) y = Some m \<and> cm_paired_with m = Some x)
      \<longleftrightarrow> (\<exists>q \<in> set (jc_pairs c). sr_left_id q = x \<and> sr_right_id q = y)"
    by (auto simp: metadata_right [OF assms(1,3)] pair_metadata_def single_metadata_def)
  ultimately show ?thesis by simp
qed

end
