(* ===== verification/Engine_Order.thy ===== *)
theory Engine_Order
  imports Engine_Laws
begin

text \<open>
  The engine's determinism: the same journeys give the same pairs, unpaired journeys and counts
  whatever the order they come in. The proof forgets the positions of a candidate (\<open>weighing\<close>):
  what is accepted, and the closest candidate of an unpaired journey, depend on the ids only.
\<close>

type_synonym weighing = "str \<times> str \<times> pair_analysis \<times> assessment"

definition strip_of :: "candidate \<Rightarrow> weighing" where
  "strip_of x = (c_left_id x, c_right_id x, c_analysis x, c_assessment x)"

fun strip_rank :: "weighing \<Rightarrow> nat \<times> real \<times> int \<times> str \<times> str" where
  "strip_rank (l, r, a, s) = (VERDICT_RANK (as_verdict s), - as_score s, gap_of (pa_features a), l, r)"

fun strip_gap :: "weighing \<Rightarrow> int \<times> str \<times> str" where
  "strip_gap (l, r, a, s) = (gap_of (pa_features a), l, r)"

fun strip_result :: "weighing \<Rightarrow> similarity_result" where
  "strip_result (l, r, a, s) = \<lparr>sr_left_id = l, sr_right_id = r, sr_verdict = as_verdict s,
     sr_score = as_score s, sr_exact = as_exact s, sr_features = pa_features a, sr_reasons = as_reasons s\<rparr>"

definition strip_unmatched :: "bool \<Rightarrow> str \<Rightarrow> weighing option \<Rightarrow> unmatched_journey" where
  "strip_unmatched left_side i w = (case w of
      None \<Rightarrow> \<lparr>um_journey_id = i, um_closest_id = None, um_reasons = [reason NO_CANDIDATE Info None None None]\<rparr>
    | Some (l, r, a, s) \<Rightarrow> \<lparr>um_journey_id = i, um_closest_id = Some (if left_side then r else l),
        um_reasons = (if as_passed s then reason PAIRED_ELSEWHERE Info None None None # as_reasons s else as_reasons s)\<rparr>)"

lemma strip_rank_of: "strip_rank (strip_of x) = rank_key x"
  by (simp add: strip_of_def rank_key_def departure_gap_def gap_of_def)

lemma strip_gap_of: "strip_gap (strip_of x) = (departure_gap x, c_left_id x, c_right_id x)"
  by (simp add: strip_of_def departure_gap_def gap_of_def)

lemma strip_result_of: "result_of left right x = Inr q \<Longrightarrow> candidate_ok rt left right p x \<Longrightarrow> q = strip_result (strip_of x)"
  by (auto simp: result_of_def strip_of_def candidate_ok_def split: if_splits)

section \<open>The acceptance loop and the smallest candidate, up to positions\<close>

lemma accept_map: "accept lft rgt ul ur (map f cs) = map f (accept (lft \<circ> f) (rgt \<circ> f) ul ur cs)"
  by (induction cs arbitrary: ul ur) simp_all

lemma accept_rename:
  assumes "inj_on f A" "inj_on g B" "set ul \<subseteq> A" "set ur \<subseteq> B" "lft ` set cs \<subseteq> A" "rgt ` set cs \<subseteq> B"
    and "\<And>x. x \<in> set cs \<Longrightarrow> lft' x = f (lft x)" "\<And>x. x \<in> set cs \<Longrightarrow> rgt' x = g (rgt x)"
  shows "accept lft' rgt' (map f ul) (map g ur) cs = accept lft rgt ul ur cs"
  using assms(3-)
proof (induction cs arbitrary: ul ur)
  case (Cons c cs)
  have "f (lft c) \<in> f ` set ul \<longleftrightarrow> lft c \<in> set ul" "g (rgt c) \<in> g ` set ur \<longleftrightarrow> rgt c \<in> set ur"
    using Cons.prems assms(1,2) by (auto simp: inj_on_image_mem_iff)
  moreover have "lft' c = f (lft c)" "rgt' c = g (rgt c)" using Cons.prems by auto
  moreover have step: "accept lft' rgt' (map f us) (map g vs) cs = accept lft rgt us vs cs"
    if "set us \<subseteq> A" "set vs \<subseteq> B" for us vs
    by (rule Cons.IH) (use that Cons.prems in auto)
  moreover have "accept lft' rgt' (f (lft c) # map f ul) (g (rgt c) # map g ur) cs
      = accept lft rgt (lft c # ul) (rgt c # ur) cs"
    using step [of "lft c # ul" "rgt c # ur"] Cons.prems by simp
  ultimately show ?case using Cons.prems(1,2) by simp
qed simp

lemma min_by_same:
  assumes "h ` set xs = h ` set ys" "inj_on k (h ` set xs)"
    and "\<And>x. f x = k (h x)"
  shows "map_option h (min_by f xs) = map_option h (min_by f ys)"
proof (cases "min_by f xs")
  case None
  then have "ys = []" using assms(1) by auto
  with None show ?thesis by (metis min_by_None)
next
  case (Some x)
  then have "ys \<noteq> []" using assms(1) min_by_mem by fastforce
  then obtain y where y: "min_by f ys = Some y" by (metis min_by_None not_Some_eq)
  note m = min_by_mem [OF Some] min_by_mem [OF y]
  have "h x \<in> h ` set ys" "h y \<in> h ` set xs" using m assms(1) by auto
  then obtain x' y' where "x' \<in> set ys" "h x' = h x" "y' \<in> set xs" "h y' = h y" by auto
  with min_by_le [OF Some, of y'] min_by_le [OF y, of x'] have "k (h x) = k (h y)"
    unfolding assms(3) by auto
  then have "h x = h y" using inj_onD [OF assms(2)] \<open>h y \<in> h ` set xs\<close> m(1) by blast
  with Some y show ?thesis by simp
qed

section \<open>The candidates depend on the journeys only\<close>

definition timed_in :: "canonical_journey list \<Rightarrow> canonical_journey set" where
  "timed_in js = {j \<in> set js. timed_legs j \<noteq> []}"

definition weighings :: "runtime \<Rightarrow> match_profile \<Rightarrow> canonical_journey set \<Rightarrow> canonical_journey set \<Rightarrow> weighing set" where
  "weighings rt p ls rs = {(j_id l, j_id r, a, assess a p (exact_pair rt l r)) | l r a.
     l \<in> ls \<and> r \<in> rs \<and> analyse rt l r p = Inr a}"

lemma timed_nth: "j \<in> timed_in js \<longleftrightarrow> (\<exists>i \<in> set (comparable js). js ! i = j)"
  by (auto simp: timed_in_def set_comparable in_set_conv_nth)

lemma comparable_filter: "comparable js = filter (\<lambda>i. timed_legs (js ! i) \<noteq> []) [0..<length js]"
proof -
  have "py_enumerate js = map (\<lambda>i. (i, js ! i)) [0..<length js]" by (intro nth_equalityI) simp_all
  then show ?thesis by (simp add: comparable_def filter_map comp_def)
qed

lemma strip_candidates:
  assumes "map_err (weigh rt left right p) (List.product (comparable left) (comparable right)) = Inr cs"
  shows "strip_of ` set cs = weighings rt p (timed_in left) (timed_in right)"
proof
  show "strip_of ` set cs \<subseteq> weighings rt p (timed_in left) (timed_in right)"
  proof
    fix w assume "w \<in> strip_of ` set cs"
    then obtain x where x: "x \<in> set cs" "w = strip_of x" by blast
    with candidates_of(1) [OF assms] have "candidate_ok rt left right p x" by blast
    with x(2) show "w \<in> weighings rt p (timed_in left) (timed_in right)"
      by (auto simp: weighings_def candidate_ok_def strip_of_def timed_nth)
  qed
  show "weighings rt p (timed_in left) (timed_in right) \<subseteq> strip_of ` set cs"
  proof
    fix w assume "w \<in> weighings rt p (timed_in left) (timed_in right)"
    then obtain i j a where w: "i \<in> set (comparable left)" "j \<in> set (comparable right)"
      "analyse rt (left ! i) (right ! j) p = Inr a"
      "w = (j_id (left ! i), j_id (right ! j), a, assess a p (exact_pair rt (left ! i) (right ! j)))"
      by (auto simp: weighings_def timed_nth)
    from candidate_exists [OF assms w(1,2)] obtain x where x: "x \<in> set cs" "c_left x = i" "c_right x = j" by blast
    with candidates_of(1) [OF assms] have "candidate_ok rt left right p x" by blast
    then have "w = strip_of x" using w x by (auto simp: candidate_ok_def strip_of_def)
    with x(1) show "w \<in> strip_of ` set cs" by blast
  qed
qed

lemma weigh_returns_iff:
  "(\<exists>cs. map_err (weigh rt left right p) (List.product (comparable left) (comparable right)) = Inr cs)
   \<longleftrightarrow> (\<forall>l \<in> timed_in left. \<forall>r \<in> timed_in right. \<exists>a. analyse rt l r p = Inr a)"
proof -
  have one: "(\<exists>c. weigh rt left right p (i, j) = Inr c) \<longleftrightarrow> (\<exists>a. analyse rt (left ! i) (right ! j) p = Inr a)" for i j
    by (auto simp: weigh_def split: sum.splits)
  have "(\<exists>cs. map_err (weigh rt left right p) ps = Inr cs) \<longleftrightarrow> (\<forall>ij \<in> set ps. \<exists>c. weigh rt left right p ij = Inr c)" for ps
  proof
    assume "\<exists>cs. map_err (weigh rt left right p) ps = Inr cs"
    then show "\<forall>ij \<in> set ps. \<exists>c. weigh rt left right p ij = Inr c"
      by (metis in_set_conv_nth map_err_Inr_iff)
  qed (rule map_err_total)
  moreover have "(\<forall>ij \<in> set (List.product (comparable left) (comparable right)). \<exists>c. weigh rt left right p ij = Inr c)
      \<longleftrightarrow> (\<forall>i \<in> set (comparable left). \<forall>j \<in> set (comparable right). \<exists>a. analyse rt (left ! i) (right ! j) p = Inr a)"
    using one by auto
  moreover have "timed_in js = (\<lambda>i. js ! i) ` set (comparable js)" for js by (auto simp: timed_nth)
  ultimately show ?thesis by simp
qed


section \<open>What is accepted\<close>

text \<open>A comparison on journeys with distinct ids.\<close>

definition distinct_ids :: "canonical_journey list \<Rightarrow> canonical_journey list \<Rightarrow> bool" where
  "distinct_ids left right = (distinct (map j_id left) \<and> distinct (map j_id right))"

lemma id_inj: "distinct (map j_id js) \<Longrightarrow> inj_on (\<lambda>i. j_id (js ! i)) {..<length js}"
  by (auto simp: inj_on_def distinct_conv_nth)

lemma candidate_bounds:
  "candidate_ok rt left right p x \<Longrightarrow> c_left x < length left \<and> c_right x < length right"
  by (auto simp: candidate_ok_def set_comparable)

lemma rank_inj:
  assumes "map_err (weigh rt left right p) (List.product (comparable left) (comparable right)) = Inr cs"
    and "distinct_ids left right"
  shows "inj_on (\<lambda>x. (c_left_id x, c_right_id x)) (set cs)"
proof (rule inj_onI)
  fix x y assume xy: "x \<in> set cs" "y \<in> set cs" "(c_left_id x, c_right_id x) = (c_left_id y, c_right_id y)"
  then have ok: "candidate_ok rt left right p x" "candidate_ok rt left right p y" using candidates_of(1) [OF assms(1)] by auto
  have "c_left x = c_left y"
    by (rule inj_onD [OF id_inj [of left]])
      (use assms(2) ok xy(3) candidate_bounds [OF ok(1)] candidate_bounds [OF ok(2)] in
        \<open>auto simp: distinct_ids_def candidate_ok_def\<close>)
  moreover have "c_right x = c_right y"
    by (rule inj_onD [OF id_inj [of right]])
      (use assms(2) ok xy(3) candidate_bounds [OF ok(1)] candidate_bounds [OF ok(2)] in
        \<open>auto simp: distinct_ids_def candidate_ok_def\<close>)
  moreover have "distinct (map (\<lambda>c. (c_left c, c_right c)) cs)"
    unfolding candidates_of(2) [OF assms(1)] by (intro distinct_product distinct_comparable)
  then have "inj_on (\<lambda>c. (c_left c, c_right c)) (set cs)" by (simp add: distinct_map)
  ultimately show "x = y" using xy by (simp add: inj_on_def)
qed

lemma distinct_candidates:
  assumes "map_err (weigh rt left right p) (List.product (comparable left) (comparable right)) = Inr cs"
  shows "distinct cs"
proof -
  have "distinct (map (\<lambda>c. (c_left c, c_right c)) cs)"
    unfolding candidates_of(2) [OF assms] by (intro distinct_product distinct_comparable)
  then show ?thesis by (simp add: distinct_map)
qed

lemma strip_passing:
  assumes cs: "map_err (weigh rt left right p) (List.product (comparable left) (comparable right)) = Inr cs"
    and cs': "map_err (weigh rt left' right' p) (List.product (comparable left') (comparable right')) = Inr cs'"
    and ids: "distinct_ids left right" "distinct_ids left' right'"
    and same: "timed_in left' = timed_in left" "timed_in right' = timed_in right"
  shows "map strip_of (passing cs') = map strip_of (passing cs)"
proof -
  have ranked: "distinct (map strip_rank (map strip_of (passing xs)))"
    if "map_err (weigh rt l r p) (List.product (comparable l) (comparable r)) = Inr xs" "distinct_ids l r" for l r xs
  proof -
    have "inj_on rank_key (set xs)" using rank_inj [OF that] by (auto simp: inj_on_def rank_key_def)
    then have "inj_on rank_key (set (passing xs))" by (rule inj_on_subset) auto
    moreover have "distinct (passing xs)" using distinct_candidates [OF that(1)] by (simp add: passing_def)
    ultimately show ?thesis by (simp add: distinct_map comp_def strip_rank_of)
  qed
  have sets: "strip_of ` set cs' = strip_of ` set cs" using strip_candidates [OF cs] strip_candidates [OF cs'] same by simp
  have set_p: "set (map strip_of (passing xs)) = {w \<in> strip_of ` set xs. as_passed (snd (snd (snd w)))}" for xs
    by (auto simp: strip_of_def)
  have eq: "set (map strip_of (passing cs')) = set (map strip_of (passing cs))" unfolding set_p sets by simp
  have inj: "inj_on strip_rank (set (map strip_of (passing cs')) \<union> set (map strip_of (passing cs)))"
    unfolding eq Un_absorb using ranked [OF cs ids(1)] unfolding distinct_map [of strip_rank] by simp
  show ?thesis
  proof (rule map_sorted_distinct_set_unique [OF inj])
    show "sorted (map strip_rank (map strip_of (passing cs')))" "sorted (map strip_rank (map strip_of (passing cs)))"
      using sorted_passing by (simp_all add: comp_def strip_rank_of)
  qed (use ranked [OF cs ids(1)] ranked [OF cs' ids(2)] eq in auto)
qed

lemma strip_accept:
  assumes "map_err (weigh rt left right p) (List.product (comparable left) (comparable right)) = Inr cs"
    and "distinct_ids left right"
  shows "map strip_of (accept c_left c_right [] [] (passing cs)) = accept fst (fst \<circ> snd) [] [] (map strip_of (passing cs))"
proof -
  have ok: "candidate_ok rt left right p x" if "x \<in> set (passing cs)" for x
    using candidates_of(1) [OF assms(1)] that by auto
  have "accept c_left_id c_right_id (map (\<lambda>i. j_id (left ! i)) []) (map (\<lambda>i. j_id (right ! i)) []) (passing cs)
      = accept c_left c_right [] [] (passing cs)"
  proof (rule accept_rename [OF id_inj id_inj])
    show "distinct (map j_id left)" "distinct (map j_id right)" using assms(2) by (auto simp: distinct_ids_def)
    show "c_left ` set (passing cs) \<subseteq> {..<length left}" "c_right ` set (passing cs) \<subseteq> {..<length right}"
      using ok candidate_bounds by blast+
    show "c_left_id x = j_id (left ! c_left x)" "c_right_id x = j_id (right ! c_right x)" if "x \<in> set (passing cs)" for x
      using ok [OF that] by (simp_all add: candidate_ok_def)
  qed simp_all
  moreover have "fst \<circ> strip_of = c_left_id" "fst \<circ> snd \<circ> strip_of = c_right_id"
    by (auto simp: strip_of_def comp_def)
  ultimately show ?thesis by (simp add: accept_map)
qed

lemma compared_strip_pairs:
  assumes "compared rt left right p cs c"
  shows "jc_pairs c = map (strip_result \<circ> strip_of) (accepted_of cs)"
proof (rule nth_equalityI)
  fix k assume k: "k < length (jc_pairs c)"
  let ?x = "accepted_of cs ! k"
  have len: "length (jc_pairs c) = length (accepted_of cs)" by (rule compared_pairs(1) [OF assms])
  have "?x \<in> set (accepted_of cs)" using k len by (metis nth_mem)
  then have "candidate_ok rt left right p ?x"
    using accepted_in candidates_of(1) assms by (fastforce simp: compared_def)
  from strip_result_of [OF compared_pairs(2) [OF assms, of k] this] show "jc_pairs c ! k = map (strip_result \<circ> strip_of) (accepted_of cs) ! k"
    using k len by simp
qed (simp add: compared_pairs(1) [OF assms])

section \<open>Unpaired journeys\<close>

lemma unmatched_strip:
  assumes "\<forall>x \<in> set xs. candidate_ok rt left right p x"
  shows "unmatched j xs right True = strip_unmatched True (j_id j) (map_option strip_of (closest xs))"
    "unmatched j xs left False = strip_unmatched False (j_id j) (map_option strip_of (closest xs))"
proof -
  have "candidate_ok rt left right p x" if "closest xs = Some x" for x
    using assms min_by_mem [OF that [unfolded closest_def]] by blast
  then show "unmatched j xs right True = strip_unmatched True (j_id j) (map_option strip_of (closest xs))"
    "unmatched j xs left False = strip_unmatched False (j_id j) (map_option strip_of (closest xs))"
    by (auto simp: unmatched_def strip_unmatched_def strip_of_def candidate_ok_def Let_def split: option.splits)
qed

lemma map_nth_filter: "map (\<lambda>i. f (xs ! i)) (filter (\<lambda>i. Q (xs ! i)) [0..<length xs]) = map f (filter Q xs)"
proof -
  have "map f (filter Q xs) = map f (filter Q (map ((!) xs) [0..<length xs]))" by (simp add: map_nth)
  also have "\<dots> = map (\<lambda>i. f (xs ! i)) (filter (\<lambda>i. Q (xs ! i)) [0..<length xs])"
    by (simp only: filter_map map_map comp_def)
  finally show ?thesis by simp
qed

lemma by_id:
  assumes "distinct (map j_id js)" "i < length js" "k < length js"
  shows "j_id (js ! i) = j_id (js ! k) \<longleftrightarrow> i = k"
  using assms by (auto simp: distinct_conv_nth)

lemma left_only_form:
  assumes "compared rt left right p cs c" "distinct_ids left right"
  shows "jc_left_only c = map (\<lambda>l. strip_unmatched True (j_id l) (map_option strip_of (closest (filter (\<lambda>x. c_left_id x = j_id l) cs))))
     (filter (\<lambda>l. timed_legs l \<noteq> [] \<and> j_id l \<notin> c_left_id ` set (accepted_of cs)) left)" (is "_ = ?rhs")
proof -
  have ok: "\<forall>x \<in> set cs. candidate_ok rt left right p x" using assms(1) candidates_of(1) by (simp add: compared_def)
  have id: "c_left_id x = j_id (left ! i) \<longleftrightarrow> c_left x = i" if "x \<in> set cs" "i < length left" for x i
    using ok that by_id [of left "c_left x" i] assms(2) candidate_bounds [of rt left right p x]
    by (auto simp: candidate_ok_def distinct_ids_def)
  have acc: "set (accepted_of cs) \<subseteq> set cs" using accepted_in by blast
  have u: "unmatched (left ! i) (filter (\<lambda>c. c_left c = i) cs) right True = strip_unmatched True (j_id (left ! i))
      (map_option strip_of (closest (filter (\<lambda>x. c_left_id x = j_id (left ! i)) cs)))" if "i < length left" for i
  proof -
    have "filter (\<lambda>c. c_left c = i) cs = filter (\<lambda>x. c_left_id x = j_id (left ! i)) cs"
      by (rule filter_cong) (use id that in auto)
    then show ?thesis using unmatched_strip(1) [of "filter (\<lambda>c. c_left c = i) cs" rt left right p "left ! i"] ok by simp
  qed
  have f: "filter (\<lambda>i. i \<notin> set (map c_left (accepted_of cs))) (comparable left) = filter (\<lambda>i. timed_legs (left ! i) \<noteq> []
      \<and> j_id (left ! i) \<notin> c_left_id ` set (accepted_of cs)) [0..<length left]"
    unfolding comparable_filter filter_filter
  proof (rule filter_cong)
    fix i assume "i \<in> set [0..<length left]"
    then have "\<And>x. x \<in> set (accepted_of cs) \<Longrightarrow> c_left_id x = j_id (left ! i) \<longleftrightarrow> c_left x = i" using id acc by auto
    then show "(timed_legs (left ! i) \<noteq> [] \<and> i \<notin> set (map c_left (accepted_of cs)))
        = (timed_legs (left ! i) \<noteq> [] \<and> j_id (left ! i) \<notin> c_left_id ` set (accepted_of cs))"
      unfolding list.set_map image_iff by metis
  qed simp
  have "jc_left_only c = map (\<lambda>i. unmatched (left ! i) (filter (\<lambda>c. c_left c = i) cs) right True)
      (filter (\<lambda>i. i \<notin> set (map c_left (accepted_of cs))) (comparable left))"
    using assms(1) by (simp add: compared_def)
  also have "\<dots> = map (\<lambda>i. strip_unmatched True (j_id (left ! i)) (map_option strip_of (closest (filter (\<lambda>x. c_left_id x = j_id (left ! i)) cs))))
      (filter (\<lambda>i. timed_legs (left ! i) \<noteq> [] \<and> j_id (left ! i) \<notin> c_left_id ` set (accepted_of cs)) [0..<length left])"
    unfolding f by (rule map_cong) (simp_all add: u)
  also have "\<dots> = ?rhs" by (rule map_nth_filter)
  finally show ?thesis .
qed

lemma right_only_form:
  assumes "compared rt left right p cs c" "distinct_ids left right"
  shows "jc_right_only c = map (\<lambda>l. strip_unmatched False (j_id l) (map_option strip_of (closest (filter (\<lambda>x. c_right_id x = j_id l) cs))))
     (filter (\<lambda>l. timed_legs l \<noteq> [] \<and> j_id l \<notin> c_right_id ` set (accepted_of cs)) right)" (is "_ = ?rhs")
proof -
  have ok: "\<forall>x \<in> set cs. candidate_ok rt left right p x" using assms(1) candidates_of(1) by (simp add: compared_def)
  have id: "c_right_id x = j_id (right ! i) \<longleftrightarrow> c_right x = i" if "x \<in> set cs" "i < length right" for x i
    using ok that by_id [of right "c_right x" i] assms(2) candidate_bounds [of rt left right p x]
    by (auto simp: candidate_ok_def distinct_ids_def)
  have acc: "set (accepted_of cs) \<subseteq> set cs" using accepted_in by blast
  have u: "unmatched (right ! i) (filter (\<lambda>c. c_right c = i) cs) left False = strip_unmatched False (j_id (right ! i))
      (map_option strip_of (closest (filter (\<lambda>x. c_right_id x = j_id (right ! i)) cs)))" if "i < length right" for i
  proof -
    have "filter (\<lambda>c. c_right c = i) cs = filter (\<lambda>x. c_right_id x = j_id (right ! i)) cs"
      by (rule filter_cong) (use id that in auto)
    then show ?thesis using unmatched_strip(2) [of "filter (\<lambda>c. c_right c = i) cs" rt left right p "right ! i"] ok by simp
  qed
  have f: "filter (\<lambda>i. i \<notin> set (map c_right (accepted_of cs))) (comparable right) = filter (\<lambda>i. timed_legs (right ! i) \<noteq> []
      \<and> j_id (right ! i) \<notin> c_right_id ` set (accepted_of cs)) [0..<length right]"
    unfolding comparable_filter filter_filter
  proof (rule filter_cong)
    fix i assume "i \<in> set [0..<length right]"
    then have "\<And>x. x \<in> set (accepted_of cs) \<Longrightarrow> c_right_id x = j_id (right ! i) \<longleftrightarrow> c_right x = i" using id acc by auto
    then show "(timed_legs (right ! i) \<noteq> [] \<and> i \<notin> set (map c_right (accepted_of cs)))
        = (timed_legs (right ! i) \<noteq> [] \<and> j_id (right ! i) \<notin> c_right_id ` set (accepted_of cs))"
      unfolding list.set_map image_iff by metis
  qed simp
  have "jc_right_only c = map (\<lambda>i. unmatched (right ! i) (filter (\<lambda>c. c_right c = i) cs) left False)
      (filter (\<lambda>i. i \<notin> set (map c_right (accepted_of cs))) (comparable right))"
    using assms(1) by (simp add: compared_def)
  also have "\<dots> = map (\<lambda>i. strip_unmatched False (j_id (right ! i)) (map_option strip_of (closest (filter (\<lambda>x. c_right_id x = j_id (right ! i)) cs))))
      (filter (\<lambda>i. timed_legs (right ! i) \<noteq> [] \<and> j_id (right ! i) \<notin> c_right_id ` set (accepted_of cs)) [0..<length right])"
    unfolding f by (rule map_cong) (simp_all add: u)
  also have "\<dots> = ?rhs" by (rule map_nth_filter)
  finally show ?thesis .
qed

lemma closest_same:
  assumes "strip_of ` set xs = strip_of ` set ys" "inj_on (\<lambda>x. (c_left_id x, c_right_id x)) (set xs)"
  shows "map_option strip_of (closest xs) = map_option strip_of (closest ys)"
  unfolding closest_def
proof (rule min_by_same [where k = strip_gap, OF assms(1)])
  show "inj_on strip_gap (strip_of ` set xs)"
    using assms(2) by (auto simp: inj_on_def strip_gap_of)
qed (simp add: strip_gap_of)

lemma strip_filter:
  assumes "strip_of ` set xs = strip_of ` set ys"
  shows "strip_of ` set (filter (\<lambda>x. c_left_id x = i) xs) = strip_of ` set (filter (\<lambda>x. c_left_id x = i) ys)"
    "strip_of ` set (filter (\<lambda>x. c_right_id x = i) xs) = strip_of ` set (filter (\<lambda>x. c_right_id x = i) ys)"
proof -
  have "strip_of ` set (filter (\<lambda>x. c_left_id x = i) zs) = {w \<in> strip_of ` set zs. fst w = i}"
    "strip_of ` set (filter (\<lambda>x. c_right_id x = i) zs) = {w \<in> strip_of ` set zs. fst (snd w) = i}" for zs
    by (auto simp: strip_of_def)
  with assms show "strip_of ` set (filter (\<lambda>x. c_left_id x = i) xs) = strip_of ` set (filter (\<lambda>x. c_left_id x = i) ys)"
    "strip_of ` set (filter (\<lambda>x. c_right_id x = i) xs) = strip_of ` set (filter (\<lambda>x. c_right_id x = i) ys)" by simp_all
qed

lemma uncomparable_form:
  assumes "compared rt left right p cs c"
  shows "jc_uncomparable_left c = map j_id (filter (\<lambda>l. timed_legs l = []) left)"
    "jc_uncomparable_right c = map j_id (filter (\<lambda>l. timed_legs l = []) right)"
proof -
  have "filter (\<lambda>i. i \<notin> set (comparable js)) [0..<length js] = filter (\<lambda>i. timed_legs (js ! i) = []) [0..<length js]"
    for js by (rule filter_cong) (auto simp: set_comparable)
  moreover have "map (\<lambda>i. j_id (js ! i)) (filter (\<lambda>i. timed_legs (js ! i) = []) [0..<length js])
      = map j_id (filter (\<lambda>l. timed_legs l = []) js)" for js by (rule map_nth_filter)
  ultimately show "jc_uncomparable_left c = map j_id (filter (\<lambda>l. timed_legs l = []) left)"
    "jc_uncomparable_right c = map j_id (filter (\<lambda>l. timed_legs l = []) right)"
    using assms by (simp_all add: compared_def)
qed

section \<open>The same journeys in another order\<close>

text \<open>Two results with the same content: each list is a reordering, the counts are equal.\<close>

definition same_content :: "journey_comparison \<Rightarrow> journey_comparison \<Rightarrow> bool" where
  "same_content c c' = (jc_profile c = jc_profile c' \<and> mset (jc_pairs c) = mset (jc_pairs c')
     \<and> mset (jc_left_only c) = mset (jc_left_only c') \<and> mset (jc_right_only c) = mset (jc_right_only c')
     \<and> mset (jc_uncomparable_left c) = mset (jc_uncomparable_left c')
     \<and> mset (jc_uncomparable_right c) = mset (jc_uncomparable_right c')
     \<and> jc_summary c = jc_summary c')"

lemma timed_in_mset: "mset js' = mset js \<Longrightarrow> timed_in js' = timed_in js"
  unfolding timed_in_def by (metis set_mset_mset)

lemma distinct_ids_mset:
  assumes "distinct_ids left right" "mset left' = mset left" "mset right' = mset right"
  shows "distinct_ids left' right'"
  using assms unfolding distinct_ids_def by (metis mset_eq_imp_distinct_iff mset_map)

lemma weigh_order:
  assumes "map_err (weigh rt left right p) (List.product (comparable left) (comparable right)) = Inr cs"
    and "mset left' = mset left" "mset right' = mset right"
  obtains cs' where "map_err (weigh rt left' right' p) (List.product (comparable left') (comparable right')) = Inr cs'"
    "strip_of ` set cs' = strip_of ` set cs"
proof -
  note t = timed_in_mset [OF assms(2)] timed_in_mset [OF assms(3)]
  have "\<forall>l \<in> timed_in left'. \<forall>r \<in> timed_in right'. \<exists>a. analyse rt l r p = Inr a"
    unfolding t using weigh_returns_iff assms(1) by blast
  then obtain cs' where cs': "map_err (weigh rt left' right' p) (List.product (comparable left') (comparable right')) = Inr cs'"
    using weigh_returns_iff by blast
  with that strip_candidates [OF cs'] strip_candidates [OF assms(1)] t show ?thesis by simp
qed

lemma compare_returns_weighed:
  assumes "map_err (weigh rt left right p) (List.product (comparable left) (comparable right)) = Inr cs"
  obtains c where "compare rt left right p = Inr c" "compared rt left right p cs c"
proof -
  have "\<forall>x \<in> set (accepted_of cs). \<exists>q. result_of left right x = Inr q"
    using candidates_of(1) [OF assms] accepted_in result_of_scores by blast
  from map_err_total [OF this] obtain ps where "map_err (result_of left right) (accepted_of cs) = Inr ps" by blast
  with assms have "\<exists>c. compare rt left right p = Inr c" by (simp add: compare_def Let_def)
  then obtain c where c: "compare rt left right p = Inr c" by blast
  then obtain cs' where cs': "compared rt left right p cs' c" by (rule compare_compared)
  then have "cs' = cs" using assms by (simp add: compared_def)
  with c cs' that show ?thesis by blast
qed

text \<open>The summary only counts, so reordered lists give the same one.\<close>

lemma summary_content:
  assumes "compared rt left right p cs c" "compared rt left' right' p cs' c'"
    and "mset (jc_pairs c') = mset (jc_pairs c)" "mset (jc_left_only c') = mset (jc_left_only c)"
    "mset (jc_right_only c') = mset (jc_right_only c)"
    "mset (jc_uncomparable_left c') = mset (jc_uncomparable_left c)"
    "mset (jc_uncomparable_right c') = mset (jc_uncomparable_right c)"
  shows "jc_summary c' = jc_summary c"
proof -
  have "length (filter P (jc_pairs c')) = length (filter P (jc_pairs c))" for P
    using assms(3) by (metis mset_filter size_mset)
  moreover note assms(4-) [THEN arg_cong [of _ _ size], unfolded size_mset]
  ultimately show ?thesis
    using assms(1,2) unfolding compared_def by (intro comparison_summary.equality) simp_all
qed

lemma compare_order:
  assumes c: "compare rt left right p = Inr c" and ids: "distinct_ids left right"
    and perm: "mset left' = mset left" "mset right' = mset right"
  obtains c' where "compare rt left' right' p = Inr c'" "same_content c' c"
proof -
  obtain cs where cmp: "compared rt left right p cs c" by (rule compare_compared [OF c])
  then have cs: "map_err (weigh rt left right p) (List.product (comparable left) (comparable right)) = Inr cs"
    by (simp add: compared_def)
  obtain cs' where cs': "map_err (weigh rt left' right' p) (List.product (comparable left') (comparable right')) = Inr cs'"
    and set: "strip_of ` set cs' = strip_of ` set cs" using weigh_order [OF cs perm] by blast
  obtain c' where c': "compare rt left' right' p = Inr c'" "compared rt left' right' p cs' c'"
    using compare_returns_weighed [OF cs'] by blast
  note ids' = distinct_ids_mset [OF ids perm] and cmp' = c'(2)
  have acc: "map strip_of (accept c_left c_right [] [] (passing cs')) = map strip_of (accept c_left c_right [] [] (passing cs))"
    unfolding strip_accept [OF cs ids] strip_accept [OF cs' ids']
    using strip_passing [OF cs cs' ids ids' timed_in_mset [OF perm(1)] timed_in_mset [OF perm(2)]] by simp
  then have mset_acc: "mset (map strip_of (accepted_of cs')) = mset (map strip_of (accepted_of cs))"
    unfolding accepted_of_passing mset_map mset_sort by (metis mset_map)
  have pairs: "mset (jc_pairs c') = mset (jc_pairs c)"
    unfolding compared_strip_pairs [OF cmp] compared_strip_pairs [OF cmp'] map_map [symmetric]
    using mset_acc by (metis mset_map)
  have used: "c_left_id ` set (accepted_of cs') = c_left_id ` set (accepted_of cs)"
    "c_right_id ` set (accepted_of cs') = c_right_id ` set (accepted_of cs)"
  proof -
    have "strip_of ` set (accepted_of cs') = strip_of ` set (accepted_of cs)" using mset_acc by (metis list.set_map set_mset_mset)
    then have "fst ` strip_of ` set (accepted_of cs') = fst ` strip_of ` set (accepted_of cs)"
      "(fst \<circ> snd) ` strip_of ` set (accepted_of cs') = (fst \<circ> snd) ` strip_of ` set (accepted_of cs)" by simp_all
    then show "c_left_id ` set (accepted_of cs') = c_left_id ` set (accepted_of cs)"
      "c_right_id ` set (accepted_of cs') = c_right_id ` set (accepted_of cs)"
      unfolding image_image comp_def by (simp_all add: strip_of_def)
  qed
  have inj: "inj_on (\<lambda>x. (c_left_id x, c_right_id x)) (set (filter P cs'))" for P
    by (rule inj_on_subset [OF rank_inj [OF cs' ids']]) auto
  have closest: "map_option strip_of (closest (filter (\<lambda>x. c_left_id x = i) cs')) = map_option strip_of (closest (filter (\<lambda>x. c_left_id x = i) cs))"
    "map_option strip_of (closest (filter (\<lambda>x. c_right_id x = i) cs')) = map_option strip_of (closest (filter (\<lambda>x. c_right_id x = i) cs))" for i
    by (rule closest_same [OF strip_filter(1) [OF set] inj], rule closest_same [OF strip_filter(2) [OF set] inj])
  have lefts: "mset (jc_left_only c') = mset (jc_left_only c)" "mset (jc_right_only c') = mset (jc_right_only c)"
    unfolding left_only_form [OF cmp ids] left_only_form [OF cmp' ids'] right_only_form [OF cmp ids]
      right_only_form [OF cmp' ids'] used closest mset_map mset_filter perm by (rule refl)+
  have unc: "mset (jc_uncomparable_left c') = mset (jc_uncomparable_left c)" "mset (jc_uncomparable_right c') = mset (jc_uncomparable_right c)"
    unfolding uncomparable_form [OF cmp] uncomparable_form [OF cmp'] mset_map mset_filter perm by (rule refl)+
  have "jc_profile c' = jc_profile c" using c c'(1) by (auto simp: compare_def Let_def split: sum.splits)
  then have "same_content c' c"
    using pairs lefts unc summary_content [OF cmp cmp' pairs lefts unc] by (simp add: same_content_def)
  with c'(1) that show ?thesis by blast
qed

end
