(* ===== verification/Sample_Journeys.thy ===== *)
theory Sample_Journeys
  imports Engine_Order
begin

text \<open>
  Concrete journeys the theorems are applied to: trains between two stations known by UIC code,
  with a train number and minutes past an origin of time.
\<close>

definition sample_stop :: "str \<Rightarrow> canonical_location" where
  "sample_stop uic = \<lparr>loc_kind = Stop, loc_name = None, loc_stop_place = Some
     \<lparr>sp_ref = uic, sp_source = ''feed'', sp_name = None, sp_uic = Some uic, sp_codes = [],
      sp_parent_ref = None, sp_unresolved_token = None, sp_position = None, sp_country = None,
      sp_station_id = None, sp_station_parent_id = None\<rparr>,
     loc_quay = None, loc_position = None\<rparr>"

definition sample_at :: "int \<Rightarrow> canonical_timing" where
  "sample_at m = \<lparr>timetabled = m * 60000000, estimated = None, local_timezone = None\<rparr>"

definition sample_train :: "str \<Rightarrow> canonical_service" where
  "sample_train n = \<lparr>sv_mode = RAIL, sv_product_category = None, sv_line = None, sv_train_number = Some n,
     sv_published_name = None, sv_route_long_name = None, sv_line_ref = None, sv_journey_ref = None,
     sv_destination_text = None, sv_operator = None, sv_feed = None\<rparr>"

definition sample_leg :: "str \<Rightarrow> str \<Rightarrow> str \<Rightarrow> int \<Rightarrow> int \<Rightarrow> canonical_leg" where
  "sample_leg n a b dep arr = \<lparr>leg_kind = Timed, leg_origin = sample_stop a, leg_destination = sample_stop b,
     leg_departure = Some (sample_at dep), leg_arrival = Some (sample_at arr), leg_duration_seconds = (arr - dep) * 60,
     leg_distance_meters = None, leg_service = Some (sample_train n), leg_continuous_mode = None,
     leg_source_mode = Some ''RAIL''\<rparr>"

definition sample_journey :: "str \<Rightarrow> canonical_leg list \<Rightarrow> canonical_journey" where
  "sample_journey i legs = \<lparr>j_id = i, j_source = \<lparr>js_provider = Otp, js_role = Viator, js_session_id = None,
       js_engine = None, js_adapter_version = 1, js_stitched_from_sessions = [], js_via_hubs = []\<rparr>,
     j_legs = legs, j_departure = None, j_arrival = None, j_duration_seconds = 3600,
     j_source_transfer_count = None\<rparr>"

definition bern_zurich :: "str \<Rightarrow> str \<Rightarrow> int \<Rightarrow> canonical_journey" where
  "bern_zurich i n dep = sample_journey i [sample_leg n ''8507000'' ''8503000'' dep (dep + 56)]"

text \<open>Two departures on the left, one on the right beside a journey without a ride.\<close>

definition sample_left :: "canonical_journey list" where
  "sample_left = [bern_zurich ''a'' ''7'' 10, bern_zurich ''b'' ''7'' 11]"

definition sample_right :: "canonical_journey list" where
  "sample_right = [bern_zurich ''x'' ''7'' 10, sample_journey ''w'' []]"

definition sample_pair :: similarity_result where
  "sample_pair = \<lparr>sr_left_id = ''a'', sr_right_id = ''x'', sr_verdict = Same_service, sr_score = 1, sr_exact = True,
     sr_features = \<lparr>departure_delta = Some 0, arrival_delta = Some 0, duration_delta = Some 0,
        transfer_count_delta = 0, station_overlap = Some 1, operator_overlap = None, service_overlap = Some 1,
        route_overlap = Some 1, fingerprint_similarity = 1\<rparr>,
     sr_reasons = [reason EXACT_FINGERPRINT Info None None None]\<rparr>"

definition sample_unmatched :: unmatched_journey where
  "sample_unmatched = \<lparr>um_journey_id = ''b'', um_closest_id = Some ''x'',
     um_reasons = [reason PAIRED_ELSEWHERE Info None None None]\<rparr>"

definition sample_comparison :: journey_comparison where
  "sample_comparison = \<lparr>jc_engine_version = 1, jc_profile = ''journey_reference'', jc_pairs = [sample_pair],
     jc_left_only = [sample_unmatched], jc_right_only = [], jc_uncomparable_left = [],
     jc_uncomparable_right = [''w''],
     jc_summary = \<lparr>cs_same_service = 1, cs_probably_same = 0, cs_left_only = 1, cs_right_only = 0,
        cs_uncomparable_left = 0, cs_uncomparable_right = 1\<rparr>\<rparr>"

lemma sample_compare: "compare ascii_runtime sample_left sample_right JOURNEY_REFERENCE = Inr sample_comparison"
  by code_simp

lemma sample_valid: "\<forall>j \<in> set sample_left \<union> set sample_right. valid_journey j"
  by code_simp

lemma sample_ids: "distinct_ids sample_left sample_right"
  by code_simp

end
