(* ===== verification/Engine_Properties.thy ===== *)
theory Engine_Properties
  imports Sample_Journeys
begin

text \<open>
  The promises of \<open>compare\<close> (\<open>app/journey/matching/engine.py\<close>), each with an application to the
  sample journeys: two departures on the left side that both fit the one on the right side.
\<close>

text \<open>C1: on well-formed journeys the comparison returns, and accounts for every journey of both sides
  exactly once: the ids of the pairs, of the unpaired and of the uncomparable journeys of a side are,
  as multisets, the ids of the journeys given.\<close>

theorem compare_accounts_for_all:
  assumes "\<forall>j \<in> set left \<union> set right. valid_journey j"
  shows "\<exists>c. compare rt left right p = Inr c
     \<and> mset (map sr_left_id (jc_pairs c)) + mset (map um_journey_id (jc_left_only c)) + mset (jc_uncomparable_left c)
         = mset (map j_id left)
     \<and> mset (map sr_right_id (jc_pairs c)) + mset (map um_journey_id (jc_right_only c)) + mset (jc_uncomparable_right c)
         = mset (map j_id right)"
proof -
  obtain c where "compare rt left right p = Inr c" by (rule compare_returns [OF assms])
  with compare_partition [OF this] show ?thesis by blast
qed

theorem compare_accounts_for_all_witness:
  "\<exists>c. compare ascii_runtime sample_left sample_right JOURNEY_REFERENCE = Inr c
     \<and> mset (map sr_left_id (jc_pairs c)) + mset (map um_journey_id (jc_left_only c)) + mset (jc_uncomparable_left c)
         = {#''a'', ''b''#}"
proof -
  have "mset (map j_id sample_left) = {#''a'', ''b''#}"
    by (simp add: sample_left_def bern_zurich_def sample_journey_def)
  then show ?thesis
    using compare_accounts_for_all [OF sample_valid, of ascii_runtime JOURNEY_REFERENCE] by metis
qed

text \<open>C2: the comparison is deterministic up to order: journeys with distinct ids, given in any other
  order on both sides, give the same pairs, the same unpaired journeys with the same reasons and the
  same counts.\<close>

theorem compare_order_independent:
  assumes "compare rt left right p = Inr c" "distinct_ids left right"
    and "mset left' = mset left" "mset right' = mset right"
  shows "\<exists>c'. compare rt left' right' p = Inr c' \<and> same_content c' c"
  using compare_order [OF assms] by blast

theorem compare_order_independent_witness:
  "\<exists>c'. compare ascii_runtime (rev sample_left) (rev sample_right) JOURNEY_REFERENCE = Inr c'
     \<and> same_content c' sample_comparison"
  using compare_order_independent [OF sample_compare sample_ids, of "rev sample_left" "rev sample_right"] by simp

text \<open>C3: the pairs are stable: when two journeys pass the gates with a verdict better than different,
  one of them is in a pair that ranks at least as well (verdict, score, departure difference, ids) as
  the two would.\<close>

theorem compare_pairs_stable:
  assumes "compare rt left right p = Inr c" "l \<in> set left" "r \<in> set right" "valid_journey l" "valid_journey r"
    and "analyse rt l r p = Inr a" "as_passed (assess a p (exact_pair rt l r))"
  shows "\<exists>q \<in> set (jc_pairs c). (sr_left_id q = j_id l \<or> sr_right_id q = j_id r)
           \<and> pair_rank q \<le> weighed_rank l r a (assess a p (exact_pair rt l r))"
  using assms by (rule compare_stable)

theorem compare_pairs_stable_witness:
  "\<exists>a. analyse ascii_runtime (sample_left ! 1) (sample_right ! 0) JOURNEY_REFERENCE = Inr a
     \<and> pair_rank sample_pair \<le> weighed_rank (sample_left ! 1) (sample_right ! 0) a (assess a JOURNEY_REFERENCE False)"
proof -
  let ?l = "sample_left ! 1" and ?r = "sample_right ! 0" and ?rt = ascii_runtime and ?p = JOURNEY_REFERENCE
  have "(case analyse ?rt ?l ?r ?p of Inl _ \<Rightarrow> False | Inr a \<Rightarrow> as_passed (assess a ?p (exact_pair ?rt ?l ?r)))
      \<and> \<not> exact_pair ?rt ?l ?r" by code_simp
  then obtain a where a: "analyse ?rt ?l ?r ?p = Inr a" "as_passed (assess a ?p (exact_pair ?rt ?l ?r))" "\<not> exact_pair ?rt ?l ?r"
    by (auto split: sum.splits)
  have "?l \<in> set sample_left" "?r \<in> set sample_right" by (simp_all add: sample_left_def sample_right_def)
  moreover from this have "valid_journey ?l" "valid_journey ?r" using sample_valid by blast+
  ultimately show ?thesis
    using compare_pairs_stable [OF sample_compare _ _ _ _ a(1,2)] a by (auto simp: sample_comparison_def)
qed

text \<open>\<open>paired_elsewhere\<close> says what happened: the unpaired left journey's closest candidate passed the
  gates, and the journey it names is in a pair that ranks at least as well as the two would.\<close>

theorem compare_paired_elsewhere:
  assumes "compare rt left right p = Inr c" "u \<in> set (jc_left_only c)"
    and "PAIRED_ELSEWHERE \<in> r_code ` set (um_reasons u)"
  shows "\<exists>l \<in> set left. \<exists>r \<in> set right. \<exists>a. \<exists>q \<in> set (jc_pairs c).
     um_journey_id u = j_id l \<and> um_closest_id u = Some (j_id r) \<and> analyse rt l r p = Inr a
     \<and> as_passed (assess a p (exact_pair rt l r)) \<and> sr_right_id q = j_id r
     \<and> pair_rank q \<le> weighed_rank l r a (assess a p (exact_pair rt l r))"
  by (rule paired_elsewhere_left [OF assms]) blast

theorem compare_paired_elsewhere_witness:
  "\<exists>l \<in> set sample_left. \<exists>r \<in> set sample_right. \<exists>a.
     j_id l = ''b'' \<and> j_id r = ''x'' \<and> analyse ascii_runtime l r JOURNEY_REFERENCE = Inr a
     \<and> pair_rank sample_pair \<le> weighed_rank l r a (assess a JOURNEY_REFERENCE (exact_pair ascii_runtime l r))"
  using compare_paired_elsewhere [OF sample_compare, of sample_unmatched]
  by (simp add: sample_comparison_def sample_unmatched_def) metis

text \<open>C4: every pair passed the gates: its departure and arrival differ by at most the profile's
  tolerances, both endpoints' stations agree (or may be unresolved), no train number vetoes it; its
  verdict is not different and its score is between 0 and 1.\<close>

theorem compare_pairs_pass_gates:
  assumes "compare rt left right p = Inr c" "q \<in> set (jc_pairs c)"
  shows "\<exists>l \<in> set left. \<exists>r \<in> set right. \<exists>a. sr_left_id q = j_id l \<and> sr_right_id q = j_id r
     \<and> analyse rt l r p = Inr a \<and> gates a p \<and> sr_features q = pa_features a
     \<and> (\<exists>d e. departure_delta (sr_features q) = Some d \<and> \<bar>d\<bar> \<le> departure_tolerance_s p
           \<and> arrival_delta (sr_features q) = Some e \<and> \<bar>e\<bar> \<le> arrival_tolerance_s p)
     \<and> sr_verdict q \<noteq> Different \<and> 0 \<le> sr_score q \<and> sr_score q \<le> 1"
proof -
  obtain l r a where w: "l \<in> set left" "r \<in> set right" "sr_left_id q = j_id l" "sr_right_id q = j_id r"
    "analyse rt l r p = Inr a" "as_passed (assess a p (exact_pair rt l r))"
    "sr_verdict q = as_verdict (assess a p (exact_pair rt l r))"
    "sr_score q = as_score (assess a p (exact_pair rt l r))" "sr_features q = pa_features a"
    using compare_pair [OF assms] by metis
  have g: "gates a p" using w(6) assess_passed_iff by blast
  have "unit_interval (sr_score q)" using w(8) assess_score_unit by simp
  then have "0 \<le> sr_score q" "sr_score q \<le> 1" by (simp_all add: unit_interval_def)
  moreover have "sr_verdict q \<noteq> Different" using w(6,7) assess_verdict_passed by simp
  moreover have "gate_times a p" using g by (simp add: gates_def)
  ultimately show ?thesis using w g unfolding gate_times_def by (metis (no_types))
qed

theorem compare_pairs_pass_gates_witness:
  "\<exists>l \<in> set sample_left. \<exists>r \<in> set sample_right. \<exists>a. j_id l = ''a'' \<and> j_id r = ''x''
     \<and> analyse ascii_runtime l r JOURNEY_REFERENCE = Inr a \<and> gates a JOURNEY_REFERENCE"
proof -
  have "sample_pair \<in> set (jc_pairs sample_comparison)" "sr_left_id sample_pair = ''a''" "sr_right_id sample_pair = ''x''"
    by (simp_all add: sample_comparison_def sample_pair_def)
  with compare_pairs_pass_gates [OF sample_compare this(1)] show ?thesis by metis
qed

text \<open>The summary counts the result: same service and probably same make up the pairs, and on each side
  the pairs, the unpaired and the uncomparable journeys add up to the journeys given.\<close>

theorem compare_summary_adds_up:
  assumes "compare rt left right p = Inr c"
  shows "cs_same_service (jc_summary c) + cs_probably_same (jc_summary c) = length (jc_pairs c)
     \<and> cs_same_service (jc_summary c) + cs_probably_same (jc_summary c) + cs_left_only (jc_summary c)
         + cs_uncomparable_left (jc_summary c) = length left
     \<and> cs_same_service (jc_summary c) + cs_probably_same (jc_summary c) + cs_right_only (jc_summary c)
         + cs_uncomparable_right (jc_summary c) = length right"
  using compare_summary_counts [OF assms] compare_lengths [OF assms] by simp

theorem compare_summary_adds_up_witness:
  "cs_same_service (jc_summary sample_comparison) + cs_probably_same (jc_summary sample_comparison)
     + cs_left_only (jc_summary sample_comparison) + cs_uncomparable_left (jc_summary sample_comparison) = 2"
  using compare_summary_adds_up [OF sample_compare] by (simp add: sample_left_def)

text \<open>The journey cards: with distinct ids the two dictionaries of \<open>metadata\<close> have exactly the journeys
  given as keys, every pair gives both its cards the bucket common with the other's id, an unpaired
  journey's card is left only or right only with its reasons, one without a ride is uncomparable; and
  the cards name each other mutually.\<close>

theorem metadata_cards:
  assumes "compare rt left right p = Inr c" "distinct_ids left right"
  shows "dom (fst (metadata c)) = j_id ` set left \<and> dom (snd (metadata c)) = j_id ` set right
     \<and> (\<forall>q \<in> set (jc_pairs c). fst (metadata c) (sr_left_id q) = Some (pair_metadata (sr_right_id q) q)
            \<and> snd (metadata c) (sr_right_id q) = Some (pair_metadata (sr_left_id q) q))
     \<and> (\<forall>u \<in> set (jc_left_only c). fst (metadata c) (um_journey_id u) = Some (single_metadata Left_only (um_reasons u)))
     \<and> (\<forall>u \<in> set (jc_right_only c). snd (metadata c) (um_journey_id u) = Some (single_metadata Right_only (um_reasons u)))
     \<and> (\<forall>i \<in> set (jc_uncomparable_left c). fst (metadata c) i = Some (single_metadata Uncomparable []))
     \<and> (\<forall>i \<in> set (jc_uncomparable_right c). snd (metadata c) i = Some (single_metadata Uncomparable []))
     \<and> (\<forall>x y. (\<exists>m. fst (metadata c) x = Some m \<and> cm_paired_with m = Some y)
            \<longleftrightarrow> (\<exists>m. snd (metadata c) y = Some m \<and> cm_paired_with m = Some x))"
proof -
  have ids: "distinct (map j_id left)" "distinct (map j_id right)" using assms(2) by (simp_all add: distinct_ids_def)
  show ?thesis
    using metadata_dom [OF assms(1)] metadata_paired [OF assms(1) ids]
    by (auto simp: metadata_left [OF assms(1) ids(1)] metadata_right [OF assms(1) ids(2)])
qed

theorem metadata_cards_witness:
  "fst (metadata sample_comparison) ''a'' = Some (pair_metadata ''x'' sample_pair)
     \<and> fst (metadata sample_comparison) ''b'' = Some (single_metadata Left_only (um_reasons sample_unmatched))
     \<and> snd (metadata sample_comparison) ''w'' = Some (single_metadata Uncomparable [])"
  using metadata_cards [OF sample_compare sample_ids]
  by (simp add: sample_comparison_def sample_pair_def sample_unmatched_def)

text \<open>A reason code's count is the number of weighed pairs that have it, one per pair made or refused,
  where two unpaired journeys naming each other are one refused pair; the codes come once each, in
  alphabetical order.\<close>

theorem reason_counts_count_groups:
  "alist_get (reason_counts c) k 0 = length (filter (\<lambda>g. k \<in> r_code ` set g) (reason_groups c))
     \<and> distinct (map fst (reason_counts c)) \<and> sorted (map (code_text \<circ> fst) (reason_counts c))
     \<and> length (reason_groups c) = length (jc_pairs c)
         + length (filter (\<lambda>u. um_closest_id u = None) (jc_left_only c @ jc_right_only c))
         + card ((\<lambda>u. (um_journey_id u, the (um_closest_id u))) ` {u \<in> set (jc_left_only c). um_closest_id u \<noteq> None}
             \<union> (\<lambda>u. (the (um_closest_id u), um_journey_id u)) ` {u \<in> set (jc_right_only c). um_closest_id u \<noteq> None})"
  using reason_counts_get reason_counts_keys length_reason_groups by simp

end
