(* ===== verification/Station_Resolution.thy ===== *)
theory Station_Resolution
  imports Fingerprint Match_Stations
begin

text \<open>
  Giving each stop its station (\<open>app/journey/canonical/station_resolution.py\<close>). The resolver is the
  protocol \<open>StationResolver\<close>: an argument, a function from the stops asked to the stations it can
  place, as an association list keyed by (source, ref).
\<close>

section \<open>Definitions\<close>

type_synonym stop_key = "str \<times> str"

record resolved_station =
  rs_station_id :: str
  rs_parent_id :: "str option"

type_synonym stations = "(stop_key \<times> resolved_station) list"

definition valid_resolved :: "resolved_station \<Rightarrow> bool" where
  "valid_resolved r = (is_viator_id (rs_station_id r) \<and> opt_all is_viator_id (rs_parent_id r))"

definition key_of_stop :: "canonical_stop_place \<Rightarrow> stop_key" where
  "key_of_stop s = (sp_source s, sp_ref s)"

text \<open>\<open>dict.setdefault\<close>: the first value of a key stays.\<close>

definition set_default :: "'k \<Rightarrow> 'v \<Rightarrow> ('k \<times> 'v) list \<Rightarrow> ('k \<times> 'v) list" where
  "set_default k v kvs = (if k \<in> fst ` set kvs then kvs else kvs @ [(k, v)])"

definition ends_of :: "canonical_journey list \<Rightarrow> canonical_location list" where
  "ends_of js = concat (map (\<lambda>j. concat (map (\<lambda>leg. [leg_origin leg, leg_destination leg]) (j_legs j))) js)"

definition see_stop :: "(stop_key \<times> canonical_stop_place) list \<Rightarrow> canonical_location \<Rightarrow> (stop_key \<times> canonical_stop_place) list" where
  "see_stop seen e = (case loc_stop_place e of
      None \<Rightarrow> seen | Some stop \<Rightarrow> set_default (key_of_stop stop) stop seen)"

definition stop_places :: "canonical_journey list \<Rightarrow> canonical_stop_place list" where
  "stop_places js = map snd (foldl see_stop [] (ends_of js))"

definition with_station :: "stations \<Rightarrow> canonical_location \<Rightarrow> canonical_location" where
  "with_station found l = (case loc_stop_place l of
      None \<Rightarrow> l
    | Some stop \<Rightarrow> (case map_of found (key_of_stop stop) of
        None \<Rightarrow> l
      | Some r \<Rightarrow> l\<lparr>loc_stop_place := Some (stop\<lparr>sp_station_id := Some (rs_station_id r),
                       sp_station_parent_id := rs_parent_id r\<rparr>)\<rparr>))"

definition leg_with_stations :: "stations \<Rightarrow> canonical_leg \<Rightarrow> canonical_leg" where
  "leg_with_stations found leg = leg\<lparr>leg_origin := with_station found (leg_origin leg),
     leg_destination := with_station found (leg_destination leg)\<rparr>"

definition journey_with_stations :: "stations \<Rightarrow> canonical_journey \<Rightarrow> canonical_journey" where
  "journey_with_stations found j = j\<lparr>j_legs := map (leg_with_stations found) (j_legs j)\<rparr>"

definition with_resolved_stations ::
  "canonical_journey list \<Rightarrow> (canonical_stop_place list \<Rightarrow> stations) option \<Rightarrow> canonical_journey list" where
  "with_resolved_stations js resolver = (case resolver of
      None \<Rightarrow> js
    | Some resolve \<Rightarrow>
        (let found = resolve (stop_places js)
         in if found = [] then js else map (journey_with_stations found) js))"

section \<open>The stops asked for\<close>

lemma set_default_keys: "fst ` set (set_default k v kvs) = insert k (fst ` set kvs)"
  by (auto simp: set_default_def)

lemma see_stops:
  assumes "distinct (map fst seen)" "\<forall>(k, s) \<in> set seen. k = key_of_stop s"
  shows "distinct (map fst (foldl see_stop seen ls))
     \<and> (\<forall>(k, s) \<in> set (foldl see_stop seen ls). k = key_of_stop s)
     \<and> fst ` set (foldl see_stop seen ls) = fst ` set seen \<union> {key_of_stop s | s l. l \<in> set ls \<and> loc_stop_place l = Some s}
     \<and> snd ` set (foldl see_stop seen ls) \<subseteq> snd ` set seen \<union> {s. \<exists>l \<in> set ls. loc_stop_place l = Some s}"
  using assms
proof (induction ls arbitrary: seen)
  case (Cons l ls)
  let ?s = "see_stop seen l"
  have "distinct (map fst ?s)" "\<forall>(k, s) \<in> set ?s. k = key_of_stop s"
    using Cons.prems by (auto simp: see_stop_def set_default_def split: option.splits)
  note ih = Cons.IH [OF this]
  have "fst ` set ?s = fst ` set seen \<union> {key_of_stop s | s. loc_stop_place l = Some s}"
    by (auto simp: see_stop_def set_default_keys split: option.splits)
  moreover have "snd ` set ?s \<subseteq> snd ` set seen \<union> {s. loc_stop_place l = Some s}"
    by (auto simp: see_stop_def set_default_def split: option.splits if_splits)
  ultimately have "fst ` set (foldl see_stop ?s ls) = fst ` set seen \<union> {key_of_stop s | s l'. l' \<in> set (l # ls) \<and> loc_stop_place l' = Some s}"
    "snd ` set (foldl see_stop ?s ls) \<subseteq> snd ` set seen \<union> {s. \<exists>l' \<in> set (l # ls). loc_stop_place l' = Some s}"
    using ih by (auto 0 3)
  then show ?case using ih by simp
qed simp

lemma stop_places_keys:
  "distinct (map key_of_stop (stop_places js))"
  "key_of_stop ` set (stop_places js) = {key_of_stop s | s l. l \<in> set (ends_of js) \<and> loc_stop_place l = Some s}"
  "s \<in> set (stop_places js) \<Longrightarrow> \<exists>l \<in> set (ends_of js). loc_stop_place l = Some s"
proof -
  let ?f = "foldl see_stop [] (ends_of js)"
  note f = see_stops [of "[]" "ends_of js", simplified]
  then have "map key_of_stop (stop_places js) = map fst ?f"
    by (auto simp: stop_places_def)
  then show "distinct (map key_of_stop (stop_places js))"
    "key_of_stop ` set (stop_places js) = {key_of_stop s | s l. l \<in> set (ends_of js) \<and> loc_stop_place l = Some s}"
    using f by (auto simp flip: set_map) 
  show "s \<in> set (stop_places js) \<Longrightarrow> \<exists>l \<in> set (ends_of js). loc_stop_place l = Some s"
    using f by (auto simp: stop_places_def)
qed

section \<open>What resolution keeps\<close>

lemma with_station_cases:
  obtains "with_station f l = l"
  | s and r :: resolved_station where "loc_stop_place l = Some s" "with_station f l = l\<lparr>loc_stop_place :=
      Some (s\<lparr>sp_station_id := Some (rs_station_id r), sp_station_parent_id := rs_parent_id r\<rparr>)\<rparr>"
proof (cases "loc_stop_place l")
  case (Some s)
  show ?thesis
  proof (cases "map_of f (key_of_stop s)")
    case None
    then show ?thesis using that(1) Some by (simp add: with_station_def)
  next
    case r: (Some r)
    show ?thesis by (rule that(2) [OF Some, of r]) (simp add: with_station_def Some r)
  qed
qed (simp add: that with_station_def)

lemma with_station_keeps:
  "loc_kind (with_station f l) = loc_kind l" "loc_name (with_station f l) = loc_name l"
  "loc_quay (with_station f l) = loc_quay l" "loc_position (with_station f l) = loc_position l"
  "loc_stop_place (with_station f l) = None \<longleftrightarrow> loc_stop_place l = None"
  by (auto simp: with_station_def split: option.splits)

lemma station_key_with_station [simp]: "station_key (with_station f l) = station_key l"
proof (cases rule: with_station_cases [of f l])
  case (2 s r)
  show ?thesis unfolding 2(2) station_key_def location_or_stop_position_def by (simp add: 2(1) split: option.split)
qed simp

lemma position_of_with_station [simp]: "position_of (with_station f l) = position_of l"
proof (cases rule: with_station_cases [of f l])
  case (2 s r)
  show ?thesis unfolding 2(2) position_of_def by (simp add: 2(1) split: option.split)
qed simp

lemma spine_of_with_stations [simp]: "spine_of (map (leg_with_stations f) legs) = spine_of legs"
  by (induction legs) (simp_all add: leg_with_stations_def is_timed_def split: option.splits)

lemma fingerprint_with_stations [simp]: "fingerprint_of (journey_with_stations f j) = fingerprint_of j"
  by (simp add: fingerprint_of_def journey_with_stations_def)

lemma with_station_valid:
  assumes "valid_location l" "\<forall>r \<in> snd ` set f. valid_resolved r"
  shows "valid_location (with_station f l)"
proof (cases "loc_stop_place l")
  case None
  then show ?thesis using assms(1) by (simp add: with_station_def)
next
  case (Some s)
  then show ?thesis
  proof (cases "map_of f (key_of_stop s)")
    case None
    then show ?thesis using assms(1) Some by (simp add: with_station_def)
  next
    case r: (Some r)
    then have "valid_resolved r" using assms(2) by (force dest: map_of_SomeD)
    then show ?thesis using assms(1) Some r
      by (auto simp: with_station_def valid_location_def valid_stop_place_def valid_resolved_def)
  qed
qed

lemma leg_with_stations_valid:
  assumes "valid_leg leg" "\<forall>r \<in> snd ` set f. valid_resolved r"
  shows "valid_leg (leg_with_stations f leg)"
  using assms with_station_valid by (simp add: valid_leg_def leg_with_stations_def service_on_timed_legs_only_def)

lemma journey_with_stations_valid:
  assumes "valid_journey j" "\<forall>r \<in> snd ` set f. valid_resolved r"
  shows "valid_journey (journey_with_stations f j)"
  using assms leg_with_stations_valid
  by (auto simp: valid_journey_def journey_with_stations_def list_all_iff)

lemma with_station_idem [simp]: "with_station f (with_station f l) = with_station f l"
  by (auto simp: with_station_def key_of_stop_def split: option.splits)

lemma with_station_compares:
  assumes "loc_stop_place a = Some s" "loc_stop_place b = Some t"
    and "map_of f (key_of_stop s) = Some r" "map_of f (key_of_stop t) = Some u"
    and "valid_resolved r" "valid_resolved u"
  shows "sa_agreement (compare_stations (with_station f a) (with_station f b)) =
     (if rs_station_id r = rs_station_id u
         \<or> rs_parent_id r \<noteq> None \<and> rs_parent_id r \<in> {Some (rs_station_id u), rs_parent_id u}
         \<or> rs_parent_id u \<noteq> None \<and> rs_parent_id u \<in> {Some (rs_station_id r), rs_parent_id r}
      then AGREE else CONFLICT)"
proof -
  have "rs_station_id r \<noteq> []" "rs_station_id u \<noteq> []" using assms(5,6) by (auto simp: valid_resolved_def is_viator_id_def)
  then show ?thesis using assms(1-4)
    by (auto simp: compare_stations_def with_station_def shares_complex_def Let_def)
qed

end
