(* ===== verification/Stop_Tokens.thy ===== *)
theory Stop_Tokens
  imports Viator_Prelude
begin

text \<open>
  Stop tokens, \<open>trip_signature\<close> and \<open>transit_fingerprint\<close> (\<open>app/journey/signature.py\<close>). A leg of a
  trip dict is a record of its optional entries; the cross-reference and alias tables the signature
  asks the database for are arguments. SHA-256 cut to 16 hex digits is \<open>rt_digest\<close>.
\<close>

section \<open>Station codes in stop ids\<close>

text \<open>
  The regular expressions ask for a run of digits with no digit before or after it, so what they find
  is a whole run: \<open>digit_runs\<close> lists the maximal runs from left to right.
\<close>

fun digit_runs_acc :: "str \<Rightarrow> str \<Rightarrow> str list" where
  "digit_runs_acc run [] = (if run = [] then [] else [run])"
| "digit_runs_acc run (c # cs) =
     (if is_decimal c then digit_runs_acc (run @ [c]) cs
      else (if run = [] then digit_runs_acc [] cs else run # digit_runs_acc [] cs))"

definition digit_runs :: "str \<Rightarrow> str list" where
  "digit_runs s = digit_runs_acc [] s"

definition UIC_RE :: "str \<Rightarrow> str option" where
  "UIC_RE s = find (\<lambda>r. length r = 7 \<or> length r = 8) (digit_runs s)"

definition SWISS_DSN_RE :: "str \<Rightarrow> str option" where
  "SWISS_DSN_RE s = find (\<lambda>r. length r = 4) (digit_runs s)"

definition SWISS_SLOID_PREFIX :: str where "SWISS_SLOID_PREFIX = ''ch:1:''"

definition uic_from_stop_id :: "str option \<Rightarrow> str option" where
  "uic_from_stop_id stop_id =
     (case stop_id of
        None \<Rightarrow> None
      | Some s \<Rightarrow>
          (if s = [] then None
           else (case UIC_RE s of
               Some m \<Rightarrow> Some (take 7 m)
             | None \<Rightarrow>
                 (if starts_with s SWISS_SLOID_PREFIX then map_option (\<lambda>m. ''850'' @ m) (SWISS_DSN_RE s)
                  else None))))"

definition CANONICAL_TOKEN_RE :: "str \<Rightarrow> bool" where
  "CANONICAL_TOKEN_RE s =
     (starts_with s ''UIC:'' \<and> length s = 11 \<and> list_all is_decimal (drop 4 s)
      \<or> starts_with s ''OEBB:'' \<and> 6 \<le> length s \<and> length s \<le> 69)"

definition EXPLICIT_UIC_CODE_RE :: "str \<Rightarrow> str option" where
  "EXPLICIT_UIC_CODE_RE s =
     (let core = dropWhile (\<lambda>c. c = CHR ''0'') s
      in if length core = 7 \<and> list_all is_decimal core then Some core else None)"

definition round_latlon_coarse :: "real option \<Rightarrow> real option \<Rightarrow> str" where
  "round_latlon_coarse la lo = (case (la, lo) of
      (Some a, Some b) \<Rightarrow> fixed_text 3 (py_round 3 a) @ '','' @ fixed_text 3 (py_round 3 b)
    | _ \<Rightarrow> ''?,?'')"

definition round_latlon :: "real option \<Rightarrow> real option \<Rightarrow> str" where
  "round_latlon la lo = (case (la, lo) of
      (Some a, Some b) \<Rightarrow> fixed_text 4 (py_round 4 a) @ '','' @ fixed_text 4 (py_round 4 b)
    | _ \<Rightarrow> ''?,?'')"

definition fingerprint_stop_token :: "str option \<Rightarrow> real option \<Rightarrow> real option \<Rightarrow> str option \<Rightarrow> str" where
  "fingerprint_stop_token stop_id la lo stop_code =
     (if truthy stop_id \<and> CANONICAL_TOKEN_RE (or_empty stop_id) then or_empty stop_id
      else (case (if truthy stop_code then EXPLICIT_UIC_CODE_RE (py_strip (or_empty stop_code)) else None) of
          Some m \<Rightarrow> ''UIC:'' @ m
        | None \<Rightarrow> (case uic_from_stop_id stop_id of
            Some uic \<Rightarrow> ''UIC:'' @ uic
          | None \<Rightarrow> round_latlon_coarse la lo)))"

definition stop_token :: "str option \<Rightarrow> real option \<Rightarrow> real option \<Rightarrow> str option \<Rightarrow> str" where
  "stop_token = fingerprint_stop_token"

section \<open>Signatures\<close>

record trip_leg =
  tl_mode :: "str option"
  tl_departure :: "str option"
  tl_arrival :: "str option"
  tl_duration_seconds :: int
  tl_distance_meters :: real
  tl_from_name :: "str option"
  tl_from_lat :: "real option"
  tl_from_lon :: "real option"
  tl_from_stop_id :: "str option"
  tl_from_stop_code :: "str option"
  tl_from_parent_id :: "str option"
  tl_to_name :: "str option"
  tl_to_lat :: "real option"
  tl_to_lon :: "real option"
  tl_to_stop_id :: "str option"
  tl_to_stop_code :: "str option"
  tl_to_parent_id :: "str option"
  tl_route_short_name :: "str option"
  tl_route_long_name :: "str option"
  tl_route_id :: "str option"
  tl_agency_name :: "str option"
  tl_agency_id :: "str option"
  tl_agency_url :: "str option"
  tl_feed_id :: "str option"
  tl_trip_id :: "str option"
  tl_trip_headsign :: "str option"

definition round_minute :: "str option \<Rightarrow> str" where
  "round_minute stamp =
     (if \<not> truthy stamp then ''?''
      else (let s = or_empty stamp in
        if CHR ''T'' \<in> set s
        then takeWhile (\<lambda>c. c \<noteq> CHR ''T'') s @ ''T'' @ take 5 (tl (dropWhile (\<lambda>c. c \<noteq> CHR ''T'') s))
        else take 5 s))"

definition leg_mode :: "runtime \<Rightarrow> trip_leg \<Rightarrow> str" where
  "leg_mode rt leg = rt_upper rt (or_empty (tl_mode leg))"

definition is_transit :: "runtime \<Rightarrow> trip_leg \<Rightarrow> bool" where
  "is_transit rt leg = (leg_mode rt leg \<notin> {'''', ''WALK'', ''TRANSFER''})"

definition leg_fragment :: "runtime \<Rightarrow> trip_leg \<Rightarrow> str" where
  "leg_fragment rt leg = leg_mode rt leg @ '':''
     @ fingerprint_stop_token (tl_from_stop_id leg) (tl_from_lat leg) (tl_from_lon leg) (tl_from_stop_code leg) @ ''-''
     @ fingerprint_stop_token (tl_to_stop_id leg) (tl_to_lat leg) (tl_to_lon leg) (tl_to_stop_code leg) @ ''@''
     @ round_minute (tl_departure leg) @ ''-'' @ round_minute (tl_arrival leg) @ ''#''
     @ rt_upper rt (py_strip (or_empty (tl_route_short_name leg)))"

definition transit_fingerprint :: "runtime \<Rightarrow> trip_leg list \<Rightarrow> str" where
  "transit_fingerprint rt legs =
     (let parts = map (leg_fragment rt) (filter (is_transit rt) legs)
      in if parts = [] then [] else rt_digest rt (py_join ''|'' parts))"

text \<open>
  The tables of \<open>trip_signature\<close>: \<open>xref (session, stop)\<close> is the row's UIC code where there is a row,
  \<open>alias\<close> the canonical name of the first row with that alias.
\<close>

record signature_tables =
  st_xref :: "str \<times> str \<Rightarrow> str option option"
  st_alias :: "str \<Rightarrow> str option"

definition signature_stop_token ::
  "signature_tables \<Rightarrow> str \<Rightarrow> str option \<Rightarrow> real option \<Rightarrow> real option \<Rightarrow> str" where
  "signature_stop_token db session_id stop_id la lo =
     (if \<not> truthy stop_id then ''@'' @ round_latlon la lo
      else (case st_xref db (session_id, or_empty stop_id) of
          Some (Some uic) \<Rightarrow> (if uic \<noteq> [] then ''UIC:'' @ uic else ''@'' @ round_latlon la lo)
        | _ \<Rightarrow> ''@'' @ round_latlon la lo))"

definition route_canonical :: "signature_tables \<Rightarrow> str option \<Rightarrow> str" where
  "route_canonical db name =
     (if \<not> truthy name then []
      else (let n = py_strip (or_empty name) in case st_alias db n of Some c \<Rightarrow> c | None \<Rightarrow> n))"

definition signature_fragment :: "runtime \<Rightarrow> signature_tables \<Rightarrow> str \<Rightarrow> trip_leg \<Rightarrow> str" where
  "signature_fragment rt db session_id leg = leg_mode rt leg @ '':''
     @ signature_stop_token db session_id (tl_from_stop_id leg) (tl_from_lat leg) (tl_from_lon leg) @ ''-''
     @ signature_stop_token db session_id (tl_to_stop_id leg) (tl_to_lat leg) (tl_to_lon leg) @ ''@''
     @ round_minute (tl_departure leg) @ ''-'' @ round_minute (tl_arrival leg) @ ''#''
     @ route_canonical db (tl_route_short_name leg)"

definition trip_signature :: "runtime \<Rightarrow> signature_tables \<Rightarrow> str \<Rightarrow> trip_leg list \<Rightarrow> str" where
  "trip_signature rt db session_id legs = rt_digest rt (py_join ''|'' (map (signature_fragment rt db session_id) legs))"

section \<open>Lemmas: runs of digits\<close>

lemma digit_runs_acc_digits:
  "list_all is_decimal run \<Longrightarrow> r \<in> set (digit_runs_acc run s) \<Longrightarrow> list_all is_decimal r"
  by (induction run s rule: digit_runs_acc.induct) (auto split: if_splits)

lemma digit_runs_digits: "r \<in> set (digit_runs s) \<Longrightarrow> list_all is_decimal r"
  using digit_runs_acc_digits [of "[]"] by (simp add: digit_runs_def)

lemma digit_runs_acc_all: "list_all is_decimal ds \<Longrightarrow> digit_runs_acc run (ds @ s) = digit_runs_acc (run @ ds) s"
  by (induction ds arbitrary: run) auto

text \<open>A run between other characters is found as it is.\<close>

lemma digit_runs_acc_between:
  assumes "list_all is_decimal ds" "ds \<noteq> []" "\<not> is_decimal c"
  shows "digit_runs_acc run (c # ds @ rest) = (if run = [] then [] else [run]) @ digit_runs (ds @ rest)"
  using assms by (simp add: digit_runs_def)

lemma digit_runs_acc_no_digit:
  assumes "list_all (\<lambda>c. \<not> is_decimal c) p"
  shows "digit_runs_acc [] (p @ s) = digit_runs_acc [] s"
  using assms by (induction p) auto

lemma digit_runs_run:
  assumes "list_all (\<lambda>c. \<not> is_decimal c) p" "list_all is_decimal ds" "ds \<noteq> []"
    and "rest = [] \<or> \<not> is_decimal (hd rest)"
  shows "digit_runs (p @ ds @ rest) = ds # digit_runs rest"
proof -
  have "digit_runs (p @ ds @ rest) = digit_runs_acc ds rest"
    using assms(1,2) by (simp add: digit_runs_def digit_runs_acc_no_digit digit_runs_acc_all)
  also have "\<dots> = ds # digit_runs rest"
    using assms(3,4) by (cases rest) (auto simp: digit_runs_def)
  finally show ?thesis .
qed

lemma UIC_RE_digits: "UIC_RE s = Some m \<Longrightarrow> list_all is_decimal m \<and> (length m = 7 \<or> length m = 8)"
  using digit_runs_digits by (auto simp: UIC_RE_def find_Some_iff dest: nth_mem)

lemma SWISS_DSN_RE_digits: "SWISS_DSN_RE s = Some m \<Longrightarrow> list_all is_decimal m \<and> length m = 4"
  using digit_runs_digits by (auto simp: SWISS_DSN_RE_def find_Some_iff dest: nth_mem)

definition is_uic :: "str \<Rightarrow> bool" where
  "is_uic u = (length u = 7 \<and> list_all is_decimal u)"

lemma uic_from_stop_id_shape: "uic_from_stop_id s = Some u \<Longrightarrow> is_uic u"
proof -
  have "list_all is_decimal ''850''" by (simp add: is_decimal_def)
  then show "uic_from_stop_id s = Some u \<Longrightarrow> is_uic u"
    by (auto simp: uic_from_stop_id_def is_uic_def list_all_iff dest!: UIC_RE_digits SWISS_DSN_RE_digits in_set_takeD
        split: option.splits if_splits)
qed

lemma explicit_code_shape: "EXPLICIT_UIC_CODE_RE s = Some m \<Longrightarrow> is_uic m"
  by (auto simp: EXPLICIT_UIC_CODE_RE_def is_uic_def Let_def split: if_splits)

section \<open>Lemmas: tokens\<close>

lemma fixed_text_first: "fixed_text n x \<noteq> [] \<and> hd (fixed_text n x) \<noteq> CHR ''U'' \<and> hd (fixed_text n x) \<noteq> CHR ''O''"
proof -
  have d: "is_decimal (hd (show_nat k))" for k
    using show_nat_nonempty [of k] show_nat_decimal [of k] by (metis hd_in_set list_all_iff)
  have "\<not> is_decimal (CHR ''U'')" "\<not> is_decimal (CHR ''O'')" by (simp_all add: is_decimal_def)
  with d have "hd (show_nat k) \<noteq> CHR ''U''" "hd (show_nat k) \<noteq> CHR ''O''" for k by metis+
  then show ?thesis by (simp add: fixed_text_def Let_def hd_append)
qed

lemma token_cases:
  "CANONICAL_TOKEN_RE (stop_token s la lo code) \<or> stop_token s la lo code = round_latlon_coarse la lo"
proof -
  have "CANONICAL_TOKEN_RE (''UIC:'' @ u)" if "is_uic u" for u
    using that starts_with_append [of "''UIC:''" u] by (simp add: CANONICAL_TOKEN_RE_def is_uic_def)
  then show ?thesis
    using uic_from_stop_id_shape explicit_code_shape
    by (auto simp: stop_token_def fingerprint_stop_token_def split: option.splits if_splits)
qed

lemma coarse_not_canonical: "\<not> starts_with (round_latlon_coarse la lo) ''UIC:''" "\<not> starts_with (round_latlon_coarse la lo) ''OEBB:''"
proof -
  have "hd (round_latlon_coarse la lo) \<noteq> CHR ''U'' \<and> hd (round_latlon_coarse la lo) \<noteq> CHR ''O''"
    using fixed_text_first by (auto simp: round_latlon_coarse_def hd_append split: option.splits)
  then show "\<not> starts_with (round_latlon_coarse la lo) ''UIC:''" "\<not> starts_with (round_latlon_coarse la lo) ''OEBB:''"
    by (auto simp: starts_with_iff)
qed

end
