(* ===== verification/Civil_Time.thy ===== *)
theory Civil_Time
  imports Viator_Prelude
begin

text \<open>
  Python's \<open>datetime\<close> in UTC as far as the journey code prints it: the civil date and clock of an
  instant in microseconds since 1970, \<open>isoformat\<close> and the \<open>strftime\<close> pattern of the trip dicts.
\<close>

text \<open>The proleptic Gregorian date of a day number, in 400-year eras that start on 1 March.\<close>

definition civil_of_days :: "int \<Rightarrow> int \<times> int \<times> int" where
  "civil_of_days days =
     (let z = days + 719468; era = z div 146097; doe = z mod 146097;
          yoe = (doe - doe div 1460 + doe div 36524 - doe div 146096) div 365;
          doy = doe - (365 * yoe + yoe div 4 - yoe div 100);
          mp = (5 * doy + 2) div 153;
          d = doy - (153 * mp + 2) div 5 + 1;
          m = (if mp < 10 then mp + 3 else mp - 9)
      in (yoe + era * 400 + (if m \<le> 2 then 1 else 0), m, d))"

definition day_of :: "instant \<Rightarrow> int" where "day_of t = t div 86400000000"
definition second_of_day :: "instant \<Rightarrow> int" where "second_of_day t = t div 1000000 mod 86400"
definition microsecond :: "instant \<Rightarrow> int" where "microsecond t = t mod 1000000"

definition pad :: "nat \<Rightarrow> int \<Rightarrow> str" where "pad n k = zero_pad n (nat k)"

definition date_text :: "instant \<Rightarrow> str" where
  "date_text t = (let (y, m, d) = civil_of_days (day_of t) in pad 4 y @ ''-'' @ pad 2 m @ ''-'' @ pad 2 d)"

definition hour_minute_text :: "instant \<Rightarrow> str" where
  "hour_minute_text t = (let s = second_of_day t in pad 2 (s div 3600) @ '':'' @ pad 2 (s div 60 mod 60))"

definition clock_text :: "instant \<Rightarrow> str" where
  "clock_text t = hour_minute_text t @ '':'' @ pad 2 (second_of_day t mod 60)"

definition isoformat :: "instant \<Rightarrow> str" where
  "isoformat t = date_text t @ ''T'' @ clock_text t
     @ (if microsecond t = 0 then [] else ''.'' @ pad 6 (microsecond t)) @ ''+00:00''"

text \<open>\<open>strftime("%Y-%m-%dT%H:%M:%S+00:00")\<close>, for the years of four digits a timetable has.\<close>

definition strftime_utc :: "instant \<Rightarrow> str" where
  "strftime_utc t = date_text t @ ''T'' @ clock_text t @ ''+00:00''"

lemma pad_two: "0 \<le> k \<Longrightarrow> k < 100 \<Longrightarrow> length (pad 2 k) = 2"
proof -
  assume k: "0 \<le> k" "k < 100"
  have "length (show_nat n) \<le> 2" if "n < 100" for n
    using that by (cases "n < 10") (simp_all add: show_nat.simps [of n] show_nat.simps [of "n div 10"])
  then show ?thesis using k by (simp add: pad_def zero_pad_def)
qed

lemma second_of_day_range: "0 \<le> second_of_day t" "second_of_day t < 86400"
  by (simp_all add: second_of_day_def)

lemma hour_minute_length [simp]: "length (hour_minute_text t) = 5"
proof -
  have "second_of_day t div 3600 < 24" "0 \<le> second_of_day t div 3600"
    using second_of_day_range [of t] by linarith+
  moreover have "second_of_day t div 60 mod 60 < 60" "0 \<le> second_of_day t div 60 mod 60" by simp_all
  ultimately show ?thesis by (simp add: hour_minute_text_def Let_def pad_two)
qed

lemma hour_minute_minute: "t div 60000000 = t' div 60000000 \<Longrightarrow> hour_minute_text t = hour_minute_text t'"
proof -
  assume m: "t div 60000000 = t' div 60000000"
  have s: "second_of_day x div 60 = x div 60000000 mod 1440" for x
  proof -
    let ?q = "x div 1000000"
    have "?q mod (60 * 1440) = 60 * (?q div 60 mod 1440) + ?q mod 60" by (rule zmod_zmult2_eq) simp
    then have "second_of_day x div 60 = ?q div 60 mod 1440" by (simp add: second_of_day_def)
    then show ?thesis by (simp add: zdiv_zmult2_eq [symmetric])
  qed
  have "second_of_day x div 3600 = second_of_day x div 60 div 60" for x
    by (simp add: zdiv_zmult2_eq [symmetric])
  then show ?thesis using m s by (simp add: hour_minute_text_def Let_def)
qed

lemma date_text_day: "day_of t = day_of t' \<Longrightarrow> date_text t = date_text t'"
  by (simp add: date_text_def)

lemma day_of_minute: "t div 60000000 = t' div 60000000 \<Longrightarrow> day_of t = day_of t'"
  unfolding day_of_def using zdiv_zmult2_eq [of 1440 t 60000000] zdiv_zmult2_eq [of 1440 t' 60000000] by simp

end
