(* ===== verification/Trip_Dict.thy ===== *)
theory Trip_Dict
  imports Canonical Stop_Tokens Civil_Time
begin

text \<open>
  The bridge from a canonical journey to the trip dict the older rules read
  (\<open>app/journey/canonical_adapters/trip_dict.py\<close>), with the helpers of \<open>app/journey/trip_normalize.py\<close>
  it uses. \<open>datetime.fromisoformat\<close> is the argument \<open>clock\<close>: the instant of a string with an offset,
  or of one without (read as UTC), and the system's reading of a string without one.
\<close>

section \<open>Reading times\<close>

datatype parsed_time = Aware instant | Naive instant

record clock =
  ck_fromisoformat :: "str \<Rightarrow> parsed_time option"
  ck_local :: "instant \<Rightarrow> instant"

definition coerce_utc_iso :: "clock \<Rightarrow> str option \<Rightarrow> str option" where
  "coerce_utc_iso ck v =
     (if \<not> truthy v then None
      else map_option (\<lambda>p. case p of Aware t \<Rightarrow> strftime_utc t | Naive t \<Rightarrow> strftime_utc t)
             (ck_fromisoformat ck (py_strip (or_empty v))))"

fun first_transit_leg_departure_utc :: "runtime \<Rightarrow> clock \<Rightarrow> trip_leg list \<Rightarrow> str option" where
  "first_transit_leg_departure_utc rt ck [] = None"
| "first_transit_leg_departure_utc rt ck (leg # legs) =
     (if is_transit rt leg then coerce_utc_iso ck (tl_departure leg)
      else first_transit_leg_departure_utc rt ck legs)"

section \<open>Legs\<close>

definition iso_of :: "canonical_timing option \<Rightarrow> str option" where
  "iso_of v = map_option (\<lambda>t. strftime_utc (timetabled t)) v"

definition route_names :: "canonical_leg \<Rightarrow> provider \<Rightarrow> str option \<times> str option \<times> str option" where
  "route_names leg p = (case leg_service leg of
      None \<Rightarrow> (None, None, None)
    | Some s \<Rightarrow> (case p of
        Hafas \<Rightarrow> (or_text (sv_line s) (sv_published_name s),
                   if truthy (sv_line s) then sv_published_name s else None, sv_journey_ref s)
      | Ojp \<Rightarrow> (or_text (sv_published_name s) (sv_line s),
                 (case sv_product_category s of Some c \<Rightarrow> pc_name c | None \<Rightarrow> None), sv_line_ref s)
      | _ \<Rightarrow> (sv_line s, sv_route_long_name s, sv_line_ref s)))"

text \<open>\<open>rsplit\<close> at the last underscore of the part before the first colon.\<close>

definition feed_id_from_motis_id :: "str option \<Rightarrow> str option" where
  "feed_id_from_motis_id motis_id =
     (let s = or_empty motis_id in
      if s = [] \<or> CHR ''_'' \<notin> set s then None
      else (let head = takeWhile (\<lambda>c. c \<noteq> CHR '':'') s in
        if CHR ''_'' \<notin> set head then None
        else none_if_empty (rev (tl (dropWhile (\<lambda>c. c \<noteq> CHR ''_'') (rev head))))))"

definition feed_id_of :: "canonical_leg \<Rightarrow> provider \<Rightarrow> str option" where
  "feed_id_of leg p = (case p of
      Hafas \<Rightarrow> Some ''fahrplan.oebb.at''
    | Ojp \<Rightarrow> Some ''OJP''
    | Motis \<Rightarrow> feed_id_from_motis_id (map_option sp_ref (loc_stop_place (leg_origin leg)))
    | Otp \<Rightarrow> (case leg_service leg of Some s \<Rightarrow> sv_feed s | None \<Rightarrow> None))"

definition end_code :: "canonical_location \<Rightarrow> provider \<Rightarrow> str option" where
  "end_code e p = (if p = Motis then (case loc_stop_place e of
      Some s \<Rightarrow> map_of (sp_codes s) ''GTFS_STOP_CODE'' | None \<Rightarrow> None) else None)"

definition end_parent :: "canonical_location \<Rightarrow> provider \<Rightarrow> str option" where
  "end_parent e p = (if p = Motis then (case loc_stop_place e of Some s \<Rightarrow> sp_parent_ref s | None \<Rightarrow> None) else None)"

definition leg_dict :: "canonical_leg \<Rightarrow> provider \<Rightarrow> trip_leg" where
  "leg_dict leg p =
     (let (short, long_name, route_id) = route_names leg p;
          missing = (if p = Motis then Some [] else None);
          dep = iso_of (leg_departure leg); arr = iso_of (leg_arrival leg);
          operator = (case leg_service leg of Some s \<Rightarrow> sv_operator s | None \<Rightarrow> None);
          a = leg_origin leg; b = leg_destination leg
      in \<lparr>tl_mode = leg_source_mode leg,
          tl_departure = (if dep \<noteq> None then dep else missing),
          tl_arrival = (if arr \<noteq> None then arr else missing),
          tl_duration_seconds = leg_duration_seconds leg,
          tl_distance_meters = (case leg_distance_meters leg of Some d \<Rightarrow> d | None \<Rightarrow> 0),
          tl_from_name = loc_name a, tl_from_lat = map_option lat (loc_position a), tl_from_lon = map_option lon (loc_position a),
          tl_from_stop_id = map_option sp_ref (loc_stop_place a), tl_from_stop_code = end_code a p, tl_from_parent_id = end_parent a p,
          tl_to_name = loc_name b, tl_to_lat = map_option lat (loc_position b), tl_to_lon = map_option lon (loc_position b),
          tl_to_stop_id = map_option sp_ref (loc_stop_place b), tl_to_stop_code = end_code b p, tl_to_parent_id = end_parent b p,
          tl_route_short_name = short, tl_route_long_name = long_name, tl_route_id = route_id,
          tl_agency_name = (case operator of Some x \<Rightarrow> op_name x | None \<Rightarrow> None),
          tl_agency_id = (case operator of Some x \<Rightarrow> op_ref x | None \<Rightarrow> None),
          tl_agency_url = (case operator of Some x \<Rightarrow> op_url x | None \<Rightarrow> None),
          tl_feed_id = feed_id_of leg p,
          tl_trip_id = (case leg_service leg of Some s \<Rightarrow> sv_journey_ref s | None \<Rightarrow> None),
          tl_trip_headsign = (case leg_service leg of Some s \<Rightarrow> sv_destination_text s | None \<Rightarrow> None)\<rparr>)"

section \<open>Trips\<close>

definition num_transfers :: "canonical_journey \<Rightarrow> trip_leg list \<Rightarrow> provider \<Rightarrow> int" where
  "num_transfers j legs p = (case j_source_transfer_count j of
      Some n \<Rightarrow> n
    | None \<Rightarrow> (if p = Otp then max 0 (int (length (filter (\<lambda>l. tl_mode l \<noteq> None \<and> tl_mode l \<noteq> Some ''WALK'') legs)) - 1)
               else max 0 (int (length (filter (\<lambda>l. tl_mode l \<noteq> Some ''WALK'') legs)) - 1)))"

definition mode_list :: "trip_leg list \<Rightarrow> provider \<Rightarrow> str" where
  "mode_list legs p =
     (let given = filter (\<lambda>m. m \<noteq> []) (map (\<lambda>l. or_empty (tl_mode l)) legs)
      in if p = Otp \<or> p = Ojp then py_join '','' (sort (dedup given))
         else py_join '','' (sort (dedup (filter (\<lambda>m. m \<noteq> ''WALK'') given))))"

record trip_dict =
  td_duration_seconds :: int
  td_num_transfers :: int
  td_departure_at :: str
  td_arrival_at :: str
  td_modes :: str
  td_legs :: "trip_leg list"
  td_first_transit_leg_departure_utc :: "str option"

definition trip_legs :: "canonical_journey \<Rightarrow> trip_leg list" where
  "trip_legs j = map (\<lambda>leg. leg_dict leg (js_provider (j_source j))) (j_legs j)"

definition to_trip_dict :: "runtime \<Rightarrow> clock \<Rightarrow> canonical_journey \<Rightarrow> trip_dict" where
  "to_trip_dict rt ck j =
     (let p = js_provider (j_source j); legs = trip_legs j
      in \<lparr>td_duration_seconds = j_duration_seconds j, td_num_transfers = num_transfers j legs p,
          td_departure_at = or_empty (iso_of (j_departure j)), td_arrival_at = or_empty (iso_of (j_arrival j)),
          td_modes = mode_list legs p, td_legs = legs,
          td_first_transit_leg_departure_utc = first_transit_leg_departure_utc rt ck legs\<rparr>)"

definition journey_transit_fingerprint :: "runtime \<Rightarrow> clock \<Rightarrow> canonical_journey \<Rightarrow> str" where
  "journey_transit_fingerprint rt ck j = transit_fingerprint rt (td_legs (to_trip_dict rt ck j))"

section \<open>Lemmas\<close>

lemma td_legs_trip [simp]: "td_legs (to_trip_dict rt ck j) = trip_legs j"
  by (simp add: to_trip_dict_def Let_def)

lemma num_transfers_nonneg: "valid_journey j \<Longrightarrow> 0 \<le> num_transfers j legs p"
  by (auto simp: num_transfers_def valid_journey_def split: option.splits)

text \<open>The fingerprint reads a journey's rides only: what is not in transit leaves no trace.\<close>

lemma transit_fingerprint_filter:
  "transit_fingerprint rt (filter (is_transit rt) legs) = transit_fingerprint rt legs"
  by (simp add: transit_fingerprint_def Let_def)

lemma transit_fingerprint_empty:
  assumes "\<And>s. rt_digest rt s \<noteq> []"
  shows "transit_fingerprint rt legs = [] \<longleftrightarrow> (\<forall>leg \<in> set legs. \<not> is_transit rt leg)"
  using assms by (auto simp: transit_fingerprint_def Let_def filter_empty_conv)

text \<open>The mark a leg gets between two rides leaves the dict's leg unchanged.\<close>

lemma leg_dict_kind [simp]: "leg_dict (leg\<lparr>leg_kind := k\<rparr>) p = leg_dict leg p"
proof -
  have "route_names (leg\<lparr>leg_kind := k\<rparr>) p = route_names leg p" "feed_id_of (leg\<lparr>leg_kind := k\<rparr>) p = feed_id_of leg p"
    by (cases p; cases "leg_service leg"; simp add: route_names_def feed_id_of_def)+
  then show ?thesis by (simp add: leg_dict_def Let_def)
qed

text \<open>The minute of a printed instant: its date and hour and minute.\<close>

lemma zero_pad_decimal: "list_all is_decimal (zero_pad n k)"
proof -
  have "is_decimal (CHR ''0'')" by (simp add: is_decimal_def)
  then have "list_all is_decimal (replicate m (CHR ''0''))" for m by (simp add: list_all_iff)
  then show ?thesis using show_nat_decimal by (simp add: zero_pad_def)
qed

lemma decimal_not_T: "is_decimal c \<Longrightarrow> c \<noteq> CHR ''T''"
  by (auto simp: is_decimal_def)

lemma date_text_no_T: "CHR ''T'' \<notin> set (date_text t)"
proof -
  have "CHR ''T'' \<notin> set (pad n k)" for n k
    using zero_pad_decimal [of n "nat k"] decimal_not_T by (auto simp: pad_def list_all_iff)
  then show ?thesis by (simp add: date_text_def Let_def split: prod.split)
qed

lemma round_minute_strftime: "round_minute (Some (strftime_utc t)) = date_text t @ ''T'' @ hour_minute_text t"
proof -
  have "takeWhile (\<lambda>c. c \<noteq> CHR ''T'') (date_text t @ CHR ''T'' # r) = date_text t"
    "dropWhile (\<lambda>c. c \<noteq> CHR ''T'') (date_text t @ CHR ''T'' # r) = CHR ''T'' # r" for r
    using date_text_no_T [of t] by (auto simp: takeWhile_append dropWhile_append)
  then have "round_minute (Some (date_text t @ CHR ''T'' # r)) = date_text t @ ''T'' @ take 5 r" for r
    by (simp add: round_minute_def Let_def)
  from this [of "clock_text t @ ''+00:00''"] show ?thesis by (simp add: strftime_utc_def clock_text_def)
qed

lemma round_minute_same:
  assumes "t div 60000000 = t' div 60000000"
  shows "round_minute (Some (strftime_utc t)) = round_minute (Some (strftime_utc t'))"
  unfolding round_minute_strftime hour_minute_minute [OF assms] date_text_day [OF day_of_minute [OF assms]] ..

end
