(* ===== verification/Component_Properties.thy ===== *)
theory Component_Properties
  imports Sample_Journeys Station_Resolution Trip_Dict
begin

text \<open>
  Properties of the parts the matching engine is built from: the alignment of two rows of rides, the
  verdict of a pair, the score, the symmetric comparisons, the reason vocabulary, the configured
  profiles, the local access rides left out, the derived and marked transfers, station resolution and
  the stop tokens.
\<close>

section \<open>Alignment and assessment\<close>

text \<open>C13: \<open>spines.aligned\<close> and the fingerprint's \<open>_aligned_pairs\<close>, whose tables weigh a match
  differently, give the same pairs: matching rides in the order of both rows, and as many as any such
  pairing has.\<close>

theorem alignments_agree_and_are_longest:
  "aligned left right m = greedy_pairs m left right \<and> common_subseq m left right (aligned left right m)
   \<and> (\<forall>ps. common_subseq m left right ps \<longrightarrow> length ps \<le> length (aligned left right m))"
  by (simp add: aligned_walk greedy_pairs_walk common_subseq_walk length_walk common_subseq_le_lcs_len)

theorem alignments_agree_and_are_longest_witness:
  "1 \<le> length (aligned [1, 2 :: nat] [2, 1] (=))"
proof -
  have "common_subseq (=) [1, 2 :: nat] [2, 1] [(2, 2)]" by (simp add: common_subseq_def)
  from alignments_agree_and_are_longest [of "[1, 2 :: nat]" "[2, 1]" "(=)", THEN conjunct2, THEN conjunct2, rule_format, OF this]
  show ?thesis by simp
qed

text \<open>A pair passes exactly when both time deltas are inside the profile's tolerances, both
  end stations agree (or are unresolved and the profile allows it), no train number vetoes, and it is
  exact or its score reaches the threshold of a verdict; a pair that does not pass the gates has verdict
  different and score 0, one with a warning is never the same service, and every score is in [0, 1].\<close>

theorem assess_verdicts:
  "(as_passed (assess a p e) = (gates a p \<and> (e \<or> score a p (pair_penalties a p) \<ge> probable_min p
        \<or> score a p (pair_penalties a p) \<ge> same_service_min p \<and> \<not> pair_warned a p)))
   \<and> as_passed (assess a p e) = (as_verdict (assess a p e) \<noteq> Different)
   \<and> (gates a p \<or> as_score (assess a p e) = 0)
   \<and> (as_verdict (assess a p e) = Same_service \<and> pair_warned a p) = False
   \<and> unit_interval (as_score (assess a p e))"
  using assess_passed_iff [of a p e] assess_verdict_passed [of a p e] assess_refused [of a p e]
    assess_same_service_no_warning [of a p e] assess_score_unit [of a p e] by auto

text \<open>The score of a pair is in [0, 1], and each further label conflict can only lower it.\<close>

theorem score_falls_with_conflicts:
  assumes "valid_profile p" "m \<le> n"
  shows "0 \<le> score a p n \<and> score a p n \<le> score a p m \<and> score a p m \<le> 1"
  using score_antimono [OF assms] score_unit [of a p n] score_unit [of a p m] by (simp add: unit_interval_def)

lemma valid_coverage_profile: "valid_profile COVERAGE_ALIGNMENT"
  by (rule valid_built_in [of "mp_name COVERAGE_ALIGNMENT", THEN conjunct1]) (simp add: BUILT_IN_def built_in_defs)

theorem score_falls_with_conflicts_witness:
  "\<forall>a. score a COVERAGE_ALIGNMENT 2 \<le> score a COVERAGE_ALIGNMENT 1"
  using score_falls_with_conflicts [OF valid_coverage_profile, of 1 2] by simp

text \<open>The order of the two sides does not matter to what is decided of two places, two labels,
  two rides or two fingerprints.\<close>

theorem comparisons_symmetric:
  "compare_stations l r = compare_stations r l
   \<and> with_position_fallback found l r m = with_position_fallback found r l m
   \<and> sc_agreement (compare_services rt a b leg) = sc_agreement (compare_services rt b a leg')
   \<and> sc_kind (compare_services rt a b leg) = sc_kind (compare_services rt b a leg')
   \<and> route_match x y = route_match y x \<and> ride_match p x y = ride_match p y x
   \<and> equivalent f g t = equivalent g f t"
  using compare_stations_sym position_of_sym_fallback compare_services_sym route_match_sym ride_match_sym equivalent_sym by metis

section \<open>Reasons and profiles\<close>

text \<open>A stored code text reads back as its code and only those do; every reason has a sentence
  whatever it carries, and the integers written in its values read back.\<close>

theorem reason_vocabulary_roundtrip:
  "code_of_text (code_text c) = Some c
   \<and> (case code_of_text s of Some d \<Rightarrow> code_text d = s | None \<Rightarrow> s \<notin> range code_text)
   \<and> sentence item left right \<noteq> None \<and> summary_sentence code n left right \<noteq> None
   \<and> py_int (show_int k) = Some k"
  using code_of_text_code_text sentence_total summary_sentence_total py_int_show_int code_text_of_text
  by (auto split: option.splits)

text \<open>Whatever is stored for a profile's settings, a built-in profile's name gives a profile
  inside every bound with its name, weights and local modes unchanged; any other name is a KeyError.\<close>

theorem profile_from_config_valid:
  "case profile_from_config pyd stored name of
     Inl err \<Rightarrow> err = KeyError \<and> name \<notin> fst ` set BUILT_IN
   | Inr p \<Rightarrow> valid_profile p \<and> (\<exists>q. map_of BUILT_IN name = Some q \<and> profile_frame p = profile_frame q)"
proof (cases "map_of BUILT_IN name")
  case None
  then have "name \<notin> fst ` set BUILT_IN" by (simp add: map_of_eq_None_iff)
  then show ?thesis by (simp add: profile_from_config_def None)
next
  case (Some q)
  from foldl_overlay [of q pyd stored "settings_prefix name" SETTING_FIELDS] valid_built_in [OF Some] Some
  show ?thesis by (simp add: profile_from_config_def)
qed

section \<open>Rides and transfers\<close>

text \<open>Trimming leaves out of each side at most one ride at each end, only rides of a local
  access mode inside the limit, and never all rides; the indices it reports are theirs.\<close>

theorem trim_leaves_out_local_ends:
  "trim_split p left (t_left (trim_local_access left right p)) (left_out_left (trim_local_access left right p))
   \<and> trim_split p right (t_right (trim_local_access left right p)) (left_out_right (trim_local_access left right p))"
  using trim_local_access_split by blast

text \<open>\<open>derive_transfers\<close> gives one transfer for each two rides in a row, with the walking time of
  the legs between them; \<open>mark_transfers\<close> marks exactly the walks between two rides, keeps the rides
  and the count, and changes nothing when applied again.\<close>

theorem transfers_between_rides:
  "derive_transfers legs = map (transfer_at legs) (zip (timed_indices legs) (tl (timed_indices legs)))
   \<and> mark_transfers legs = map (\<lambda>i. if between_rides legs i then (legs ! i)\<lparr>leg_kind := Transfer\<rparr> else legs ! i) [0..<length legs]
   \<and> filter is_timed (mark_transfers legs) = filter is_timed legs
   \<and> mark_transfers (mark_transfers legs) = mark_transfers legs"
proof -
  have "mark_transfers legs = map (\<lambda>i. if between_rides legs i then (legs ! i)\<lparr>leg_kind := Transfer\<rparr> else legs ! i) [0..<length legs]"
    by (rule nth_equalityI) (simp_all add: mark_transfers_nth)
  then show ?thesis using derive_transfers_timed_pairs mark_transfers_rides mark_transfers_idem by blast
qed

section \<open>Stations and stop tokens\<close>

text \<open>Giving the resolved stations to a valid journey keeps it valid and keeps its fingerprint,
  and giving them twice is giving them once; the resolver is asked each stop of the journeys once, and no
  other.\<close>

theorem resolved_stations_keep_journey:
  assumes "valid_journey j" "\<forall>r \<in> snd ` set found. valid_resolved r"
  shows "valid_journey (journey_with_stations found j) \<and> fingerprint_of (journey_with_stations found j) = fingerprint_of j
     \<and> journey_with_stations found (journey_with_stations found j) = journey_with_stations found j
     \<and> distinct (map key_of_stop (stop_places [j]))
     \<and> key_of_stop ` set (stop_places [j]) = {key_of_stop s | s l. l \<in> set (ends_of [j]) \<and> loc_stop_place l = Some s}"
proof -
  have "leg_with_stations found (leg_with_stations found leg) = leg_with_stations found leg" for leg
    by (simp add: leg_with_stations_def)
  then have "journey_with_stations found (journey_with_stations found j) = journey_with_stations found j"
    by (simp add: journey_with_stations_def)
  then show ?thesis using journey_with_stations_valid [OF assms] stop_places_keys(1,2) [of "[j]"] by simp
qed

definition bern_resolved :: "(stop_key \<times> resolved_station) list" where
  "bern_resolved = [((''feed'', ''8507000''), \<lparr>rs_station_id = ''CH-00001'', rs_parent_id = None\<rparr>)]"

theorem resolved_stations_keep_journey_witness:
  "valid_journey (journey_with_stations bern_resolved (bern_zurich ''a'' ''7'' 10))
   \<and> fingerprint_of (journey_with_stations bern_resolved (bern_zurich ''a'' ''7'' 10)) = fingerprint_of (bern_zurich ''a'' ''7'' 10)"
proof -
  have "valid_journey (bern_zurich ''a'' ''7'' 10)" by code_simp
  moreover have "\<forall>r \<in> snd ` set bern_resolved. valid_resolved r" by code_simp
  ultimately show ?thesis using resolved_stations_keep_journey by blast
qed

text \<open>A stop token is a canonical code or the rounded position, a code found in a stop id is
  seven digits, a canonical code is its own token wherever the stop is, and so a token computed from a
  token changes nothing.\<close>

theorem stop_tokens_canonical:
  "(CANONICAL_TOKEN_RE (stop_token s la lo code) \<or> stop_token s la lo code = round_latlon_coarse la lo)
   \<and> opt_all (\<lambda>u. length u = 7 \<and> list_all is_decimal u) (uic_from_stop_id s)
   \<and> stop_token (Some (stop_token s la lo code)) la' lo' code' =
       (if CANONICAL_TOKEN_RE (stop_token s la lo code) then stop_token s la lo code
        else stop_token (Some (round_latlon_coarse la lo)) la' lo' code')"
proof -
  have "stop_token (Some t) la' lo' code' = t" if "CANONICAL_TOKEN_RE t" for t
    using that by (auto simp: stop_token_def fingerprint_stop_token_def CANONICAL_TOKEN_RE_def)
  moreover have "opt_all (\<lambda>u. length u = 7 \<and> list_all is_decimal u) (uic_from_stop_id s)"
    using uic_from_stop_id_shape [of s] by (cases "uic_from_stop_id s") (auto simp: is_uic_def)
  ultimately show ?thesis using token_cases [of s la lo code] by (metis (full_types))
qed

section \<open>Where the code and its comments part\<close>

text \<open>
  \<open>_LEGAL_FORMS\<close> ends the form \<open>s.p.a.\<close> at a word boundary, which a full stop at the end of a name
  does not have: the dotted form is never left out, the undotted one is.
\<close>

lemma dotted_legal_form_kept:
  "operator_name ascii_runtime (Some ''Trenitalia SpA'') = Some ''trenitalia''"
  "operator_name ascii_runtime (Some ''Trenitalia S.p.A.'') = Some ''trenitalia s p a''"
  by code_simp+

end
