(* ===== verification/Json_Values.thy ===== *)
theory Json_Values
  imports Viator_Prelude
begin

text \<open>
  JSON values as Python reads them: a dictionary is an association list in insertion order. A
  Boolean is an instance of \<open>int\<close> in Python (\<open>as_int\<close>), and prints as True or False.
\<close>

datatype json = JNull | JBool bool | JInt int | JFloat real | JStr str | JArr "json list" | JObj "(str \<times> json) list"

definition as_dict :: "json option \<Rightarrow> (str \<times> json) list option" where
  "as_dict v = (case v of Some (JObj kvs) \<Rightarrow> Some kvs | _ \<Rightarrow> None)"

definition dict_or_empty :: "json option \<Rightarrow> (str \<times> json) list" where
  "dict_or_empty v = (case as_dict v of Some kvs \<Rightarrow> kvs | None \<Rightarrow> [])"

definition as_int :: "json option \<Rightarrow> int option" where
  "as_int v = (case v of Some (JInt n) \<Rightarrow> Some n | Some (JBool b) \<Rightarrow> Some (if b then 1 else 0) | _ \<Rightarrow> None)"

definition int_text :: "json option \<Rightarrow> str" where
  "int_text v = (case v of Some (JBool b) \<Rightarrow> (if b then ''True'' else ''False'')
     | Some (JInt n) \<Rightarrow> show_int n | _ \<Rightarrow> '''')"

definition jget :: "json \<Rightarrow> str \<Rightarrow> json option" where
  "jget v k = map_of (dict_or_empty (Some v)) k"

lemma as_int_simps [simp]: "as_int None = None" "as_int (Some (JInt n)) = Some n"
  by (simp_all add: as_int_def)

lemma dict_or_empty_simps [simp]: "dict_or_empty (Some (JObj kvs)) = kvs" "dict_or_empty None = []"
  by (simp_all add: dict_or_empty_def as_dict_def)

end
