(* ===== verification/Coverage_Alignment.thy ===== *)
theory Coverage_Alignment
  imports Engine_Laws Json_Values
begin

text \<open>
  A coverage cell's alignment (\<open>app/network_coverage/alignment.py\<close>): which of VIATOR's journeys a
  cell compares with the reference's, the score and tier the matching engine's pairs give, and the
  lines a page prints under a tier. The stored detail is JSON.
\<close>

section \<open>Which journeys are compared\<close>

definition journeys_from_depart_at :: "canonical_journey list \<Rightarrow> instant \<Rightarrow> canonical_journey list" where
  "journeys_from_depart_at js depart_at =
     map snd (sort_key fst (List.map_filter (\<lambda>j. case j_departure j of
        None \<Rightarrow> None
      | Some t \<Rightarrow> if timetabled t \<ge> depart_at then Some (timetabled t, j) else None) js))"

definition boarding :: "canonical_journey \<Rightarrow> instant option" where
  "boarding j = map_option timetabled (first_boarding j)"

definition boardings :: "canonical_journey list \<Rightarrow> instant list" where
  "boardings js = List.map_filter boarding js"

definition reference_window ::
  "canonical_journey list \<Rightarrow> canonical_journey list \<Rightarrow> int \<Rightarrow> canonical_journey list \<times> canonical_journey list" where
  "reference_window viator oebb tolerance_s =
     (let times = boardings oebb in
      if times = [] then (viator, [])
      else (let margin = tolerance_s * 1000000;
                start = Min (set times) - margin; stop = Max (set times) + margin;
                fits = (\<lambda>j. case boarding j of None \<Rightarrow> True | Some b \<Rightarrow> start \<le> b \<and> b \<le> stop)
            in (filter fits viator, filter (\<lambda>j. \<not> fits j) viator)))"

section \<open>Score and tier\<close>

definition TIER_AGREE_MIN :: real where "TIER_AGREE_MIN = 1"
definition TIER_MOSTLY_MIN :: real where "TIER_MOSTLY_MIN = 70/100"
definition TIER_PARTIAL_MIN :: real where "TIER_PARTIAL_MIN = 40/100"
definition SAME_SERVICE_CREDIT :: real where "SAME_SERVICE_CREDIT = 1"
definition PROBABLY_SAME_CREDIT :: real where "PROBABLY_SAME_CREDIT = 70/100"
definition SCORE_CAP_PER_SIDE :: nat where "SCORE_CAP_PER_SIDE = 3"

definition classify_score :: "real option \<Rightarrow> nat \<Rightarrow> nat \<Rightarrow> str" where
  "classify_score scored v_n o_n =
     (if v_n = 0 \<and> o_n = 0 then ''no_service''
      else if v_n = 0 then ''one_sided_oebb''
      else if o_n = 0 then ''one_sided_viator''
      else (case scored of
          None \<Rightarrow> ''no_overlap''
        | Some x \<Rightarrow>
            (if x \<ge> TIER_AGREE_MIN then ''agree''
             else if x \<ge> TIER_MOSTLY_MIN then ''mostly_agree''
             else if x \<ge> TIER_PARTIAL_MIN then ''partial''
             else if x > 0 then ''disagree''
             else ''no_overlap'')))"

record cell_alignment =
  ca_score :: "real option"
  ca_tier :: str
  ca_detail :: json

definition detail_of :: "match_profile \<Rightarrow> (str \<times> nat) list \<Rightarrow> (reason_code \<times> nat) list \<Rightarrow> json" where
  "detail_of p counts found =
     JObj [(''engine_version'', JInt ENGINE_VERSION), (''profile'', JStr (mp_name p)),
       (''counts'', JObj (map (\<lambda>(k, n). (k, JInt (int n))) counts)),
       (''reasons'', JObj (map (\<lambda>(c, n). (code_text c, JInt (int n)))
           (sort_key (\<lambda>(c, n). code_text c) found)))]"

definition cell_counts :: "nat \<Rightarrow> nat \<Rightarrow> nat \<Rightarrow> nat \<Rightarrow> nat \<Rightarrow> nat \<Rightarrow> (str \<times> nat) list" where
  "cell_counts same probably v_only o_only unc outside =
     [(''same_service'', same), (''probably_same'', probably), (''viator_only'', v_only),
      (''oebb_only'', o_only), (''uncomparable'', unc), (''outside_reference_window'', outside)]"

definition add_counts :: "(reason_code \<times> nat) list \<Rightarrow> (reason_code \<times> nat) list \<Rightarrow> (reason_code \<times> nat) list" where
  "add_counts base extra = foldl (\<lambda>acc (code, n). alist_set code (alist_get acc code 0 + n) acc) base extra"

definition credit_of :: "comparison_summary \<Rightarrow> real" where
  "credit_of s = real (cs_same_service s) * SAME_SERVICE_CREDIT + real (cs_probably_same s) * PROBABLY_SAME_CREDIT"

definition denominator_of :: "nat \<Rightarrow> nat \<Rightarrow> nat" where
  "denominator_of v_n o_n = max (min v_n SCORE_CAP_PER_SIDE) (min o_n SCORE_CAP_PER_SIDE)"

definition compute_alignment ::
  "runtime \<Rightarrow> canonical_journey list \<Rightarrow> canonical_journey list \<Rightarrow> match_profile \<Rightarrow> py_error + cell_alignment" where
  "compute_alignment rt viator oebb p =
     (let (inside, outside) = reference_window viator oebb (departure_tolerance_s p);
          v_n = length inside; o_n = length oebb;
          base = (if outside \<noteq> [] then [(OUTSIDE_REFERENCE_WINDOW, length outside)] else [])
      in if v_n = 0 \<or> o_n = 0
         then (let scored = (if v_n = 0 \<and> o_n = 0 then None else Some 0)
               in Inr \<lparr>ca_score = scored, ca_tier = classify_score scored v_n o_n,
                       ca_detail = detail_of p (cell_counts 0 0 v_n o_n 0 (length outside)) base\<rparr>)
         else (case compare rt inside oebb p of
             Inl e \<Rightarrow> Inl e
           | Inr comparison \<Rightarrow>
               (let s = jc_summary comparison;
                    counts = cell_counts (cs_same_service s) (cs_probably_same s) (cs_left_only s)
                      (cs_right_only s) (cs_uncomparable_left s + cs_uncomparable_right s) (length outside);
                    found = add_counts base (reason_counts comparison);
                    scored = min (py_round 2 (credit_of s / real (denominator_of v_n o_n))) 1
                in Inr \<lparr>ca_score = Some scored, ca_tier = classify_score (Some scored) v_n o_n,
                        ca_detail = detail_of p counts found\<rparr>)))"

section \<open>The lines under a tier\<close>

definition EXPLAINED_FIRST :: "str list" where
  "EXPLAINED_FIRST = map code_text [OUTSIDE_REFERENCE_WINDOW, ENDPOINT_STATION_DIFFERS, TRAIN_NUMBER_DIFFERS,
     DEPARTURE_OUTSIDE_TOLERANCE, ARRIVAL_OUTSIDE_TOLERANCE, ENDPOINT_UNRESOLVED, SPLITS_AFTER_SHARED_RIDE,
     SHORTER_TRANSFER]"

definition count_text :: "(str \<times> json) list \<Rightarrow> str \<Rightarrow> str" where
  "count_text counts key = (case as_int (map_of counts key) of
      Some n \<Rightarrow> (if n > 0 then int_text (map_of counts key) else ''0'') | None \<Rightarrow> ''0'')"

definition explain_order :: "(str \<times> json) list \<Rightarrow> str list" where
  "explain_order found = EXPLAINED_FIRST @ sort (dedup (filter (\<lambda>c. c \<notin> set EXPLAINED_FIRST) (map fst found)))"

definition explain_line :: "(str \<times> json) list \<Rightarrow> str \<Rightarrow> str \<Rightarrow> str \<Rightarrow> str option list" where
  "explain_line found left right code = (case as_int (map_of found code) of
      None \<Rightarrow> []
    | Some n \<Rightarrow> (case summary_sentence code n left right of
        None \<Rightarrow> [None] | Some line \<Rightarrow> if line = [] then [] else [Some line]))"

text \<open>\<open>None\<close> is a \<open>format\<close> that failed; \<open>explain_cell_total\<close> shows that it never does.\<close>

fun all_lines :: "str option list \<Rightarrow> str list option" where
  "all_lines [] = Some []"
| "all_lines (None # xs) = None"
| "all_lines (Some x # xs) = map_option ((#) x) (all_lines xs)"

definition explain_cell :: "json option \<Rightarrow> str \<Rightarrow> str \<Rightarrow> str list option" where
  "explain_cell detail left right = (case as_dict detail of
      None \<Rightarrow> Some []
    | Some d \<Rightarrow>
        (let counts = dict_or_empty (map_of d ''counts''); found = dict_or_empty (map_of d ''reasons'');
             parts = [count_text counts ''same_service'' @ '' same service'',
                      count_text counts ''probably_same'' @ '' probably the same'',
                      count_text counts ''viator_only'' @ '' '' @ left @ '' only'',
                      count_text counts ''oebb_only'' @ '' '' @ right @ '' only''];
             first = left @ '' vs '' @ right @ '': '' @ py_join '', '' parts
         in all_lines (Some first # concat (map (explain_line found left right) (explain_order found)))))"

section \<open>Lemmas: the window\<close>

lemma set_boardings: "set (boardings js) = {b. \<exists>j \<in> set js. boarding j = Some b}"
  by (force simp: boardings_def map_filter_def)

text \<open>Before every reference boarding, or after all of them, by more than the tolerance.\<close>

definition outside_span :: "canonical_journey list \<Rightarrow> int \<Rightarrow> canonical_journey \<Rightarrow> bool" where
  "outside_span oebb tolerance_s j = (\<exists>b. boarding j = Some b \<and> boardings oebb \<noteq> []
     \<and> ((\<forall>t \<in> set (boardings oebb). b < t - tolerance_s * 1000000)
        \<or> (\<forall>t \<in> set (boardings oebb). b > t + tolerance_s * 1000000)))"

lemma reference_window_filter:
  "reference_window viator oebb t = (filter (\<lambda>j. \<not> outside_span oebb t j) viator, filter (outside_span oebb t) viator)"
proof (cases "boardings oebb = []")
  case True
  then show ?thesis by (simp add: reference_window_def outside_span_def)
next
  case False
  then have fin: "finite (set (boardings oebb))" "set (boardings oebb) \<noteq> {}" by auto
  have mn: "(\<forall>x \<in> set (boardings oebb). b < x - m) \<longleftrightarrow> \<not> Min (set (boardings oebb)) - m \<le> b" for b m
    using Min_gr_iff [OF fin, of "b + m"] by (simp add: less_diff_eq not_le)
  have mx: "(\<forall>x \<in> set (boardings oebb). x + m < b) \<longleftrightarrow> \<not> b \<le> Max (set (boardings oebb)) + m" for b m
    using Max_less_iff [OF fin, of "b - m"] by (simp add: less_diff_eq not_le)
  have "outside_span oebb t j \<longleftrightarrow> \<not> (case boarding j of None \<Rightarrow> True | Some b \<Rightarrow>
      Min (set (boardings oebb)) - t * 1000000 \<le> b \<and> b \<le> Max (set (boardings oebb)) + t * 1000000)" for j
    unfolding outside_span_def mn mx using False by (cases "boarding j") simp_all
  then have "outside_span oebb t = (\<lambda>j. \<not> (case boarding j of None \<Rightarrow> True | Some b \<Rightarrow>
      Min (set (boardings oebb)) - t * 1000000 \<le> b \<and> b \<le> Max (set (boardings oebb)) + t * 1000000))" by (rule ext)
  then show ?thesis using False by (simp add: reference_window_def Let_def)
qed

lemma outside_span_antimono:
  assumes "t \<le> t'" "outside_span oebb t' j"
  shows "outside_span oebb t j"
proof -
  have "t * 1000000 \<le> t' * 1000000" using assms(1) by simp
  with assms(2) show ?thesis unfolding outside_span_def by (meson diff_left_mono add_left_mono le_less_trans less_le_trans)
qed

section \<open>Lemmas: score and tier\<close>

lemma denominator_range:
  "0 < v_n \<or> 0 < o_n \<Longrightarrow> denominator_of v_n o_n \<in> {1, 2, 3}"
  by (auto simp: denominator_of_def SCORE_CAP_PER_SIDE_def)

lemma py_round_2_ge_1: "1 \<le> py_round 2 x \<longleftrightarrow> 995 / 1000 \<le> x"
proof -
  have "1 \<le> py_round 2 x \<longleftrightarrow> 100 \<le> round_half_even (x * 100)"
    by (simp add: py_round_def)
  also have "\<dots> \<longleftrightarrow> 995 / 1000 \<le> x"
  proof
    assume "100 \<le> round_half_even (x * 100)"
    moreover have "\<bar>of_int (round_half_even (x * 100)) - x * 100\<bar> \<le> 1/2" by (rule round_half_even_error)
    ultimately show "995 / 1000 \<le> x" by linarith
  next
    assume a: "995 / 1000 \<le> x"
    show "100 \<le> round_half_even (x * 100)"
    proof (cases "x * 100 < 100")
      case True
      then have "\<lfloor>x * 100\<rfloor> = 99" using a by linarith
      then show ?thesis using a by (auto simp: round_half_even_def Let_def)
    next
      case False
      then show ?thesis using round_half_even_ge [of 100 "x * 100"] by simp
    qed
  qed
  finally show ?thesis .
qed

lemma agree_iff_credit:
  assumes "d \<in> {1, 2, 3 :: nat}"
  shows "1 \<le> py_round 2 ((real s * SAME_SERVICE_CREDIT + real q * PROBABLY_SAME_CREDIT) / real d) \<longleftrightarrow> 10 * d \<le> 10 * s + 7 * q"
proof -
  have "1 \<le> py_round 2 ((real s * SAME_SERVICE_CREDIT + real q * PROBABLY_SAME_CREDIT) / real d)
      \<longleftrightarrow> 995 * d \<le> 100 * (10 * s + 7 * q)"
    unfolding py_round_2_ge_1 SAME_SERVICE_CREDIT_def PROBABLY_SAME_CREDIT_def using assms by auto
  also have "\<dots> \<longleftrightarrow> 10 * d \<le> 10 * s + 7 * q" using assms by auto
  finally show ?thesis .
qed

lemma classify_both:
  assumes "0 < v_n" "0 < o_n" "0 \<le> x" "x \<le> 1"
  shows "classify_score (Some x) v_n o_n = ''agree'' \<longleftrightarrow> x = 1"
    "classify_score (Some x) v_n o_n = ''no_overlap'' \<longleftrightarrow> x = 0"
    "classify_score (Some x) v_n o_n \<in> {''agree'', ''mostly_agree'', ''partial'', ''disagree'', ''no_overlap''}"
  using assms by (auto simp: classify_score_def TIER_AGREE_MIN_def TIER_MOSTLY_MIN_def TIER_PARTIAL_MIN_def)

section \<open>Lemmas: the alignment of a cell\<close>

text \<open>What \<open>detail\<close> stores under a count's and under a reason's name.\<close>

definition detail_count :: "json \<Rightarrow> str \<Rightarrow> int option" where
  "detail_count d k = as_int (map_of (dict_or_empty (jget d ''counts'')) k)"

definition detail_reason :: "json \<Rightarrow> reason_code \<Rightarrow> int option" where
  "detail_reason d c = as_int (map_of (dict_or_empty (jget d ''reasons'')) (code_text c))"

lemma map_of_map_inj:
  "inj f \<Longrightarrow> map_of (map (\<lambda>(k, v). (f k, g v)) kvs) (f k) = map_option g (map_of kvs k)"
  by (induction kvs) (auto dest: injD)

lemma inj_code_text: "inj code_text"
proof (rule injI)
  fix a b assume "code_text a = code_text b"
  then have "code_of_text (code_text a) = code_of_text (code_text b)" by simp
  then show "a = b" by (simp add: code_of_text_code_text)
qed

lemma detail_count_of:
  "detail_count (detail_of p counts found) k = map_option int (map_of counts k)"
  using map_of_map_inj [OF inj_on_id, of "\<lambda>n. JInt (int n)" counts k]
  by (cases "map_of counts k") (simp_all add: detail_count_def detail_of_def jget_def)

lemma detail_reason_of:
  assumes "distinct (map fst found)"
  shows "detail_reason (detail_of p counts found) c = map_option int (map_of found c)"
proof -
  have "map_of (map (\<lambda>(c, n). (code_text c, JInt (int n))) (sort_key (\<lambda>(c, n). code_text c) found)) (code_text c)
      = map_option (\<lambda>n. JInt (int n)) (map_of found c)"
    using map_of_map_inj [OF inj_code_text, of "\<lambda>n. JInt (int n)" "sort_key (\<lambda>(c, n). code_text c) found" c]
      map_of_sort_key [OF assms, of "\<lambda>(c, n). code_text c"] by simp
  then show ?thesis by (cases "map_of found c") (simp_all add: detail_reason_def detail_of_def jget_def)
qed

lemma add_counts_keys:
  "distinct (map fst base) \<Longrightarrow> distinct (map fst (add_counts base extra))"
  unfolding add_counts_def by (induction extra arbitrary: base) (auto simp: distinct_alist_set)

lemma add_counts_get:
  assumes "distinct (map fst extra)"
  shows "alist_get (add_counts base extra) k 0 = alist_get base k 0 + alist_get extra k 0"
  using assms unfolding add_counts_def
proof (induction extra arbitrary: base)
  case (Cons x xs)
  obtain c n where x: "x = (c, n)" by (cases x)
  have "map_of xs c = None" using Cons.prems x by (simp add: map_of_eq_None_iff)
  then have "alist_get xs c 0 = 0" by (simp add: alist_get_map_of)
  with Cons x show ?case by (auto simp: alist_get_map_of)
qed (simp add: alist_get_map_of)

lemma compute_alignment_both:
  assumes "compute_alignment rt viator oebb p = Inr ca"
    and "reference_window viator oebb (departure_tolerance_s p) = (inside, outside)" "inside \<noteq> []" "oebb \<noteq> []"
  obtains c where "compare rt inside oebb p = Inr c"
    "ca_score ca = Some (min (py_round 2 (credit_of (jc_summary c) / real (denominator_of (length inside) (length oebb)))) 1)"
    "ca_tier ca = classify_score (ca_score ca) (length inside) (length oebb)"
    "ca_detail ca = detail_of p (cell_counts (cs_same_service (jc_summary c)) (cs_probably_same (jc_summary c))
        (cs_left_only (jc_summary c)) (cs_right_only (jc_summary c))
        (cs_uncomparable_left (jc_summary c) + cs_uncomparable_right (jc_summary c)) (length outside))
      (add_counts (if outside \<noteq> [] then [(OUTSIDE_REFERENCE_WINDOW, length outside)] else []) (reason_counts c))"
  using assms that by (auto simp: compute_alignment_def Let_def split: sum.splits)

lemma compute_alignment_one_sided:
  assumes "reference_window viator oebb (departure_tolerance_s p) = (inside, outside)" "inside = [] \<or> oebb = []"
  shows "compute_alignment rt viator oebb p = Inr \<lparr>
     ca_score = (if inside = [] \<and> oebb = [] then None else Some 0),
     ca_tier = (if inside = [] \<and> oebb = [] then ''no_service'' else if inside = [] then ''one_sided_oebb'' else ''one_sided_viator''),
     ca_detail = detail_of p (cell_counts 0 0 (length inside) (length oebb) 0 (length outside))
       (if outside \<noteq> [] then [(OUTSIDE_REFERENCE_WINDOW, length outside)] else [])\<rparr>"
  using assms by (auto simp: compute_alignment_def classify_score_def Let_def)

lemma compute_alignment_returns:
  assumes "\<forall>j \<in> set viator \<union> set oebb. valid_journey j"
  obtains ca where "compute_alignment rt viator oebb p = Inr ca"
proof -
  let ?in = "filter (\<lambda>j. \<not> outside_span oebb (departure_tolerance_s p) j) viator"
  show ?thesis
  proof (cases "?in = [] \<or> oebb = []")
    case True
    from compute_alignment_one_sided [OF reference_window_filter this] that show ?thesis by blast
  next
    case False
    have "\<forall>j \<in> set ?in \<union> set oebb. valid_journey j" using assms by auto
    then obtain c where "compare rt ?in oebb p = Inr c" by (rule compare_returns)
    with that False show ?thesis by (simp add: compute_alignment_def reference_window_filter Let_def)
  qed
qed

text \<open>No comparison reports a journey outside the window: only the cell does.\<close>

lemma refused_groups_subset: "set (refused_groups seen xs) \<subseteq> (\<lambda>x. um_reasons (fst x)) ` set xs"
proof (induction xs arbitrary: seen)
  case (Cons x xs)
  obtain item left_side where x: "x = (item, left_side)" by (cases x)
  have "set (refused_groups seen (x # xs)) \<subseteq> insert (um_reasons item) (\<Union>s. set (refused_groups s xs))"
    by (cases "um_closest_id item") (auto simp: x Let_def)
  with Cons.IH x show ?case by fastforce
qed simp

lemma unmatched_codes:
  assumes "\<forall>x \<in> set cs. candidate_ok rt left right p x" "y \<in> set (um_reasons (unmatched j cs os s))"
  shows "r_code y \<noteq> OUTSIDE_REFERENCE_WINDOW"
proof (cases "closest cs")
  case None
  then show ?thesis using assms(2) by (simp add: unmatched_def)
next
  case (Some x)
  then have "x \<in> set cs" unfolding closest_def by (rule min_by_mem)
  with assms(1) have "candidate_ok rt left right p x" by blast
  then have "\<forall>y \<in> set (as_reasons (c_assessment x)). \<not> engine_code (r_code y)"
    using assess_codes by (auto simp: candidate_ok_def)
  then show ?thesis using assms(2) by (auto simp: unmatched_closest [OF Some] engine_code_def split: if_splits)
qed

lemma reason_counts_no_outside:
  assumes "compare rt left right p = Inr c"
  shows "alist_get (reason_counts c) OUTSIDE_REFERENCE_WINDOW 0 = 0"
proof -
  obtain cs where cs: "compared rt left right p cs c" by (rule compare_compared [OF assms])
  then have ok: "\<forall>x \<in> set cs. candidate_ok rt left right p x" using candidates_of(1) by (simp add: compared_def)
  have "OUTSIDE_REFERENCE_WINDOW \<notin> r_code ` set g" if grp: "g \<in> set (reason_groups c)" for g
  proof -
    consider q where "q \<in> set (jc_pairs c)" "g = sr_reasons q"
      | u where "u \<in> set (jc_left_only c) \<union> set (jc_right_only c)" "g = um_reasons u"
      using grp refused_groups_subset [of "[]" "map (\<lambda>i. (i, True)) (jc_left_only c) @ map (\<lambda>i. (i, False)) (jc_right_only c)"]
      by (fastforce simp: reason_groups_def)
    then show ?thesis
    proof cases
      case 1
      from compared_pair_candidate [OF cs 1(1)] obtain x where
        "result_of left right x = Inr q" "candidate_ok rt left right p x" by blast
      then have "\<forall>y \<in> set g. \<not> engine_code (r_code y)"
        using result_of_Inr assess_codes 1(2) by (fastforce simp: candidate_ok_def)
      then show ?thesis by (auto simp: engine_code_def)
    next
      case 2
      from 2(1) cs obtain j ds os s where "u = unmatched j ds os s" "set ds \<subseteq> set cs"
        by (auto simp: compared_def)
      then show ?thesis using unmatched_codes [of ds rt left right p _ j os s] ok 2(2) by fastforce
    qed
  qed
  then show ?thesis by (simp add: reason_counts_get)
qed

section \<open>Lemmas: the lines under a tier\<close>

lemma all_lines_Some: "\<forall>x \<in> set xs. x \<noteq> None \<Longrightarrow> all_lines xs = Some (map the xs)"
  by (induction xs rule: all_lines.induct) auto

lemma explain_line_cases:
  "explain_line found left right code = [] \<or>
   (\<exists>t. explain_line found left right code = [Some t] \<and> t \<noteq> [] \<and> code \<in> fst ` set found
      \<and> (\<exists>n > 0. as_int (map_of found code) = Some n \<and> summary_sentence code n left right = Some t))"
proof (cases "as_int (map_of found code)")
  case None
  then show ?thesis by (simp add: explain_line_def)
next
  case (Some n)
  obtain t where t: "summary_sentence code n left right = Some t" using summary_sentence_total by blast
  have "code \<in> fst ` set found" using Some by (cases "map_of found code") (auto simp: as_int_def dest!: map_of_SomeD, force)
  moreover have "t \<noteq> [] \<Longrightarrow> 0 < n" using t by (cases "n \<le> 0") (auto simp: summary_sentence_def Let_def)
  ultimately show ?thesis using Some t by (simp add: explain_line_def)
qed

lemma explain_lines_Some:
  "\<forall>x \<in> set (concat (map (explain_line found left right) codes)). x \<noteq> None"
proof
  fix x assume "x \<in> set (concat (map (explain_line found left right) codes))"
  then obtain c where "x \<in> set (explain_line found left right c)" by auto
  then show "x \<noteq> None" using explain_line_cases [of found left right c] by auto
qed

lemma explain_order_perm:
  "distinct (explain_order found)" "set (explain_order found) = set EXPLAINED_FIRST \<union> fst ` set found"
proof -
  have "distinct EXPLAINED_FIRST" by code_simp
  then show "distinct (explain_order found)" by (auto simp: explain_order_def)
  show "set (explain_order found) = set EXPLAINED_FIRST \<union> fst ` set found" by (auto simp: explain_order_def)
qed

lemma explained_lines:
  assumes "\<And>c. L c \<noteq> [] \<Longrightarrow> L c = [f c]"
  shows "concat (map L cs) = map f (filter (\<lambda>c. L c \<noteq> []) cs)"
proof (induction cs)
  case (Cons c cs)
  then show ?case using assms [of c] by (cases "L c = []") auto
qed simp

lemma explain_listed:
  "explain_line found left right c \<noteq> [] \<longleftrightarrow> (\<exists>n > 0. as_int (map_of found c) = Some n \<and> summary_sentence c n left right \<noteq> Some [])"
  "explain_line found left right c \<noteq> [] \<Longrightarrow> c \<in> fst ` set found"
proof -
  have "0 < n" if "summary_sentence c n left right \<noteq> Some []" for n
    using that by (rule contrapos_np) (simp add: summary_sentence_def Let_def)
  then show "explain_line found left right c \<noteq> [] \<longleftrightarrow> (\<exists>n > 0. as_int (map_of found c) = Some n \<and> summary_sentence c n left right \<noteq> Some [])"
    by (auto simp: explain_line_def split: option.splits)
  show "explain_line found left right c \<noteq> [] \<Longrightarrow> c \<in> fst ` set found"
    using explain_line_cases [of found left right c] by auto
qed

end
