(* ===== verification/Coverage_Properties.thy ===== *)
theory Coverage_Properties
  imports Coverage_Alignment Station_Resolution Sample_Journeys
begin

text \<open>
  What a coverage cell's alignment (\<open>app/network_coverage/alignment.py\<close>) and the resolution of
  stations before it (\<open>app/journey/canonical/station_resolution.py\<close>) promise.
\<close>

text \<open>C5: on well-formed journeys a cell always gets an alignment; its score is missing exactly when neither
  side has a journey to compare and is otherwise between 0 and 1; and its counts account for every
  journey of both sides: a pair for two, every other journey as one-sided, uncomparable or outside the
  reference window.\<close>

theorem alignment_accounts_for_all:
  assumes "\<forall>j \<in> set viator \<union> set oebb. valid_journey j"
  shows "\<exists>ca same prob v_only o_only unc out. compute_alignment rt viator oebb p = Inr ca
     \<and> (ca_score ca = None \<longleftrightarrow> oebb = [] \<and> viator = [])
     \<and> unit_option (ca_score ca)
     \<and> detail_count (ca_detail ca) ''same_service'' = Some same
     \<and> detail_count (ca_detail ca) ''probably_same'' = Some prob
     \<and> detail_count (ca_detail ca) ''viator_only'' = Some v_only
     \<and> detail_count (ca_detail ca) ''oebb_only'' = Some o_only
     \<and> detail_count (ca_detail ca) ''uncomparable'' = Some unc
     \<and> detail_count (ca_detail ca) ''outside_reference_window'' = Some out
     \<and> 2 * (same + prob) + v_only + o_only + unc + out = int (length viator + length oebb)"
proof -
  let ?out = "outside_span oebb (departure_tolerance_s p)"
  let ?in = "filter (\<lambda>j. \<not> ?out j) viator" and ?ex = "filter ?out viator"
  note w = reference_window_filter [of viator oebb "departure_tolerance_s p"]
  have len: "length ?in + length ?ex = length viator"
    using sum_length_filter_compl [of ?out viator] by simp
  obtain ca where ca: "compute_alignment rt viator oebb p = Inr ca" by (rule compute_alignment_returns [OF assms])
  show ?thesis
  proof (cases "?in = [] \<or> oebb = []")
    case True
    have "?in = [] \<and> oebb = [] \<longleftrightarrow> oebb = [] \<and> viator = []"
      by (auto simp: outside_span_def boardings_def map_filter_def)
    with compute_alignment_one_sided [OF w True, of rt] len show ?thesis
      by (auto simp: detail_count_of cell_counts_def unit_interval_def)
  next
    case False
    obtain c where c: "compare rt ?in oebb p = Inr c"
      "ca_score ca = Some (min (py_round 2 (credit_of (jc_summary c) / real (denominator_of (length ?in) (length oebb)))) 1)"
      "ca_detail ca = detail_of p (cell_counts (cs_same_service (jc_summary c)) (cs_probably_same (jc_summary c))
        (cs_left_only (jc_summary c)) (cs_right_only (jc_summary c))
        (cs_uncomparable_left (jc_summary c) + cs_uncomparable_right (jc_summary c)) (length ?ex))
      (add_counts (if ?ex \<noteq> [] then [(OUTSIDE_REFERENCE_WINDOW, length ?ex)] else []) (reason_counts c))"
      using compute_alignment_both [OF ca w] False by blast
    have "0 \<le> credit_of (jc_summary c) / real (denominator_of (length ?in) (length oebb))"
      by (simp add: credit_of_def SAME_SERVICE_CREDIT_def PROBABLY_SAME_CREDIT_def)
    then have "unit_option (ca_score ca)" using c(2) py_round_ge_0 by (simp add: unit_interval_def)
    moreover have "2 * (cs_same_service (jc_summary c) + cs_probably_same (jc_summary c)) + cs_left_only (jc_summary c)
        + cs_right_only (jc_summary c) + (cs_uncomparable_left (jc_summary c) + cs_uncomparable_right (jc_summary c))
        + length ?ex = length viator + length oebb"
      using compare_summary_counts [OF c(1)] compare_lengths [OF c(1)] len by simp
    ultimately show ?thesis using ca c(2,3) False
      by (intro exI [of _ ca] exI conjI) (auto simp: detail_count_of cell_counts_def simp flip: of_nat_add of_nat_mult)
  qed
qed

theorem alignment_accounts_for_all_witness:
  "\<exists>ca. compute_alignment ascii_runtime sample_left sample_right COVERAGE_ALIGNMENT = Inr ca \<and> ca_score ca \<noteq> None"
  using alignment_accounts_for_all [OF sample_valid, of ascii_runtime COVERAGE_ALIGNMENT]
  by (auto simp: sample_left_def)

text \<open>C6: the tier agree means what it says: it is given exactly when both sides have journeys and the
  credits (10 per same service, 7 per probably same, in tenths) reach the capped number of journeys
  of the larger side; rounding to cents never lifts a cell into it.\<close>

theorem alignment_agree_iff:
  assumes "compute_alignment rt viator oebb p = Inr ca"
    and "reference_window viator oebb (departure_tolerance_s p) = (inside, outside)"
    and "detail_count (ca_detail ca) ''same_service'' = Some same" "detail_count (ca_detail ca) ''probably_same'' = Some prob"
  shows "ca_tier ca = ''agree'' \<longleftrightarrow> inside \<noteq> [] \<and> oebb \<noteq> []
     \<and> 10 * int (max (min (length inside) 3) (min (length oebb) 3)) \<le> 10 * same + 7 * prob"
proof (cases "inside = [] \<or> oebb = []")
  case True
  with compute_alignment_one_sided [OF assms(2) True, of rt] assms(1) show ?thesis by auto
next
  case False
  then have ne: "inside \<noteq> []" "oebb \<noteq> []" by auto
  obtain c where c:
    "ca_score ca = Some (min (py_round 2 (credit_of (jc_summary c) / real (denominator_of (length inside) (length oebb)))) 1)"
    "ca_tier ca = classify_score (ca_score ca) (length inside) (length oebb)"
    "ca_detail ca = detail_of p (cell_counts (cs_same_service (jc_summary c)) (cs_probably_same (jc_summary c))
        (cs_left_only (jc_summary c)) (cs_right_only (jc_summary c))
        (cs_uncomparable_left (jc_summary c) + cs_uncomparable_right (jc_summary c)) (length outside))
      (add_counts (if outside \<noteq> [] then [(OUTSIDE_REFERENCE_WINDOW, length outside)] else []) (reason_counts c))"
    using compute_alignment_both [OF assms(1,2) ne] by metis
  let ?x = "py_round 2 (credit_of (jc_summary c) / real (denominator_of (length inside) (length oebb)))"
  have counts: "same = int (cs_same_service (jc_summary c))" "prob = int (cs_probably_same (jc_summary c))"
    using assms(3,4) c(3) by (auto simp: detail_count_of cell_counts_def)
  have pos: "0 \<le> ?x" by (rule py_round_ge_0) (simp add: credit_of_def SAME_SERVICE_CREDIT_def PROBABLY_SAME_CREDIT_def)
  have "ca_tier ca = ''agree'' \<longleftrightarrow> 1 \<le> ?x"
    using classify_both(1) [of "length inside" "length oebb" "min ?x 1"] c(1,2) ne pos by auto
  also have "\<dots> \<longleftrightarrow> 10 * denominator_of (length inside) (length oebb) \<le> 10 * cs_same_service (jc_summary c) + 7 * cs_probably_same (jc_summary c)"
    unfolding credit_of_def by (rule agree_iff_credit, rule denominator_range) (use ne in simp)
  finally show ?thesis using ne counts by (simp add: denominator_of_def SCORE_CAP_PER_SIDE_def) linarith
qed

theorem alignment_agree_iff_witness:
  "\<exists>ca. compute_alignment ascii_runtime [bern_zurich ''a'' ''7'' 10] [bern_zurich ''x'' ''7'' 10] COVERAGE_ALIGNMENT = Inr ca
     \<and> ca_tier ca = ''agree''"
proof -
  let ?v = "[bern_zurich ''a'' ''7'' 10]" and ?o = "[bern_zurich ''x'' ''7'' 10]" and ?p = COVERAGE_ALIGNMENT
  have "case compute_alignment ascii_runtime ?v ?o ?p of Inl _ \<Rightarrow> False
     | Inr ca \<Rightarrow> detail_count (ca_detail ca) ''same_service'' = Some 1 \<and> detail_count (ca_detail ca) ''probably_same'' = Some 0"
    by code_simp
  then obtain ca where ca: "compute_alignment ascii_runtime ?v ?o ?p = Inr ca"
    "detail_count (ca_detail ca) ''same_service'' = Some 1" "detail_count (ca_detail ca) ''probably_same'' = Some 0"
    by (auto split: sum.splits)
  have "reference_window ?v ?o (departure_tolerance_s ?p) = (?v, [])" by code_simp
  from alignment_agree_iff [OF ca(1) this ca(2,3)] ca(1) show ?thesis by simp
qed

text \<open>The reference window splits VIATOR's journeys in their order: outside are exactly those whose first
  boarding is, by more than the tolerance, before all of the reference's first boardings or after all
  of them; a larger tolerance leaves no more outside, and the detail records their number under
  \<open>outside_reference_window\<close>, a reason no comparison gives.\<close>

theorem reference_window_splits:
  assumes "compute_alignment rt viator oebb p = Inr ca"
  shows "reference_window viator oebb (departure_tolerance_s p)
       = (filter (\<lambda>j. \<not> outside_span oebb (departure_tolerance_s p) j) viator,
          filter (outside_span oebb (departure_tolerance_s p)) viator)
     \<and> (\<forall>t \<ge> departure_tolerance_s p. set (snd (reference_window viator oebb t))
          \<subseteq> set (snd (reference_window viator oebb (departure_tolerance_s p))))
     \<and> (case detail_reason (ca_detail ca) OUTSIDE_REFERENCE_WINDOW of None \<Rightarrow> 0 | Some n \<Rightarrow> n)
         = int (length (snd (reference_window viator oebb (departure_tolerance_s p))))"
proof -
  let ?out = "filter (outside_span oebb (departure_tolerance_s p)) viator"
  let ?in = "filter (\<lambda>j. \<not> outside_span oebb (departure_tolerance_s p) j) viator"
  let ?base = "if ?out \<noteq> [] then [(OUTSIDE_REFERENCE_WINDOW, length ?out)] else []"
  note w = reference_window_filter [of viator oebb "departure_tolerance_s p"]
  have stored: "(case detail_reason (detail_of p counts found) OUTSIDE_REFERENCE_WINDOW of None \<Rightarrow> 0 | Some n \<Rightarrow> n)
      = int (length ?out)" if "distinct (map fst found)" "alist_get found OUTSIDE_REFERENCE_WINDOW 0 = length ?out" for counts found
    using that by (cases "map_of found OUTSIDE_REFERENCE_WINDOW") (simp_all add: detail_reason_of alist_get_map_of del: map_of_eq_None_iff)
  have base: "distinct (map fst ?base)" "alist_get ?base OUTSIDE_REFERENCE_WINDOW 0 = length ?out"
    by (auto simp: alist_get_map_of)
  have "(case detail_reason (ca_detail ca) OUTSIDE_REFERENCE_WINDOW of None \<Rightarrow> 0 | Some n \<Rightarrow> n) = int (length ?out)"
  proof (cases "?in = [] \<or> oebb = []")
    case True
    have "ca_detail ca = detail_of p (cell_counts 0 0 (length ?in) (length oebb) 0 (length ?out)) ?base"
      using compute_alignment_one_sided [OF w True, of rt] assms by auto
    then show ?thesis using stored [OF base] by simp
  next
    case False
    then have ne: "?in \<noteq> []" "oebb \<noteq> []" by auto
    obtain c counts where c: "compare rt ?in oebb p = Inr c"
      "ca_detail ca = detail_of p counts (add_counts ?base (reason_counts c))"
      using compute_alignment_both [OF assms w ne] by metis
    have "alist_get (add_counts ?base (reason_counts c)) OUTSIDE_REFERENCE_WINDOW 0 = length ?out"
      using add_counts_get [OF reason_counts_keys(1)] reason_counts_no_outside [OF c(1)] base(2) by simp
    then show ?thesis using stored [OF add_counts_keys [OF base(1)]] c(2) by simp
  qed
  then show ?thesis using w outside_span_antimono by (auto simp: reference_window_filter)
qed

theorem reference_window_splits_witness:
  "\<exists>ca. compute_alignment ascii_runtime [bern_zurich ''a'' ''7'' 10] [bern_zurich ''x'' ''7'' 60] COVERAGE_ALIGNMENT = Inr ca
     \<and> detail_reason (ca_detail ca) OUTSIDE_REFERENCE_WINDOW \<noteq> None"
proof -
  let ?v = "[bern_zurich ''a'' ''7'' 10]" and ?o = "[bern_zurich ''x'' ''7'' 60]" and ?p = COVERAGE_ALIGNMENT
  have "\<forall>j \<in> set ?v \<union> set ?o. valid_journey j" by code_simp
  then obtain ca where ca: "compute_alignment ascii_runtime ?v ?o ?p = Inr ca" by (rule compute_alignment_returns)
  have "length (snd (reference_window ?v ?o (departure_tolerance_s ?p))) = 1" by code_simp
  with reference_window_splits [OF ca] ca show ?thesis by (auto split: option.splits)
qed

text \<open>The lines under a tier never fail to format, whatever JSON is stored: no dictionary gives no line;
  a dictionary gives the counts' line and then one line for each reason that has a sentence and a
  positive count, none twice.\<close>

theorem explain_cell_lines:
  "case as_dict detail of
     None \<Rightarrow> explain_cell detail left right = Some []
   | Some d \<Rightarrow> (\<exists>first codes.
         explain_cell detail left right = Some (first # map (\<lambda>c. the (summary_sentence c (the (as_int (map_of (dict_or_empty (map_of d ''reasons'')) c))) left right)) codes)
         \<and> starts_with first (left @ '' vs '' @ right @ '': '') \<and> distinct codes
         \<and> set codes = {c. \<exists>n > 0. as_int (map_of (dict_or_empty (map_of d ''reasons'')) c) = Some n
                \<and> summary_sentence c n left right \<noteq> Some []})"
proof (cases "as_dict detail")
  case None
  then show ?thesis by (simp add: explain_cell_def)
next
  case (Some d)
  let ?found = "dict_or_empty (map_of d ''reasons'')"
  let ?L = "explain_line ?found left right" and ?o = "explain_order ?found"
  let ?text = "\<lambda>c. the (summary_sentence c (the (as_int (map_of ?found c))) left right)"
  define codes where "codes = filter (\<lambda>c. ?L c \<noteq> []) ?o"
  have "concat (map ?L ?o) = map (\<lambda>c. Some (?text c)) codes"
    unfolding codes_def using explain_line_cases [of ?found left right] by (intro explained_lines) fastforce
  moreover obtain first where "explain_cell detail left right = all_lines (Some (left @ '' vs '' @ right @ '': '' @ first) # concat (map ?L ?o))"
    using Some by (simp add: explain_cell_def Let_def)
  ultimately have "explain_cell detail left right = Some ((left @ '' vs '' @ right @ '': '' @ first) # map ?text codes)"
    by (simp add: all_lines_Some comp_def)
  moreover have "starts_with (left @ '' vs '' @ right @ '': '' @ first) (left @ '' vs '' @ right @ '': '')"
    using starts_with_append [of "left @ '' vs '' @ right @ '': ''" first] by simp
  moreover have "distinct codes" by (simp add: codes_def explain_order_perm)
  moreover have "set codes = {c. \<exists>n > 0. as_int (map_of ?found c) = Some n \<and> summary_sentence c n left right \<noteq> Some []}"
    using explain_listed [of ?found left right] by (auto simp: codes_def explain_order_perm)
  ultimately show ?thesis unfolding Some option.case by blast
qed

section \<open>Where the code and its sentences part\<close>

text \<open>
  The window also leaves out journeys before the reference's first boarding, which the cell then
  explains as journeys after its last connection.
\<close>

lemma early_journey_left_out:
  "reference_window [bern_zurich ''a'' ''7'' 10] [bern_zurich ''x'' ''7'' 60] 300 = ([], [bern_zurich ''a'' ''7'' 10])
   \<and> first_boarding (bern_zurich ''a'' ''7'' 10) = Some (sample_at 10) \<and> first_boarding (bern_zurich ''x'' ''7'' 60) = Some (sample_at 60)
   \<and> summary_sentence (code_text OUTSIDE_REFERENCE_WINDOW) 1 ''VIATOR'' ''OEBB'' \<noteq> None"
  by code_simp

end
