(* ===== verification/Sweep_Writer.thy ===== *)
theory Sweep_Writer
  imports Json_Values
begin

text \<open>
  The verify sweep's writer (\<open>app/network_coverage/verify_progress.py\<close>): a queue of answers, written
  to the database a few at a time in a transaction fenced on the run. The database is the tables the
  writer touches, one run row and the result rows; what a transaction does is chosen by the
  environment: it commits, fails without a trace, or commits while its caller sees an exception.
  Other processes may end the run or claim it between any two operations.
\<close>

section \<open>Rows and tables\<close>

definition SAVED_FIELDS :: "str list" where
  "SAVED_FIELDS = [''external_source'', ''external_ok'', ''external_num_connections'',
     ''external_best_duration_seconds'', ''external_best_transfers'', ''external_error'',
     ''external_verified_at'', ''external_journeys'', ''external_alignment_score'',
     ''external_alignment_tier'', ''external_alignment_detail'']"

definition FLUSH_EVERY_S :: real where "FLUSH_EVERY_S = 5"
definition FLUSH_EVERY_CELLS :: nat where "FLUSH_EVERY_CELLS = 25"
definition LOG_EVERY_CELLS :: int where "LOG_EVERY_CELLS = 500"

text \<open>A result row: its key and its attributes; \<open>getattr(row, name, None)\<close> is \<open>row_attr\<close>.\<close>

record result_row =
  rr_id :: str
  rr_attrs :: "(str \<times> json) list"

definition row_attr :: "result_row \<Rightarrow> str \<Rightarrow> json" where
  "row_attr row name = (case map_of (rr_attrs row) name of Some v \<Rightarrow> v | None \<Rightarrow> JNull)"

type_synonym answer = "str \<times> (str \<times> json) list"

definition saved_values :: "result_row \<Rightarrow> answer" where
  "saved_values row = (rr_id row, map (\<lambda>name. (name, row_attr row name)) SAVED_FIELDS)"

definition already_checked :: "result_row \<Rightarrow> bool" where
  "already_checked row = (row_attr row ''external_verified_at'' \<noteq> JNull)"

record run_row =
  run_status :: str
  run_claimed_by :: "str option"
  verify_total :: "int option"
  verify_done :: "int option"
  verify_done_at_start :: "int option"
  verify_started_at :: "instant option"
  verify_progress_at :: "instant option"

record database =
  db_runs :: "str \<rightharpoonup> run_row"
  db_results :: "str \<rightharpoonup> (str \<rightharpoonup> json)"

text \<open>
  The ORM bulk UPDATE by primary key: every listed field of each listed row; a key without a row
  changes nothing (where the ORM raises on it, the environment's transaction fails).
\<close>

definition update_row :: "(str \<rightharpoonup> (str \<rightharpoonup> json)) \<Rightarrow> answer \<Rightarrow> (str \<rightharpoonup> (str \<rightharpoonup> json))" where
  "update_row table a = (case table (fst a) of
      None \<Rightarrow> table | Some row \<Rightarrow> table(fst a \<mapsto> row ++ map_of (snd a)))"

definition update_rows :: "(str \<rightharpoonup> (str \<rightharpoonup> json)) \<Rightarrow> answer list \<Rightarrow> (str \<rightharpoonup> (str \<rightharpoonup> json))" where
  "update_rows table rows = foldl update_row table rows"

section \<open>The writer\<close>

record sweep_writer =
  sw_run_id :: str
  sw_executor_id :: "str option"
  sw_flush_every_s :: real
  sw_flush_every_cells :: nat
  sw_pending :: "answer list"
  sw_total :: int
  sw_saved :: int
  sw_last_flush :: real
  sw_last_logged :: int
  sw_stopped :: bool

definition new_writer :: "str \<Rightarrow> str option \<Rightarrow> real option \<Rightarrow> nat option \<Rightarrow> real \<Rightarrow> sweep_writer" where
  "new_writer run_id executor_id every_s every_cells now =
     \<lparr>sw_run_id = run_id, sw_executor_id = executor_id,
      sw_flush_every_s = (case every_s of None \<Rightarrow> FLUSH_EVERY_S | Some s \<Rightarrow> s),
      sw_flush_every_cells = (case every_cells of None \<Rightarrow> FLUSH_EVERY_CELLS | Some n \<Rightarrow> n),
      sw_pending = [], sw_total = 0, sw_saved = 0, sw_last_flush = now, sw_last_logged = 0, sw_stopped = False\<rparr>"

text \<open>What the database does with one transaction.\<close>

datatype outcome = Commits | Fails | Commits_unseen

record environment =
  env_outcome :: outcome
  env_now :: real
  env_later :: real
  env_db_now :: instant

definition fence :: "sweep_writer \<Rightarrow> database \<Rightarrow> bool" where
  "fence w db = (case db_runs db (sw_run_id w) of
      None \<Rightarrow> False
    | Some run \<Rightarrow> run_status run = ''running''
        \<and> (case sw_executor_id w of None \<Rightarrow> True | Some e \<Rightarrow> run_claimed_by run = Some e))"

definition stop_writer :: "sweep_writer \<Rightarrow> sweep_writer" where
  "stop_writer w = w\<lparr>sw_stopped := True, sw_pending := []\<rparr>"

definition committed :: "sweep_writer \<Rightarrow> database \<Rightarrow> (run_row \<Rightarrow> run_row) \<Rightarrow> answer list \<Rightarrow> database" where
  "committed w db run_values rows =
     db\<lparr>db_runs := (db_runs db)(sw_run_id w := map_option run_values (db_runs db (sw_run_id w))),
        db_results := update_rows (db_results db) rows\<rparr>"

definition write_txn ::
  "environment \<Rightarrow> sweep_writer \<Rightarrow> database \<Rightarrow> (run_row \<Rightarrow> run_row) \<Rightarrow> answer list \<Rightarrow> sweep_writer \<times> database \<times> bool" where
  "write_txn env w db run_values rows =
     (if env_outcome env = Fails then (w, db, False)
      else if \<not> fence w db then (stop_writer w, db, False)
      else (w, committed w db run_values rows, env_outcome env = Commits))"

definition start_values :: "environment \<Rightarrow> int \<Rightarrow> int \<Rightarrow> run_row \<Rightarrow> run_row" where
  "start_values env tot already run =
     run\<lparr>verify_total := Some tot, verify_done := Some already, verify_done_at_start := Some already,
         verify_started_at := Some (env_db_now env), verify_progress_at := Some (env_db_now env)\<rparr>"

definition progress_values :: "environment \<Rightarrow> int \<Rightarrow> run_row \<Rightarrow> run_row" where
  "progress_values env reached run = run\<lparr>verify_done := Some reached, verify_progress_at := Some (env_db_now env)\<rparr>"

definition start_sweep :: "environment \<Rightarrow> int \<Rightarrow> int \<Rightarrow> sweep_writer \<Rightarrow> database \<Rightarrow> sweep_writer \<times> database \<times> bool" where
  "start_sweep env tot already w db =
     write_txn env (w\<lparr>sw_total := tot, sw_saved := already, sw_last_logged := already, sw_last_flush := env_now env\<rparr>) db
       (start_values env tot already) []"

definition log_progress :: "sweep_writer \<Rightarrow> sweep_writer" where
  "log_progress w =
     (let finished = (sw_saved w \<ge> sw_total w \<and> sw_total w > sw_last_logged w)
      in if sw_saved w - sw_last_logged w < LOG_EVERY_CELLS \<and> \<not> finished then w
         else w\<lparr>sw_last_logged := sw_saved w\<rparr>)"

definition flush :: "environment \<Rightarrow> sweep_writer \<Rightarrow> database \<Rightarrow> sweep_writer \<times> database \<times> bool" where
  "flush env w db =
     (if sw_stopped w then (w, db, False)
      else (let rows = sw_pending w; reached = sw_saved w + int (length rows);
                (w1, db1, written) = write_txn env w db (progress_values env reached) rows;
                w2 = w1\<lparr>sw_last_flush := env_later env\<rparr>
            in if written then (log_progress (w2\<lparr>sw_saved := reached, sw_pending := []\<rparr>), db1, True)
               else (w2, db1, False)))"

definition cell_checked :: "environment \<Rightarrow> result_row \<Rightarrow> sweep_writer \<Rightarrow> database \<Rightarrow> sweep_writer \<times> database" where
  "cell_checked env row w db =
     (if sw_stopped w then (w, db)
      else (let w1 = w\<lparr>sw_pending := sw_pending w @ [saved_values row]\<rparr>;
                due = (env_now env - sw_last_flush w1 \<ge> sw_flush_every_s w1)
            in if due \<or> length (sw_pending w1) \<ge> sw_flush_every_cells w1
               then (let (w2, db2, _) = flush env w1 db in (w2, db2))
               else (w1, db)))"

section \<open>The contract of a fenced transaction\<close>

text \<open>An answer is stored when the table has its row with all its fields.\<close>

definition stored :: "database \<Rightarrow> answer \<Rightarrow> bool" where
  "stored db a = (\<exists>row. db_results db (fst a) = Some row \<and> (\<forall>f \<in> set (map fst (snd a)). row f = map_of (snd a) f))"

definition has_row :: "database \<Rightarrow> str \<Rightarrow> bool" where
  "has_row db i = (db_results db i \<noteq> None)"

text \<open>
  What the writer relies on: a transaction of a run that is not held changes nothing; one that
  reports success was held and stored its answers; whatever it reports, it keeps the rows of the
  table and every answer of another row, and what it changed, it changed whole.
\<close>

locale fenced_transaction =
  fixes txn :: "'e \<Rightarrow> 'w \<Rightarrow> 'd \<Rightarrow> 'u \<Rightarrow> (str \<times> 'v) list \<Rightarrow> 'w \<times> 'd \<times> bool"
    and held :: "'w \<Rightarrow> 'd \<Rightarrow> bool" and has :: "'d \<Rightarrow> (str \<times> 'v) \<Rightarrow> bool" and row_in :: "'d \<Rightarrow> str \<Rightarrow> bool"
  assumes unheld: "txn e w d u rows = (w', d', b) \<Longrightarrow> \<not> held w d \<Longrightarrow> d' = d \<and> \<not> b"
    and success: "txn e w d u rows = (w', d', True) \<Longrightarrow> distinct (map fst rows) \<Longrightarrow> \<forall>a \<in> set rows. row_in d (fst a) \<Longrightarrow>
          \<forall>a \<in> set rows. has d' a"
    and atomic: "txn e w d u rows = (w', d', b) \<Longrightarrow> distinct (map fst rows) \<Longrightarrow> \<forall>a \<in> set rows. row_in d (fst a) \<Longrightarrow>
          d' = d \<or> (\<forall>a \<in> set rows. has d' a)"
    and others: "txn e w d u rows = (w', d', b) \<Longrightarrow> fst a \<notin> fst ` set rows \<Longrightarrow> has d a \<Longrightarrow> has d' a"
    and keeps_rows: "txn e w d u rows = (w', d', b) \<Longrightarrow> row_in d' i = row_in d i"
begin

text \<open>A transaction on distinct rows never loses an answer that was stored, its own included.\<close>

lemma never_loses:
  assumes "txn e w d u rows = (w', d', b)" "distinct (map fst rows)" "\<forall>a \<in> set rows. row_in d (fst a)"
    and "has d a" "fst a \<in> fst ` set rows \<Longrightarrow> a \<in> set rows"
  shows "has d' a"
proof (cases "fst a \<in> fst ` set rows")
  case True
  then have "a \<in> set rows" by (rule assms(5))
  with atomic [OF assms(1-3)] assms(4) show ?thesis by blast
next
  case False
  from others [OF assms(1) this assms(4)] show ?thesis .
qed

lemma changed_held: "txn e w d u rows = (w', d', b) \<Longrightarrow> d' \<noteq> d \<Longrightarrow> held w d"
  using unheld by blast

lemma success_held: "txn e w d u rows = (w', d', True) \<Longrightarrow> held w d"
  using unheld by blast

end

lemma update_rows_other: "i \<notin> fst ` set rows \<Longrightarrow> update_rows t rows i = t i"
  unfolding update_rows_def
  by (induction rows arbitrary: t) (auto simp: update_row_def split: option.splits)

lemma update_rows_dom: "update_rows t rows i = None \<longleftrightarrow> t i = None"
proof -
  have "foldl update_row t rows i = None \<longleftrightarrow> t i = None"
    by (induction rows arbitrary: t) (auto simp: update_row_def split: option.splits)
  then show ?thesis by (simp add: update_rows_def)
qed

lemma update_rows_own:
  assumes "distinct (map fst rows)" "a \<in> set rows" "t (fst a) = Some row"
  shows "update_rows t rows (fst a) = Some (row ++ map_of (snd a))"
  using assms
proof (induction rows arbitrary: t)
  case (Cons r rows)
  show ?case
  proof (cases "r = a")
    case True
    then have "update_rows (update_row t a) rows (fst a) = update_row t a (fst a)"
      using Cons.prems(1) by (intro update_rows_other) auto
    with True Cons.prems(3) show ?thesis by (simp add: update_rows_def update_row_def)
  next
    case False
    with Cons.prems have "fst r \<noteq> fst a" "a \<in> set rows" by (auto simp: image_iff)
    moreover from this Cons.prems(3) have "update_row t r (fst a) = Some row"
      by (auto simp: update_row_def split: option.splits)
    ultimately show ?thesis using Cons by (simp add: update_rows_def)
  qed
qed simp

lemma committed_stores:
  assumes "distinct (map fst rows)" "a \<in> set rows" "has_row db (fst a)"
  shows "stored (committed w db u rows) a"
proof -
  obtain row where "db_results db (fst a) = Some row" using assms(3) by (auto simp: has_row_def)
  from update_rows_own [of rows a "db_results db", OF assms(1,2) this] show ?thesis
    by (auto simp: stored_def committed_def map_add_def dest: weak_map_of_SomeI split: option.splits)
qed

lemma committed_others: "fst a \<notin> fst ` set rows \<Longrightarrow> stored db a \<Longrightarrow> stored (committed w db u rows) a"
  by (simp add: stored_def committed_def update_rows_other)

lemma committed_rows: "has_row (committed w db u rows) i = has_row db i"
  by (simp add: has_row_def committed_def update_rows_dom)

interpretation txn: fenced_transaction write_txn fence stored has_row
proof unfold_locales
  fix e w d u rows w' d' b and a :: answer and i
  assume t: "write_txn e w d u rows = (w', d', b)"
  then have cases: "d' = d \<and> \<not> b \<or> fence w d \<and> d' = committed w d u rows"
    by (auto simp: write_txn_def split: if_splits)
  show "\<not> fence w d \<Longrightarrow> d' = d \<and> \<not> b" using cases by blast
  show "fst a \<notin> fst ` set rows \<Longrightarrow> stored d a \<Longrightarrow> stored d' a" using cases committed_others by blast
  show "has_row d' i = has_row d i" using cases committed_rows by blast
  assume "distinct (map fst rows)" "\<forall>a \<in> set rows. has_row d (fst a)"
  then show "d' = d \<or> (\<forall>a \<in> set rows. stored d' a)" using cases committed_stores by blast
next
  fix e w d u rows w' d'
  assume "write_txn e w d u rows = (w', d', True)" "distinct (map fst rows)" "\<forall>a \<in> set rows. has_row d (fst a)"
  then show "\<forall>a \<in> set rows. stored d' a" using committed_stores by (auto simp: write_txn_def split: if_splits)
qed

section \<open>A sweep as a state machine\<close>

text \<open>
  The states a sweep can reach: \<open>start\<close> succeeded, then any order of checked cells, flushes and
  changes of the run's status or holder by others. The third component remembers the answers given
  to \<open>cell_checked\<close>; a sweep asks about each cell once.
\<close>

definition ownership_change :: "database \<Rightarrow> database \<Rightarrow> bool" where
  "ownership_change db db' = (db_results db' = db_results db \<and> (\<forall>i.
     (db_runs db i = None \<longleftrightarrow> db_runs db' i = None)
     \<and> (\<forall>r r'. db_runs db i = Some r \<longrightarrow> db_runs db' i = Some r' \<longrightarrow>
          r' = r\<lparr>run_status := run_status r', run_claimed_by := run_claimed_by r'\<rparr>)))"

inductive sweep :: "int \<Rightarrow> int \<Rightarrow> sweep_writer \<times> database \<times> answer list \<Rightarrow> bool" for already tot where
  begins: "sw_stopped w = False \<Longrightarrow> sw_pending w = [] \<Longrightarrow> start_sweep env tot already w db = (w', db', True) \<Longrightarrow>
     sweep already tot (w', db', [])"
| checks: "sweep already tot (w, db, cs) \<Longrightarrow> has_row db (rr_id row) \<Longrightarrow> rr_id row \<notin> fst ` set cs \<Longrightarrow>
     cell_checked env row w db = (w', db') \<Longrightarrow> sweep already tot (w', db', cs @ [saved_values row])"
| flushes: "sweep already tot (w, db, cs) \<Longrightarrow> flush env w db = (w', db', b) \<Longrightarrow> sweep already tot (w', db', cs)"
| changes_hands: "sweep already tot (w, db, cs) \<Longrightarrow> ownership_change db db' \<Longrightarrow> sweep already tot (w, db', cs)"

definition sweep_inv :: "int \<Rightarrow> int \<Rightarrow> sweep_writer \<times> database \<times> answer list \<Rightarrow> bool" where
  "sweep_inv already tot = (\<lambda>(w, db, cs). distinct (map fst cs) \<and> (\<forall>a \<in> set cs. has_row db (fst a)) \<and> sw_total w = tot
     \<and> (\<exists>n m. n \<le> m \<and> m \<le> length cs \<and> sw_saved w = already + int n \<and> (\<forall>a \<in> set (take m cs). stored db a)
          \<and> (\<exists>run. db_runs db (sw_run_id w) = Some run \<and> verify_done run = Some (already + int m) \<and> verify_total run = Some tot)
          \<and> (sw_stopped w \<or> sw_pending w = drop n cs)))"

lemma sweep_invI:
  assumes "distinct (map fst cs)" "\<And>a. a \<in> set cs \<Longrightarrow> has_row db (fst a)" "sw_total w = tot"
    "n \<le> m" "m \<le> length cs" "sw_saved w = already + int n" "\<And>a. a \<in> set (take m cs) \<Longrightarrow> stored db a"
    "db_runs db (sw_run_id w) = Some run" "verify_done run = Some (already + int m)" "verify_total run = Some tot"
    "sw_stopped w \<or> sw_pending w = drop n cs"
  shows "sweep_inv already tot (w, db, cs)"
  unfolding sweep_inv_def using assms by blast

lemma log_progress_keeps [simp]:
  "sw_saved (log_progress w) = sw_saved w" "sw_pending (log_progress w) = sw_pending w"
  "sw_stopped (log_progress w) = sw_stopped w" "sw_run_id (log_progress w) = sw_run_id w"
  "sw_total (log_progress w) = sw_total w" "sw_executor_id (log_progress w) = sw_executor_id w"
  "sw_flush_every_cells (log_progress w) = sw_flush_every_cells w"
  by (simp_all add: log_progress_def Let_def)

lemma write_txn_cases:
  assumes "write_txn env w db u rows = (w', db', b)"
  obtains (failed) "w' = w" "db' = db" "\<not> b"
  | (fenced) "\<not> fence w db" "w' = stop_writer w" "db' = db" "\<not> b"
  | (wrote) "fence w db" "w' = w" "db' = committed w db u rows"
proof (cases "env_outcome env = Fails")
  case True
  then have "w' = w" "db' = db" "\<not> b" using assms by (simp_all add: write_txn_def)
  then show ?thesis by (rule failed)
next
  case ok: False
  show ?thesis
  proof (cases "fence w db")
    case True
    then have "w' = w" "db' = committed w db u rows" using assms ok by (auto simp: write_txn_def)
    with True show ?thesis by (rule wrote)
  next
    case False
    then have "w' = stop_writer w" "db' = db" "\<not> b" using assms ok by (simp_all add: write_txn_def)
    with False show ?thesis by (rule fenced)
  qed
qed

lemma start_inv:
  assumes "sw_stopped w = False" "sw_pending w = []" "start_sweep env tot already w db = (w', db', True)"
  shows "sweep_inv already tot (w', db', [])"
proof -
  let ?w = "w\<lparr>sw_total := tot, sw_saved := already, sw_last_logged := already, sw_last_flush := env_now env\<rparr>"
  have t: "write_txn env ?w db (start_values env tot already) [] = (w', db', True)" using assms(3) by (simp add: start_sweep_def)
  then have "fence ?w db" "w' = ?w" "db' = committed ?w db (start_values env tot already) []"
    by (auto simp: write_txn_def split: if_splits)
  then show ?thesis using assms(2)
    by (auto simp: sweep_inv_def fence_def committed_def start_values_def split: option.splits)
qed

lemma queue_inv:
  assumes "sweep_inv already tot (w, db, cs)" "\<not> sw_stopped w" "has_row db (fst a)" "fst a \<notin> fst ` set cs"
  shows "sweep_inv already tot (w\<lparr>sw_pending := sw_pending w @ [a]\<rparr>, db, cs @ [a])"
proof -
  from assms(1) obtain n m run where i: "distinct (map fst cs)" "\<forall>a \<in> set cs. has_row db (fst a)" "sw_total w = tot"
    "n \<le> m" "m \<le> length cs" "sw_saved w = already + int n" "\<forall>a \<in> set (take m cs). stored db a"
    "db_runs db (sw_run_id w) = Some run" "verify_done run = Some (already + int m)" "verify_total run = Some tot"
    "sw_stopped w \<or> sw_pending w = drop n cs"
    by (auto simp: sweep_inv_def)
  show ?thesis
    by (rule sweep_invI [of _ _ _ _ n m _ run]) (use i assms(2-4) in auto)
qed

lemma flush_inv:
  assumes "sweep_inv already tot (w, db, cs)" "flush env w db = (w', db', b)"
  shows "sweep_inv already tot (w', db', cs)"
proof (cases "sw_stopped w")
  case True
  with assms show ?thesis by (simp add: flush_def)
next
  case False
  from assms(1) obtain n m run where i: "distinct (map fst cs)" "\<forall>a \<in> set cs. has_row db (fst a)" "sw_total w = tot"
    "n \<le> m" "m \<le> length cs" "sw_saved w = already + int n" "\<forall>a \<in> set (take m cs). stored db a"
    "db_runs db (sw_run_id w) = Some run" "verify_done run = Some (already + int m)" "verify_total run = Some tot"
    "sw_pending w = drop n cs"
    using False by (auto simp: sweep_inv_def)
  let ?u = "progress_values env (sw_saved w + int (length (drop n cs)))"
  obtain w1 db1 b1 where t: "write_txn env w db ?u (drop n cs) = (w1, db1, b1)" by (metis prod_cases3)
  have f: "w' = (if b1 then log_progress (w1\<lparr>sw_last_flush := env_later env, sw_saved := sw_saved w + int (length (drop n cs)), sw_pending := []\<rparr>)
         else w1\<lparr>sw_last_flush := env_later env\<rparr>)" "db' = db1"
    using assms(2) False t i(11) by (auto simp: flush_def Let_def split: if_splits)
  from t show ?thesis
  proof (cases rule: write_txn_cases)
    case failed
    show ?thesis by (rule sweep_invI [of _ _ _ _ n m _ run]) (use i f failed in auto)
  next
    case fenced
    show ?thesis by (rule sweep_invI [of _ _ _ _ n m _ run]) (use i f fenced in \<open>auto simp: stop_writer_def\<close>)
  next
    case wrote
    let ?run = "?u run" and ?N = "if b1 then length cs else n"
    have all: "stored db1 a" if "a \<in> set cs" for a
    proof (cases "a \<in> set (drop n cs)")
      case True
      have "distinct (map fst (drop n cs))" using i(1) by (metis distinct_drop drop_map)
      with True i(2) that show ?thesis unfolding wrote(3) by (intro committed_stores) auto
    next
      case False
      then have "a \<in> set (take n cs)" using that by (metis Un_iff append_take_drop_id set_append)
      moreover from this have "stored db a" using i(4,7) set_take_subset_set_take [of n m cs] by auto
      moreover have "fst ` set (take n cs) \<inter> fst ` set (drop n cs) = {}"
        using i(1) by (metis append_take_drop_id distinct_append map_append set_map)
      ultimately show ?thesis unfolding wrote(3) by (intro committed_others) auto
    qed
    have len: "sw_saved w + int (length (drop n cs)) = already + int (length cs)" using i(4,5,6) by simp
    show ?thesis
    proof (rule sweep_invI [of _ _ _ _ ?N "length cs" _ ?run])
      show "has_row db' (fst a)" if "a \<in> set cs" for a using i(2) that f(2) wrote(3) committed_rows by auto
      show "db_runs db' (sw_run_id w') = Some ?run" using f wrote i(8) by (simp add: committed_def)
      show "verify_done ?run = Some (already + int (length cs))" using len by (simp add: progress_values_def)
      show "sw_saved w' = already + int ?N" using f len wrote(2) i(6) by simp
      show "sw_stopped w' \<or> sw_pending w' = drop ?N cs" using f i(11) wrote(2) by simp
    qed (use i f wrote all in \<open>auto simp: progress_values_def\<close>)
  qed
qed

lemma cell_checked_inv:
  assumes "sweep_inv already tot (w, db, cs)" "has_row db (rr_id row)" "rr_id row \<notin> fst ` set cs"
    "cell_checked env row w db = (w', db')"
  shows "sweep_inv already tot (w', db', cs @ [saved_values row])"
proof (cases "sw_stopped w")
  case True
  from assms(1) obtain n m run where i: "distinct (map fst cs)" "\<forall>a \<in> set cs. has_row db (fst a)" "sw_total w = tot"
    "n \<le> m" "m \<le> length cs" "sw_saved w = already + int n" "\<forall>a \<in> set (take m cs). stored db a"
    "db_runs db (sw_run_id w) = Some run" "verify_done run = Some (already + int m)" "verify_total run = Some tot"
    by (auto simp: sweep_inv_def)
  have "w' = w" "db' = db" using True assms(4) by (auto simp: cell_checked_def)
  then show ?thesis
    by (intro sweep_invI [of _ _ _ _ n m _ run]) (use i assms(2,3) True in \<open>auto simp: saved_values_def\<close>)
next
  case False
  have q: "sweep_inv already tot (w\<lparr>sw_pending := sw_pending w @ [saved_values row]\<rparr>, db, cs @ [saved_values row])"
    using queue_inv [OF assms(1) False, of "saved_values row"] assms(2,3) by (simp add: saved_values_def)
  show ?thesis using assms(4) False flush_inv [OF q] q
    by (auto simp: cell_checked_def Let_def split: if_splits prod.splits)
qed

lemma ownership_inv:
  assumes "sweep_inv already tot (w, db, cs)" "ownership_change db db'"
  shows "sweep_inv already tot (w, db', cs)"
proof -
  have same: "has_row db' = has_row db" "stored db' = stored db"
    using assms(2) by (auto simp: ownership_change_def has_row_def stored_def fun_eq_iff)
  have "\<exists>r'. db_runs db' i = Some r' \<and> verify_done r' = verify_done r \<and> verify_total r' = verify_total r"
    if "db_runs db i = Some r" for i r
  proof -
    have "(db_runs db i = None) = (db_runs db' i = None)" using assms(2) unfolding ownership_change_def by blast
    with that have "db_runs db' i \<noteq> None" by simp
    then obtain r' where r': "db_runs db' i = Some r'" by blast
    then have "r' = r\<lparr>run_status := run_status r', run_claimed_by := run_claimed_by r'\<rparr>"
      using assms(2) that unfolding ownership_change_def by blast
    then have "verify_done r' = verify_done r" "verify_total r' = verify_total r"
      by (auto dest: arg_cong [of _ _ verify_done] arg_cong [of _ _ verify_total])
    with r' show ?thesis by blast
  qed
  then show ?thesis using assms(1) unfolding sweep_inv_def prod.case same by fastforce
qed

lemma sweep_invariant: "sweep already tot s \<Longrightarrow> sweep_inv already tot s"
proof (induction rule: sweep.induct)
  case (begins w env db w' db')
  then show ?case by (rule start_inv)
next
  case (checks w db cs row env w' db')
  show ?case by (rule cell_checked_inv [OF checks.IH checks.hyps(2-4)])
next
  case (flushes w db cs env w' db' b)
  show ?case by (rule flush_inv [OF flushes.IH flushes.hyps(2)])
next
  case (changes_hands w db cs db')
  show ?case by (rule ownership_inv [OF changes_hands.IH changes_hands.hyps(2)])
qed

section \<open>Properties\<close>

lemma flush_cases:
  assumes "flush env w db = (w', db', b)" "\<not> sw_stopped w"
  obtains w1 b1 where "write_txn env w db (progress_values env (sw_saved w + int (length (sw_pending w)))) (sw_pending w) = (w1, db', b1)"
    "b = b1" "w' = (if b1 then log_progress (w1\<lparr>sw_last_flush := env_later env, sw_saved := sw_saved w + int (length (sw_pending w)), sw_pending := []\<rparr>)
       else w1\<lparr>sw_last_flush := env_later env\<rparr>)"
proof -
  obtain w1 db1 b1 where "write_txn env w db (progress_values env (sw_saved w + int (length (sw_pending w)))) (sw_pending w) = (w1, db1, b1)"
    by (metis prod_cases3)
  with assms that show ?thesis by (auto simp: flush_def Let_def split: if_splits)
qed

lemma flush_changes_held: "flush env w db = (w', db', b) \<Longrightarrow> db' \<noteq> db \<Longrightarrow> fence w db"
proof (cases "sw_stopped w")
  case True
  then show "flush env w db = (w', db', b) \<Longrightarrow> db' \<noteq> db \<Longrightarrow> fence w db" by (simp add: flush_def)
next
  case False
  assume "flush env w db = (w', db', b)" "db' \<noteq> db"
  then show "fence w db" by (metis False flush_cases txn.changed_held)
qed

lemma fence_same:
  "sw_run_id w' = sw_run_id w \<Longrightarrow> sw_executor_id w' = sw_executor_id w \<Longrightarrow> fence w' db = fence w db"
  by (simp only: fence_def)

lemma fence_updates [simp]:
  "fence (w\<lparr>sw_pending := q\<rparr>) db = fence w db"
  "fence (w\<lparr>sw_total := t, sw_saved := a, sw_last_logged := l, sw_last_flush := f\<rparr>) db = fence w db"
  by (rule fence_same; simp)+

text \<open>A run of one cell, for the applications below.\<close>

definition sample_database :: database where
  "sample_database = \<lparr>db_runs = [''r'' \<mapsto> \<lparr>run_status = ''running'', run_claimed_by = Some ''e'', verify_total = None,
       verify_done = None, verify_done_at_start = None, verify_started_at = None, verify_progress_at = None\<rparr>],
     db_results = [''c'' \<mapsto> Map.empty]\<rparr>"

definition sample_env :: environment where
  "sample_env = \<lparr>env_outcome = Commits, env_now = 0, env_later = 0, env_db_now = 0\<rparr>"

definition sample_row :: result_row where
  "sample_row = \<lparr>rr_id = ''c'', rr_attrs = [(''external_ok'', JBool True)]\<rparr>"

lemma sample_sweep:
  obtains w db where "sweep 0 1 (w, db, [saved_values sample_row])" "\<not> sw_stopped w" "fence w db"
proof -
  let ?w = "new_writer ''r'' (Some ''e'') None None 0"
  obtain w1 db1 where s: "start_sweep sample_env 1 0 ?w sample_database = (w1, db1, True)"
    "\<not> sw_stopped w1" "fence w1 db1" "has_row db1 ''c''" "sw_flush_every_cells w1 = 25" "sw_pending w1 = []"
    "sw_last_flush w1 = 0" "sw_flush_every_s w1 = 5"
    by (simp add: start_sweep_def write_txn_def fence_def sample_database_def new_writer_def sample_env_def
        committed_def update_rows_def start_values_def has_row_def FLUSH_EVERY_CELLS_def FLUSH_EVERY_S_def)
  have b: "sweep 0 1 (w1, db1, [])" by (rule sweep.begins [OF _ _ s(1)]) (simp_all add: new_writer_def)
  have c: "cell_checked sample_env sample_row w1 db1 = (w1\<lparr>sw_pending := [saved_values sample_row]\<rparr>, db1)"
    using s by (simp add: cell_checked_def Let_def sample_env_def)
  have "sweep 0 1 (w1\<lparr>sw_pending := [saved_values sample_row]\<rparr>, db1, [] @ [saved_values sample_row])"
    by (rule sweep.checks [OF b _ _ c]) (use s(4) in \<open>simp_all add: sample_row_def\<close>)
  moreover have "fence (w1\<lparr>sw_pending := [saved_values sample_row]\<rparr>) db1" using s(3) by simp
  ultimately show ?thesis using that [of "w1\<lparr>sw_pending := [saved_values sample_row]\<rparr>" db1] s(2) by simp
qed



text \<open>C8: one write that goes through saves the whole sweep so far: while the run is held, a flush whose
  transaction commits returns true, leaves nothing queued, has every answer given so far in the result
  rows and records their number.\<close>

theorem flush_saves_all:
  assumes "sweep already tot (w, db, cs)" "\<not> sw_stopped w" "fence w db" "env_outcome env = Commits"
  shows "\<exists>w' db' run. flush env w db = (w', db', True) \<and> sw_pending w' = [] \<and> sw_saved w' = already + int (length cs)
     \<and> (\<forall>a \<in> set cs. stored db' a) \<and> db_runs db' (sw_run_id w') = Some run
     \<and> verify_done run = Some (already + int (length cs)) \<and> verify_progress_at run = Some (env_db_now env)"
proof -
  obtain w' db' b where f: "flush env w db = (w', db', b)" by (metis prod_cases3)
  from f assms(2) obtain w1 b1 where w: "write_txn env w db (progress_values env (sw_saved w + int (length (sw_pending w)))) (sw_pending w) = (w1, db', b1)"
    "b = b1" "w' = (if b1 then log_progress (w1\<lparr>sw_last_flush := env_later env, sw_saved := sw_saved w + int (length (sw_pending w)), sw_pending := []\<rparr>)
       else w1\<lparr>sw_last_flush := env_later env\<rparr>)" by (rule flush_cases)
  have d: "b1" "w1 = w" "db' = committed w db (progress_values env (sw_saved w + int (length (sw_pending w)))) (sw_pending w)"
    using w(1) assms(3,4) by (auto simp: write_txn_def)
  obtain n run where i: "n \<le> length cs" "sw_saved w = already + int n" "sw_pending w = drop n cs"
    "db_runs db (sw_run_id w) = Some run"
    using sweep_invariant [OF assms(1)] assms(2) by (auto simp: sweep_inv_def)
  have len: "sw_saved w + int (length (sw_pending w)) = already + int (length cs)" using i by simp
  from sweep_invariant [OF sweep.flushes [OF assms(1) f]] obtain n' m' run' where
    j: "n' \<le> m'" "m' \<le> length cs" "sw_saved w' = already + int n'" "\<forall>a \<in> set (take m' cs). stored db' a"
    by (auto simp: sweep_inv_def)
  have saved: "sw_saved w' = already + int (length cs)" using w(3) d(1) len by simp
  with j have "m' = length cs" by simp
  then have "\<forall>a \<in> set cs. stored db' a" using j(4) by simp
  moreover have "db_runs db' (sw_run_id w') = Some (progress_values env (sw_saved w + int (length (sw_pending w))) run)"
    using w(3) d i(4) by (simp add: committed_def)
  ultimately show ?thesis using f w(2,3) d saved len by (simp add: progress_values_def)
qed

theorem flush_saves_all_witness:
  "\<exists>w db w' db'. flush sample_env w db = (w', db', True) \<and> stored db' (saved_values sample_row) \<and> sw_saved w' = 1"
proof (rule sample_sweep)
  fix w db assume "sweep 0 1 (w, db, [saved_values sample_row])" "\<not> sw_stopped w" "fence w db"
  from flush_saves_all [OF this, of sample_env] show ?thesis by (auto simp: sample_env_def)
qed


text \<open>The class comment says that every method does nothing once the writer is stopped. \<open>start\<close> does not
  check it: on a stopped writer, with the run running again in the writer's hands, it resets the counts
  and writes the run row.\<close>

theorem start_ignores_stopped:
  "\<exists>env w db w' db'. sw_stopped w \<and> start_sweep env 1 0 w db = (w', db', True) \<and> db' \<noteq> db \<and> sw_total w' \<noteq> sw_total w"
proof -
  let ?w = "(new_writer ''r'' (Some ''e'') None None 0)\<lparr>sw_stopped := True\<rparr>"
  let ?w1 = "?w\<lparr>sw_total := 1, sw_saved := 0, sw_last_logged := 0, sw_last_flush := 0\<rparr>"
  let ?db1 = "committed ?w1 sample_database (start_values sample_env 1 0) []"
  have "start_sweep sample_env 1 0 ?w sample_database = (?w1, ?db1, True)"
    by (simp add: start_sweep_def write_txn_def fence_def sample_database_def new_writer_def sample_env_def)
  moreover have "db_runs ?db1 ''r'' \<noteq> db_runs sample_database ''r''"
    by (simp add: committed_def sample_database_def new_writer_def start_values_def)
  then have "?db1 \<noteq> sample_database" by metis
  ultimately show ?thesis by (intro exI [of _ sample_env] exI [of _ ?w] exI [of _ sample_database] exI [of _ ?w1] exI [of _ ?db1])
      (simp add: new_writer_def)
qed

end
