(* ===== verification/Trip_Pages.thy ===== *)
theory Trip_Pages
  imports Trip_Dict Json_Values "HOL-Library.Sublist"
begin

text \<open>
  Anchor-time pagination: the shared bookkeeping of \<open>app/journey/trip_normalize.py\<close> and the two loops
  on it, \<open>fetch_plan_paginated\<close> of \<open>hafas_client.py\<close> and \<open>fetch_reference_paginated\<close> of
  \<open>ojp_client.py\<close>. The one-page calls are arguments (the network): what page number and anchor they
  are asked and what they answer. Instants stand for \<open>timestamp()\<close>, in microseconds.
\<close>

section \<open>One page's bookkeeping\<close>

definition max_dep_ts :: "clock \<Rightarrow> instant option \<Rightarrow> str option \<Rightarrow> instant option" where
  "max_dep_ts ck current dep =
     (if \<not> truthy dep then current
      else (case ck_fromisoformat ck (or_empty dep) of
          None \<Rightarrow> current
        | Some p \<Rightarrow>
            (let ts = (case p of Aware t \<Rightarrow> t | Naive t \<Rightarrow> ck_local ck t)
             in Some (case current of None \<Rightarrow> ts | Some c \<Rightarrow> max c ts))))"

fun dedup_batch_and_track_latest_dep ::
  "runtime \<Rightarrow> clock \<Rightarrow> canonical_journey list \<Rightarrow> str set \<Rightarrow> instant option \<Rightarrow> canonical_journey list \<times> str set \<times> instant option" where
  "dedup_batch_and_track_latest_dep rt ck [] seen latest = ([], seen, latest)"
| "dedup_batch_and_track_latest_dep rt ck (j # js) seen latest =
     (let fp = journey_transit_fingerprint rt ck j;
          latest' = max_dep_ts ck latest (map_option (\<lambda>t. isoformat (timetabled t)) (j_departure j))
      in if fp \<noteq> [] \<and> fp \<in> seen
         then dedup_batch_and_track_latest_dep rt ck js seen latest'
         else (let seen' = (if fp \<noteq> [] then insert fp seen else seen);
                   (new, seen'', latest'') = dedup_batch_and_track_latest_dep rt ck js seen' latest'
               in (j # new, seen'', latest'')))"

definition next_anchor_or_none :: "instant option \<Rightarrow> instant \<Rightarrow> instant option" where
  "next_anchor_or_none latest target_end = (case latest of
      None \<Rightarrow> None
    | Some t \<Rightarrow> if t \<ge> target_end then None else Some (t + 60000000))"

text \<open>\<open>journey.id.rsplit(":", 1)[0]\<close>: the part before the last colon, or all of it.\<close>

definition before_last_colon :: "str \<Rightarrow> str" where
  "before_last_colon s = (if CHR '':'' \<in> set s then rev (tl (dropWhile (\<lambda>c. c \<noteq> CHR '':'') (rev s))) else s)"

definition renumbered :: "canonical_journey list \<Rightarrow> canonical_journey list" where
  "renumbered js = map (\<lambda>(i, j). j\<lparr>j_id := before_last_colon (j_id j) @ '':'' @ show_nat i\<rparr>) (py_enumerate js)"

section \<open>The OJP loop\<close>

text \<open>One call raises an HTTP error or answers with a batch.\<close>

datatype page_answer = Http_error | Batch "canonical_journey list"

text \<open>
  The loop's result: the journeys with the milliseconds and the pages, or the error of a first page
  that failed. \<open>per_page\<close> is the latency the loop adds up, \<open>max(1, timeout_ms // 12)\<close>.
\<close>

datatype ojp_result = Raised | Returned "canonical_journey list" int nat

definition fetch_one_page ::
  "(nat \<Rightarrow> instant \<Rightarrow> page_answer) \<Rightarrow> instant \<Rightarrow> canonical_journey list \<Rightarrow> nat \<Rightarrow> (canonical_journey list \<times> bool) option" where
  "fetch_one_page fetch anchor partial page = (case fetch page anchor of
      Http_error \<Rightarrow> if partial = [] then None else Some ([], True)
    | Batch js \<Rightarrow> Some (js, False))"

fun ojp_loop ::
  "runtime \<Rightarrow> clock \<Rightarrow> (nat \<Rightarrow> instant \<Rightarrow> page_answer) \<Rightarrow> int \<Rightarrow> instant \<Rightarrow> nat \<Rightarrow> instant \<Rightarrow> canonical_journey list \<Rightarrow> str set \<Rightarrow> int \<Rightarrow> nat \<Rightarrow> ojp_result" where
  "ojp_loop rt ck fetch per_page target_end 0 anchor trips seen ms pages = Returned (renumbered trips) ms pages"
| "ojp_loop rt ck fetch per_page target_end (Suc left) anchor trips seen ms pages =
     (case fetch_one_page fetch anchor trips (pages + 1) of
        None \<Rightarrow> Raised
      | Some (batch, stop) \<Rightarrow>
          (let ms' = ms + per_page; finished = Returned (renumbered trips) ms' (pages + 1) in
           if stop \<or> batch = [] then finished
           else (let (new, seen', latest) = dedup_batch_and_track_latest_dep rt ck batch seen None in
             if new = [] then finished
             else (case next_anchor_or_none latest target_end of
                 None \<Rightarrow> Returned (renumbered (trips @ new)) ms' (pages + 1)
               | Some anchor' \<Rightarrow> ojp_loop rt ck fetch per_page target_end left anchor' (trips @ new) seen' ms' (pages + 1)))))"

definition fetch_reference_paginated ::
  "runtime \<Rightarrow> clock \<Rightarrow> (nat \<Rightarrow> instant \<Rightarrow> page_answer) \<Rightarrow> int \<Rightarrow> instant \<Rightarrow> int \<Rightarrow> nat \<Rightarrow> ojp_result" where
  "fetch_reference_paginated rt ck fetch timeout_ms depart window_s max_pages =
     ojp_loop rt ck fetch (max 1 (timeout_ms div 12)) (depart + window_s * 1000000) max_pages depart [] {} 0 0"

section \<open>The HAFAS loop\<close>

text \<open>
  A page of HAFAS never raises: it gives its diagnostic dictionary and a batch. \<open>elapsed\<close> is the
  milliseconds since the start at the moment the loop looks, once per page.
\<close>

type_synonym raw_dict = "(str \<times> json) list"

definition MIN_PAGE_BUDGET_MS :: int where "MIN_PAGE_BUDGET_MS = 500"

definition page_timeout_or_none :: "nat \<Rightarrow> int \<Rightarrow> int \<Rightarrow> int \<Rightarrow> int option" where
  "page_timeout_or_none pages elapsed_ms total_timeout_ms timeout_ms =
     (let remaining = total_timeout_ms - elapsed_ms
      in if pages \<noteq> 0 \<and> remaining < MIN_PAGE_BUDGET_MS then None
         else Some (max MIN_PAGE_BUDGET_MS (min timeout_ms remaining)))"

text \<open>\<open>str(raw.get("error") or ...)\<close> of a text or a missing entry, what \<open>fetch_plan\<close> puts there.\<close>

definition error_text :: "json option \<Rightarrow> str option" where
  "error_text v = (case v of Some (JStr s) \<Rightarrow> Some s | _ \<Rightarrow> None)"

definition page_error_or_none :: "raw_dict \<Rightarrow> canonical_journey list \<Rightarrow> str option" where
  "page_error_or_none raw trips =
     (if map_of raw ''status'' \<noteq> Some (JStr ''error'') \<or> trips = [] then None
      else or_text (error_text (map_of raw ''error'')) (Some ''HAFAS pagination failed mid-flight''))"

definition response_ms :: "raw_dict \<Rightarrow> int" where
  "response_ms raw = (case as_int (map_of raw ''response_ms'') of Some n \<Rightarrow> n | None \<Rightarrow> 0)"

definition paginated_raw :: "raw_dict option \<Rightarrow> int \<Rightarrow> nat \<Rightarrow> str option \<Rightarrow> str option \<Rightarrow> bool \<Rightarrow> raw_dict" where
  "paginated_raw first_raw total_ms pages page_error stopped has_trips =
     (let raw0 = (case first_raw of Some r \<Rightarrow> r | None \<Rightarrow> []);
          raw1 = alist_set ''response_ms'' (JInt total_ms) raw0;
          raw2 = alist_set ''status'' (if has_trips then JStr ''ok'' else alist_get raw1 ''status'' (JStr ''no_route'')) raw1;
          raw3 = (if pages > 1 then alist_set ''pages'' (JInt (int pages)) raw2 else raw2);
          raw4 = (if truthy page_error then alist_set ''error'' (JStr (or_empty page_error)) (alist_set ''partial'' (JBool True) raw3) else raw3)
      in if truthy stopped then alist_set ''pagination_stopped'' (JStr (or_empty stopped)) raw4 else raw4)"

record hafas_limits =
  hl_timeout_ms :: int
  hl_total_timeout_ms :: int

definition hafas_end ::
  "raw_dict option \<Rightarrow> int \<Rightarrow> nat \<Rightarrow> str option \<Rightarrow> str option \<Rightarrow> canonical_journey list \<Rightarrow> raw_dict \<times> canonical_journey list" where
  "hafas_end first_raw ms pages page_error stopped trips =
     (paginated_raw first_raw ms pages page_error stopped (trips \<noteq> []), renumbered trips)"

fun hafas_loop ::
  "runtime \<Rightarrow> clock \<Rightarrow> (nat \<Rightarrow> instant \<Rightarrow> int \<Rightarrow> raw_dict \<times> canonical_journey list) \<Rightarrow> (nat \<Rightarrow> int) \<Rightarrow> hafas_limits \<Rightarrow> instant \<Rightarrow> nat
     \<Rightarrow> instant \<Rightarrow> canonical_journey list \<Rightarrow> str set \<Rightarrow> int \<Rightarrow> nat \<Rightarrow> raw_dict option \<Rightarrow> raw_dict \<times> canonical_journey list" where
  "hafas_loop rt ck fetch elapsed limits target_end 0 anchor trips seen ms pages first_raw =
     hafas_end first_raw ms pages None None trips"
| "hafas_loop rt ck fetch elapsed limits target_end (Suc left) anchor trips seen ms pages first_raw =
     (case page_timeout_or_none pages (elapsed pages) (hl_total_timeout_ms limits) (hl_timeout_ms limits) of
        None \<Rightarrow> hafas_end first_raw ms pages None (Some ''budget'') trips
      | Some page_timeout \<Rightarrow>
          (let (raw, batch) = fetch (pages + 1) anchor page_timeout;
               ms' = ms + response_ms raw;
               first' = (case first_raw of None \<Rightarrow> Some raw | Some r \<Rightarrow> Some r)
           in if batch = [] then hafas_end first' ms' (pages + 1) (page_error_or_none raw trips) None trips
              else (let (new, seen', latest) = dedup_batch_and_track_latest_dep rt ck batch seen None in
                if new = [] then hafas_end first' ms' (pages + 1) None None trips
                else (case next_anchor_or_none latest target_end of
                    None \<Rightarrow> hafas_end first' ms' (pages + 1) None None (trips @ new)
                  | Some anchor' \<Rightarrow>
                      hafas_loop rt ck fetch elapsed limits target_end left anchor' (trips @ new) seen' ms' (pages + 1) first'))))"

definition fetch_plan_paginated ::
  "runtime \<Rightarrow> clock \<Rightarrow> (nat \<Rightarrow> instant \<Rightarrow> int \<Rightarrow> raw_dict \<times> canonical_journey list) \<Rightarrow> (nat \<Rightarrow> int) \<Rightarrow> hafas_limits \<Rightarrow> instant \<Rightarrow> int \<Rightarrow> nat
     \<Rightarrow> raw_dict \<times> canonical_journey list" where
  "fetch_plan_paginated rt ck fetch elapsed limits depart window_s max_pages =
     hafas_loop rt ck fetch elapsed limits (depart + window_s * 1000000) max_pages depart [] {} 0 0 None"

section \<open>Lemmas: one page\<close>

abbreviation "fps rt ck js \<equiv> map (journey_transit_fingerprint rt ck) js"

text \<open>What is kept of a page: no fingerprint twice, none already seen; walks are always kept.\<close>

lemma dedup_batch_keeps:
  assumes "dedup_batch_and_track_latest_dep rt ck js seen latest = (new, seen', latest')"
  shows "distinct (filter (\<lambda>f. f \<noteq> []) (fps rt ck new)) \<and> set (filter (\<lambda>f. f \<noteq> []) (fps rt ck new)) \<inter> seen = {}
     \<and> seen' = seen \<union> set (filter (\<lambda>f. f \<noteq> []) (fps rt ck js))
     \<and> set (fps rt ck js) - {[]} \<subseteq> seen \<union> set (fps rt ck new) \<and> subseq new js
     \<and> filter (\<lambda>j. journey_transit_fingerprint rt ck j = []) new = filter (\<lambda>j. journey_transit_fingerprint rt ck j = []) js"
  using assms
proof (induction js arbitrary: seen latest new)
  case (Cons j js)
  let ?fp = "journey_transit_fingerprint rt ck j"
  let ?l = "max_dep_ts ck latest (map_option (\<lambda>t. isoformat (timetabled t)) (j_departure j))"
  show ?case
  proof (cases "?fp \<noteq> [] \<and> ?fp \<in> seen")
    case True
    with Cons.prems have "dedup_batch_and_track_latest_dep rt ck js seen ?l = (new, seen', latest')" by (simp add: Let_def)
    from Cons.IH [OF this] True show ?thesis by auto
  next
    case False
    let ?s = "if ?fp \<noteq> [] then insert ?fp seen else seen"
    obtain rest where r: "dedup_batch_and_track_latest_dep rt ck js ?s ?l = (rest, seen', latest')" "new = j # rest"
      using Cons.prems False by (auto simp: Let_def split: prod.splits)
    from Cons.IH [OF r(1)] False r(2) show ?thesis by (auto split: if_splits)
  qed
qed auto

lemma dedup_batch_empty_new:
  "dedup_batch_and_track_latest_dep rt ck (j # js) {} latest = (new, seen', latest') \<Longrightarrow> new \<noteq> []"
  by (auto simp: Let_def split: prod.splits)

text \<open>The latest departure of a page, where the printed departures read back.\<close>

definition reads_back :: "clock \<Rightarrow> canonical_journey list \<Rightarrow> bool" where
  "reads_back ck js = (\<forall>j \<in> set js. \<forall>t. j_departure j = Some t \<longrightarrow>
     ck_fromisoformat ck (isoformat (timetabled t)) = Some (Aware (timetabled t)))"

definition departures :: "canonical_journey list \<Rightarrow> instant list" where
  "departures js = List.map_filter (\<lambda>j. map_option timetabled (j_departure j)) js"

lemma isoformat_truthy: "truthy (Some (isoformat t))"
  by (simp add: isoformat_def)

lemma dedup_batch_latest:
  assumes "dedup_batch_and_track_latest_dep rt ck js seen latest = (new, seen', latest')" "reads_back ck js"
  shows "latest' = foldl (\<lambda>m t. Some (case m of None \<Rightarrow> t | Some c \<Rightarrow> max c t)) latest (departures js)"
  using assms
proof (induction js arbitrary: seen latest new)
  case Nil
  then show ?case by (simp add: departures_def map_filter_def)
next
  case (Cons j js)
  let ?l = "max_dep_ts ck latest (map_option (\<lambda>t. isoformat (timetabled t)) (j_departure j))"
  have l: "?l = foldl (\<lambda>m t. Some (case m of None \<Rightarrow> t | Some c \<Rightarrow> max c t)) latest (departures [j])"
    using Cons.prems(2) isoformat_truthy
    by (auto simp: max_dep_ts_def departures_def map_filter_def reads_back_def split: option.splits)
  have d: "departures (j # js) = departures [j] @ departures js" by (simp add: departures_def map_filter_def)
  obtain s' new' where "dedup_batch_and_track_latest_dep rt ck js s' ?l = (new', seen', latest')"
    using Cons.prems(1) by (auto simp: Let_def split: if_splits prod.splits)
  from Cons.IH [OF this] Cons.prems(2) show ?case by (simp add: d l reads_back_def)
qed

lemma foldl_max:
  "foldl (\<lambda>m t. Some (case m of None \<Rightarrow> t | Some c \<Rightarrow> max c t)) (Some c) ts = Some (Max (insert c (set (ts :: int list))))"
proof (induction ts arbitrary: c)
  case (Cons t ts)
  have "Max (insert (max c t) (set ts)) = Max (insert c (insert t (set ts)))"
    by (cases "set ts = {}") (simp_all add: max.assoc)
  with Cons show ?case by simp
qed simp

lemma latest_max:
  "foldl (\<lambda>m t. Some (case m of None \<Rightarrow> t | Some c \<Rightarrow> max c t)) None ts = (if ts = [] then None else Some (Max (set (ts :: int list))))"
  by (cases ts) (simp_all add: foldl_max)

section \<open>Lemmas: ids of the union\<close>

lemma show_nat_no_colon: "CHR '':'' \<notin> set (show_nat n)"
proof
  assume "CHR '':'' \<in> set (show_nat n)"
  then have "is_decimal (CHR '':'')" using show_nat_decimal [of n] by (simp add: list_all_iff)
  then show False by (simp add: is_decimal_def)
qed

lemma append_colon_inj:
  assumes "a @ '':'' @ x = b @ '':'' @ y" "CHR '':'' \<notin> set x" "CHR '':'' \<notin> set y"
  shows "a = b \<and> x = y"
proof -
  have "rev x @ CHR '':'' # rev a = rev y @ CHR '':'' # rev b" using arg_cong [OF assms(1), of rev] by simp
  moreover have "takeWhile (\<lambda>c. c \<noteq> CHR '':'') (rev z @ CHR '':'' # r) = rev z" if "CHR '':'' \<notin> set z" for z r
    using that by (auto simp: takeWhile_append)
  ultimately have "rev x = rev y" using assms(2,3) by metis
  with assms(1) show ?thesis by simp
qed

lemma length_renumbered [simp]: "length (renumbered js) = length js"
  by (simp add: renumbered_def)

lemma renumbered_nth:
  "i < length js \<Longrightarrow> renumbered js ! i = (js ! i)\<lparr>j_id := before_last_colon (j_id (js ! i)) @ '':'' @ show_nat i\<rparr>"
  by (simp add: renumbered_def)

lemma renumbered_ids: "distinct (map j_id (renumbered js))"
proof -
  have "i = k" if "i < length js" "k < length js" "j_id (renumbered js ! i) = j_id (renumbered js ! k)" for i k
  proof -
    have "before_last_colon (j_id (js ! i)) @ '':'' @ show_nat i = before_last_colon (j_id (js ! k)) @ '':'' @ show_nat k"
      using that by (simp add: renumbered_nth)
    then have "show_nat i = show_nat k" using append_colon_inj show_nat_no_colon by blast
    then show ?thesis by (metis digits_value_show_nat)
  qed
  then show ?thesis by (auto simp: distinct_conv_nth)
qed

lemma fingerprint_id [simp]: "journey_transit_fingerprint rt ck (j\<lparr>j_id := i\<rparr>) = journey_transit_fingerprint rt ck j"
  by (simp add: journey_transit_fingerprint_def trip_legs_def)

lemma fps_renumbered [simp]: "fps rt ck (renumbered js) = fps rt ck js"
  by (intro nth_equalityI) (simp_all add: renumbered_nth)

section \<open>Lemmas: the loops\<close>

text \<open>What both loops keep: the union so far has no ride twice, and \<open>seen\<close> has its fingerprints.\<close>

definition union_inv :: "runtime \<Rightarrow> clock \<Rightarrow> canonical_journey list \<Rightarrow> str set \<Rightarrow> bool" where
  "union_inv rt ck trips seen = (distinct (filter (\<lambda>f. f \<noteq> []) (fps rt ck trips)) \<and> set (fps rt ck trips) - {[]} \<subseteq> seen)"

lemma subseq_subset: "subseq xs ys \<Longrightarrow> set xs \<subseteq> set ys"
  by (induction rule: list_emb.induct) auto

lemma union_inv_empty: "union_inv rt ck [] {}"
  by (simp add: union_inv_def)

lemma union_inv_page:
  assumes "union_inv rt ck trips seen" "dedup_batch_and_track_latest_dep rt ck batch seen latest = (new, seen', latest')"
  shows "union_inv rt ck (trips @ new) seen'"
proof -
  note d = dedup_batch_keeps [OF assms(2)]
  have "set (fps rt ck new) \<subseteq> set (fps rt ck batch)" using d subseq_subset by fastforce
  then show ?thesis using assms(1) d unfolding union_inv_def by auto
qed

lemma union_inv_renumbered:
  "union_inv rt ck trips seen \<Longrightarrow> distinct (filter (\<lambda>f. f \<noteq> []) (fps rt ck (renumbered trips)))"
  by (simp add: union_inv_def)

lemma ojp_loop_result:
  assumes "ojp_loop rt ck fetch per_page target_end left anchor trips seen ms pages = Returned js ms' pages'"
    and "union_inv rt ck trips seen"
  shows "distinct (map j_id js) \<and> distinct (filter (\<lambda>f. f \<noteq> []) (fps rt ck js)) \<and> pages \<le> pages' \<and> pages' \<le> pages + left
     \<and> ms' = ms + per_page * int (pages' - pages)"
  using assms
proof (induction left arbitrary: anchor trips seen ms pages)
  case 0
  then show ?case using renumbered_ids union_inv_renumbered by auto
next
  case (Suc left)
  obtain batch stop where p: "fetch_one_page fetch anchor trips (pages + 1) = Some (batch, stop)"
    using Suc.prems(1) by (auto split: option.splits)
  have ends: ?case if "js = renumbered ts" "ms' = ms + per_page" "pages' = pages + 1" "union_inv rt ck ts s" for ts s
    using that renumbered_ids union_inv_renumbered by auto
  show ?case
  proof (cases "stop \<or> batch = []")
    case True
    then show ?thesis using Suc.prems p by (intro ends [of trips seen]) (auto simp: Let_def)
  next
    case False
    obtain new seen' latest where d: "dedup_batch_and_track_latest_dep rt ck batch seen None = (new, seen', latest)" by (metis prod_cases3)
    note u = union_inv_page [OF Suc.prems(2) d]
    show ?thesis
    proof (cases "new = []")
      case True
      then show ?thesis using Suc.prems p d False by (intro ends [of trips seen]) (auto simp: Let_def)
    next
      case new: False
      show ?thesis
      proof (cases "next_anchor_or_none latest target_end")
        case None
        then show ?thesis using Suc.prems p d False new u by (intro ends [of "trips @ new" seen']) (auto simp: Let_def)
      next
        case (Some anchor')
        then have "ojp_loop rt ck fetch per_page target_end left anchor' (trips @ new) seen' (ms + per_page) (pages + 1) = Returned js ms' pages'"
          using Suc.prems(1) p d False new by (simp add: Let_def)
        from Suc.IH [OF this u] show ?thesis by (auto simp: of_nat_diff algebra_simps)
      qed
    qed
  qed
qed

text \<open>Only the first page's error is raised: from the second page on there is something to keep.\<close>

lemma ojp_loop_raised:
  assumes "trips \<noteq> []"
  shows "ojp_loop rt ck fetch per_page target_end left anchor trips seen ms pages \<noteq> Raised"
  using assms
proof (induction left arbitrary: anchor trips seen ms pages)
  case (Suc left)
  then show ?case
    by (auto simp: fetch_one_page_def Let_def split: option.splits page_answer.splits prod.splits)
qed simp

lemma page_timeout_budget:
  assumes "page_timeout_or_none pages elapsed_ms total_ms timeout_ms = Some t"
  shows "MIN_PAGE_BUDGET_MS \<le> t" "pages \<noteq> 0 \<Longrightarrow> elapsed_ms + t \<le> total_ms" "MIN_PAGE_BUDGET_MS \<le> timeout_ms \<Longrightarrow> t \<le> timeout_ms"
  using assms by (auto simp: page_timeout_or_none_def Let_def split: if_splits)

text \<open>With time left, the HAFAS loop collects what the OJP loop does on the same pages.\<close>

lemma hafas_ojp:
  assumes "\<And>k. page_timeout_or_none k (elapsed k) (hl_total_timeout_ms limits) (hl_timeout_ms limits) \<noteq> None"
    and "\<And>k a. fo k a = Batch (batches k a)" "\<And>k a t. fh k a t = (raws k a, batches k a)"
  shows "\<exists>ms' pages'. ojp_loop rt ck fo per_page target_end left anchor trips seen ms pages
     = Returned (snd (hafas_loop rt ck fh elapsed limits target_end left anchor trips seen hms pages first_raw)) ms' pages'"
proof (induction left arbitrary: anchor trips seen ms hms pages first_raw)
  case 0
  then show ?case by (simp add: hafas_end_def)
next
  case (Suc left)
  obtain t where t: "page_timeout_or_none pages (elapsed pages) (hl_total_timeout_ms limits) (hl_timeout_ms limits) = Some t"
    using assms(1) by blast
  obtain new seen' latest where d: "dedup_batch_and_track_latest_dep rt ck (batches (Suc pages) anchor) seen None = (new, seen', latest)"
    by (metis prod_cases3)
  show ?case
  proof (cases "batches (Suc pages) anchor = [] \<or> new = [] \<or> next_anchor_or_none latest target_end = None")
    case True
    then show ?thesis using t d by (auto simp: fetch_one_page_def assms(2,3) Let_def hafas_end_def)
  next
    case False
    then obtain a' where a: "next_anchor_or_none latest target_end = Some a'" by blast
    from Suc.IH [of a' "trips @ new" seen' "ms + per_page" "Suc pages"] show ?thesis
      using False t d a by (simp add: fetch_one_page_def assms(2,3) Let_def)
  qed
qed

definition hafas_ok :: "runtime \<Rightarrow> clock \<Rightarrow> raw_dict \<Rightarrow> canonical_journey list \<Rightarrow> bool" where
  "hafas_ok rt ck raw js = (distinct (map j_id js) \<and> distinct (filter (\<lambda>f. f \<noteq> []) (fps rt ck js))
     \<and> map_of raw ''status'' \<noteq> None \<and> (js = [] \<or> map_of raw ''status'' = Some (JStr ''ok'')))"

lemma hafas_end_ok:
  assumes "hafas_end fr ms pages err st trips = (raw, js)" "union_inv rt ck trips seen"
  shows "hafas_ok rt ck raw js"
proof -
  have raw: "raw = paginated_raw fr ms pages err st (trips \<noteq> [])" and js: "js = renumbered trips"
    using assms(1) by (auto simp: hafas_end_def)
  have "map_of (paginated_raw fr ms pages err st b) ''status'' \<noteq> None"
    "b \<Longrightarrow> map_of (paginated_raw fr ms pages err st b) ''status'' = Some (JStr ''ok'')" for b
    by (auto simp: paginated_raw_def Let_def)
  moreover have "js = [] \<longleftrightarrow> trips = []" unfolding js by (metis length_0_conv length_renumbered)
  ultimately show ?thesis
    using renumbered_ids union_inv_renumbered [OF assms(2)] raw js unfolding hafas_ok_def by auto
qed

lemma hafas_loop_ok:
  assumes "hafas_loop rt ck fetch elapsed limits target_end left anchor trips seen ms pages first_raw = (raw, js)"
    and "union_inv rt ck trips seen"
  shows "hafas_ok rt ck raw js"
  using assms
proof (induction left arbitrary: anchor trips seen ms pages first_raw)
  case 0
  then show ?case using hafas_end_ok by simp
next
  case (Suc left)
  note ends = hafas_end_ok [OF _ Suc.prems(2)]
  show ?case
  proof (cases "page_timeout_or_none pages (elapsed pages) (hl_total_timeout_ms limits) (hl_timeout_ms limits)")
    case None
    then show ?thesis using Suc.prems(1) ends by simp
  next
    case (Some t)
    obtain r batch where f: "fetch (Suc pages) anchor t = (r, batch)" by fastforce
    obtain new seen' latest where d: "dedup_batch_and_track_latest_dep rt ck batch seen None = (new, seen', latest)" by (metis prod_cases3)
    note u = union_inv_page [OF Suc.prems(2) d]
    show ?thesis
    proof (cases "batch = [] \<or> new = []")
      case True
      then show ?thesis using Suc.prems(1) Some f d ends by (auto simp: Let_def split: if_splits)
    next
      case False
      show ?thesis
      proof (cases "next_anchor_or_none latest target_end")
        case None
        then show ?thesis using Suc.prems(1) Some f d False hafas_end_ok [OF _ u] by (simp add: Let_def)
      next
        case a: (Some a')
        let ?first = "case first_raw of None \<Rightarrow> Some r | Some r0 \<Rightarrow> Some r0"
        have "hafas_loop rt ck fetch elapsed limits target_end left a' (trips @ new) seen' (ms + response_ms r) (Suc pages) ?first = (raw, js)"
          using Suc.prems(1) Some f d False a by (simp add: Let_def)
        from Suc.IH [OF this u] show ?thesis .
      qed
    qed
  qed
qed

end
