(* ===== verification/Page_Properties.thy ===== *)
theory Page_Properties
  imports Trip_Pages Sample_Journeys
begin

text \<open>
  Properties of the paginated reference fetches: what a union of pages is, when a fetch raises, that the
  anchor moves past every departure seen, the time budget of a page, and that both loops collect the
  same journeys from the same pages.
\<close>

section \<open>An example\<close>

definition page_journey :: "str \<Rightarrow> int \<Rightarrow> canonical_journey" where
  "page_journey n dep = (bern_zurich (''ojp:'' @ n) n dep)\<lparr>j_departure := Some (sample_at dep)\<rparr>"

text \<open>A clock that reads the one departure of the example, and pages with the same two trains.\<close>

definition page_clock :: clock where
  "page_clock = \<lparr>ck_fromisoformat = (\<lambda>s. if s = isoformat 600000000 then Some (Aware 600000000) else None), ck_local = (\<lambda>t. t)\<rparr>"

definition page_batch :: "canonical_journey list" where
  "page_batch = [page_journey ''7'' 10, page_journey ''9'' 10]"

section \<open>Properties\<close>


text \<open>Where the printed departures read back, the next page is asked from after every departure
  of this one, and only while all of them are before the end of the window.\<close>

theorem next_page_moves_on:
  assumes "reads_back ck batch" "dedup_batch_and_track_latest_dep rt ck batch seen None = (new, seen', latest)"
  shows "case next_anchor_or_none latest target_end of
     Some anchor \<Rightarrow> departures batch \<noteq> [] \<and> (\<forall>t \<in> set (departures batch). t < target_end \<and> t + 60000000 \<le> anchor)
        \<and> anchor - 60000000 \<in> set (departures batch)
   | None \<Rightarrow> departures batch = [] \<or> (\<exists>t \<in> set (departures batch). target_end \<le> t)"
proof -
  have l: "latest = (if departures batch = [] then None else Some (Max (set (departures batch))))"
    unfolding dedup_batch_latest [OF assms(2,1)] by (rule latest_max)
  show ?thesis
  proof (cases "departures batch = []")
    case True
    then show ?thesis by (simp add: l next_anchor_or_none_def)
  next
    case False
    then have m: "Max (set (departures batch)) \<in> set (departures batch)" "\<forall>t \<in> set (departures batch). t \<le> Max (set (departures batch))"
      by simp_all
    show ?thesis
    proof (cases "Max (set (departures batch)) \<ge> target_end")
      case True
      then show ?thesis using False m(1) by (auto simp: l next_anchor_or_none_def)
    next
      case le: False
      then have "\<forall>t \<in> set (departures batch). t < target_end" using m(2) by (meson le_less_trans not_le)
      then show ?thesis using False m le by (simp add: l next_anchor_or_none_def)
    qed
  qed
qed

lemma page_reads_back: "reads_back page_clock page_batch"
  by (auto simp: reads_back_def page_clock_def page_batch_def page_journey_def sample_at_def)

theorem next_page_moves_on_witness:
  "(let (new, seen', latest) = dedup_batch_and_track_latest_dep ascii_runtime page_clock page_batch {} None
    in case next_anchor_or_none latest 3600000000 of Some anchor \<Rightarrow> anchor = 660000000 | None \<Rightarrow> False)"
proof -
  obtain new seen' latest where d: "dedup_batch_and_track_latest_dep ascii_runtime page_clock page_batch {} None = (new, seen', latest)" by (metis prod_cases3)
  have "departures page_batch = [600000000, 600000000]" by (simp add: page_batch_def departures_def map_filter_def page_journey_def sample_at_def)
  with next_page_moves_on [OF page_reads_back d, of 3600000000] show ?thesis
    unfolding d by (auto split: option.splits)
qed

text \<open>The HAFAS fetch never raises; its journeys have distinct ids and no ride twice, its
  diagnostics always have a status, \<open>ok\<close> whenever there is a journey.\<close>

theorem hafas_pages_result:
  "case fetch_plan_paginated rt ck fetch elapsed limits depart window_s max_pages of
     (raw, js) \<Rightarrow> distinct (map j_id js) \<and> distinct (filter (\<lambda>f. f \<noteq> []) (fps rt ck js))
       \<and> map_of raw ''status'' \<noteq> None \<and> (js = [] \<or> map_of raw ''status'' = Some (JStr ''ok''))"
proof -
  obtain raw js where r: "fetch_plan_paginated rt ck fetch elapsed limits depart window_s max_pages = (raw, js)" by fastforce
  from hafas_loop_ok [OF r [unfolded fetch_plan_paginated_def] union_inv_empty] show ?thesis by (simp add: r hafas_ok_def)
qed

text \<open>A page's time is at least half a second, never past the page limit where that limit is
  half a second or more; a page after the first is asked only when it can end inside the whole budget,
  so that what was spent and what it may spend stay within it.\<close>

theorem page_timeout_in_budget:
  "case page_timeout_or_none pages elapsed_ms total_timeout_ms timeout_ms of
     None \<Rightarrow> pages \<noteq> 0 \<and> total_timeout_ms < elapsed_ms + MIN_PAGE_BUDGET_MS
   | Some t \<Rightarrow> MIN_PAGE_BUDGET_MS \<le> t \<and> t \<le> max MIN_PAGE_BUDGET_MS timeout_ms
       \<and> (pages = 0 \<or> elapsed_ms + t \<le> total_timeout_ms)"
  by (auto simp: page_timeout_or_none_def Let_def)

text \<open>On the same pages, with time left at every page and no failing page, the HAFAS loop
  collects exactly the journeys the OJP loop does.\<close>

theorem hafas_collects_as_ojp:
  assumes "\<And>k. page_timeout_or_none k (elapsed k) (hl_total_timeout_ms limits) (hl_timeout_ms limits) \<noteq> None"
  shows "case fetch_reference_paginated rt ck (\<lambda>k a. Batch (batches k a)) timeout_ms depart window_s max_pages of
     Raised \<Rightarrow> False
   | Returned js ms pages \<Rightarrow>
       snd (fetch_plan_paginated rt ck (\<lambda>k a t. (raws k a, batches k a)) elapsed limits depart window_s max_pages) = js"
  using hafas_ojp [OF assms refl refl, where rt = rt and ck = ck and batches = batches and raws = raws
      and per_page = "max 1 (timeout_ms div 12)" and target_end = "depart + window_s * 1000000" and left = max_pages
      and anchor = depart and trips = "[]" and seen = "{}" and ms = 0 and hms = 0 and pages = 0 and first_raw = None]
  by (auto simp: fetch_reference_paginated_def fetch_plan_paginated_def)

theorem hafas_collects_as_ojp_witness:
  "case fetch_reference_paginated ascii_runtime page_clock (\<lambda>k a. Batch page_batch) 8000 0 3600 4 of
     Raised \<Rightarrow> False
   | Returned js ms pages \<Rightarrow> snd (fetch_plan_paginated ascii_runtime page_clock (\<lambda>k a t. ([], page_batch))
        (\<lambda>_. 0) \<lparr>hl_timeout_ms = 10000, hl_total_timeout_ms = 20000\<rparr> 0 3600 4) = js"
  by (rule hafas_collects_as_ojp) (simp add: page_timeout_or_none_def Let_def MIN_PAGE_BUDGET_MS_def)

end
