(* ===== verification/Federated_Planner.thy ===== *)
theory Federated_Planner
  imports Trip_Dict Json_Values
begin

text \<open>
  The federated planner, \<open>app/journey/federated_planner.py\<close>: when no session routes a trip end to end,
  a ride of a session that serves the origin is joined, at a station both feeds serve, to a ride of a
  session that serves the destination. The pure helpers are modelled as written; the staged feeds, the
  \<open>master_stations\<close> rows and the engines' answers are arguments (\<open>fed_world\<close>). The process-wide cache
  of the served codes is passed through.
\<close>

section \<open>Served codes and hubs\<close>

type_synonym coords = "str \<Rightarrow> (real \<times> real) option"

definition DEFAULT_MCT_SECONDS :: int where "DEFAULT_MCT_SECONDS = 600"
definition MAX_HUBS :: nat where "MAX_HUBS = 8"
definition MAX_LEG1_OPTIONS :: nat where "MAX_LEG1_OPTIONS = 3"
definition MAX_RESULTS :: nat where "MAX_RESULTS = 5"
definition TRANSFER_PENALTY_SECONDS :: int where "TRANSFER_PENALTY_SECONDS = 1200"

definition served_uics :: "(str option \<times> real option \<times> real option) list \<Rightarrow> str set" where
  "served_uics stops = foldl (\<lambda>out (stop_id, la, lo). case uic_from_stop_id stop_id of
       Some uic \<Rightarrow> if uic \<noteq> [] then insert uic out else out | None \<Rightarrow> out) {} stops"

definition connection_hubs :: "str set \<Rightarrow> str set \<Rightarrow> str set" where
  "connection_hubs served_a served_b = served_a \<inter> served_b"

definition to_radians :: "real \<Rightarrow> real" where "to_radians d = d * pi / 180"

definition haversine_km :: "real \<times> real \<Rightarrow> real \<times> real \<Rightarrow> real" where
  "haversine_km p q =
     (let radius_km = 6371; phi1 = to_radians (fst p); phi2 = to_radians (fst q);
          dphi = to_radians (fst q - fst p); dlambda = to_radians (snd q - snd p);
          a = (sin (dphi / 2))\<^sup>2 + cos phi1 * cos phi2 * (sin (dlambda / 2))\<^sup>2
      in 2 * radius_km * arcsin (sqrt a))"

declare haversine_km_def [code del]

definition uic_country :: "str \<Rightarrow> str" where "uic_country uic = take 2 uic"

definition hub_score :: "real \<times> real \<Rightarrow> real \<times> real \<Rightarrow> str \<Rightarrow> str \<Rightarrow> real \<times> real \<Rightarrow> nat \<times> real \<times> str" where
  "hub_score origin dest dest_country uic hub =
     ((if uic_country uic = dest_country then 0 else 1), haversine_km origin hub + haversine_km hub dest, uic)"

text \<open>The scored tuples differ in their last entry, so sorting their list is listing their set in order.\<close>

definition rank_hubs :: "str set \<Rightarrow> coords \<Rightarrow> str \<Rightarrow> str \<Rightarrow> str list" where
  "rank_hubs hub_uics coords origin_uic dest_uic = (case (coords origin_uic, coords dest_uic) of
      (Some origin, Some dest) \<Rightarrow>
        map (\<lambda>(tier, detour, uic). uic)
          (sorted_list_of_set ((\<lambda>uic. hub_score origin dest (uic_country dest_uic) uic (the (coords uic))) ` Set.filter (\<lambda>uic. coords uic \<noteq> None) hub_uics))
    | _ \<Rightarrow> [])"

section \<open>Stitching\<close>

definition earliest_next_departure :: "instant \<Rightarrow> int \<Rightarrow> instant" where
  "earliest_next_departure prev_arrival mct_seconds = prev_arrival + mct_seconds * 1000000"

text \<open>What is left of one piece: \<open>first\<close> and \<open>final\<close> say whether it is the first or the last one.\<close>

definition without_hub_walks :: "bool \<Rightarrow> bool \<Rightarrow> canonical_leg list \<Rightarrow> canonical_leg list" where
  "without_hub_walks first final legs0 =
     (let legs1 = (if \<not> first \<and> legs0 \<noteq> [] \<and> \<not> is_timed (hd legs0) then tl legs0 else legs0)
      in if \<not> final \<and> legs1 \<noteq> [] \<and> \<not> is_timed (last legs1) then butlast legs1 else legs1)"

definition join_legs_dropping_hub_walks :: "canonical_journey list \<Rightarrow> canonical_leg list" where
  "join_legs_dropping_hub_walks pieces = mark_transfers (concat
     (map (\<lambda>(i, piece). without_hub_walks (i = 0) (i = length pieces - 1) (j_legs piece)) (py_enumerate pieces)))"

definition changes :: "canonical_journey \<Rightarrow> int" where
  "changes j = (case j_source_transfer_count j of Some n \<Rightarrow> n | None \<Rightarrow> transfer_count j)"

text \<open>The pieces are never none (\<open>pieces[0]\<close>): they are given as the first one and the others.\<close>

definition assemble_stitch :: "canonical_journey \<Rightarrow> canonical_journey list \<Rightarrow> str list \<Rightarrow> str list \<Rightarrow> canonical_journey" where
  "assemble_stitch first rest via_hubs session_ids =
     (let pieces = first # rest; final = last pieces;
          duration = (case (j_departure first, j_arrival final) of
              (Some d, Some a) \<Rightarrow> whole_seconds (timetabled a - timetabled d)
            | _ \<Rightarrow> sum_list (map j_duration_seconds pieces));
          engines = dedup (map (\<lambda>p. js_engine (j_source p)) pieces)
      in \<lparr>j_id = ''federated:'' @ py_join ''/'' via_hubs @ '':'' @ py_join ''+'' (map j_id pieces),
          j_source = \<lparr>js_provider = js_provider (j_source first), js_role = Viator, js_session_id = None,
             js_engine = (if length engines = 1 then js_engine (j_source first) else None),
             js_adapter_version = js_adapter_version (j_source first),
             js_stitched_from_sessions = session_ids, js_via_hubs = via_hubs\<rparr>,
          j_legs = join_legs_dropping_hub_walks pieces,
          j_departure = j_departure first, j_arrival = j_arrival final,
          j_duration_seconds = max 0 duration,
          j_source_transfer_count = Some (sum_list (map changes pieces) + int (length pieces) - 1)\<rparr>)"

definition arrival_text :: "canonical_journey \<Rightarrow> str" where
  "arrival_text j = (case j_arrival j of Some t \<Rightarrow> isoformat (timetabled t) | None \<Rightarrow> [])"

definition stitch_rank_key :: "canonical_journey \<Rightarrow> int \<times> str" where
  "stitch_rank_key s = (j_duration_seconds s + TRANSFER_PENALTY_SECONDS * changes s, arrival_text s)"

fun keep_new :: "runtime \<Rightarrow> clock \<Rightarrow> nat \<Rightarrow> str set \<Rightarrow> canonical_journey list \<Rightarrow> canonical_journey list \<Rightarrow> canonical_journey list" where
  "keep_new rt ck limit seen out [] = out"
| "keep_new rt ck limit seen out (s # ss) =
     (let fp = journey_transit_fingerprint rt ck s in
      if fp \<noteq> [] \<and> fp \<in> seen then keep_new rt ck limit seen out ss
      else (let seen' = (if fp \<noteq> [] then insert fp seen else seen); out' = out @ [s]
            in if length out' \<ge> limit then out' else keep_new rt ck limit seen' out' ss))"

definition dedup_and_rank :: "runtime \<Rightarrow> clock \<Rightarrow> canonical_journey list \<Rightarrow> str set \<Rightarrow> nat \<Rightarrow> canonical_journey list" where
  "dedup_and_rank rt ck stitches existing limit = keep_new rt ck limit existing [] (sort_key stitch_rank_key stitches)"

section \<open>The served codes of a session, cached\<close>

text \<open>
  A session with the \<open>sources.providers\<close> of its config (none where the config, its sources or the
  providers are absent).
\<close>

record fed_session =
  fs_id :: str
  fs_providers :: "json list"

type_synonym served_cache = "str \<Rightarrow> str set option"

definition session_served_uics :: "(str \<Rightarrow> str list) \<Rightarrow> served_cache \<Rightarrow> fed_session \<Rightarrow> str set \<times> served_cache" where
  "session_served_uics read_stop_ids cache s = (case cache (fs_id s) of
      Some cached \<Rightarrow> (cached, cache)
    | None \<Rightarrow> (let uics = served_uics (map (\<lambda>sid. (Some sid, None, None)) (read_stop_ids (fs_id s)))
               in (uics, cache(fs_id s \<mapsto> uics))))"

fun served_by_session :: "(str \<Rightarrow> str list) \<Rightarrow> served_cache \<Rightarrow> fed_session list \<Rightarrow> (str \<Rightarrow> str set option) \<Rightarrow> (str \<Rightarrow> str set option) \<times> served_cache" where
  "served_by_session read_stop_ids cache [] served = (served, cache)"
| "served_by_session read_stop_ids cache (s # ss) served =
     (let (uics, cache') = session_served_uics read_stop_ids cache s
      in served_by_session read_stop_ids cache' ss (served(fs_id s \<mapsto> uics)))"

definition invalidate_served_uics_cache :: "served_cache \<Rightarrow> str option \<Rightarrow> served_cache" where
  "invalidate_served_uics_cache cache session_id = (case session_id of None \<Rightarrow> Map.empty | Some i \<Rightarrow> cache(i := None))"

section \<open>One try\<close>

datatype fed_end = Both | Origin_end | Destination_end
datatype fed_outcome = Code_not_served fed_end | No_shared_hub | Position_missing fed_end
  | Planned_master_positions | Planned_request_positions

definition ends_lacking :: "bool \<Rightarrow> bool \<Rightarrow> fed_end" where
  "ends_lacking origin_lacks dest_lacks =
     (if origin_lacks \<and> dest_lacks then Both else if origin_lacks then Origin_end else Destination_end)"

definition served_of :: "(str \<Rightarrow> str set option) \<Rightarrow> fed_session \<Rightarrow> str set" where
  "served_of served s = (case served (fs_id s) of Some uics \<Rightarrow> uics | None \<Rightarrow> {})"

definition candidate_hubs :: "fed_session list \<Rightarrow> fed_session list \<Rightarrow> (str \<Rightarrow> str set option) \<Rightarrow> str set" where
  "candidate_hubs origin_sessions dest_sessions served =
     (\<Union>so \<in> set origin_sessions. \<Union>sd \<in> set dest_sessions.
        if fs_id so \<noteq> fs_id sd then connection_hubs (served_of served so) (served_of served sd) else {})"

text \<open>The rows \<open>(uic, latitude, longitude)\<close> of \<open>master_stations\<close>, in the order the query gives them.\<close>

definition resolve_coords :: "(str \<times> real option \<times> real option) list \<Rightarrow> str set \<Rightarrow> coords" where
  "resolve_coords rows wanted = foldl (\<lambda>c (uic, la, lo). case (la, lo) of
       (Some a, Some b) \<Rightarrow> c(uic \<mapsto> (a, b)) | _ \<Rightarrow> c) Map.empty (filter (\<lambda>(uic, la, lo). uic \<in> wanted) rows)"

fun fill_endpoint_positions :: "coords \<Rightarrow> (str \<times> (real \<times> real) option) list \<Rightarrow> coords \<times> bool" where
  "fill_endpoint_positions coords [] = (coords, False)"
| "fill_endpoint_positions coords ((code, position) # rest) = (case (coords code, position) of
      (None, Some p) \<Rightarrow> (fst (fill_endpoint_positions (coords(code \<mapsto> p)) rest), True)
    | _ \<Rightarrow> fill_endpoint_positions coords rest)"

definition provider_id :: "json \<Rightarrow> str option" where
  "provider_id p = (case p of JObj kvs \<Rightarrow> (case map_of kvs ''id'' of Some (JStr fid) \<Rightarrow> none_if_empty fid | _ \<Rightarrow> None) | _ \<Rightarrow> None)"

fun first_provider_id :: "json list \<Rightarrow> str option" where
  "first_provider_id [] = None"
| "first_provider_id (p # ps) = (case provider_id p of Some fid \<Rightarrow> Some fid | None \<Rightarrow> first_provider_id ps)"

definition primary_feed_id :: "fed_session \<Rightarrow> str option" where
  "primary_feed_id s = first_provider_id (fs_providers s)"

definition stop_id_in_feed :: "str option \<Rightarrow> str \<Rightarrow> str option" where
  "stop_id_in_feed feed_id uic = (if truthy feed_id then Some (or_empty feed_id @ '':'' @ uic) else None)"

text \<open>What one engine call is given; \<open>fw_fetch\<close> answers with journeys, or None where the call raises.\<close>

record leg_query =
  lq_session_id :: str
  lq_from :: "real \<times> real"
  lq_to :: "real \<times> real"
  lq_when :: instant
  lq_timeout_ms :: int
  lq_from_stop_id :: "str option"
  lq_to_stop_id :: "str option"
  lq_session_timezone :: "str option"

record leg_context =
  lc_coords :: coords
  lc_timeout_ms :: int
  lc_tz_for :: "str \<Rightarrow> str option"

definition fetch_leg :: "(leg_query \<Rightarrow> canonical_journey list option) \<Rightarrow> leg_context \<Rightarrow> fed_session \<Rightarrow> str \<Rightarrow> str \<Rightarrow> instant \<Rightarrow> canonical_journey list" where
  "fetch_leg fetch ctx s frm to dep = (case (lc_coords ctx frm, lc_coords ctx to) of
      (Some p, Some q) \<Rightarrow>
        (case fetch \<lparr>lq_session_id = fs_id s, lq_from = p, lq_to = q, lq_when = dep, lq_timeout_ms = lc_timeout_ms ctx,
             lq_from_stop_id = stop_id_in_feed (primary_feed_id s) frm, lq_to_stop_id = stop_id_in_feed (primary_feed_id s) to,
             lq_session_timezone = lc_tz_for ctx (fs_id s)\<rparr> of
           None \<Rightarrow> []
         | Some js \<Rightarrow> js)
    | _ \<Rightarrow> [])"

text \<open>The trip asked for: what \<open>plan_federated\<close> hands down to the two loops.\<close>

record fed_trip =
  ft_origin_uic :: str
  ft_dest_uic :: str
  ft_when :: instant
  ft_mct_seconds :: int

definition stitch_at_hub ::
  "(leg_query \<Rightarrow> canonical_journey list option) \<Rightarrow> leg_context \<Rightarrow> fed_session \<Rightarrow> fed_session \<Rightarrow> fed_trip \<Rightarrow> str \<Rightarrow> canonical_journey \<Rightarrow> canonical_journey option" where
  "stitch_at_hub fetch ctx so sd trip hub t1 = (case j_arrival t1 of
      None \<Rightarrow> None
    | Some a \<Rightarrow>
        (case fetch_leg fetch ctx sd hub (ft_dest_uic trip) (earliest_next_departure (timetabled a) (ft_mct_seconds trip)) of
           [] \<Rightarrow> None
         | t2 # _ \<Rightarrow> Some (assemble_stitch t1 [t2] [hub] [fs_id so, fs_id sd])))"

definition stitch_pair ::
  "(leg_query \<Rightarrow> canonical_journey list option) \<Rightarrow> leg_context \<Rightarrow> fed_session \<Rightarrow> fed_session \<Rightarrow> str list \<Rightarrow> fed_trip \<Rightarrow> canonical_journey list" where
  "stitch_pair fetch ctx so sd hubs trip = concat (map (\<lambda>hub.
     List.map_filter (stitch_at_hub fetch ctx so sd trip hub)
       (take MAX_LEG1_OPTIONS (fetch_leg fetch ctx so (ft_origin_uic trip) hub (ft_when trip)))) hubs)"

definition pair_hubs :: "leg_context \<Rightarrow> (str \<Rightarrow> str set option) \<Rightarrow> fed_session \<Rightarrow> fed_session \<Rightarrow> fed_trip \<Rightarrow> str list" where
  "pair_hubs ctx served so sd trip =
     take MAX_HUBS (rank_hubs (connection_hubs (served_of served so) (served_of served sd)) (lc_coords ctx) (ft_origin_uic trip) (ft_dest_uic trip))"

definition collect_stitches ::
  "(leg_query \<Rightarrow> canonical_journey list option) \<Rightarrow> leg_context \<Rightarrow> fed_session list \<Rightarrow> fed_session list \<Rightarrow> (str \<Rightarrow> str set option) \<Rightarrow> fed_trip \<Rightarrow> canonical_journey list" where
  "collect_stitches fetch ctx origin_sessions dest_sessions served trip =
     concat (map (\<lambda>so. concat (map (\<lambda>sd. if fs_id so = fs_id sd then []
        else stitch_pair fetch ctx so sd (pair_hubs ctx served so sd trip) trip) dest_sessions)) origin_sessions)"

record fed_world =
  fw_read_stop_ids :: "str \<Rightarrow> str list"
  fw_master :: "(str \<times> real option \<times> real option) list"
  fw_fetch :: "leg_query \<Rightarrow> canonical_journey list option"

record fed_request =
  fq_origin_uic :: "str option"
  fq_dest_uic :: "str option"
  fq_when :: instant
  fq_timeout_ms :: int
  fq_tz_for :: "str \<Rightarrow> str option"
  fq_existing_fingerprints :: "str set"
  fq_mct_seconds :: int
  fq_origin_position :: "(real \<times> real) option"
  fq_dest_position :: "(real \<times> real) option"

text \<open>The outcome counted (none before the codes are looked up), the journeys, and the cache after.\<close>

type_synonym fed_run = "fed_outcome option \<times> canonical_journey list \<times> served_cache"

definition plan_federated :: "runtime \<Rightarrow> clock \<Rightarrow> fed_world \<Rightarrow> served_cache \<Rightarrow> fed_session list \<Rightarrow> fed_request \<Rightarrow> fed_run" where
  "plan_federated rt ck w cache sessions req =
     (if \<not> truthy (fq_origin_uic req) \<or> \<not> truthy (fq_dest_uic req) \<or> fq_origin_uic req = fq_dest_uic req then (None, [], cache)
      else (let origin_uic = or_empty (fq_origin_uic req); dest_uic = or_empty (fq_dest_uic req);
                (served, cache') = served_by_session (fw_read_stop_ids w) cache sessions Map.empty;
                origin_sessions = filter (\<lambda>s. origin_uic \<in> served_of served s) sessions;
                dest_sessions = filter (\<lambda>s. dest_uic \<in> served_of served s) sessions
        in if origin_sessions = [] \<or> dest_sessions = []
           then (Some (Code_not_served (ends_lacking (origin_sessions = []) (dest_sessions = []))), [], cache')
           else (let hubs = candidate_hubs origin_sessions dest_sessions served
             in if hubs = {} then (Some No_shared_hub, [], cache')
                else (let (coords, from_request) = fill_endpoint_positions (resolve_coords (fw_master w) ({origin_uic, dest_uic} \<union> hubs))
                              [(origin_uic, fq_origin_position req), (dest_uic, fq_dest_position req)]
                  in if coords origin_uic = None \<or> coords dest_uic = None
                     then (Some (Position_missing (ends_lacking (coords origin_uic = None) (coords dest_uic = None))), [], cache')
                     else (let ctx = \<lparr>lc_coords = coords, lc_timeout_ms = fq_timeout_ms req, lc_tz_for = fq_tz_for req\<rparr>;
                               trip = \<lparr>ft_origin_uic = origin_uic, ft_dest_uic = dest_uic, ft_when = fq_when req, ft_mct_seconds = fq_mct_seconds req\<rparr>;
                               stitches = collect_stitches (fw_fetch w) ctx origin_sessions dest_sessions served trip
                       in (Some (if from_request then Planned_request_positions else Planned_master_positions),
                           dedup_and_rank rt ck stitches (fq_existing_fingerprints req) MAX_RESULTS, cache'))))))"

section \<open>Lemmas: the hubs\<close>

lemma served_uics_set: "served_uics stops = {uic. uic \<noteq> [] \<and> Some uic \<in> (\<lambda>(i, la, lo). uic_from_stop_id i) ` set stops}"
proof (induction stops rule: rev_induct)
  case Nil
  then show ?case by (simp add: served_uics_def)
next
  case (snoc p stops)
  then show ?case by (cases p) (auto simp: served_uics_def split: option.splits)
qed

lemma finite_served_uics [simp]: "finite (served_uics stops)"
proof (induction stops rule: rev_induct)
  case (snoc p stops)
  then show ?case by (cases p) (auto simp: served_uics_def split: option.splits)
qed (simp add: served_uics_def)

lemma haversine_km_sym: "haversine_km p q = haversine_km q p"
proof -
  have "to_radians (a - b) / 2 = - (to_radians (b - a) / 2)" for a b by (simp add: to_radians_def field_simps)
  then have "sin (to_radians (a - b) / 2) = - sin (to_radians (b - a) / 2)" for a b by (metis sin_minus)
  from this [of "fst p" "fst q"] this [of "snd p" "snd q"]
  show ?thesis by (simp add: haversine_km_def Let_def mult.commute)
qed

lemma haversine_km_self [simp]: "haversine_km p p = 0"
  by (simp add: haversine_km_def to_radians_def)

definition known_hubs :: "str set \<Rightarrow> coords \<Rightarrow> str set" where
  "known_hubs hub_uics coords = {uic \<in> hub_uics. coords uic \<noteq> None}"

definition hub_tuple :: "coords \<Rightarrow> str \<Rightarrow> str \<Rightarrow> str \<Rightarrow> nat \<times> real \<times> str" where
  "hub_tuple coords origin_uic dest_uic uic =
     hub_score (the (coords origin_uic)) (the (coords dest_uic)) (uic_country dest_uic) uic (the (coords uic))"

lemma hub_tuple_uic [simp]: "snd (snd (hub_tuple coords o' d u)) = u"
  by (simp add: hub_tuple_def hub_score_def)

lemma rank_hubs_known:
  "coords origin_uic \<noteq> None \<Longrightarrow> coords dest_uic \<noteq> None \<Longrightarrow>
   rank_hubs hub_uics coords origin_uic dest_uic =
     map (\<lambda>t. snd (snd t)) (sorted_list_of_set (hub_tuple coords origin_uic dest_uic ` known_hubs hub_uics coords))"
  by (auto simp: rank_hubs_def hub_tuple_def known_hubs_def case_prod_unfold)

lemma rank_hubs_unknown: "coords origin_uic = None \<or> coords dest_uic = None \<Longrightarrow> rank_hubs hub_uics coords origin_uic dest_uic = []"
  by (auto simp: rank_hubs_def split: option.splits)

lemma rank_hubs_order:
  assumes "finite (known_hubs hub_uics coords)" "coords origin_uic \<noteq> None" "coords dest_uic \<noteq> None"
  shows "set (rank_hubs hub_uics coords origin_uic dest_uic) = known_hubs hub_uics coords"
    and "map (hub_tuple coords origin_uic dest_uic) (rank_hubs hub_uics coords origin_uic dest_uic)
           = sorted_list_of_set (hub_tuple coords origin_uic dest_uic ` known_hubs hub_uics coords)"
    and "distinct (rank_hubs hub_uics coords origin_uic dest_uic)"
proof -
  let ?T = "hub_tuple coords origin_uic dest_uic" and ?K = "known_hubs hub_uics coords"
  let ?l = "sorted_list_of_set (?T ` ?K)"
  have s: "set ?l = ?T ` ?K" using assms(1) by simp
  show "set (rank_hubs hub_uics coords origin_uic dest_uic) = ?K"
    using assms(2,3) by (simp add: rank_hubs_known s image_image)
  have "?T (snd (snd t)) = t" if "t \<in> set ?l" for t using that s by auto
  then show m: "map ?T (rank_hubs hub_uics coords origin_uic dest_uic) = ?l"
    using assms(2,3) by (simp add: rank_hubs_known map_idI)
  then show "distinct (rank_hubs hub_uics coords origin_uic dest_uic)"
    by (metis distinct_map distinct_sorted_list_of_set)
qed

section \<open>Lemmas: a stitch\<close>

lemma without_hub_walks_timed: "filter is_timed (without_hub_walks a b legs) = filter is_timed legs"
proof -
  have l: "filter is_timed (butlast xs) = filter is_timed xs" if "xs \<noteq> []" "\<not> is_timed (last xs)" for xs
    using that by (metis append_butlast_last_id append_Nil2 filter.simps filter_append)
  have h: "filter is_timed (tl xs) = filter is_timed xs" if "xs \<noteq> []" "\<not> is_timed (hd xs)" for xs
    using that by (cases xs) auto
  have "filter is_timed (if \<not> b \<and> xs \<noteq> [] \<and> \<not> is_timed (last xs) then butlast xs else xs) = filter is_timed xs" for xs
    by (simp add: l)
  then show ?thesis unfolding without_hub_walks_def Let_def by (auto simp: h)
qed

lemma without_hub_walks_sub: "set (without_hub_walks a b legs) \<subseteq> set legs"
  by (auto simp: without_hub_walks_def Let_def dest: in_set_butlastD list.set_sel(2))

lemma join_legs_rides: "filter is_timed (join_legs_dropping_hub_walks pieces) = concat (map timed_legs pieces)"
proof -
  have "map (\<lambda>(i, piece). filter is_timed (without_hub_walks (i = 0) (i = length pieces - 1) (j_legs piece))) (py_enumerate pieces)
      = map timed_legs (map snd (py_enumerate pieces))"
    unfolding map_map by (simp add: without_hub_walks_timed timed_legs_def case_prod_unfold comp_def)
  then show ?thesis
    unfolding join_legs_dropping_hub_walks_def mark_transfers_rides filter_concat map_map
    by (simp only: map_snd_py_enumerate flip: map_map) (simp add: comp_def case_prod_unfold)
qed

lemma join_legs_valid:
  assumes "\<forall>p \<in> set pieces. valid_journey p"
  shows "list_all valid_leg (join_legs_dropping_hub_walks pieces)"
proof -
  have "valid_leg leg" if "i < length pieces" "leg \<in> set (without_hub_walks a b (j_legs (pieces ! i)))" for i leg a b
    using that without_hub_walks_sub assms by (metis nth_mem subset_iff valid_journey_legs)
  then show ?thesis unfolding join_legs_dropping_hub_walks_def
    by (intro mark_transfers_valid) (auto simp: list_all_iff)
qed

lemma changes_nonneg: "valid_journey j \<Longrightarrow> 0 \<le> changes j"
  by (auto simp: changes_def valid_journey_def transfer_count_def split: option.splits)

lemma assemble_stitch_valid:
  assumes "\<forall>p \<in> set (first # rest). valid_journey p"
  shows "valid_journey (assemble_stitch first rest via_hubs session_ids)"
proof -
  have "0 \<le> sum_list (map changes (first # rest))" by (rule sum_list_nonneg) (use assms changes_nonneg in auto)
  then show ?thesis
    using join_legs_valid [OF assms] assms by (simp add: valid_journey_def assemble_stitch_def Let_def)
qed

lemma assemble_stitch_simps [simp]:
  "j_departure (assemble_stitch a bs h s) = j_departure a"
  "j_arrival (assemble_stitch a bs h s) = j_arrival (last (a # bs))"
  "timed_legs (assemble_stitch a bs h s) = concat (map timed_legs (a # bs))"
  "j_source_transfer_count (assemble_stitch a bs h s) = Some (sum_list (map changes (a # bs)) + int (length bs))"
  "js_via_hubs (j_source (assemble_stitch a bs h s)) = h" "js_stitched_from_sessions (j_source (assemble_stitch a bs h s)) = s"
  using join_legs_rides [of "a # bs"] by (simp_all add: assemble_stitch_def Let_def timed_legs_def)

section \<open>Lemmas: ranking\<close>

text \<open>The list without the journeys whose ride was seen before, as a reference for the loop.\<close>

fun once :: "runtime \<Rightarrow> clock \<Rightarrow> str set \<Rightarrow> canonical_journey list \<Rightarrow> canonical_journey list" where
  "once rt ck seen [] = []"
| "once rt ck seen (s # ss) =
     (let fp = journey_transit_fingerprint rt ck s
      in if fp \<noteq> [] \<and> fp \<in> seen then once rt ck seen ss else s # once rt ck (insert fp seen) ss)"

lemma once_insert_Nil: "once rt ck (insert [] seen) ss = once rt ck seen ss"
proof (induction ss arbitrary: seen)
  case (Cons s ss)
  then show ?case by (simp add: Let_def insert_commute)
qed simp

lemma keep_new_once:
  "length out < max 1 limit \<Longrightarrow> keep_new rt ck limit seen out ss = out @ take (max 1 limit - length out) (once rt ck seen ss)"
proof (induction ss arbitrary: seen out)
  case (Cons s ss)
  let ?fp = "journey_transit_fingerprint rt ck s"
  show ?case
  proof (cases "?fp \<noteq> [] \<and> ?fp \<in> seen")
    case True
    then show ?thesis using Cons by (simp add: Let_def)
  next
    case False
    let ?seen = "if ?fp \<noteq> [] then insert ?fp seen else seen"
    have o: "once rt ck (insert ?fp seen) ss = once rt ck ?seen ss" by (simp add: once_insert_Nil)
    show ?thesis
    proof (cases "length (out @ [s]) \<ge> limit")
      case True
      with Cons.prems have "max 1 limit - length out = 1" by (auto simp: max_def split: if_splits)
      then show ?thesis using False True by (auto simp: Let_def)
    next
      case l: False
      then have "length (out @ [s]) < max 1 limit" by simp
      from Cons.IH [OF this, of ?seen] have "keep_new rt ck limit ?seen (out @ [s]) ss = (out @ [s]) @ take (max 1 limit - length (out @ [s])) (once rt ck ?seen ss)" .
      moreover have "max 1 limit - length out = Suc (max 1 limit - length (out @ [s]))" using \<open>length (out @ [s]) < max 1 limit\<close> by simp
      moreover have "keep_new rt ck limit seen out (s # ss) = keep_new rt ck limit ?seen (out @ [s]) ss"
        using False l by (auto simp del: length_append simp: Let_def)
      moreover have "once rt ck seen (s # ss) = s # once rt ck ?seen ss" using False unfolding o [symmetric] by (auto simp: Let_def)
      ultimately show ?thesis by simp
    qed
  qed
qed simp

lemma dedup_and_rank_once:
  "dedup_and_rank rt ck stitches existing limit = take (max 1 limit) (once rt ck existing (sort_key stitch_rank_key stitches))"
  by (simp add: dedup_and_rank_def keep_new_once)

abbreviation "fp_of rt ck \<equiv> journey_transit_fingerprint rt ck"

lemma once_subset: "set (once rt ck seen ss) \<subseteq> set ss"
  by (induction ss arbitrary: seen) (auto simp: Let_def)

lemma once_sorted: "sorted (map k ss) \<Longrightarrow> sorted (map k (once rt ck seen ss))"
proof (induction ss arbitrary: seen)
  case (Cons s ss)
  then have "sorted (map k ss)" "\<forall>y \<in> set ss. k s \<le> k y" by auto
  with Cons.IH [of seen] Cons.IH [of "insert (fp_of rt ck s) seen"] once_subset [of rt ck "insert (fp_of rt ck s) seen" ss]
  show ?case by (auto simp: Let_def)
qed simp

lemma once_unseen: "x \<in> set (once rt ck seen ss) \<Longrightarrow> fp_of rt ck x = [] \<or> fp_of rt ck x \<notin> seen"
  by (induction ss arbitrary: seen) (auto simp: Let_def split: if_splits)

lemma once_distinct: "distinct (filter (\<lambda>f. f \<noteq> []) (map (fp_of rt ck) (once rt ck seen ss)))"
proof (induction ss arbitrary: seen)
  case (Cons s ss)
  have "fp_of rt ck s \<notin> fp_of rt ck ` set (once rt ck (insert (fp_of rt ck s) seen) ss)" if "fp_of rt ck s \<noteq> []"
    using that once_unseen [of _ rt ck "insert (fp_of rt ck s) seen" ss] by force
  then show ?case using Cons by (auto simp: Let_def)
qed simp

text \<open>What the list leaves out was seen, or comes after a journey with the same rides.\<close>

lemma once_covers:
  assumes "sorted (map k ss)" "s \<in> set ss" "s \<notin> set (once rt ck seen ss)"
  shows "fp_of rt ck s \<noteq> [] \<and> (fp_of rt ck s \<in> seen \<or> (\<exists>o' \<in> set (once rt ck seen ss). fp_of rt ck o' = fp_of rt ck s \<and> k o' \<le> k s))"
  using assms
proof (induction ss arbitrary: seen)
  case (Cons x ss)
  show ?case
  proof (cases "fp_of rt ck x \<noteq> [] \<and> fp_of rt ck x \<in> seen")
    case True
    then show ?thesis using Cons by (auto simp: Let_def)
  next
    case False
    then have "s \<in> set ss" "s \<notin> set (once rt ck (insert (fp_of rt ck x) seen) ss)" using Cons.prems by (auto simp: Let_def)
    from Cons.IH [OF _ this] Cons.prems(1) False \<open>s \<in> set ss\<close> show ?thesis by (auto simp: Let_def)
  qed
qed simp

lemma sorted_take_le:
  assumes "sorted (map k xs)" "x \<in> set xs" "x \<notin> set (take n xs)"
  shows "length (take n xs) = n \<and> (\<forall>y \<in> set (take n xs). k y \<le> k x)"
proof -
  have "x \<in> set (drop n xs)" using assms(2,3) by (metis Un_iff append_take_drop_id set_append)
  moreover have "sorted (map k (take n xs) @ map k (drop n xs))" using assms(1) by (metis append_take_drop_id map_append)
  ultimately have "\<forall>y \<in> set (take n xs). k y \<le> k x" by (auto simp: sorted_append)
  moreover have "n < length xs" using \<open>x \<in> set (drop n xs)\<close> by (metis drop_eq_Nil empty_iff list.set(1) not_le)
  ultimately show ?thesis by simp
qed

definition fp_repeats :: "runtime \<Rightarrow> clock \<Rightarrow> str set \<Rightarrow> canonical_journey list \<Rightarrow> canonical_journey \<Rightarrow> bool" where
  "fp_repeats rt ck existing out s = (fp_of rt ck s \<noteq> [] \<and> (fp_of rt ck s \<in> existing
     \<or> (\<exists>o' \<in> set out. fp_of rt ck o' = fp_of rt ck s \<and> stitch_rank_key o' \<le> stitch_rank_key s)))"

lemma dedup_and_rank_leaves_out:
  assumes "s \<in> set stitches" "s \<notin> set (dedup_and_rank rt ck stitches existing limit)"
  shows "fp_repeats rt ck existing (dedup_and_rank rt ck stitches existing limit) s
     \<or> length (dedup_and_rank rt ck stitches existing limit) = max 1 limit
        \<and> (\<forall>o' \<in> set (dedup_and_rank rt ck stitches existing limit). stitch_rank_key o' \<le> stitch_rank_key s)"
proof -
  let ?ss = "sort_key stitch_rank_key stitches"
  let ?on = "once rt ck existing ?ss"
  have sorted_on: "sorted (map stitch_rank_key ?on)" by (rule once_sorted) simp
  note cut = sorted_take_le [OF sorted_on]
  show ?thesis
  proof (cases "s \<in> set ?on")
    case True
    then show ?thesis using cut [OF True] assms(2) unfolding dedup_and_rank_once by blast
  next
    case False
    then have c: "fp_of rt ck s \<noteq> []" "fp_of rt ck s \<in> existing \<or> (\<exists>o' \<in> set ?on. fp_of rt ck o' = fp_of rt ck s \<and> stitch_rank_key o' \<le> stitch_rank_key s)"
      using once_covers [of stitch_rank_key ?ss s rt ck existing] assms(1) by auto
    show ?thesis
    proof (cases "fp_of rt ck s \<in> existing")
      case True
      then show ?thesis using c(1) by (simp add: fp_repeats_def)
    next
      case ne: False
      then obtain o' where o': "o' \<in> set ?on" "fp_of rt ck o' = fp_of rt ck s" "stitch_rank_key o' \<le> stitch_rank_key s" using c(2) by blast
      show ?thesis
      proof (cases "o' \<in> set (take (max 1 limit) ?on)")
        case True
        then show ?thesis using c(1) o' unfolding dedup_and_rank_once fp_repeats_def by blast
      next
        case False
        then show ?thesis using cut [OF o'(1) False] o'(3) unfolding dedup_and_rank_once by (meson order_trans)
      qed
    qed
  qed
qed

lemma distinct_filter_map_take:
  "distinct (filter P (map f xs)) \<Longrightarrow> distinct (filter P (map f (take n xs)))"
  by (metis append_take_drop_id distinct_append filter_append map_append)

lemma dedup_and_rank_shape:
  "sorted (map stitch_rank_key (dedup_and_rank rt ck stitches existing limit))
   \<and> length (dedup_and_rank rt ck stitches existing limit) \<le> max 1 limit
   \<and> set (dedup_and_rank rt ck stitches existing limit) \<subseteq> set stitches
   \<and> distinct (filter (\<lambda>f. f \<noteq> []) (map (fp_of rt ck) (dedup_and_rank rt ck stitches existing limit)))
   \<and> (\<forall>s \<in> set (dedup_and_rank rt ck stitches existing limit). fp_of rt ck s = [] \<or> fp_of rt ck s \<notin> existing)"
proof -
  let ?on = "once rt ck existing (sort_key stitch_rank_key stitches)"
  have "sorted (map stitch_rank_key ?on)" by (rule once_sorted) simp
  then have "sorted (map stitch_rank_key (take (max 1 limit) ?on))" by (metis sorted_wrt_take take_map)
  moreover have "set (take (max 1 limit) ?on) \<subseteq> set ?on" by (rule set_take_subset)
  moreover have "set ?on \<subseteq> set stitches" using once_subset [of rt ck existing "sort_key stitch_rank_key stitches"] by simp
  ultimately show ?thesis unfolding dedup_and_rank_once
    by (intro conjI ballI distinct_filter_map_take once_distinct) (auto dest: once_unseen)
qed

section \<open>Lemmas: the cache\<close>

text \<open>
  A table that keeps what a source computed: a call answers from the table, or computes and keeps it.
  A table that holds only what the source computes stays so, and every answer is the source's.
\<close>

definition holds_only :: "('k \<Rightarrow> 'v) \<Rightarrow> ('k \<Rightarrow> 'v option) \<Rightarrow> bool" where
  "holds_only compute table = (\<forall>k v. table k = Some v \<longrightarrow> v = compute k)"

locale memo_table =
  fixes compute :: "'k \<Rightarrow> 'v" and get :: "('k \<Rightarrow> 'v option) \<Rightarrow> 'k \<Rightarrow> 'v \<times> ('k \<Rightarrow> 'v option)"
  assumes get_hit: "table k = Some v \<Longrightarrow> get table k = (v, table)"
    and get_miss: "table k = None \<Longrightarrow> get table k = (compute k, table(k \<mapsto> compute k))"
begin

lemma get_value: "holds_only compute table \<Longrightarrow> fst (get table k) = compute k"
  using get_hit [of table k] get_miss [of table k] by (cases "table k") (auto simp: holds_only_def)

lemma get_keeps: "holds_only compute table \<Longrightarrow> holds_only compute (snd (get table k))"
  using get_hit [of table k] get_miss [of table k] by (cases "table k") (auto simp: holds_only_def)

lemma get_again: "get (snd (get table k)) k = (fst (get table k), snd (get table k))"
  using get_hit get_miss [of table k] by (cases "table k") simp_all

end

definition feed_codes :: "(str \<Rightarrow> str list) \<Rightarrow> str \<Rightarrow> str set" where
  "feed_codes read_stop_ids i = served_uics (map (\<lambda>sid. (Some sid, None, None)) (read_stop_ids i))"

interpretation served: memo_table "feed_codes read" "\<lambda>cache i. session_served_uics read cache \<lparr>fs_id = i, fs_providers = []\<rparr>"
  for read :: "str \<Rightarrow> str list"
  by unfold_locales (simp_all add: session_served_uics_def feed_codes_def Let_def)

lemma session_served_uics_id:
  "session_served_uics read cache s = session_served_uics read cache \<lparr>fs_id = fs_id s, fs_providers = []\<rparr>"
  by (simp add: session_served_uics_def Let_def cong: option.case_cong)

lemma served_by_session_feeds:
  assumes "holds_only (feed_codes read) cache" "served_by_session read cache ss served0 = (served, cache')"
  shows "holds_only (feed_codes read) cache' \<and> served = (\<lambda>i. if i \<in> fs_id ` set ss then Some (feed_codes read i) else served0 i)"
  using assms
proof (induction ss arbitrary: cache served0)
  case (Cons s ss)
  obtain uics c where g: "session_served_uics read cache s = (uics, c)" by fastforce
  have u: "uics = feed_codes read (fs_id s)" "holds_only (feed_codes read) c"
    using served.get_value [OF Cons.prems(1), of "fs_id s"] served.get_keeps [OF Cons.prems(1), of "fs_id s"] g
    by (simp_all flip: session_served_uics_id)
  have "served_by_session read c ss (served0(fs_id s \<mapsto> uics)) = (served, cache')"
    using Cons.prems(2) g by simp
  from Cons.IH [OF u(2) this] u(1) show ?case by (auto simp: fun_eq_iff)
qed auto

text \<open>Dropping a session whose feed was replaced, or all of them, leaves a table of the feeds as they are.\<close>

lemma invalidate_coherent:
  "holds_only (feed_codes read) cache \<Longrightarrow> holds_only (feed_codes (read(i := ids))) (invalidate_served_uics_cache cache (Some i))"
  "holds_only (feed_codes read) (invalidate_served_uics_cache cache None)"
  by (auto simp: holds_only_def invalidate_served_uics_cache_def feed_codes_def)

section \<open>Lemmas: positions\<close>

lemma finite_dom_resolve: "finite (dom (resolve_coords rows wanted))"
proof -
  have "finite (dom (foldl (\<lambda>c (uic, la, lo). case (la, lo) of (Some a, Some b) \<Rightarrow> c(uic \<mapsto> (a, b)) | _ \<Rightarrow> c) c0 rs))"
    if "finite (dom c0)" for rs :: "(str \<times> real option \<times> real option) list" and c0 :: coords
    using that by (induction rs arbitrary: c0) (auto split: option.splits)
  then show ?thesis unfolding resolve_coords_def by simp
qed

lemma finite_dom_fill: "finite (dom c) \<Longrightarrow> finite (dom (fst (fill_endpoint_positions c es)))"
  by (induction c es rule: fill_endpoint_positions.induct) (auto split: option.splits)

text \<open>A position the tables give is never replaced by the request's.\<close>

lemma fill_two:
  "o' \<noteq> d \<Longrightarrow> fill_endpoint_positions c [(o', po), (d, pd)] =
     ((\<lambda>u. if u = o' then (case c o' of None \<Rightarrow> po | Some p \<Rightarrow> Some p)
           else if u = d then (case c d of None \<Rightarrow> pd | Some p \<Rightarrow> Some p) else c u),
      c o' = None \<and> po \<noteq> None \<or> c d = None \<and> pd \<noteq> None)"
  by (auto split: option.splits intro!: ext)

section \<open>Lemmas: the stitches collected\<close>

definition stitch_found ::
  "(leg_query \<Rightarrow> canonical_journey list option) \<Rightarrow> leg_context \<Rightarrow> fed_session \<Rightarrow> fed_session \<Rightarrow> fed_trip \<Rightarrow> str \<Rightarrow>
   canonical_journey \<Rightarrow> canonical_journey \<Rightarrow> bool" where
  "stitch_found fetch ctx so sd trip hub t1 t2 =
     (t1 \<in> set (take MAX_LEG1_OPTIONS (fetch_leg fetch ctx so (ft_origin_uic trip) hub (ft_when trip)))
      \<and> (case j_arrival t1 of None \<Rightarrow> False
         | Some a \<Rightarrow> (case fetch_leg fetch ctx sd hub (ft_dest_uic trip) (timetabled a + ft_mct_seconds trip * 1000000) of
             [] \<Rightarrow> False | t # _ \<Rightarrow> t2 = t)))"

lemma set_map_filter: "set (List.map_filter f xs) = {y. \<exists>x \<in> set xs. f x = Some y}"
  by (force simp: map_filter_def)

lemma stitch_at_hub_Some:
  "stitch_at_hub fetch ctx so sd trip hub t1 = Some s \<longleftrightarrow>
     (\<exists>a t2 ts. j_arrival t1 = Some a \<and> fetch_leg fetch ctx sd hub (ft_dest_uic trip) (timetabled a + ft_mct_seconds trip * 1000000) = t2 # ts
        \<and> s = assemble_stitch t1 [t2] [hub] [fs_id so, fs_id sd])"
  by (auto simp: stitch_at_hub_def earliest_next_departure_def split: option.splits list.splits)

lemma in_stitch_pair:
  "s \<in> set (stitch_pair fetch ctx so sd hubs trip) \<longleftrightarrow>
     (\<exists>hub \<in> set hubs. \<exists>t1 t2. stitch_found fetch ctx so sd trip hub t1 t2 \<and> s = assemble_stitch t1 [t2] [hub] [fs_id so, fs_id sd])"
  unfolding stitch_pair_def stitch_found_def
  by (simp add: set_map_filter stitch_at_hub_Some) (fastforce split: option.splits list.splits)

lemma in_collect:
  "s \<in> set (collect_stitches fetch ctx os ds served trip) \<longleftrightarrow>
     (\<exists>so \<in> set os. \<exists>sd \<in> set ds. fs_id so \<noteq> fs_id sd \<and> (\<exists>hub \<in> set (pair_hubs ctx served so sd trip). \<exists>t1 t2.
        stitch_found fetch ctx so sd trip hub t1 t2 \<and> s = assemble_stitch t1 [t2] [hub] [fs_id so, fs_id sd]))"
proof -
  have "s \<in> set (collect_stitches fetch ctx os ds served trip) \<longleftrightarrow>
     (\<exists>so \<in> set os. \<exists>sd \<in> set ds. fs_id so \<noteq> fs_id sd \<and> s \<in> set (stitch_pair fetch ctx so sd (pair_hubs ctx served so sd trip) trip))"
    unfolding collect_stitches_def by auto
  then show ?thesis unfolding in_stitch_pair .
qed

section \<open>Lemmas: one try\<close>

definition no_trip :: "fed_request \<Rightarrow> bool" where
  "no_trip req = (\<not> truthy (fq_origin_uic req) \<or> \<not> truthy (fq_dest_uic req) \<or> fq_origin_uic req = fq_dest_uic req)"

abbreviation "origin_code req \<equiv> or_empty (fq_origin_uic req)"
abbreviation "dest_code req \<equiv> or_empty (fq_dest_uic req)"

text \<open>The sessions whose feed serves a code, and the stations two such sessions share.\<close>

definition serving :: "fed_world \<Rightarrow> fed_session list \<Rightarrow> str \<Rightarrow> fed_session list" where
  "serving w sessions code = filter (\<lambda>s. code \<in> feed_codes (fw_read_stop_ids w) (fs_id s)) sessions"

definition shared_hubs :: "fed_world \<Rightarrow> fed_session list \<Rightarrow> fed_request \<Rightarrow> str set" where
  "shared_hubs w sessions req = {u. \<exists>so \<in> set (serving w sessions (origin_code req)). \<exists>sd \<in> set (serving w sessions (dest_code req)).
     fs_id so \<noteq> fs_id sd \<and> u \<in> feed_codes (fw_read_stop_ids w) (fs_id so) \<and> u \<in> feed_codes (fw_read_stop_ids w) (fs_id sd)}"

definition master_coords :: "fed_world \<Rightarrow> fed_session list \<Rightarrow> fed_request \<Rightarrow> coords" where
  "master_coords w sessions req = resolve_coords (fw_master w) ({origin_code req, dest_code req} \<union> shared_hubs w sessions req)"

definition trip_coords :: "fed_world \<Rightarrow> fed_session list \<Rightarrow> fed_request \<Rightarrow> coords" where
  "trip_coords w sessions req = (\<lambda>u. case master_coords w sessions req u of
      Some p \<Rightarrow> Some p
    | None \<Rightarrow> if u = origin_code req then fq_origin_position req else if u = dest_code req then fq_dest_position req else None)"

definition trip_context :: "fed_world \<Rightarrow> fed_session list \<Rightarrow> fed_request \<Rightarrow> leg_context" where
  "trip_context w sessions req = \<lparr>lc_coords = trip_coords w sessions req, lc_timeout_ms = fq_timeout_ms req, lc_tz_for = fq_tz_for req\<rparr>"

definition trip_of :: "fed_request \<Rightarrow> fed_trip" where
  "trip_of req = \<lparr>ft_origin_uic = origin_code req, ft_dest_uic = dest_code req, ft_when = fq_when req, ft_mct_seconds = fq_mct_seconds req\<rparr>"

definition stitches_of :: "fed_world \<Rightarrow> fed_session list \<Rightarrow> fed_request \<Rightarrow> canonical_journey list" where
  "stitches_of w sessions req = collect_stitches (fw_fetch w) (trip_context w sessions req)
     (serving w sessions (origin_code req)) (serving w sessions (dest_code req))
     (\<lambda>i. if i \<in> fs_id ` set sessions then Some (feed_codes (fw_read_stop_ids w) i) else None) (trip_of req)"

text \<open>How a try ends, over the feeds themselves.\<close>

definition outcome_of :: "fed_world \<Rightarrow> fed_session list \<Rightarrow> fed_request \<Rightarrow> fed_outcome option" where
  "outcome_of w sessions req =
     (let no_o = (serving w sessions (origin_code req) = []); no_d = (serving w sessions (dest_code req) = []);
          po = trip_coords w sessions req (origin_code req); pd = trip_coords w sessions req (dest_code req);
          mo = master_coords w sessions req (origin_code req); md = master_coords w sessions req (dest_code req)
      in if no_trip req then None
         else if no_o \<or> no_d then Some (Code_not_served (ends_lacking no_o no_d))
         else if shared_hubs w sessions req = {} then Some No_shared_hub
         else if po = None \<or> pd = None then Some (Position_missing (ends_lacking (po = None) (pd = None)))
         else if mo = None \<or> md = None then Some Planned_request_positions
         else Some Planned_master_positions)"

definition goes_on :: "fed_outcome option \<Rightarrow> bool" where
  "goes_on oc = (oc = Some Planned_request_positions \<or> oc = Some Planned_master_positions)"

lemma plan_federated_outcome:
  assumes "holds_only (feed_codes (fw_read_stop_ids w)) cache"
  shows "\<exists>cache'. holds_only (feed_codes (fw_read_stop_ids w)) cache' \<and>
     plan_federated rt ck w cache sessions req =
       (outcome_of w sessions req,
        if goes_on (outcome_of w sessions req)
        then dedup_and_rank rt ck (stitches_of w sessions req) (fq_existing_fingerprints req) MAX_RESULTS else [], cache')"
proof (cases "no_trip req")
  case True
  then show ?thesis using assms by (auto simp: plan_federated_def outcome_of_def no_trip_def goes_on_def)
next
  case False
  let ?r = "fw_read_stop_ids w" and ?o = "origin_code req" and ?d = "dest_code req"
  let ?served = "\<lambda>i. if i \<in> fs_id ` set sessions then Some (feed_codes ?r i) else None"
  have od: "?o \<noteq> ?d" using False unfolding no_trip_def by (auto dest!: truthyD)
  obtain c' where s: "served_by_session ?r cache sessions Map.empty = (?served, c')" and c': "holds_only (feed_codes ?r) c'"
    using served_by_session_feeds [OF assms, of sessions Map.empty]
    by (cases "served_by_session ?r cache sessions Map.empty") auto
  have so: "served_of ?served x = feed_codes ?r (fs_id x)" if "x \<in> set sessions" for x using that by (simp add: served_of_def)
  have os: "filter (\<lambda>s. u \<in> served_of ?served s) sessions = serving w sessions u" for u
    unfolding serving_def by (rule filter_cong) (simp_all add: so)
  have hubs: "candidate_hubs (serving w sessions ?o) (serving w sessions ?d) ?served = shared_hubs w sessions req"
    unfolding candidate_hubs_def shared_hubs_def connection_hubs_def
    by (auto simp: serving_def so split: if_splits)
  let ?m = "master_coords w sessions req"
  have fill: "fill_endpoint_positions ?m [(?o, fq_origin_position req), (?d, fq_dest_position req)]
     = (trip_coords w sessions req, ?m ?o = None \<and> fq_origin_position req \<noteq> None \<or> ?m ?d = None \<and> fq_dest_position req \<noteq> None)"
    unfolding fill_two [OF od] using od by (auto simp: trip_coords_def split: option.splits intro!: ext)
  have used: "(?m ?o = None \<and> fq_origin_position req \<noteq> None \<or> ?m ?d = None \<and> fq_dest_position req \<noteq> None) \<longleftrightarrow> ?m ?o = None \<or> ?m ?d = None"
    if "trip_coords w sessions req ?o \<noteq> None" "trip_coords w sessions req ?d \<noteq> None"
    using that od by (auto simp: trip_coords_def split: option.splits)
  let ?no = "serving w sessions ?o = [] \<or> serving w sessions ?d = []" and ?nh = "shared_hubs w sessions req = {}"
  let ?np = "trip_coords w sessions req ?o = None \<or> trip_coords w sessions req ?d = None"
  have p: "plan_federated rt ck w cache sessions req =
     (if ?no then (outcome_of w sessions req, [], c') else if ?nh then (outcome_of w sessions req, [], c')
      else if ?np then (outcome_of w sessions req, [], c')
      else (outcome_of w sessions req, dedup_and_rank rt ck (stitches_of w sessions req) (fq_existing_fingerprints req) MAX_RESULTS, c'))"
    unfolding plan_federated_def Let_def s prod.case os hubs master_coords_def [symmetric] fill no_trip_def [symmetric]
      outcome_of_def stitches_of_def trip_context_def trip_of_def if_not_P [OF False]
    by (cases ?no; cases ?nh; cases ?np) (simp_all only: if_True if_False used de_Morgan_disj not_not HOL.simp_thms if_distrib [of Some])
  have "goes_on (outcome_of w sessions req) \<longleftrightarrow> \<not> ?no \<and> \<not> ?nh \<and> \<not> ?np"
    using False by (auto simp: outcome_of_def goes_on_def Let_def)
  then show ?thesis using c' p by (intro exI [of _ c']) (cases ?no; cases ?nh; cases ?np; simp)
qed

end
