(* ===== verification/Federated_Properties.thy ===== *)
theory Federated_Properties
  imports Federated_Planner Sample_Journeys
begin

text \<open>
  Properties of the federated planner: how a try ends, what a stitched journey is made of, that it keeps
  the connection time and is a valid journey, what the ranking leaves out, the order of the hubs, and
  the cache of served codes. The example is Paris to Fribourg through Bern.
\<close>

section \<open>An example\<close>

definition timed_journey :: "str \<Rightarrow> str \<Rightarrow> str \<Rightarrow> str \<Rightarrow> int \<Rightarrow> int \<Rightarrow> canonical_journey" where
  "timed_journey i n a b dep arr = (sample_journey i [sample_leg n a b dep arr])
     \<lparr>j_departure := Some (sample_at dep), j_arrival := Some (sample_at arr), j_duration_seconds := (arr - dep) * 60\<rparr>"

definition fed_feeds :: "str \<Rightarrow> str list" where
  "fed_feeds i = (if i = ''corridors'' then [''8700011'', ''8507000''] else if i = ''rail'' then [''8507000'', ''8504100''] else [])"

definition fed_engine :: "leg_query \<Rightarrow> canonical_journey list option" where
  "fed_engine q = (if lq_session_id q = ''corridors'' then (if lq_when q \<le> 0 then Some [timed_journey ''t1'' ''9261'' ''8700011'' ''8507000'' 0 240] else None)
     else if lq_when q \<le> 15000000000 then Some [timed_journey ''t2'' ''513'' ''8507000'' ''8504100'' 250 272] else None)"

definition fed_sample :: fed_world where
  "fed_sample = \<lparr>fw_read_stop_ids = fed_feeds,
     fw_master = [(''8507000'', Some 46, Some 7), (''8504100'', Some 46, Some 7)], fw_fetch = fed_engine\<rparr>"

definition fed_sessions :: "fed_session list" where
  "fed_sessions = [\<lparr>fs_id = ''corridors'', fs_providers = []\<rparr>, \<lparr>fs_id = ''rail'', fs_providers = []\<rparr>]"

definition paris_fribourg :: fed_request where
  "paris_fribourg = \<lparr>fq_origin_uic = Some ''8700011'', fq_dest_uic = Some ''8504100'', fq_when = 0, fq_timeout_ms = 5000,
     fq_tz_for = (\<lambda>_. None), fq_existing_fingerprints = {}, fq_mct_seconds = DEFAULT_MCT_SECONDS,
     fq_origin_position = Some (48, 2), fq_dest_position = None\<rparr>"

definition sample_clock :: clock where
  "sample_clock = \<lparr>ck_fromisoformat = (\<lambda>_. None), ck_local = (\<lambda>t. t)\<rparr>"

lemma fed_feed_codes: "feed_codes fed_feeds ''corridors'' = {''8700011'', ''8507000''}" "feed_codes fed_feeds ''rail'' = {''8507000'', ''8504100''}"
  by code_simp+

lemma fed_serving:
  "serving fed_sample fed_sessions ''8700011'' = [\<lparr>fs_id = ''corridors'', fs_providers = []\<rparr>]"
  "serving fed_sample fed_sessions ''8504100'' = [\<lparr>fs_id = ''rail'', fs_providers = []\<rparr>]"
  by (simp_all add: serving_def fed_sessions_def fed_sample_def fed_feed_codes)

lemma fed_codes: "origin_code paris_fribourg = ''8700011''" "dest_code paris_fribourg = ''8504100''" "\<not> no_trip paris_fribourg"
  by (simp_all add: paris_fribourg_def no_trip_def)

lemma fed_hubs: "shared_hubs fed_sample fed_sessions paris_fribourg = {''8507000''}"
  unfolding shared_hubs_def fed_codes fed_serving by (auto simp: fed_sample_def fed_feed_codes)

lemma fed_master: "master_coords fed_sample fed_sessions paris_fribourg = [''8507000'' \<mapsto> (46, 7), ''8504100'' \<mapsto> (46, 7)]"
  unfolding master_coords_def fed_codes fed_hubs by (simp add: fed_sample_def resolve_coords_def)

lemma fed_coords: "trip_coords fed_sample fed_sessions paris_fribourg = [''8507000'' \<mapsto> (46, 7), ''8504100'' \<mapsto> (46, 7), ''8700011'' \<mapsto> (48, 2)]"
  unfolding trip_coords_def fed_master fed_codes by (auto simp: paris_fribourg_def fun_eq_iff)

definition fed_stitch :: canonical_journey where
  "fed_stitch = assemble_stitch (timed_journey ''t1'' ''9261'' ''8700011'' ''8507000'' 0 240)
     [timed_journey ''t2'' ''513'' ''8507000'' ''8504100'' 250 272] [''8507000''] [''corridors'', ''rail'']"

lemma fed_context: "trip_context fed_sample fed_sessions paris_fribourg =
    \<lparr>lc_coords = [''8507000'' \<mapsto> (46, 7), ''8504100'' \<mapsto> (46, 7), ''8700011'' \<mapsto> (48, 2)], lc_timeout_ms = 5000, lc_tz_for = (\<lambda>_. None)\<rparr>"
  unfolding trip_context_def fed_coords by (simp add: paris_fribourg_def)

lemma fed_trip: "trip_of paris_fribourg = \<lparr>ft_origin_uic = ''8700011'', ft_dest_uic = ''8504100'', ft_when = 0, ft_mct_seconds = 600\<rparr>"
  by (simp add: trip_of_def paris_fribourg_def DEFAULT_MCT_SECONDS_def)

lemma fed_world_simps: "fw_fetch fed_sample = fed_engine" "fw_read_stop_ids fed_sample = fed_feeds" "fs_id ` set fed_sessions = {''corridors'', ''rail''}"
  by (simp_all add: fed_sample_def fed_sessions_def)

lemma fed_stitches: "stitches_of fed_sample fed_sessions paris_fribourg = [fed_stitch]"
proof -
  have "rank_hubs {''8507000''} (trip_coords fed_sample fed_sessions paris_fribourg) ''8700011'' ''8504100'' = [''8507000'']"
    by (subst rank_hubs_known) (simp_all add: fed_coords known_hubs_def conj_commute cong: conj_cong)
  then show ?thesis
    unfolding stitches_of_def fed_codes fed_serving fed_context fed_trip fed_world_simps fed_coords
    by (simp add: collect_stitches_def pair_hubs_def served_of_def connection_hubs_def fed_feed_codes MAX_HUBS_def MAX_LEG1_OPTIONS_def
        stitch_pair_def map_filter_def fetch_leg_def fed_engine_def stitch_at_hub_def earliest_next_departure_def timed_journey_def
        sample_journey_def sample_at_def fed_stitch_def)
qed

section \<open>Properties\<close>

lemma fed_cache_empty: "holds_only f Map.empty"
  by (simp add: holds_only_def)

text \<open>C10: with a cache that holds only what the feeds say, a try ends exactly as the feeds, the
  \<open>master_stations\<close> rows and the request's positions decide: no try without two different codes;
  \<open>code_not_served\<close> with the ends no feed serves; \<open>no_shared_hub\<close>; \<open>position_missing\<close> with the ends
  that have no position; else planned, from the request's positions when a row is missing. Only a planned
  try gives journeys, at most five. The cache it leaves still holds only what the feeds say, and a second
  try with it ends the same way with the same journeys.\<close>

theorem federated_outcome:
  assumes "holds_only (feed_codes (fw_read_stop_ids w)) cache"
  shows "case plan_federated rt ck w cache sessions req of (oc, js, cache') \<Rightarrow>
     oc = outcome_of w sessions req \<and> (js = [] \<or> goes_on oc) \<and> length js \<le> MAX_RESULTS
     \<and> holds_only (feed_codes (fw_read_stop_ids w)) cache'
     \<and> fst (plan_federated rt ck w cache' sessions req) = oc \<and> fst (snd (plan_federated rt ck w cache' sessions req)) = js"
proof -
  from plan_federated_outcome [OF assms, of rt ck sessions req] obtain c1 where c1: "holds_only (feed_codes (fw_read_stop_ids w)) c1"
    "plan_federated rt ck w cache sessions req = (outcome_of w sessions req, if goes_on (outcome_of w sessions req)
       then dedup_and_rank rt ck (stitches_of w sessions req) (fq_existing_fingerprints req) MAX_RESULTS else [], c1)" by blast
  from plan_federated_outcome [OF c1(1), of rt ck sessions req] obtain c2 where c2:
    "plan_federated rt ck w c1 sessions req = (outcome_of w sessions req, if goes_on (outcome_of w sessions req)
       then dedup_and_rank rt ck (stitches_of w sessions req) (fq_existing_fingerprints req) MAX_RESULTS else [], c2)" by blast
  have "length (dedup_and_rank rt ck ss ex MAX_RESULTS) \<le> MAX_RESULTS" for ss ex
    using dedup_and_rank_shape [of rt ck ss ex MAX_RESULTS] by (simp add: MAX_RESULTS_def)
  then show ?thesis unfolding c1(2) using c1(1) c2 by simp
qed

theorem federated_outcome_witness:
  "case plan_federated ascii_runtime sample_clock fed_sample Map.empty fed_sessions paris_fribourg of (oc, js, cache') \<Rightarrow>
     oc = outcome_of fed_sample fed_sessions paris_fribourg \<and> length js \<le> MAX_RESULTS"
  using federated_outcome [OF fed_cache_empty, where w = fed_sample and rt = ascii_runtime and ck = sample_clock and sessions = fed_sessions and req = paris_fribourg]
  by (auto split: prod.splits)

text \<open>
  What the code relies on of an engine: its journeys passed the canonical model's validation, and leave
  at or after the instant asked.
\<close>

definition engine_answers_after :: "(leg_query \<Rightarrow> canonical_journey list option) \<Rightarrow> bool" where
  "engine_answers_after fetch = (\<forall>q js j. fetch q = Some js \<and> j \<in> set js \<longrightarrow>
     valid_journey j \<and> opt_all (\<lambda>d. lq_when q \<le> timetabled d) (j_departure j))"

lemma fetch_leg_answers:
  assumes "j \<in> set (fetch_leg fetch ctx s frm to dep)" "engine_answers_after fetch"
  shows "valid_journey j \<and> opt_all (\<lambda>d. dep \<le> timetabled d) (j_departure j)"
proof -
  from assms(1) obtain q js where "fetch q = Some js" "j \<in> set js" "lq_when q = dep"
    unfolding fetch_leg_def by (force split: option.splits dest: sym)
  with assms(2) show ?thesis unfolding engine_answers_after_def by blast
qed

lemma stitch_found_answers:
  assumes "stitch_found fetch ctx so sd trip hub t1 t2" "engine_answers_after fetch"
  shows "valid_journey t1 \<and> valid_journey t2 \<and> (\<exists>a. j_arrival t1 = Some a \<and>
     opt_all (\<lambda>d. timetabled a + ft_mct_seconds trip * 1000000 \<le> timetabled d) (j_departure t2))"
proof -
  from assms(1) obtain a ts where a: "j_arrival t1 = Some a"
    "fetch_leg fetch ctx sd hub (ft_dest_uic trip) (timetabled a + ft_mct_seconds trip * 1000000) = t2 # ts"
    "t1 \<in> set (fetch_leg fetch ctx so (ft_origin_uic trip) hub (ft_when trip))"
    by (auto simp: stitch_found_def split: option.splits list.splits dest: in_set_takeD)
  have "t2 \<in> set (fetch_leg fetch ctx sd hub (ft_dest_uic trip) (timetabled a + ft_mct_seconds trip * 1000000))" by (simp add: a(2))
  from fetch_leg_answers [OF this assms(2)] fetch_leg_answers [OF a(3) assms(2)] a(1) show ?thesis by blast
qed

lemma finite_known_trip: "finite (known_hubs hubs (trip_coords w sessions req))"
proof -
  have "finite (dom (master_coords w sessions req))" unfolding master_coords_def by (rule finite_dom_resolve)
  then have "finite (dom (master_coords w sessions req) \<union> {origin_code req, dest_code req})" by simp
  then show ?thesis
    by (rule rev_finite_subset) (auto simp: known_hubs_def trip_coords_def split: option.splits if_splits)
qed

text \<open>A hub of a pair is a station both feeds serve.\<close>

lemma pair_hubs_shared:
  assumes "hub \<in> set (pair_hubs (trip_context w sessions req) served so sd trip)"
  shows "hub \<in> served_of served so \<and> hub \<in> served_of served sd"
proof -
  have "set (rank_hubs hubs (trip_coords w sessions req) o' d) \<subseteq> hubs" for hubs o' d
  proof (cases "trip_coords w sessions req o' = None \<or> trip_coords w sessions req d = None")
    case True
    then show ?thesis by (simp add: rank_hubs_unknown)
  next
    case False
    then show ?thesis using rank_hubs_order(1) [OF finite_known_trip] by (auto simp: known_hubs_def)
  qed
  then show ?thesis using assms unfolding pair_hubs_def trip_context_def connection_hubs_def
    by (fastforce dest: in_set_takeD)
qed


lemma fed_engine_answers: "engine_answers_after fed_engine"
  by (auto simp: engine_answers_after_def fed_engine_def timed_journey_def sample_journey_def sample_at_def sample_leg_def sample_stop_def
      valid_journey_def valid_leg_def service_on_timed_legs_only_def valid_location_def valid_stop_place_def is_decimal_def split: if_splits)

lemma fed_goes_on: "goes_on (outcome_of fed_sample fed_sessions paris_fribourg)"
  unfolding outcome_of_def goes_on_def Let_def fed_codes fed_serving fed_hubs fed_coords fed_master using fed_codes(3) by simp

lemma fed_returns: "fed_stitch \<in> set (fst (snd (plan_federated ascii_runtime sample_clock fed_sample Map.empty fed_sessions paris_fribourg)))"
proof -
  have "dedup_and_rank ascii_runtime sample_clock [fed_stitch] {} MAX_RESULTS = [fed_stitch]"
    by (simp add: dedup_and_rank_def MAX_RESULTS_def Let_def)
  moreover have "fq_existing_fingerprints paris_fribourg = {}" by (simp add: paris_fribourg_def)
  ultimately show ?thesis
    using plan_federated_outcome [OF fed_cache_empty, of fed_sample ascii_runtime sample_clock fed_sessions paris_fribourg] fed_goes_on
    by (auto simp: fed_stitches)
qed


text \<open>\<open>dedup_and_rank\<close> returns stitches in rank order (ride time plus twenty minutes a change, then
  the arrival), no two with the same rides and none a session already returned; and a stitch it leaves
  out repeats the rides of a session's journey or of a returned one that ranks at least as well, or the
  list is full of stitches that rank at least as well.\<close>

theorem dedup_and_rank_keeps_best:
  assumes "0 < limit"
  shows "sorted (map stitch_rank_key (dedup_and_rank rt ck stitches existing limit))
     \<and> length (dedup_and_rank rt ck stitches existing limit) \<le> limit
     \<and> set (dedup_and_rank rt ck stitches existing limit) \<subseteq> set stitches
     \<and> distinct (filter (\<lambda>f. f \<noteq> []) (map (fp_of rt ck) (dedup_and_rank rt ck stitches existing limit)))
     \<and> (\<forall>s \<in> set (dedup_and_rank rt ck stitches existing limit). fp_of rt ck s = [] \<or> fp_of rt ck s \<notin> existing)
     \<and> (\<forall>s \<in> set stitches - set (dedup_and_rank rt ck stitches existing limit).
          fp_repeats rt ck existing (dedup_and_rank rt ck stitches existing limit) s
          \<or> length (dedup_and_rank rt ck stitches existing limit) = limit
             \<and> (\<forall>o' \<in> set (dedup_and_rank rt ck stitches existing limit). stitch_rank_key o' \<le> stitch_rank_key s))"
proof -
  have "max 1 limit = limit" using assms by simp
  then show ?thesis
    using dedup_and_rank_shape [of rt ck stitches existing limit] dedup_and_rank_leaves_out [of _ stitches rt ck existing limit]
    by auto
qed

theorem dedup_and_rank_keeps_best_witness:
  "length (dedup_and_rank ascii_runtime sample_clock [fed_stitch, fed_stitch] {} MAX_RESULTS) \<le> 5
   \<and> set (dedup_and_rank ascii_runtime sample_clock [fed_stitch, fed_stitch] {} MAX_RESULTS) \<subseteq> {fed_stitch}"
  using dedup_and_rank_keeps_best [of MAX_RESULTS ascii_runtime sample_clock "[fed_stitch, fed_stitch]" "{}"]
  by (simp add: MAX_RESULTS_def)

text \<open>Where both ends have a position, \<open>rank_hubs\<close> lists each hub with a position once, hubs of the
  destination's country first, each group by the detour through the hub, then by code; where an end has
  none it lists nothing.\<close>

theorem rank_hubs_best_first:
  assumes "finite hub_uics"
  shows "if coords origin_uic = None \<or> coords dest_uic = None then rank_hubs hub_uics coords origin_uic dest_uic = []
     else set (rank_hubs hub_uics coords origin_uic dest_uic) = {u \<in> hub_uics. coords u \<noteq> None}
       \<and> distinct (rank_hubs hub_uics coords origin_uic dest_uic)
       \<and> sorted_wrt (\<lambda>u v. let detour = (\<lambda>x. haversine_km (the (coords origin_uic)) (the (coords x)) + haversine_km (the (coords x)) (the (coords dest_uic)));
             home = (\<lambda>x. uic_country x = uic_country dest_uic)
           in home u \<and> \<not> home v \<or> home u = home v \<and> (detour u < detour v \<or> detour u = detour v \<and> u < v))
         (rank_hubs hub_uics coords origin_uic dest_uic)"
proof (cases "coords origin_uic = None \<or> coords dest_uic = None")
  case True
  then show ?thesis by (simp add: rank_hubs_unknown)
next
  case False
  have fin: "finite (known_hubs hub_uics coords)" using assms by (simp add: known_hubs_def)
  note r = rank_hubs_order [OF fin, of origin_uic dest_uic]
  let ?T = "hub_tuple coords origin_uic dest_uic"
  have "sorted_wrt (<) (map ?T (rank_hubs hub_uics coords origin_uic dest_uic))"
    unfolding r(2) [OF False [unfolded de_Morgan_disj, THEN conjunct1] False [unfolded de_Morgan_disj, THEN conjunct2]]
    by (rule strict_sorted_list_of_set)
  then have "sorted_wrt (\<lambda>u v. ?T u < ?T v) (rank_hubs hub_uics coords origin_uic dest_uic)" by (simp add: sorted_wrt_map)
  then have "sorted_wrt (\<lambda>u v. let detour = (\<lambda>x. haversine_km (the (coords origin_uic)) (the (coords x)) + haversine_km (the (coords x)) (the (coords dest_uic)));
             home = (\<lambda>x. uic_country x = uic_country dest_uic)
           in home u \<and> \<not> home v \<or> home u = home v \<and> (detour u < detour v \<or> detour u = detour v \<and> u < v))
         (rank_hubs hub_uics coords origin_uic dest_uic)"
    by (rule sorted_wrt_mono_rel [rotated]) (auto simp: hub_tuple_def hub_score_def less_prod_simp Let_def split: if_splits)
  then show ?thesis unfolding if_not_P [OF False] using False r by (auto simp: known_hubs_def)
qed

theorem rank_hubs_best_first_witness:
  "set (rank_hubs {''8507000'', ''8700011''} [''8507000'' \<mapsto> (46, 7), ''8504100'' \<mapsto> (46, 7)] ''8507000'' ''8504100'') = {''8507000''}"
  using rank_hubs_best_first [of "{''8507000'', ''8700011''}" "[''8507000'' \<mapsto> (46, 7), ''8504100'' \<mapsto> (46, 7)]" "''8507000''" "''8504100''"]
  by auto

section \<open>A stale cache\<close>

text \<open>
  No code drops a cached set when a session's feed is replaced, though the comment on the cache says it is
  invalidated on a promote: a session whose feed now serves both ends' hub is still planned with the old set.
\<close>

lemma stale_cache_refuses:
  "fst (plan_federated rt ck fed_sample [''corridors'' \<mapsto> {}] fed_sessions paris_fribourg) = Some (Code_not_served Origin_end)
   \<and> goes_on (outcome_of fed_sample fed_sessions paris_fribourg)
   \<and> goes_on (fst (plan_federated rt ck fed_sample (invalidate_served_uics_cache [''corridors'' \<mapsto> {}] (Some ''corridors'')) fed_sessions paris_fribourg))"
proof -
  have rail: "served_uics [(Some ''8507000'', None, None), (Some ''8504100'', None, None)] = {''8507000'', ''8504100''}" by code_simp
  have "fst (plan_federated rt ck fed_sample [''corridors'' \<mapsto> {}] fed_sessions paris_fribourg) = Some (Code_not_served Origin_end)"
    by (simp add: plan_federated_def paris_fribourg_def fed_sample_def fed_sessions_def session_served_uics_def Let_def fed_feeds_def
        served_of_def ends_lacking_def rail)
  moreover have "(invalidate_served_uics_cache [''corridors'' \<mapsto> {}] (Some ''corridors'')) = Map.empty"
    by (auto simp: invalidate_served_uics_cache_def)
  moreover have "goes_on (fst (plan_federated rt ck fed_sample Map.empty fed_sessions paris_fribourg))"
    using plan_federated_outcome [OF fed_cache_empty, of fed_sample rt ck fed_sessions paris_fribourg] fed_goes_on by auto
  ultimately show ?thesis using fed_goes_on by simp
qed

end
