(* ===== verification/Hafas_Ids.thy ===== *)
theory Hafas_Ids
  imports Stop_Tokens Json_Values Match_Reasons
begin

text \<open>
  What the coverage check reads in a HAFAS answer, \<open>app/network_coverage/external_verify.py\<close>: the
  station id of a location (\<open>oebb_stop_id\<close>), durations, error codes and the verdict of a connection
  list. An \<open>extId\<close> is given as the text \<open>str()\<close> makes of it; a connection by its two entries.
\<close>

section \<open>Station ids\<close>

definition SCHEME_UIC :: str where "SCHEME_UIC = ''UIC:''"
definition SCHEME_OEBB :: str where "SCHEME_OEBB = ''OEBB:''"
definition MAX_OPAQUE_PAYLOAD_CHARS :: nat where "MAX_OPAQUE_PAYLOAD_CHARS = 64"

definition drop_zeros :: "str \<Rightarrow> str" where "drop_zeros s = dropWhile (\<lambda>c. c = CHR ''0'') s"

text \<open>\<open>\A0*([1-9]\d{6,7})\Z\<close>: the group, when the whole text matches.\<close>

definition OEBB_UIC_RE :: "str \<Rightarrow> str option" where
  "OEBB_UIC_RE raw = (let core = drop_zeros raw in
     if (length core = 7 \<or> length core = 8) \<and> list_all is_decimal core then Some core else None)"

fun split_on :: "char \<Rightarrow> str \<Rightarrow> str list" where
  "split_on c [] = [[]]"
| "split_on c (x # xs) = (if x = c then [] # split_on c xs
     else (case split_on c xs of [] \<Rightarrow> [[x]] | seg # segs \<Rightarrow> (x # seg) # segs))"

fun field_of :: "str \<Rightarrow> str list \<Rightarrow> str option" where
  "field_of prefix [] = None"
| "field_of prefix (seg # segs) =
     (if starts_with seg prefix then none_if_empty (py_strip (drop (length prefix) seg)) else field_of prefix segs)"

definition lid_field :: "str option \<Rightarrow> str \<Rightarrow> str option" where
  "lid_field lid key = (if \<not> truthy lid then None else field_of (key @ ''='') (split_on (CHR ''@'') (or_empty lid)))"

definition oebb_opaque_payload :: "str \<Rightarrow> str" where
  "oebb_opaque_payload raw =
     (let value = take MAX_OPAQUE_PAYLOAD_CHARS (py_strip raw)
      in if py_isdigit value then (if drop_zeros value = [] then ''0'' else drop_zeros value) else value)"

record oebb_id =
  oi_token :: "str option"
  oi_raw :: "str option"
  oi_source :: "str option"

definition oebb_stop_id :: "str option \<Rightarrow> str option \<Rightarrow> oebb_id" where
  "oebb_stop_id ext_id lid =
     (let given = (case ext_id of Some e \<Rightarrow> py_strip e | None \<Rightarrow> []);
          (raw, src) = (if given \<noteq> [] then (given, ''extid'') else (or_empty (lid_field lid ''L''), ''lid_L''))
      in if raw = [] then \<lparr>oi_token = None, oi_raw = None, oi_source = None\<rparr>
         else (case OEBB_UIC_RE raw of
             Some m \<Rightarrow> \<lparr>oi_token = Some (SCHEME_UIC @ take 7 m), oi_raw = Some raw, oi_source = Some src\<rparr>
           | None \<Rightarrow> \<lparr>oi_token = Some (SCHEME_OEBB @ oebb_opaque_payload raw), oi_raw = Some raw, oi_source = Some src\<rparr>))"

definition extract_uic :: "str option \<Rightarrow> str option" where
  "extract_uic stop_id = (if \<not> truthy stop_id then None
     else map_option (\<lambda>m. ''UIC:'' @ take 7 m) (UIC_RE (or_empty stop_id)))"

section \<open>Durations, errors and verdicts\<close>

definition coord_to_micro :: "real \<Rightarrow> int" where
  "coord_to_micro v = round_half_even (v * 1000000)"

definition HAFAS_ERROR_MESSAGES :: "(str \<times> str) list" where
  "HAFAS_ERROR_MESSAGES = [
     (''H9220'', ''no station found near the supplied coordinates''),
     (''H9230'', [char_of (214 :: nat)] @ ''BB backend internal error''),
     (''H9240'', [char_of (214 :: nat)] @ ''BB backend search timeout''),
     (''H9250'', ''the combination of train products is not allowed''),
     (''H9300'', ''internal error during address search'')]"

definition translate_hafas_error :: "str \<Rightarrow> str" where
  "translate_hafas_error code = (case map_of HAFAS_ERROR_MESSAGES code of
     Some friendly \<Rightarrow> if friendly \<noteq> [] then friendly else ''hafas svc: '' @ code
   | None \<Rightarrow> ''hafas svc: '' @ code)"

text \<open>\<open>str.zfill\<close> keeps a sign in front of the zeros.\<close>

definition zfill :: "nat \<Rightarrow> str \<Rightarrow> str" where
  "zfill w s = (let fill = replicate (w - length s) (CHR ''0'') in
     if s \<noteq> [] \<and> (hd s = CHR ''+'' \<or> hd s = CHR ''-'') then hd s # fill @ tl s else fill @ s)"

definition parse_hafas_duration :: "str option \<Rightarrow> int option" where
  "parse_hafas_duration value =
     (if \<not> truthy value then None
      else (let s = zfill 6 (or_empty value); n = length s - 6;
                days_part = (if take n s = [] then ''0'' else take n s); hhmmss = drop n s
            in case (py_int days_part, py_int (take 2 hhmmss), py_int (take 2 (drop 2 hhmmss)), py_int (take 2 (drop 4 hhmmss))) of
                 (Some days, Some hours, Some mins, Some secs) \<Rightarrow> Some (days * 86400 + hours * 3600 + mins * 60 + secs)
               | _ \<Rightarrow> None))"

record hafas_connection =
  hc_dur :: "str option"
  hc_chg :: "json option"

record verify_result =
  vr_ok :: bool
  vr_num_connections :: nat
  vr_best_duration_seconds :: "int option"
  vr_best_transfers :: "int option"

text \<open>The index of the first least element: \<open>min(range(len(xs)), key=xs.__getitem__)\<close>.\<close>

definition min_index :: "int list \<Rightarrow> nat option" where
  "min_index xs = min_by (\<lambda>i. xs ! i) [0..<length xs]"

definition summarise_connections :: "hafas_connection list \<Rightarrow> verify_result" where
  "summarise_connections connections =
     (if connections = [] then \<lparr>vr_ok = False, vr_num_connections = 0, vr_best_duration_seconds = None, vr_best_transfers = None\<rparr>
      else (let parsed_durations = List.map_filter (\<lambda>c. parse_hafas_duration (hc_dur c)) connections;
                parsed_transfers = List.map_filter (\<lambda>c. as_int (hc_chg c)) connections;
                best_idx = min_index parsed_durations
            in \<lparr>vr_ok = True, vr_num_connections = length connections,
                vr_best_duration_seconds = map_option (\<lambda>i. parsed_durations ! i) best_idx,
                vr_best_transfers = (case best_idx of None \<Rightarrow> None
                  | Some i \<Rightarrow> if i < length parsed_transfers then Some (parsed_transfers ! i) else None)\<rparr>))"

section \<open>Lemmas\<close>

lemma drop_zeros_le: "length (drop_zeros s) \<le> length s"
  by (simp add: drop_zeros_def length_dropWhile_le)

lemma drop_zeros_all: "list_all P s \<Longrightarrow> list_all P (drop_zeros s)"
  by (auto simp: drop_zeros_def list_all_iff dest: set_dropWhileD)

text \<open>What is stripped starts and ends with no blank, so stripping it again changes nothing.\<close>

lemma py_strip_ends:
  assumes "py_strip s \<noteq> []"
  shows "\<not> is_space (hd (py_strip s))" "\<not> is_space (last (py_strip s))"
proof -
  let ?u = "dropWhile is_space s"
  let ?w = "dropWhile is_space (rev ?u)"
  have w: "py_strip s = rev ?w" by (simp add: py_strip_def)
  with assms have ne: "?w \<noteq> []" by simp
  show "\<not> is_space (last (py_strip s))" using hd_dropWhile [OF ne] by (simp add: w last_rev ne)
  have "rev ?u = takeWhile is_space (rev ?u) @ ?w" by simp
  then have "?u = rev ?w @ rev (takeWhile is_space (rev ?u))" by (metis rev_append rev_rev_ident)
  then have "hd ?u = hd (rev ?w)" using ne by (metis hd_append rev_is_Nil_conv)
  moreover have "?u \<noteq> []"
  proof
    assume "?u = []"
    then show False using ne by (simp only: rev.simps dropWhile.simps)
  qed
  ultimately show "\<not> is_space (hd (py_strip s))" using hd_dropWhile [of is_space s] by (simp add: w)
qed

lemma py_strip_idem [simp]: "py_strip (py_strip s) = py_strip s"
proof (cases "py_strip s = []")
  case False
  then show ?thesis using py_strip_ends by (intro py_strip_no_space)
next
  case True
  have "py_strip [] = []" by (simp add: py_strip_def)
  then show ?thesis by (simp only: True)
qed

lemma field_of_stripped: "field_of p segs = Some v \<Longrightarrow> py_strip v = v \<and> v \<noteq> []"
  by (induction segs) (auto split: if_splits)

text \<open>The id that is classified, and the field it comes from.\<close>

definition chosen_id :: "str option \<Rightarrow> str option \<Rightarrow> str \<times> str" where
  "chosen_id ext_id lid = (if (case ext_id of Some e \<Rightarrow> py_strip e | None \<Rightarrow> []) \<noteq> []
     then (case ext_id of Some e \<Rightarrow> py_strip e | None \<Rightarrow> [], ''extid'') else (or_empty (lid_field lid ''L''), ''lid_L''))"

lemma chosen_id_stripped: "py_strip (fst (chosen_id ext_id lid)) = fst (chosen_id ext_id lid)"
proof -
  have "py_strip (or_empty (lid_field lid k)) = or_empty (lid_field lid k)" for k
    using field_of_stripped by (cases "lid_field lid k") (auto simp: py_strip_def lid_field_def split: if_splits)
  then show ?thesis by (simp add: chosen_id_def split: option.splits)
qed

lemma oebb_stop_id_chosen:
  "oebb_stop_id ext_id lid = (let raw = fst (chosen_id ext_id lid); src = snd (chosen_id ext_id lid) in
     if raw = [] then \<lparr>oi_token = None, oi_raw = None, oi_source = None\<rparr>
     else \<lparr>oi_token = Some (case OEBB_UIC_RE raw of Some m \<Rightarrow> SCHEME_UIC @ take 7 m | None \<Rightarrow> SCHEME_OEBB @ oebb_opaque_payload raw),
           oi_raw = Some raw, oi_source = Some src\<rparr>)"
  by (simp add: oebb_stop_id_def chosen_id_def Let_def split: option.splits)

lemma oebb_uic_core: "OEBB_UIC_RE raw = Some m \<Longrightarrow> m = drop_zeros raw \<and> list_all is_decimal m \<and> (length m = 7 \<or> length m = 8)"
  by (auto simp: OEBB_UIC_RE_def Let_def split: if_splits)

lemma opaque_payload_length:
  "raw \<noteq> [] \<Longrightarrow> py_strip raw = raw \<Longrightarrow> 1 \<le> length (oebb_opaque_payload raw) \<and> length (oebb_opaque_payload raw) \<le> 64"
  using drop_zeros_le [of "take 64 raw"]
  by (auto simp: oebb_opaque_payload_def MAX_OPAQUE_PAYLOAD_CHARS_def Let_def Suc_le_eq)

text \<open>A run of seven or eight digits alone is the code every reader of an id finds in it.\<close>

lemma uic_re_whole: "list_all is_decimal m \<Longrightarrow> length m = 7 \<or> length m = 8 \<Longrightarrow> UIC_RE m = Some m"
  using digit_runs_run [of "[]" m "[]"] by (cases "m = []") (auto simp: UIC_RE_def)

lemma oebb_digit_payload_not_uic:
  assumes "raw \<noteq> []" "py_strip raw = raw" "length raw \<le> 64" "OEBB_UIC_RE raw = None" "list_all is_decimal (oebb_opaque_payload raw)"
  shows "uic_from_stop_id (Some (SCHEME_OEBB @ oebb_opaque_payload raw)) = None"
proof -
  let ?p = "oebb_opaque_payload raw"
  have v: "take MAX_OPAQUE_PAYLOAD_CHARS (py_strip raw) = raw" using assms(2,3) by (simp add: MAX_OPAQUE_PAYLOAD_CHARS_def)
  have pe: "?p = (if py_isdigit raw then (if drop_zeros raw = [] then ''0'' else drop_zeros raw) else raw)"
    by (simp only: oebb_opaque_payload_def v Let_def)
  have dz: "drop_zeros (drop_zeros raw) = drop_zeros raw" by (simp add: drop_zeros_def dropWhile_idem)
  have len: "length ?p \<noteq> 7 \<and> length ?p \<noteq> 8"
  proof (cases "py_isdigit raw")
    case True
    then show ?thesis using assms(4,5) pe by (auto simp: OEBB_UIC_RE_def Let_def split: if_splits)
  next
    case False
    then have "list_all is_decimal raw" using assms(5) pe by simp
    then have "py_isdigit raw" using assms(1) by (auto simp: py_isdigit_def list_all_iff is_digit_char_def)
    with False show ?thesis by simp
  qed
  have o: "list_all (\<lambda>c. \<not> is_decimal c) SCHEME_OEBB" by (simp add: SCHEME_OEBB_def is_decimal_def)
  have "?p \<noteq> []" using opaque_payload_length [OF assms(1,2)] by auto
  with digit_runs_run [OF o assms(5), of "[]"] have "digit_runs (SCHEME_OEBB @ ?p) = [?p]" by (simp add: digit_runs_def)
  then have "UIC_RE (SCHEME_OEBB @ ?p) = None" using len by (simp add: UIC_RE_def)
  moreover have "\<not> starts_with (SCHEME_OEBB @ ?p) SWISS_SLOID_PREFIX" by (simp add: starts_with_def SCHEME_OEBB_def SWISS_SLOID_PREFIX_def)
  ultimately show ?thesis by (simp add: uic_from_stop_id_def)
qed

subsection \<open>Durations\<close>

lemma py_int_digits:
  assumes "ds \<noteq> []" "list_all is_decimal ds"
  shows "py_int ds = Some (int (digits_value ds))"
proof -
  have h: "is_decimal (hd ds)" "is_decimal (last ds)" using assms by (auto simp: list_all_iff)
  then have "py_strip ds = ds" using assms(1) is_decimal_not_space by (intro py_strip_no_space) auto
  moreover have "hd ds \<noteq> CHR ''-''" "hd ds \<noteq> CHR ''+''" using h(1) by (auto simp: is_decimal_def)
  ultimately show ?thesis using assms underscores_ok_decimal by (simp add: py_int_def Let_def)
qed

lemma digits_value_zeros: "digits_value (replicate k (CHR ''0'') @ ds) = digits_value ds"
  by (induction k) (simp_all add: digits_value_def is_decimal_def)

lemma py_int_zero_pad: "py_int (zero_pad w n) = Some (int n)"
proof -
  have "list_all is_decimal (zero_pad w n)"
    using show_nat_decimal [of n] by (auto simp: zero_pad_def list_all_iff is_decimal_def)
  then have "py_int (zero_pad w n) = Some (int (digits_value (zero_pad w n)))" by (intro py_int_digits) (simp_all add: zero_pad_def)
  also have "digits_value (zero_pad w n) = n" unfolding zero_pad_def digits_value_zeros by (rule digits_value_show_nat)
  finally show ?thesis .
qed

end
