(* ===== verification/Hafas_Properties.thy ===== *)
theory Hafas_Properties
  imports Hafas_Ids
begin

text \<open>
  Properties of what the coverage check reads in a HAFAS answer: the three states of a station id and
  their parity with the other id readers, the durations, the verdict of a connection list.
\<close>

section \<open>Station ids\<close>

text \<open>\<open>oebb_stop_id\<close> gives no token exactly when there is no id; else a canonical token, which every
  later token rule keeps as it is: for an id that is seven or eight digits after its zeros, the code
  \<open>extract_uic\<close> and the fingerprint find in those digits, else the opaque form.\<close>

theorem oebb_stop_id_contract:
  "case oi_token (oebb_stop_id ext_id lid) of
     None \<Rightarrow> oebb_stop_id ext_id lid = \<lparr>oi_token = None, oi_raw = None, oi_source = None\<rparr> \<and> fst (chosen_id ext_id lid) = []
   | Some t \<Rightarrow> \<exists>raw. raw \<noteq> [] \<and> oi_raw (oebb_stop_id ext_id lid) = Some raw \<and> (raw, the (oi_source (oebb_stop_id ext_id lid))) = chosen_id ext_id lid
       \<and> CANONICAL_TOKEN_RE t \<and> stop_token (Some t) la lo code = t
       \<and> (case OEBB_UIC_RE raw of
            Some m \<Rightarrow> extract_uic (Some m) = Some t \<and> map_option (\<lambda>u. ''UIC:'' @ u) (uic_from_stop_id (Some m)) = Some t
          | None \<Rightarrow> starts_with t ''OEBB:'')"
proof (cases "fst (chosen_id ext_id lid) = []")
  case True
  then show ?thesis by (simp add: oebb_stop_id_chosen)
next
  case False
  let ?raw = "fst (chosen_id ext_id lid)"
  let ?t = "case OEBB_UIC_RE ?raw of Some m \<Rightarrow> SCHEME_UIC @ take 7 m | None \<Rightarrow> SCHEME_OEBB @ oebb_opaque_payload ?raw"
  have o: "oebb_stop_id ext_id lid = \<lparr>oi_token = Some ?t, oi_raw = Some ?raw, oi_source = Some (snd (chosen_id ext_id lid))\<rparr>"
    using False by (simp add: oebb_stop_id_chosen Let_def)
  have can: "CANONICAL_TOKEN_RE ?t"
  proof (cases "OEBB_UIC_RE ?raw")
    case None
    have "starts_with (''OEBB:'' @ p) ''OEBB:''" for p by (rule starts_with_append)
    then show ?thesis using None opaque_payload_length [OF False chosen_id_stripped] by (simp add: CANONICAL_TOKEN_RE_def SCHEME_OEBB_def)
  next
    case (Some m)
    have "starts_with (''UIC:'' @ p) ''UIC:''" for p by (rule starts_with_append)
    moreover have "list_all is_decimal (take 7 m)" "length (take 7 m) = 7"
      using oebb_uic_core [OF Some] by (auto simp: list_all_iff dest: in_set_takeD)
    ultimately show ?thesis using Some by (simp add: CANONICAL_TOKEN_RE_def SCHEME_UIC_def)
  qed
  then have st: "stop_token (Some ?t) la lo code = ?t"
    by (auto simp: stop_token_def fingerprint_stop_token_def CANONICAL_TOKEN_RE_def simp del: append.simps)
  have "case OEBB_UIC_RE ?raw of
            Some m \<Rightarrow> extract_uic (Some m) = Some ?t \<and> map_option (\<lambda>u. ''UIC:'' @ u) (uic_from_stop_id (Some m)) = Some ?t
          | None \<Rightarrow> starts_with ?t ''OEBB:''"
  proof (cases "OEBB_UIC_RE ?raw")
    case None
    have "starts_with (''OEBB:'' @ p) ''OEBB:''" for p by (rule starts_with_append)
    then show ?thesis by (simp add: None SCHEME_OEBB_def)
  next
    case (Some m)
    have "m \<noteq> []" "UIC_RE m = Some m" using oebb_uic_core [OF Some] uic_re_whole by auto
    then show ?thesis by (simp add: Some extract_uic_def uic_from_stop_id_def SCHEME_UIC_def)
  qed
  then show ?thesis using False can st by (simp add: o)
qed

text \<open>The opaque form of an id of at most 64 characters is never read back as a UIC code: where its
  payload is all digits, no later reader of the token finds one in it.\<close>

theorem oebb_payload_never_uic:
  assumes "oi_token (oebb_stop_id ext_id lid) = Some (''OEBB:'' @ payload)" "oi_raw (oebb_stop_id ext_id lid) = Some raw"
    and "length raw \<le> 64" "list_all is_decimal payload"
  shows "uic_from_stop_id (Some (''OEBB:'' @ payload)) = None \<and> extract_uic (Some (''OEBB:'' @ payload)) = None"
proof -
  have raw: "raw = fst (chosen_id ext_id lid)" "raw \<noteq> []" using assms(2) by (auto simp: oebb_stop_id_chosen Let_def split: if_splits)
  have n: "OEBB_UIC_RE raw = None" "payload = oebb_opaque_payload raw"
    using assms(1) raw by (auto simp: oebb_stop_id_chosen Let_def SCHEME_UIC_def SCHEME_OEBB_def split: option.splits)
  have "py_strip raw = raw" using raw(1) chosen_id_stripped by simp
  from oebb_digit_payload_not_uic [OF raw(2) this assms(3) n(1)] assms(4)
  have u: "uic_from_stop_id (Some (''OEBB:'' @ payload)) = None" by (simp add: n(2) SCHEME_OEBB_def)
  then have "UIC_RE (''OEBB:'' @ payload) = None" by (auto simp: uic_from_stop_id_def split: option.splits)
  with u show ?thesis by (simp add: extract_uic_def)
qed

theorem oebb_payload_never_uic_witness:
  "uic_from_stop_id (Some ''OEBB:904050'') = None \<and> extract_uic (Some ''OEBB:904050'') = None"
proof -
  have "oi_token (oebb_stop_id (Some ''00904050'') None) = Some (''OEBB:'' @ ''904050'')" "oi_raw (oebb_stop_id (Some ''00904050'') None) = Some ''00904050''"
    by code_simp+
  moreover have "length ''00904050'' \<le> 64" "list_all is_decimal ''904050''" by code_simp+
  ultimately show ?thesis using oebb_payload_never_uic [of "Some ''00904050''" None "''904050''" "''00904050''"] by simp
qed

text \<open>
  The bound is needed: the payload is cut to 64 characters before its zeros are dropped, so a longer id
  can leave seven digits, which the stated invariant excludes and a later reader takes for a UIC.
\<close>

lemma overlong_payload_reparses:
  "oi_token (oebb_stop_id (Some (replicate 57 (CHR ''0'') @ ''123456789'')) None) = Some ''OEBB:1234567''
   \<and> uic_from_stop_id (Some ''OEBB:1234567'') = Some ''1234567''"
  by code_simp

section \<open>Durations\<close>

lemma zero_pad_two: "n < 100 \<Longrightarrow> length (zero_pad 2 n) = 2"
proof -
  assume "n < 100"
  then have "length (show_nat n) \<le> 2" by (subst show_nat.simps, subst show_nat.simps) auto
  then show ?thesis by (simp add: zero_pad_def)
qed

text \<open>A duration written as days and HHMMSS reads back as its seconds.\<close>

theorem hafas_duration_roundtrip:
  assumes "hours < 100" "mins < 100" "secs < 100"
  shows "parse_hafas_duration (Some (zero_pad 2 days @ zero_pad 2 hours @ zero_pad 2 mins @ zero_pad 2 secs))
       = Some (int days * 86400 + int hours * 3600 + int mins * 60 + int secs)
     \<and> parse_hafas_duration (Some (zero_pad 2 hours @ zero_pad 2 mins @ zero_pad 2 secs))
       = Some (int hours * 3600 + int mins * 60 + int secs)"
proof -
  note l = zero_pad_two [OF assms(1)] zero_pad_two [OF assms(2)] zero_pad_two [OF assms(3)]
  have ne: "zero_pad 2 n \<noteq> []" for n by (simp add: zero_pad_def)
  have z: "zfill 6 s = s" if "6 \<le> length s" for s using that by (cases s) (simp_all add: zfill_def)
  have p: "parse_hafas_duration (Some (pre @ zero_pad 2 hours @ zero_pad 2 mins @ zero_pad 2 secs)) =
     map_option (\<lambda>d. d * 86400 + int hours * 3600 + int mins * 60 + int secs) (py_int (if pre = [] then ''0'' else pre))" for pre
    using l by (simp add: parse_hafas_duration_def z py_int_zero_pad Let_def ne split: option.splits)
  have "py_int ''0'' = Some 0" by code_simp
  then show ?thesis using p [of "zero_pad 2 days"] p [of "[]"] by (simp add: py_int_zero_pad ne)
qed

theorem hafas_duration_roundtrip_witness: "parse_hafas_duration (Some (zero_pad 2 4 @ zero_pad 2 0 @ zero_pad 2 30)) = Some 14430"
  using hafas_duration_roundtrip [of 4 0 30 0] by simp

section \<open>The verdict\<close>

lemma min_index_props:
  assumes "xs \<noteq> []"
  shows "\<exists>i < length xs. min_index xs = Some i \<and> xs ! i = Min (set xs)"
proof -
  obtain i where i: "min_index xs = Some i" using assms by (cases "min_index xs") (auto simp: min_index_def)
  have "i < length xs" using min_by_mem [OF i [unfolded min_index_def]] by simp
  moreover have "xs ! i \<le> y" if "y \<in> set xs" for y
    using that min_by_le [OF i [unfolded min_index_def]] by (auto simp: in_set_conv_nth)
  ultimately show ?thesis using i by (intro exI [of _ i]) (simp add: Min_eqI [symmetric])
qed

lemma map_filter_all: "list_all (\<lambda>x. f x \<noteq> None) xs \<Longrightarrow> List.map_filter f xs = map (\<lambda>x. the (f x)) xs"
  by (induction xs) (auto simp: map_filter_def)

text \<open>The verdict is positive exactly when there is a connection and counts them; its duration is
  the least one that parses; and where every connection has a duration that parses and a number of
  changes, its changes are those of a connection with that duration.\<close>

theorem summarise_connections_best:
  "(vr_ok (summarise_connections cs) = (cs \<noteq> [])) \<and> vr_num_connections (summarise_connections cs) = length cs
   \<and> vr_best_duration_seconds (summarise_connections cs) =
       (let ds = List.map_filter (\<lambda>c. parse_hafas_duration (hc_dur c)) cs in if ds = [] then None else Some (Min (set ds)))
   \<and> (cs \<noteq> [] \<and> list_all (\<lambda>c. parse_hafas_duration (hc_dur c) \<noteq> None \<and> as_int (hc_chg c) \<noteq> None) cs \<longrightarrow>
       (\<exists>c \<in> set cs. parse_hafas_duration (hc_dur c) = vr_best_duration_seconds (summarise_connections cs)
          \<and> as_int (hc_chg c) = vr_best_transfers (summarise_connections cs)))"
proof -
  let ?ds = "List.map_filter (\<lambda>c. parse_hafas_duration (hc_dur c)) cs" and ?ts = "List.map_filter (\<lambda>c. as_int (hc_chg c)) cs"
  have dur: "vr_best_duration_seconds (summarise_connections cs) = (if ?ds = [] then None else Some (Min (set ?ds)))"
  proof (cases "?ds = []")
    case True
    then show ?thesis by (simp add: summarise_connections_def min_index_def min_by_def Let_def)
  next
    case False
    then show ?thesis using min_index_props [OF False] by (auto simp: summarise_connections_def Let_def map_filter_def)
  qed
  have "\<exists>c \<in> set cs. parse_hafas_duration (hc_dur c) = vr_best_duration_seconds (summarise_connections cs)
          \<and> as_int (hc_chg c) = vr_best_transfers (summarise_connections cs)"
    if "cs \<noteq> []" "list_all (\<lambda>c. parse_hafas_duration (hc_dur c) \<noteq> None \<and> as_int (hc_chg c) \<noteq> None) cs"
  proof -
    have ds: "?ds = map (\<lambda>c. the (parse_hafas_duration (hc_dur c))) cs" and ts: "?ts = map (\<lambda>c. the (as_int (hc_chg c))) cs"
      using that(2) by (auto intro!: map_filter_all simp: list_all_iff)
    then have "?ds \<noteq> []" using that(1) by simp
    from min_index_props [OF this] obtain i where i: "i < length cs" "min_index ?ds = Some i" by (auto simp: ds)
    have "cs ! i \<in> set cs" using i(1) by simp
    moreover have "parse_hafas_duration (hc_dur (cs ! i)) \<noteq> None" "as_int (hc_chg (cs ! i)) \<noteq> None"
      using that(2) i(1) by (simp_all add: list_all_length)
    ultimately show ?thesis using i that(1) by (intro bexI [of _ "cs ! i"]) (auto simp: summarise_connections_def Let_def ds ts)
  qed
  then show ?thesis using dur by (simp add: summarise_connections_def Let_def)
qed

theorem summarise_connections_best_witness:
  "vr_best_transfers (summarise_connections [\<lparr>hc_dur = Some ''020000'', hc_chg = Some (JInt 0)\<rparr>, \<lparr>hc_dur = Some ''010000'', hc_chg = Some (JInt 2)\<rparr>]) \<noteq> None"
proof -
  let ?cs = "[\<lparr>hc_dur = Some ''020000'', hc_chg = Some (JInt 0)\<rparr>, \<lparr>hc_dur = Some ''010000'', hc_chg = Some (JInt 2)\<rparr>]"
  have "list_all (\<lambda>c. parse_hafas_duration (hc_dur c) \<noteq> None \<and> as_int (hc_chg c) \<noteq> None) ?cs" by code_simp
  with summarise_connections_best [of ?cs] obtain c where "c \<in> set ?cs" "as_int (hc_chg c) = vr_best_transfers (summarise_connections ?cs)" by blast
  then show ?thesis by (auto simp: as_int_def dest: sym)
qed

text \<open>
  Without that, the changes can be another connection's: the two lists leave out different connections
  and are read at one index.
\<close>

lemma transfers_of_another_connection:
  "vr_best_duration_seconds (summarise_connections [\<lparr>hc_dur = None, hc_chg = Some (JInt 5)\<rparr>, \<lparr>hc_dur = Some ''010000'', hc_chg = Some (JInt 0)\<rparr>]) = Some 3600
   \<and> vr_best_transfers (summarise_connections [\<lparr>hc_dur = None, hc_chg = Some (JInt 5)\<rparr>, \<lparr>hc_dur = Some ''010000'', hc_chg = Some (JInt 0)\<rparr>]) = Some 5"
  by code_simp

end
