(* ===== verification/Adapters.thy ===== *)
theory Adapters
  imports Trip_Dict Json_Values Match_Features
begin

text \<open>
  The adapters that turn an engine's JSON answer into canonical journeys: the helpers of
  \<open>canonical_adapters/_common.py\<close>, \<open>otp_adapter.py\<close> and \<open>motis_adapter.py\<close>. A JSON value is what Python
  reads; a missing key and \<open>null\<close> are both None. \<open>rp\<close> is \<open>str()\<close> of a float, a list or a dictionary.
  Every operation that can raise returns the error; a canonical class is built only when its validators
  accept the values, else it is a \<open>ValidationError\<close>.
\<close>

section \<open>JSON as Python handles it\<close>

definition rbind :: "py_error + 'a \<Rightarrow> ('a \<Rightarrow> py_error + 'b) \<Rightarrow> py_error + 'b" where
  "rbind r f = (case r of Inl e \<Rightarrow> Inl e | Inr x \<Rightarrow> f x)"

definition json_truthy :: "json \<Rightarrow> bool" where
  "json_truthy v = (case v of JNull \<Rightarrow> False | JBool b \<Rightarrow> b | JInt n \<Rightarrow> n \<noteq> 0 | JFloat r \<Rightarrow> r \<noteq> 0
     | JStr s \<Rightarrow> s \<noteq> [] | JArr es \<Rightarrow> es \<noteq> [] | JObj kvs \<Rightarrow> kvs \<noteq> [])"

text \<open>\<open>d.get(k)\<close>; \<open>v or {}\<close>, \<open>v or []\<close>; \<open>for x in v\<close>.\<close>

definition dget :: "(str \<times> json) list \<Rightarrow> str \<Rightarrow> json" where
  "dget d k = (case map_of d k of Some v \<Rightarrow> v | None \<Rightarrow> JNull)"

definition jdict :: "json \<Rightarrow> py_error + (str \<times> json) list" where
  "jdict v = (if \<not> json_truthy v then Inr [] else (case v of JObj kvs \<Rightarrow> Inr kvs | _ \<Rightarrow> Inl AttributeError))"

definition jiter :: "json \<Rightarrow> py_error + json list" where
  "jiter v = (if \<not> json_truthy v then Inr [] else (case v of
       JArr es \<Rightarrow> Inr es | JObj kvs \<Rightarrow> Inr (map (\<lambda>kv. JStr (fst kv)) kvs) | JStr s \<Rightarrow> Inr (map (\<lambda>c. JStr [c]) s) | _ \<Rightarrow> Inl TypeError))"

definition py_str :: "(json \<Rightarrow> str) \<Rightarrow> json \<Rightarrow> str" where
  "py_str rp v = (case v of JNull \<Rightarrow> ''None'' | JBool b \<Rightarrow> (if b then ''True'' else ''False'') | JInt n \<Rightarrow> show_int n | JStr s \<Rightarrow> s | _ \<Rightarrow> rp v)"

text \<open>\<open>int(v)\<close>: a float towards zero, a text by \<open>py_int\<close>.\<close>

definition json_int :: "json \<Rightarrow> py_error + int" where
  "json_int v = (case v of JBool b \<Rightarrow> Inr (if b then 1 else 0) | JInt n \<Rightarrow> Inr n
     | JFloat r \<Rightarrow> Inr (if r \<ge> 0 then \<lfloor>r\<rfloor> else \<lceil>r\<rceil>)
     | JStr s \<Rightarrow> (case py_int s of Some n \<Rightarrow> Inr n | None \<Rightarrow> Inl (ValueError s)) | _ \<Rightarrow> Inl TypeError)"

text \<open>\<open>int(v or 0)\<close>.\<close>

definition json_int_or_zero :: "json \<Rightarrow> py_error + int" where
  "json_int_or_zero v = (if json_truthy v then json_int v else Inr 0)"

section \<open>\<open>_common.py\<close>\<close>

definition ADAPTER_VERSION :: int where "ADAPTER_VERSION = 1"

definition CONTINUOUS_MODES :: "(str \<times> str) list" where
  "CONTINUOUS_MODES = [(''WALK'', ''WALK''), (''TRANSFER'', ''WALK''), (''BIKE'', ''BIKE''), (''BICYCLE'', ''BIKE''),
     (''BICYCLE_RENTAL'', ''BIKE''), (''RENTAL'', ''BIKE''), (''SCOOTER'', ''BIKE''), (''SCOOTER_RENTAL'', ''BIKE''),
     (''CAR'', ''CAR''), (''CAR_PARKING'', ''CAR''), (''CAR_DROPOFF'', ''CAR''), (''CAR_PICKUP'', ''CAR''),
     (''CAR_HAIL'', ''CAR''), (''CAR_RENTAL'', ''CAR'')]"

definition mode_of :: "runtime \<Rightarrow> (json \<Rightarrow> str) \<Rightarrow> json \<Rightarrow> str" where
  "mode_of rt rp source_mode = rt_upper rt (py_strip (if json_truthy source_mode then py_str rp source_mode else []))"

definition is_timed_mode :: "runtime \<Rightarrow> (json \<Rightarrow> str) \<Rightarrow> json \<Rightarrow> bool" where
  "is_timed_mode rt rp source_mode =
     (mode_of rt rp source_mode \<noteq> [] \<and> map_of CONTINUOUS_MODES (mode_of rt rp source_mode) = None)"

definition continuous_mode :: "runtime \<Rightarrow> (json \<Rightarrow> str) \<Rightarrow> json \<Rightarrow> str option" where
  "continuous_mode rt rp source_mode =
     (let mode = mode_of rt rp source_mode in
      if mode = [] then None else Some (alist_get CONTINUOUS_MODES mode mode))"

definition parse_instant :: "clock \<Rightarrow> json \<Rightarrow> instant option" where
  "parse_instant ck v = (case v of
      JStr s \<Rightarrow> if py_strip s = [] then None
        else (case ck_fromisoformat ck (py_strip s) of None \<Rightarrow> None | Some (Aware t) \<Rightarrow> Some t | Some (Naive t) \<Rightarrow> Some t)
    | _ \<Rightarrow> None)"

definition timing :: "instant option \<Rightarrow> canonical_timing option" where
  "timing t = map_option (\<lambda>i. \<lparr>timetabled = i, estimated = None, local_timezone = None\<rparr>) t"

definition number_or_none :: "json \<Rightarrow> real option" where
  "number_or_none v = (case v of JInt n \<Rightarrow> Some (real_of_int n) | JFloat r \<Rightarrow> Some r | _ \<Rightarrow> None)"

definition position :: "json \<Rightarrow> json \<Rightarrow> geo_position option" where
  "position la lo = (case (number_or_none la, number_or_none lo) of
      (Some a, Some b) \<Rightarrow> if -90 \<le> a \<and> a \<le> 90 \<and> -180 \<le> b \<and> b \<le> 180 then Some \<lparr>lat = a, lon = b\<rparr> else None
    | _ \<Rightarrow> None)"

definition text_or_none :: "(json \<Rightarrow> str) \<Rightarrow> json \<Rightarrow> str option" where
  "text_or_none rp v = (if v = JNull then None else Some (py_str rp v))"

definition checked :: "string \<Rightarrow> ('a \<Rightarrow> bool) \<Rightarrow> 'a \<Rightarrow> py_error + 'a" where
  "checked cls ok x = (if ok x then Inr x else Inl (ValidationError cls))"

definition viator_stop_place :: "str \<Rightarrow> str \<Rightarrow> str option \<Rightarrow> geo_position option \<Rightarrow> str option \<Rightarrow> str option \<Rightarrow> py_error + canonical_stop_place" where
  "viator_stop_place src ref name pos stop_code parent_ref =
     (let token = stop_token (Some ref) (map_option lat pos) (map_option lon pos) stop_code
      in checked ''CanonicalStopPlace'' valid_stop_place
        \<lparr>sp_ref = ref, sp_source = src, sp_name = name,
         sp_uic = (if starts_with token ''UIC:'' then Some (drop 4 token) else None),
         sp_codes = (case stop_code of Some c \<Rightarrow> [(''GTFS_STOP_CODE'', c)] | None \<Rightarrow> []),
         sp_parent_ref = parent_ref,
         sp_unresolved_token = (if starts_with token ''OEBB:'' then Some token else None),
         sp_position = pos, sp_country = None, sp_station_id = None, sp_station_parent_id = None\<rparr>)"

definition location_of :: "canonical_stop_place option \<Rightarrow> str option \<Rightarrow> geo_position option \<Rightarrow> canonical_location" where
  "location_of stop name pos = (case stop of
      None \<Rightarrow> \<lparr>loc_kind = Coordinate, loc_name = name, loc_stop_place = None, loc_quay = None, loc_position = pos\<rparr>
    | Some s \<Rightarrow> \<lparr>loc_kind = Stop, loc_name = name, loc_stop_place = Some s, loc_quay = None, loc_position = pos\<rparr>)"

text \<open>\<open>int(journey.id.rsplit(":", 1)[1])\<close>.\<close>

definition source_rank :: "canonical_journey \<Rightarrow> py_error + int" where
  "source_rank j = (if CHR '':'' \<in> set (j_id j)
     then (let tail = rev (takeWhile (\<lambda>c. c \<noteq> CHR '':'') (rev (j_id j)))
           in case py_int tail of Some n \<Rightarrow> Inr n | None \<Rightarrow> Inl (ValueError tail))
     else Inl IndexError)"

text \<open>\<open>clean_operator_name\<close> of \<open>trip_normalize.py\<close>; its prefix is the one \<open>features.py\<close> drops.\<close>

definition clean_operator_name :: "json \<Rightarrow> str option" where
  "clean_operator_name v = (case v of
      JStr name \<Rightarrow> or_text (Some (py_strip (drop_delfi_prefix name))) (none_if_empty (py_strip name))
    | _ \<Rightarrow> None)"

definition viator_source :: "provider \<Rightarrow> str \<Rightarrow> str option \<Rightarrow> journey_source" where
  "viator_source p engine session_id = \<lparr>js_provider = p, js_role = Viator, js_session_id = session_id, js_engine = Some engine,
     js_adapter_version = ADAPTER_VERSION, js_stitched_from_sessions = [], js_via_hubs = []\<rparr>"

definition rank_id :: "str \<Rightarrow> str option \<Rightarrow> nat \<Rightarrow> str" where
  "rank_id engine session_id rank = engine @ '':'' @ (if truthy session_id then or_empty session_id else ''-'') @ '':'' @ show_nat rank"

definition given_operator :: "str option \<Rightarrow> str option \<Rightarrow> str option \<Rightarrow> canonical_operator option" where
  "given_operator ref name url = (if ref = None \<and> name = None \<and> url = None then None
     else Some \<lparr>op_ref = ref, op_name = name, op_code = None, op_url = url\<rparr>)"

definition before_colon :: "str \<Rightarrow> str option" where
  "before_colon s = (if CHR '':'' \<in> set s then Some (takeWhile (\<lambda>c. c \<noteq> CHR '':'') s) else None)"

section \<open>\<open>otp_adapter.py\<close>\<close>

text \<open>\<open>datetime.fromtimestamp\<close> takes the instants of the years 1 to 9999.\<close>

definition from_epoch_ms :: "json \<Rightarrow> instant option" where
  "from_epoch_ms v = (case v of
      JNull \<Rightarrow> None
    | JBool b \<Rightarrow> None
    | _ \<Rightarrow> (case json_int v of
        Inl e \<Rightarrow> None
      | Inr n \<Rightarrow> if -62135596800000 \<le> n \<and> n \<le> 253402300799999 then Some (n * 1000) else None))"

definition otp_end :: "(json \<Rightarrow> str) \<Rightarrow> (str \<times> json) list \<Rightarrow> py_error + canonical_location" where
  "otp_end rp place =
     (let name = text_or_none rp (dget place ''name''); pos = position (dget place ''lat'') (dget place ''lon'')
      in rbind (jdict (dget place ''stop'')) (\<lambda>stop.
         let ref = dget stop ''gtfsId'' in
         if \<not> json_truthy ref then Inr (location_of None name pos)
         else (let text = py_str rp ref; feed = (case before_colon text of Some f \<Rightarrow> f | None \<Rightarrow> ''-'')
               in rbind (viator_stop_place (''otp:'' @ feed) text name pos None None) (\<lambda>s. Inr (location_of (Some s) name pos)))))"

definition otp_operator :: "(json \<Rightarrow> str) \<Rightarrow> (str \<times> json) list \<Rightarrow> canonical_operator option" where
  "otp_operator rp agency = given_operator (text_or_none rp (dget agency ''gtfsId'')) (clean_operator_name (dget agency ''name''))
     (text_or_none rp (dget agency ''url''))"

definition otp_service :: "runtime \<Rightarrow> (json \<Rightarrow> str) \<Rightarrow> json \<Rightarrow> (str \<times> json) list \<Rightarrow> (str \<times> json) list \<Rightarrow> str \<Rightarrow> py_error + canonical_service" where
  "otp_service rt rp mode route trip trip_id =
     rbind (jdict (dget route ''agency'')) (\<lambda>agency.
       let line = text_or_none rp (dget route ''shortName'') in
       Inr \<lparr>sv_mode = mode_family rt (Some (py_str rp mode)), sv_product_category = None, sv_line = line, sv_train_number = None,
         sv_published_name = line, sv_route_long_name = text_or_none rp (dget route ''longName''),
         sv_line_ref = text_or_none rp (dget route ''gtfsId''), sv_journey_ref = none_if_empty trip_id,
         sv_destination_text = text_or_none rp (dget trip ''tripHeadsign''), sv_operator = otp_operator rp agency,
         sv_feed = before_colon trip_id\<rparr>)"

text \<open>\<open>route.get\<close> is only called for a ride; a route that is no dictionary raises there.\<close>

definition otp_leg :: "runtime \<Rightarrow> (json \<Rightarrow> str) \<Rightarrow> (str \<times> json) list \<Rightarrow> py_error + canonical_leg" where
  "otp_leg rt rp leg =
     (let mode = dget leg ''mode''; timed = is_timed_mode rt rp mode in
      rbind (jdict (dget leg ''trip'')) (\<lambda>trip.
      let trip_id = (if json_truthy (dget trip ''gtfsId'') then py_str rp (dget trip ''gtfsId'') else []) in
      rbind (if timed then rbind (jdict (dget leg ''route'')) (\<lambda>route. rbind (otp_service rt rp mode route trip trip_id) (\<lambda>s. Inr (Some s)))
             else Inr None) (\<lambda>service.
      rbind (rbind (jdict (dget leg ''from'')) (otp_end rp)) (\<lambda>origin.
      rbind (rbind (jdict (dget leg ''to'')) (otp_end rp)) (\<lambda>destination.
      rbind (json_int_or_zero (dget leg ''duration'')) (\<lambda>duration.
      checked ''CanonicalLeg'' valid_leg
        \<lparr>leg_kind = (if timed then Timed else Continuous), leg_origin = origin, leg_destination = destination,
         leg_departure = timing (from_epoch_ms (dget leg ''startTime'')), leg_arrival = timing (from_epoch_ms (dget leg ''endTime'')),
         leg_duration_seconds = duration,
         leg_distance_meters = (case number_or_none (dget leg ''distance'') of Some d \<Rightarrow> if d \<ge> 0 then Some d else None | None \<Rightarrow> None),
         leg_service = service, leg_continuous_mode = (if timed then None else continuous_mode rt rp mode),
         leg_source_mode = text_or_none rp mode\<rparr>))))))"

text \<open>The legs that are dictionaries.\<close>

definition mappings :: "json list \<Rightarrow> (str \<times> json) list list" where
  "mappings es = List.map_filter (\<lambda>e. case e of JObj kvs \<Rightarrow> Some kvs | _ \<Rightarrow> None) es"

definition otp_journey :: "runtime \<Rightarrow> clock \<Rightarrow> (json \<Rightarrow> str) \<Rightarrow> str option \<Rightarrow> nat \<times> json \<Rightarrow> py_error + canonical_journey" where
  "otp_journey rt ck rp session_id ranked =
     rbind (jdict (snd ranked)) (\<lambda>edge. rbind (jdict (dget edge ''node'')) (\<lambda>node.
     rbind (jiter (dget node ''legs'')) (\<lambda>ls. rbind (map_err (otp_leg rt rp) (mappings ls)) (\<lambda>legs.
     rbind (json_int_or_zero (dget node ''duration'')) (\<lambda>duration.
     checked ''CanonicalJourney'' valid_journey
       \<lparr>j_id = rank_id ''otp'' session_id (fst ranked), j_source = viator_source Otp ''otp'' session_id,
        j_legs = mark_transfers legs, j_departure = timing (parse_instant ck (dget node ''start'')),
        j_arrival = timing (parse_instant ck (dget node ''end'')), j_duration_seconds = duration,
        j_source_transfer_count = None\<rparr>)))))"

definition otp_journeys_from_plan :: "runtime \<Rightarrow> clock \<Rightarrow> (json \<Rightarrow> str) \<Rightarrow> str option \<Rightarrow> json \<Rightarrow> py_error + canonical_journey list" where
  "otp_journeys_from_plan rt ck rp session_id raw =
     rbind (jdict raw) (\<lambda>answer. rbind (jdict (dget answer ''data'')) (\<lambda>data.
     rbind (jdict (dget data ''planConnection'')) (\<lambda>connection.
     rbind (jiter (dget connection ''edges'')) (\<lambda>edges. map_err (otp_journey rt ck rp session_id) (py_enumerate edges)))))"

section \<open>\<open>motis_adapter.py\<close>\<close>

definition motis_end :: "(json \<Rightarrow> str) \<Rightarrow> (str \<times> json) list \<Rightarrow> py_error + canonical_location" where
  "motis_end rp place =
     (let name = text_or_none rp (dget place ''name''); pos = position (dget place ''lat'') (dget place ''lon''); ref = dget place ''stopId''
      in if \<not> json_truthy ref then Inr (location_of None name pos)
         else rbind (viator_stop_place
             (''motis:'' @ (case feed_id_from_motis_id (Some (py_str rp ref)) of Some f \<Rightarrow> f | None \<Rightarrow> ''-''))
             (py_str rp ref) name pos (text_or_none rp (dget place ''stopCode'')) (text_or_none rp (dget place ''parentId'')))
           (\<lambda>s. Inr (location_of (Some s) name pos)))"

definition motis_operator :: "(json \<Rightarrow> str) \<Rightarrow> (str \<times> json) list \<Rightarrow> canonical_operator option" where
  "motis_operator rp leg = given_operator (text_or_none rp (dget leg ''agencyId'')) (clean_operator_name (dget leg ''agencyName''))
     (text_or_none rp (dget leg ''agencyUrl''))"

definition motis_leg :: "runtime \<Rightarrow> clock \<Rightarrow> (json \<Rightarrow> str) \<Rightarrow> (str \<times> json) list \<Rightarrow> py_error + canonical_leg" where
  "motis_leg rt ck rp leg =
     (let mode = dget leg ''mode''; timed = is_timed_mode rt rp mode; line = text_or_none rp (dget leg ''routeShortName'') in
      rbind (jdict (dget leg ''from'')) (\<lambda>place.
      let service = (if timed then Some
         \<lparr>sv_mode = mode_family rt (Some (py_str rp mode)), sv_product_category = None, sv_line = line, sv_train_number = None,
          sv_published_name = line, sv_route_long_name = text_or_none rp (dget leg ''routeLongName''),
          sv_line_ref = text_or_none rp (dget leg ''routeId''), sv_journey_ref = text_or_none rp (dget leg ''tripId''),
          sv_destination_text = text_or_none rp (dget leg ''headsign''), sv_operator = motis_operator rp leg,
          sv_feed = feed_id_from_motis_id (text_or_none rp (dget place ''stopId''))\<rparr> else None) in
      rbind (motis_end rp place) (\<lambda>origin.
      rbind (rbind (jdict (dget leg ''to'')) (motis_end rp)) (\<lambda>destination.
      rbind (if dget leg ''duration'' = JNull then Inr 0 else json_int (dget leg ''duration'')) (\<lambda>duration.
      checked ''CanonicalLeg'' valid_leg
        \<lparr>leg_kind = (if timed then Timed else Continuous), leg_origin = origin, leg_destination = destination,
         leg_departure = timing (parse_instant ck (dget leg ''startTime'')), leg_arrival = timing (parse_instant ck (dget leg ''endTime'')),
         leg_duration_seconds = duration, leg_distance_meters = None, leg_service = service,
         leg_continuous_mode = (if timed then None else continuous_mode rt rp mode),
         leg_source_mode = text_or_none rp mode\<rparr>)))))"

definition motis_journey :: "runtime \<Rightarrow> clock \<Rightarrow> (json \<Rightarrow> str) \<Rightarrow> str option \<Rightarrow> nat \<times> (str \<times> json) list \<Rightarrow> py_error + canonical_journey" where
  "motis_journey rt ck rp session_id ranked =
     (let itinerary = snd ranked; transfers = dget itinerary ''transfers'' in
      rbind (jiter (dget itinerary ''legs'')) (\<lambda>ls. rbind (map_err (motis_leg rt ck rp) (mappings ls)) (\<lambda>legs.
      rbind (json_int_or_zero (dget itinerary ''duration'')) (\<lambda>duration.
      rbind (if transfers = JNull then Inr None else rbind (json_int transfers) (\<lambda>n. Inr (Some n))) (\<lambda>transfer_count.
      checked ''CanonicalJourney'' valid_journey
        \<lparr>j_id = rank_id ''motis'' session_id (fst ranked), j_source = viator_source Motis ''motis'' session_id,
         j_legs = mark_transfers legs, j_departure = timing (parse_instant ck (dget itinerary ''startTime'')),
         j_arrival = timing (parse_instant ck (dget itinerary ''endTime'')), j_duration_seconds = duration,
         j_source_transfer_count = transfer_count\<rparr>)))))"

definition motis_journeys_from_plan :: "runtime \<Rightarrow> clock \<Rightarrow> (json \<Rightarrow> str) \<Rightarrow> str option \<Rightarrow> (str \<times> json) list \<Rightarrow> py_error + canonical_journey list" where
  "motis_journeys_from_plan rt ck rp session_id raw =
     rbind (jiter (dget raw ''itineraries'')) (\<lambda>its. map_err (motis_journey rt ck rp session_id)
       (List.map_filter (\<lambda>(rank, v). case v of JObj kvs \<Rightarrow> Some (rank, kvs) | _ \<Rightarrow> None) (py_enumerate its)))"

section \<open>Lemmas\<close>

lemma rbind_Inr [simp]: "rbind r f = Inr y \<longleftrightarrow> (\<exists>x. r = Inr x \<and> f x = Inr y)"
  by (auto simp: rbind_def split: sum.splits)

lemma rbind_Inl: "rbind r f = Inl e \<longleftrightarrow> r = Inl e \<or> (\<exists>x. r = Inr x \<and> f x = Inl e)"
  by (auto simp: rbind_def split: sum.splits)

lemma checked_Inr [simp]: "checked cls ok x = Inr y \<longleftrightarrow> ok x \<and> y = x"
  by (auto simp: checked_def)

lemma checked_Inl [simp]: "checked cls ok x = Inl e \<longleftrightarrow> \<not> ok x \<and> e = ValidationError cls"
  by (auto simp: checked_def)

lemma valid_position_of: "opt_all valid_position (position la lo)"
  by (auto simp: position_def valid_position_def split: option.splits)

text \<open>A stop built from a non-empty reference passes the stop place's validators: the token rules give
  a code of seven digits.\<close>

lemma viator_stop_place_Inr:
  assumes "ref \<noteq> []" "src \<noteq> []" "opt_all valid_position pos"
  shows "\<exists>s. viator_stop_place src ref name pos code parent = Inr s \<and> valid_stop_place s"
proof -
  let ?t = "stop_token (Some ref) (map_option lat pos) (map_option lon pos) code"
  have "length (drop 4 ?t) = 7 \<and> list_all is_decimal (drop 4 ?t)" if "starts_with ?t ''UIC:''"
  proof -
    have "CANONICAL_TOKEN_RE ?t"
      using token_cases [of "Some ref" "map_option lat pos" "map_option lon pos" code] coarse_not_canonical(1) that by metis
    moreover have "\<not> starts_with ?t ''OEBB:''" using that by (auto simp: starts_with_iff)
    ultimately show ?thesis by (auto simp: CANONICAL_TOKEN_RE_def)
  qed
  then show ?thesis using assms by (auto simp: viator_stop_place_def Let_def checked_def valid_stop_place_def)
qed

lemma viator_stop_place_total:
  assumes "ref \<noteq> []" "src \<noteq> []"
  shows "viator_stop_place src ref name (position a b) code parent \<noteq> Inl e"
  using viator_stop_place_Inr [OF assms valid_position_of, of name a b code parent] by auto

lemma valid_location_of: "opt_all valid_stop_place stop \<Longrightarrow> opt_all valid_position pos \<Longrightarrow> valid_location (location_of stop name pos)"
  by (cases stop) (auto simp: location_of_def valid_location_def)

lemma otp_end_valid: "otp_end rp place = Inr l \<Longrightarrow> valid_location l"
  by (auto simp: otp_end_def Let_def viator_stop_place_def valid_position_of split: if_splits intro!: valid_location_of)

lemma motis_end_valid: "motis_end rp place = Inr l \<Longrightarrow> valid_location l"
  by (auto simp: motis_end_def Let_def viator_stop_place_def valid_position_of split: if_splits intro!: valid_location_of)

text \<open>\<open>str()\<close> of a value that is true is never empty.\<close>

lemma py_str_nonempty: "\<forall>v. rp v \<noteq> [] \<Longrightarrow> json_truthy v \<Longrightarrow> py_str rp v \<noteq> []"
  by (cases v) (auto simp: py_str_def json_truthy_def)

lemma otp_end_errors:
  assumes "\<forall>v. rp v \<noteq> []" "otp_end rp place = Inl e"
  shows "e = AttributeError"
proof -
  have "viator_stop_place (''otp:'' @ f) (py_str rp v) name (position a b) c p \<noteq> Inl e" if "json_truthy v" for f v name a b c p
    using py_str_nonempty [OF assms(1) that] by (intro viator_stop_place_total) simp_all
  then show ?thesis using assms(2)
    by (auto simp: otp_end_def Let_def rbind_Inl jdict_def split: if_splits json.splits)
qed

lemma motis_end_errors:
  assumes "\<forall>v. rp v \<noteq> []"
  shows "motis_end rp place \<noteq> Inl e"
proof -
  have "viator_stop_place (''motis:'' @ f) (py_str rp v) name (position a b) c p \<noteq> Inl e" if "json_truthy v" for f v name a b c p
    using py_str_nonempty [OF assms(1) that] by (intro viator_stop_place_total) simp_all
  then show ?thesis by (auto simp: motis_end_def Let_def rbind_Inl split: if_splits)
qed

lemma jdict_errors: "jdict v = Inl e \<Longrightarrow> e = AttributeError"
  by (auto simp: jdict_def split: if_splits json.splits)

lemma jiter_errors: "jiter v = Inl e \<Longrightarrow> e = TypeError"
  by (auto simp: jiter_def split: if_splits json.splits)

lemma json_int_errors: "json_int v = Inl e \<Longrightarrow> e \<noteq> ValidationError c"
  by (auto simp: json_int_def split: json.splits option.splits)

subsection \<open>Ranks\<close>

lemma rank_id_source_rank:
  "j_id j = rank_id engine session_id rank \<Longrightarrow> source_rank j = Inr (int rank)"
proof -
  assume i: "j_id j = rank_id engine session_id rank"
  have no: "CHR '':'' \<notin> set (show_nat rank)"
  proof
    assume "CHR '':'' \<in> set (show_nat rank)"
    then have "is_decimal (CHR '':'')" using show_nat_decimal [of rank] by (simp add: list_all_iff)
    then show False by (simp add: is_decimal_def)
  qed
  then have "takeWhile (\<lambda>c. c \<noteq> CHR '':'') (rev (j_id j)) = rev (show_nat rank)"
    by (auto simp: i rank_id_def takeWhile_append)
  moreover have "py_int (show_nat rank) = Some (int rank)" using py_int_show_int [of "int rank"] by (simp add: show_int_def)
  ultimately show ?thesis by (simp add: source_rank_def i Let_def) (simp add: rank_id_def)
qed

end
