(* ===== verification/Hafas_Adapter.thy ===== *)
theory Hafas_Adapter
  imports Adapters Hafas_Ids
begin

text \<open>
  The HAFAS adapter, \<open>canonical_adapters/hafas_adapter.py\<close>: a \<open>TripSearch\<close> answer to canonical journeys.
  \<open>vienna\<close> is what the Europe/Vienna zone makes of a wall clock (microseconds since 1970 as if it were
  UTC): the instant. The other arguments are those of \<open>Adapters\<close>.
\<close>

section \<open>Values\<close>

definition has_part :: "str \<Rightarrow> str \<Rightarrow> bool" where
  "has_part s part = list_ex (\<lambda>n. starts_with (drop n s) part) [0..<length s + 1]"

definition RAIL_CATEGORIES :: "str list" where
  "RAIL_CATEGORIES = [''ICE'', ''IC'', ''EC'', ''RJ'', ''RJX'', ''NJ'', ''EN'', ''TGV'', ''AVE'', ''AVLO'', ''EUROSTAR'', ''RE'', ''R'', ''REX'',
     ''D'', ''EUR'', ''WB'', ''IR'', ''FB'']"

definition map_category_to_mode :: "runtime \<Rightarrow> str \<Rightarrow> str" where
  "map_category_to_mode rt category =
     (let cat = rt_upper rt category in
      if cat = [] then ''TRANSIT''
      else if cat = ''BUS'' \<or> has_part cat ''BUS'' then ''BUS''
      else if cat \<in> set [''TRAM'', ''STR''] \<or> has_part cat ''TRAM'' then ''TRAM''
      else if cat \<in> set [''U'', ''U-BAHN'', ''METRO''] \<or> has_part cat ''METRO'' \<or> has_part cat ''SUBWAY'' then ''SUBWAY''
      else if cat \<in> set [''S'', ''S-BAHN''] \<or> has_part cat ''S-BAHN'' then ''RAIL''
      else if cat \<in> set [''SHIP'', ''FERRY'', ''BOAT''] \<or> has_part cat ''FERRY'' then ''FERRY''
      else if cat \<in> set RAIL_CATEGORIES then ''RAIL''
      else if has_part cat ''RAIL'' \<or> has_part cat ''TRAIN'' then ''RAIL''
      else cat)"

text \<open>\<open>datetime(...)\<close>: the wall clock in microseconds, for the dates and times there are.\<close>

definition leap_year :: "int \<Rightarrow> bool" where
  "leap_year y = (y mod 4 = 0 \<and> (y mod 100 \<noteq> 0 \<or> y mod 400 = 0))"

definition days_in_month :: "int \<Rightarrow> int \<Rightarrow> int" where
  "days_in_month y m = (if m = 2 then (if leap_year y then 29 else 28) else if m \<in> {4, 6, 9, 11} then 30 else 31)"

definition days_from_civil :: "int \<Rightarrow> int \<Rightarrow> int \<Rightarrow> int" where
  "days_from_civil y m d =
     (let y' = (if m \<le> 2 then y - 1 else y); era = y' div 400; yoe = y' - era * 400;
          doy = (153 * (if m > 2 then m - 3 else m + 9) + 2) div 5 + d - 1;
          doe = yoe * 365 + yoe div 4 - yoe div 100 + doy
      in era * 146097 + doe - 719468)"

definition wall_clock :: "int \<Rightarrow> int \<Rightarrow> int \<Rightarrow> int \<Rightarrow> int \<Rightarrow> int \<Rightarrow> int option" where
  "wall_clock y mo d h mi s =
     (if 1 \<le> y \<and> y \<le> 9999 \<and> 1 \<le> mo \<and> mo \<le> 12 \<and> 1 \<le> d \<and> d \<le> days_in_month y mo
         \<and> 0 \<le> h \<and> h \<le> 23 \<and> 0 \<le> mi \<and> mi \<le> 59 \<and> 0 \<le> s \<and> s \<le> 59
      then Some (((days_from_civil y mo d * 24 + h) * 60 + mi) * 60000000 + s * 1000000) else None)"

definition datetime_range :: "int \<Rightarrow> bool" where
  "datetime_range t = (-62135596800000000 \<le> t \<and> t < 253402300800000000)"

text \<open>The six integers of a date and a time, \<open>None\<close> where one does not parse.\<close>

definition clock_parts :: "str \<Rightarrow> str \<Rightarrow> (int \<times> int \<times> int \<times> int \<times> int \<times> int) option" where
  "clock_parts date hms = (case (py_int (take 4 date), py_int (take 2 (drop 4 date)), py_int (take 2 (drop 6 date)),
       py_int (take 2 hms), py_int (take 2 (drop 2 hms)), py_int (take 2 (drop 4 hms))) of
     (Some y, Some mo, Some d, Some h, Some mi, Some s) \<Rightarrow> Some (y, mo, d, h, mi, s)
   | _ \<Rightarrow> None)"

definition hafas_time_to_utc_iso :: "(int \<Rightarrow> instant) \<Rightarrow> (json \<Rightarrow> str) \<Rightarrow> str \<Rightarrow> json \<Rightarrow> py_error + str option" where
  "hafas_time_to_utc_iso vienna rp date hhmmss =
     (if date = [] \<or> \<not> json_truthy hhmmss then Inr None
      else (let s = zfill 6 (py_str rp hhmmss); n = length s - 6 in
        case (if n = 0 then Some (0, s) else map_option (\<lambda>off. (off, drop n s)) (py_int (take n s))) of
          None \<Rightarrow> Inr None
        | Some (day_offset, hms) \<Rightarrow>
            (case clock_parts date hms of
               None \<Rightarrow> Inr None
             | Some (y, mo, d, h, mi, sec) \<Rightarrow>
                 (case wall_clock y mo d h mi sec of
                    None \<Rightarrow> Inr None
                  | Some local \<Rightarrow>
                      (let local' = local + day_offset * 86400000000; t = vienna local'
                       in if \<bar>day_offset\<bar> > 999999999 \<or> \<not> datetime_range local' \<or> \<not> datetime_range t then Inl OverflowError
                          else Inr (Some (strftime_utc t)))))))"

definition json_of_text :: "str option \<Rightarrow> json" where
  "json_of_text t = (case t of Some s \<Rightarrow> JStr s | None \<Rightarrow> JNull)"

text \<open>\<open>_parse_hafas_duration\<close> of any value: only a text has \<open>zfill\<close>.\<close>

definition duration_value :: "json \<Rightarrow> py_error + int option" where
  "duration_value v = (if \<not> json_truthy v then Inr None
     else (case v of JStr s \<Rightarrow> Inr (parse_hafas_duration (Some s)) | _ \<Rightarrow> Inl AttributeError))"

definition time_between :: "clock \<Rightarrow> str \<Rightarrow> str \<Rightarrow> py_error + int" where
  "time_between ck dep_iso arr_iso = (case (ck_fromisoformat ck dep_iso, ck_fromisoformat ck arr_iso) of
      (Some (Aware a), Some (Aware b)) \<Rightarrow> Inr (max 0 (whole_seconds (b - a)))
    | (Some (Naive a), Some (Naive b)) \<Rightarrow> Inr (max 0 (whole_seconds (b - a)))
    | (Some _, Some _) \<Rightarrow> Inl TypeError
    | _ \<Rightarrow> Inr 0)"

definition section_duration_seconds :: "clock \<Rightarrow> (str \<times> json) list \<Rightarrow> str option \<Rightarrow> str option \<Rightarrow> py_error + int" where
  "section_duration_seconds ck sec dep_iso arr_iso =
     rbind (jdict (dget sec ''gis'')) (\<lambda>gis. rbind (duration_value (dget gis ''dur'')) (\<lambda>parsed.
       case parsed of
         Some n \<Rightarrow> Inr n
       | None \<Rightarrow> if truthy dep_iso \<and> truthy arr_iso then time_between ck (or_empty dep_iso) (or_empty arr_iso) else Inr 0))"

section \<open>The indexed tables of an answer\<close>

record hafas_location =
  hl_name :: json
  hl_lid :: json
  hl_ext_id :: json
  hl_lat :: "real option"
  hl_lon :: "real option"

definition no_location :: hafas_location where
  "no_location = \<lparr>hl_name = JNull, hl_lid = JNull, hl_ext_id = JNull, hl_lat = None, hl_lon = None\<rparr>"

definition as_mapping :: "json \<Rightarrow> py_error + (str \<times> json) list" where
  "as_mapping v = (case v of JObj kvs \<Rightarrow> Inr kvs | _ \<Rightarrow> Inl AttributeError)"

definition index_location :: "json \<Rightarrow> py_error + hafas_location" where
  "index_location v = rbind (as_mapping v) (\<lambda>loc. rbind (jdict (dget loc ''crd'')) (\<lambda>crd.
     Inr \<lparr>hl_name = dget loc ''name'', hl_lid = dget loc ''lid'', hl_ext_id = dget loc ''extId'',
          hl_lat = map_option (\<lambda>y. y / 1000000) (number_or_none (dget crd ''y'')),
          hl_lon = map_option (\<lambda>x. x / 1000000) (number_or_none (dget crd ''x''))\<rparr>))"

definition json_or :: "json \<Rightarrow> json \<Rightarrow> json" where
  "json_or a b = (if json_truthy a then a else b)"

record hafas_product =
  hp_name :: json
  hp_line :: json
  hp_cat :: json
  hp_num :: json
  hp_oprX :: json

definition no_product :: hafas_product where
  "no_product = \<lparr>hp_name = JNull, hp_line = JNull, hp_cat = JNull, hp_num = JNull, hp_oprX = JNull\<rparr>"

definition index_product :: "json \<Rightarrow> py_error + hafas_product" where
  "index_product v = rbind (as_mapping v) (\<lambda>prod. rbind (jdict (dget prod ''prodCtx'')) (\<lambda>context.
     Inr \<lparr>hp_name = dget prod ''name'', hp_line = json_or (dget prod ''addName'') (dget prod ''nameS''),
          hp_cat = json_or (dget context ''catOut'') (dget prod ''cls''), hp_num = dget context ''num'', hp_oprX = dget prod ''oprX''\<rparr>))"

text \<open>An operator by its name and id.\<close>

definition index_operator :: "json \<Rightarrow> py_error + json \<times> json" where
  "index_operator v = rbind (as_mapping v) (\<lambda>op. Inr (dget op ''name'', dget op ''id''))"

definition indexed :: "'a list \<Rightarrow> json \<Rightarrow> 'a option" where
  "indexed table key = (case as_int (Some key) of
      Some n \<Rightarrow> if 0 \<le> n \<and> n < int (length table) then Some (table ! nat n) else None
    | None \<Rightarrow> None)"

record hafas_tables =
  ht_locations :: "hafas_location list"
  ht_products :: "hafas_product list"
  ht_operators :: "(json \<times> json) list"

section \<open>Places, services, legs\<close>

definition real_json :: "real option \<Rightarrow> json" where
  "real_json r = (case r of Some x \<Rightarrow> JFloat x | None \<Rightarrow> JNull)"

definition hafas_position :: "hafas_location \<Rightarrow> geo_position option" where
  "hafas_position loc = position (real_json (hl_lat loc)) (real_json (hl_lon loc))"

definition hafas_stop_place :: "(json \<Rightarrow> str) \<Rightarrow> hafas_location \<Rightarrow> py_error + canonical_stop_place option" where
  "hafas_stop_place rp loc =
     (if \<not> json_truthy (hl_lid loc) then Inr None
      else (let lid = py_str rp (hl_lid loc); ext = text_or_none rp (hl_ext_id loc); token = or_empty (oi_token (oebb_stop_id ext (Some lid)))
            in rbind (checked ''CanonicalStopPlace'' valid_stop_place
                 \<lparr>sp_ref = lid, sp_source = ''hafas:oebb'', sp_name = text_or_none rp (hl_name loc),
                  sp_uic = (if starts_with token ''UIC:'' then Some (drop 4 token) else None),
                  sp_codes = (case ext of Some e \<Rightarrow> [(''OEBB_EXT'', e)] | None \<Rightarrow> []), sp_parent_ref = None,
                  sp_unresolved_token = (if starts_with token ''OEBB:'' then Some token else None),
                  sp_position = hafas_position loc, sp_country = None, sp_station_id = None, sp_station_parent_id = None\<rparr>)
               (\<lambda>s. Inr (Some s))))"

definition hafas_location_end :: "(json \<Rightarrow> str) \<Rightarrow> hafas_location \<Rightarrow> py_error + canonical_location" where
  "hafas_location_end rp loc =
     rbind (hafas_stop_place rp loc) (\<lambda>stop. Inr (location_of stop (text_or_none rp (hl_name loc)) (hafas_position loc)))"

definition hafas_service :: "runtime \<Rightarrow> (json \<Rightarrow> str) \<Rightarrow> (str \<times> json) list \<Rightarrow> hafas_tables \<Rightarrow> canonical_service \<times> str" where
  "hafas_service rt rp journey tables =
     (let product = (case indexed (ht_products tables) (dget journey ''prodX'') of Some p \<Rightarrow> p | None \<Rightarrow> no_product);
          category = py_strip (if json_truthy (hp_cat product) then py_str rp (hp_cat product) else []);
          source_mode = map_category_to_mode rt category;
          number = hp_num product
      in (\<lparr>sv_mode = mode_family rt (Some source_mode),
           sv_product_category = (if category \<noteq> [] then Some \<lparr>pc_code = Some category, pc_name = None\<rparr> else None),
           sv_line = text_or_none rp (hp_line product),
           sv_train_number = (if number \<noteq> JNull \<and> number \<noteq> JStr [] then Some (py_str rp number) else None),
           sv_published_name = text_or_none rp (hp_name product), sv_route_long_name = None, sv_line_ref = None,
           sv_journey_ref = text_or_none rp (dget journey ''jid''),
           sv_destination_text = text_or_none rp (json_or (dget journey ''dirTxt'') (dget journey ''dirFlg'')),
           sv_operator = (case indexed (ht_operators tables) (hp_oprX product) of
               Some (name, i) \<Rightarrow> Some \<lparr>op_ref = text_or_none rp i, op_name = text_or_none rp name, op_code = None, op_url = None\<rparr>
             | None \<Rightarrow> None),
           sv_feed = None\<rparr>, source_mode))"

definition hafas_end_of :: "(json \<Rightarrow> str) \<Rightarrow> hafas_tables \<Rightarrow> json \<Rightarrow> py_error + canonical_location" where
  "hafas_end_of rp tables key = hafas_location_end rp (case indexed (ht_locations tables) key of Some l \<Rightarrow> l | None \<Rightarrow> no_location)"

definition hafas_leg :: "runtime \<Rightarrow> clock \<Rightarrow> (int \<Rightarrow> instant) \<Rightarrow> (json \<Rightarrow> str) \<Rightarrow> str \<Rightarrow> hafas_tables \<Rightarrow> json \<Rightarrow> py_error + canonical_leg option" where
  "hafas_leg rt ck vienna rp date tables v =
     rbind (as_mapping v) (\<lambda>section.
     let kind = rt_upper rt (if json_truthy (dget section ''type'') then py_str rp (dget section ''type'') else []) in
     if \<not> json_truthy (dget section ''dep'') \<or> \<not> json_truthy (dget section ''arr'') then Inr None
     else rbind (as_mapping (dget section ''dep'')) (\<lambda>dep.
     rbind (hafas_time_to_utc_iso vienna rp date (dget dep ''dTimeS'')) (\<lambda>dep_iso.
     rbind (as_mapping (dget section ''arr'')) (\<lambda>arr.
     rbind (hafas_time_to_utc_iso vienna rp date (dget arr ''aTimeS'')) (\<lambda>arr_iso.
     rbind (if kind = ''JNY'' then rbind (jdict (dget section ''jny'')) (\<lambda>jny.
              let (s, m) = hafas_service rt rp jny tables in Inr (Some s, Some m))
            else Inr (None, if kind = ''WALK'' \<or> kind = ''TRSF'' then Some ''WALK'' else None)) (\<lambda>(service, source_mode).
     rbind (jdict (dget section ''gis'')) (\<lambda>gis.
     rbind (hafas_end_of rp tables (dget dep ''locX'')) (\<lambda>origin.
     rbind (hafas_end_of rp tables (dget arr ''locX'')) (\<lambda>destination.
     rbind (section_duration_seconds ck section dep_iso arr_iso) (\<lambda>duration.
     rbind (checked ''CanonicalLeg'' valid_leg
       \<lparr>leg_kind = (if service \<noteq> None then Timed else Continuous), leg_origin = origin, leg_destination = destination,
        leg_departure = timing (parse_instant ck (json_of_text dep_iso)), leg_arrival = timing (parse_instant ck (json_of_text arr_iso)),
        leg_duration_seconds = duration,
        leg_distance_meters = (case number_or_none (dget gis ''dist'') of Some d \<Rightarrow> if d \<ge> 0 then Some d else None | None \<Rightarrow> None),
        leg_service = service, leg_continuous_mode = (if service = None then source_mode else None),
        leg_source_mode = source_mode\<rparr>) (\<lambda>leg. Inr (Some leg))))))))))))"

section \<open>Journeys\<close>

definition hafas_journey ::
  "runtime \<Rightarrow> clock \<Rightarrow> (int \<Rightarrow> instant) \<Rightarrow> (json \<Rightarrow> str) \<Rightarrow> hafas_tables \<Rightarrow> nat \<times> json \<Rightarrow> py_error + canonical_journey option" where
  "hafas_journey rt ck vienna rp tables ranked =
     rbind (as_mapping (snd ranked)) (\<lambda>connection.
     if \<not> json_truthy (dget connection ''date'') then Inr None
     else (let date = py_str rp (dget connection ''date'') in
     rbind (jiter (dget connection ''secL'')) (\<lambda>sections.
     rbind (map_err (hafas_leg rt ck vienna rp date tables) sections) (\<lambda>found.
     let legs = List.map_filter (\<lambda>l. l) found in
     rbind (jdict (dget connection ''dep'')) (\<lambda>dep.
     rbind (hafas_time_to_utc_iso vienna rp date (dget dep ''dTimeS'')) (\<lambda>departure.
     rbind (jdict (dget connection ''arr'')) (\<lambda>arr.
     rbind (hafas_time_to_utc_iso vienna rp date (dget arr ''aTimeS'')) (\<lambda>arrival.
     rbind (duration_value (dget connection ''dur'')) (\<lambda>duration.
     rbind (json_int_or_zero (dget connection ''chg'')) (\<lambda>chg.
     rbind (checked ''CanonicalJourney'' valid_journey
       \<lparr>j_id = rank_id ''hafas'' (Some ''oebb'') (fst ranked),
        j_source = \<lparr>js_provider = Hafas, js_role = Reference, js_session_id = None, js_engine = None,
          js_adapter_version = ADAPTER_VERSION, js_stitched_from_sessions = [], js_via_hubs = []\<rparr>,
        j_legs = mark_transfers legs, j_departure = timing (parse_instant ck (json_of_text departure)),
        j_arrival = timing (parse_instant ck (json_of_text arrival)),
        j_duration_seconds = (case duration of Some d \<Rightarrow> d | None \<Rightarrow> 0), j_source_transfer_count = Some chg\<rparr>)
       (\<lambda>j. Inr (Some j))))))))))))"

text \<open>\<open>services[0]\<close> of a value that is true.\<close>

definition first_service :: "json \<Rightarrow> py_error + json" where
  "first_service v = (case v of JArr es \<Rightarrow> Inr (hd es) | JStr s \<Rightarrow> Inr (JStr [hd s]) | JObj kvs \<Rightarrow> Inl KeyError | _ \<Rightarrow> Inl TypeError)"

definition journeys_from_trip_search ::
  "runtime \<Rightarrow> clock \<Rightarrow> (int \<Rightarrow> instant) \<Rightarrow> (json \<Rightarrow> str) \<Rightarrow> (str \<times> json) list \<Rightarrow> py_error + canonical_journey list" where
  "journeys_from_trip_search rt ck vienna rp payload =
     (let services = dget payload ''svcResL'' in
      if \<not> json_truthy services then Inr []
      else rbind (first_service services) (\<lambda>first. rbind (jdict first) (\<lambda>svc. rbind (jdict (dget svc ''res'')) (\<lambda>result.
        rbind (jdict (dget result ''common'')) (\<lambda>common.
        rbind (rbind (jiter (dget common ''locL'')) (map_err index_location)) (\<lambda>locations.
        rbind (rbind (jiter (dget common ''prodL'')) (map_err index_product)) (\<lambda>products.
        rbind (rbind (jiter (dget common ''opL'')) (map_err index_operator)) (\<lambda>operators.
        rbind (jiter (dget result ''outConL'')) (\<lambda>connections.
        rbind (map_err (hafas_journey rt ck vienna rp \<lparr>ht_locations = locations, ht_products = products, ht_operators = operators\<rparr>)
          (py_enumerate connections)) (\<lambda>found. Inr (List.map_filter (\<lambda>j. j) found)))))))))))"

end
