(* ===== verification/Adapter_Properties.thy ===== *)
theory Adapter_Properties
  imports Hafas_Adapter
begin

text \<open>
  Properties of the OTP, MOTIS and HAFAS adapters: the journeys they give are valid, in the order of the answer
  and marked, and what their errors are.
\<close>

section \<open>Legs and journeys\<close>

lemma otp_leg_valid: "otp_leg rt rp leg = Inr l \<Longrightarrow> valid_leg l"
  unfolding otp_leg_def Let_def rbind_Inr by (elim exE conjE) simp

lemma motis_leg_valid: "motis_leg rt ck rp leg = Inr l \<Longrightarrow> valid_leg l"
  unfolding motis_leg_def Let_def rbind_Inr by (elim exE conjE) simp

text \<open>A leg fails validation only for a negative duration.\<close>

lemma otp_leg_invalid:
  assumes "\<forall>v. rp v \<noteq> []" "otp_leg rt rp leg = Inl (ValidationError c)"
  shows "\<exists>n < 0. json_int_or_zero (dget leg ''duration'') = Inr n"
proof -
  have j: "jdict v \<noteq> Inl (ValidationError c)" for v using jdict_errors by fastforce
  have o: "otp_end rp place \<noteq> Inl (ValidationError c)" for place using otp_end_errors [OF assms(1)] by fastforce
  have s: "otp_service rt rp m r t i \<noteq> Inl (ValidationError c)" for m r t i by (simp add: otp_service_def rbind_Inl j Let_def)
  have z: "json_int_or_zero v \<noteq> Inl (ValidationError c)" for v using json_int_errors by (auto simp: json_int_or_zero_def)
  show ?thesis
    using assms(2) unfolding otp_leg_def Let_def
    by (auto simp: rbind_Inl j o s z valid_leg_def service_on_timed_legs_only_def dest!: otp_end_valid split: if_splits option.splits)
qed

lemma motis_leg_invalid:
  assumes "\<forall>v. rp v \<noteq> []" "motis_leg rt ck rp leg = Inl (ValidationError c)"
  shows "\<exists>n < 0. json_int (dget leg ''duration'') = Inr n"
proof -
  have j: "jdict v \<noteq> Inl (ValidationError c)" for v using jdict_errors by fastforce
  have o: "motis_end rp place \<noteq> Inl (ValidationError c)" for place using motis_end_errors [OF assms(1)] by simp
  have z: "json_int v \<noteq> Inl (ValidationError c)" for v using json_int_errors by auto
  show ?thesis
    using assms(2) unfolding motis_leg_def Let_def
    by (auto simp: rbind_Inl j o z valid_leg_def service_on_timed_legs_only_def dest!: motis_end_valid split: if_splits)
qed

definition well_made :: "journey_role \<Rightarrow> nat \<Rightarrow> canonical_journey \<Rightarrow> bool" where
  "well_made role rank j = (valid_journey j \<and> source_rank j = Inr (int rank) \<and> mark_transfers (j_legs j) = j_legs j
     \<and> js_role (j_source j) = role)"

lemma otp_journey_well_made: "otp_journey rt ck rp sid ranked = Inr j \<Longrightarrow> well_made Viator (fst ranked) j"
  unfolding otp_journey_def rbind_Inr
  by (elim exE conjE) (auto simp: well_made_def mark_transfers_idem viator_source_def intro: rank_id_source_rank)

lemma motis_journey_well_made: "motis_journey rt ck rp sid ranked = Inr j \<Longrightarrow> well_made Viator (fst ranked) j"
  unfolding motis_journey_def Let_def rbind_Inr
  by (elim exE conjE) (auto simp: well_made_def mark_transfers_idem viator_source_def intro: rank_id_source_rank)

lemma map_err_all2:
  assumes "map_err f xs = Inr ys" "\<And>x y. f x = Inr y \<Longrightarrow> Q x y"
  shows "list_all2 Q xs ys"
  using assms by (auto simp: map_err_Inr_iff list_all2_conv_all_nth)

lemma well_made_ranks: "list_all2 (\<lambda>x. well_made role (fst x)) xs js \<Longrightarrow> list_all2 (well_made role) (map fst xs) js"
  by (simp add: list_all2_conv_all_nth)

lemma map_filter_ranks:
  "sorted_wrt (<) (map fst xs) \<Longrightarrow> sorted_wrt (<) (map fst (List.map_filter (\<lambda>(rank, v). case v of JObj kvs \<Rightarrow> Some (rank, kvs) | _ \<Rightarrow> None) xs))
     \<and> set (map fst (List.map_filter (\<lambda>(rank, v). case v of JObj kvs \<Rightarrow> Some (rank, kvs) | _ \<Rightarrow> None) xs)) \<subseteq> set (map fst xs)"
proof (induction xs)
  case Nil
  then show ?case by (simp add: map_filter_simps)
next
  case (Cons x xs)
  obtain r v where x: "x = (r, v)" by (cases x)
  from Cons show ?case unfolding x by (cases v) (auto simp: map_filter_simps, force)
qed

lemma hafas_journey_well_made:
  "hafas_journey rt ck vienna rp tables ranked = Inr (Some j) \<Longrightarrow> well_made Reference (fst ranked) j"
  unfolding hafas_journey_def Let_def
  by (auto simp: well_made_def mark_transfers_idem intro: rank_id_source_rank split: if_splits)

text \<open>Of a row of results that may be missing, the ones that are there, with their ranks.\<close>

lemma found_ranks:
  assumes "list_all2 (\<lambda>r o'. case o' of None \<Rightarrow> True | Some j \<Rightarrow> Q r j) ranks found" "sorted_wrt (<) ranks"
  shows "\<exists>rs. sorted_wrt (<) (rs :: nat list) \<and> set rs \<subseteq> set ranks \<and> list_all2 Q rs (List.map_filter (\<lambda>j. j) found)"
  using assms
proof (induction rule: list_all2_induct)
  case Nil
  then show ?case by (intro exI [of _ "[]"]) (simp add: map_filter_simps)
next
  case (Cons r ranks o' found)
  then obtain rs where rs: "sorted_wrt (<) rs" "set rs \<subseteq> set ranks" "list_all2 Q rs (List.map_filter (\<lambda>j. j) found)" by auto
  show ?case
  proof (cases o')
    case None
    then show ?thesis using rs by (intro exI [of _ rs]) (auto simp: map_filter_simps)
  next
    case (Some j)
    then show ?thesis using rs Cons.hyps(1) Cons.prems by (intro exI [of _ "r # rs"]) (auto simp: map_filter_simps)
  qed
qed

lemma hafas_journeys_ranks:
  assumes "journeys_from_trip_search rt ck vienna rp payload = Inr js"
  shows "\<exists>ranks. sorted_wrt (<) ranks \<and> list_all2 (well_made Reference) ranks js"
proof (cases "json_truthy (dget payload ''svcResL'')")
  case False
  then show ?thesis using assms by (intro exI [of _ "[]"]) (simp add: journeys_from_trip_search_def)
next
  case True
  with assms obtain tables connections found where m: "map_err (hafas_journey rt ck vienna rp tables) (py_enumerate connections) = Inr found"
    "js = List.map_filter (\<lambda>j. j) found"
    unfolding journeys_from_trip_search_def Let_def by (auto split: if_splits)
  have w: "case y of None \<Rightarrow> True | Some j \<Rightarrow> well_made Reference (fst x) j" if "hafas_journey rt ck vienna rp tables x = Inr y" for x y
    using that by (auto split: option.splits intro!: hafas_journey_well_made [where rt = rt and ck = ck and vienna = vienna and rp = rp and tables = tables])
  have "list_all2 (\<lambda>x y. case y of None \<Rightarrow> True | Some j \<Rightarrow> well_made Reference (fst x) j) (py_enumerate connections) found"
    by (rule map_err_all2 [OF m(1)]) (rule w)
  then have "list_all2 (\<lambda>r o'. case o' of None \<Rightarrow> True | Some j \<Rightarrow> well_made Reference r j) (map fst (py_enumerate connections)) found"
    by (simp only: list_all2_map1)
  from found_ranks [OF this] show ?thesis by (auto simp: m(2))
qed

section \<open>The property\<close>


definition sample_answer :: json where
  "sample_answer = JObj [(''data'', JObj [(''planConnection'', JObj [(''edges'', JArr [JObj [(''node'',
     JObj [(''duration'', JInt 3600), (''legs'', JArr [JObj [(''mode'', JStr ''RAIL''), (''duration'', JInt 3600),
       (''from'', JObj [(''name'', JStr ''Bern''), (''stop'', JObj [(''gtfsId'', JStr ''SBB:8507000'')])])]])])]])])])]"

definition blind_clock :: clock where
  "blind_clock = \<lparr>ck_fromisoformat = (\<lambda>_. None), ck_local = (\<lambda>t. t)\<rparr>"


end
