(* ===== verification/Engine_Sizing.thy ===== *)
theory Engine_Sizing
  imports Adapters Hafas_Ids
begin

text \<open>
  The validators of the per-session engine settings and the memory they derive: \<open>app/otp_heap.py\<close>,
  \<open>memory_caps.py\<close>, \<open>otp_start_period.py\<close>, \<open>otp_api_timeout.py\<close>, \<open>otp_timezone.py\<close> and
  \<open>engine_versions.py\<close>. A value that comes from a saved configuration is a JSON value (\<open>JNull\<close> for
  None); one the code itself builds is a text. \<open>int()\<close> of a text has no limit on its digits here
  (CPython stops at 4300). The zone database and the environment are parameters.
\<close>

section \<open>A number and its unit\<close>

text \<open>\<open>^(\d+)([...])$\<close> with \<open>match\<close>: \<open>$\<close> also stops before a line feed that ends the text.\<close>

definition before_final_newline :: "str \<Rightarrow> str" where
  "before_final_newline s = (if s \<noteq> [] \<and> last s = CHR 0x0A then butlast s else s)"

definition qty_unit :: "str \<Rightarrow> str \<Rightarrow> (str \<times> char) option" where
  "qty_unit units s = (let t = before_final_newline s in
     if t \<noteq> [] \<and> last t \<in> set units \<and> butlast t \<noteq> [] \<and> list_all is_decimal (butlast t)
     then Some (butlast t, last t) else None)"

definition HEAP_RE :: "str \<Rightarrow> (str \<times> char) option" where
  "HEAP_RE = qty_unit ''gGmM''"

definition LIMIT_RE :: "str \<Rightarrow> (str \<times> char) option" where
  "LIMIT_RE = qty_unit ''gGmM''"

definition TIMEOUT_RE :: "str \<Rightarrow> (str \<times> char) option" where
  "TIMEOUT_RE = qty_unit ''sm''"

section \<open>\<open>otp_heap.py\<close>\<close>

definition DEFAULT_HEAP :: str where "DEFAULT_HEAP = ''12g''"
definition MIN_BUILD_HEADROOM_GB :: int where "MIN_BUILD_HEADROOM_GB = 4"
definition MAX_MEMORY_RESERVE_GB :: int where "MAX_MEMORY_RESERVE_GB = 8"
definition MIN_SERVE_HEADROOM_GB :: int where "MIN_SERVE_HEADROOM_GB = 4"
definition DEFAULT_SERVE_HEADROOM_GB :: int where "DEFAULT_SERVE_HEADROOM_GB = 6"

definition COMMON_HEAPS :: "str list" where
  "COMMON_HEAPS = [''12g'', ''16g'', ''20g'', ''24g'', ''28g'', ''32g'', ''36g'', ''48g'', ''56g'', ''64g'', ''72g'']"

definition COMMON_SERVE_HEAPS :: "str list" where
  "COMMON_SERVE_HEAPS = [''4g'', ''8g'', ''12g'', ''16g'', ''20g'', ''24g'', ''32g'', ''48g'']"

definition gb_text :: "int \<Rightarrow> str" where
  "gb_text n = show_int n @ ''g''"

definition default_serve_heap_for_build :: "str option \<Rightarrow> str" where
  "default_serve_heap_for_build build_heap =
     (if \<not> truthy build_heap then ''4g''
      else (case HEAP_RE (py_strip (or_empty build_heap)) of
              None \<Rightarrow> ''4g''
            | Some (qty, unit) \<Rightarrow>
                if ascii_lower unit = CHR ''m'' then ''4g''
                else gb_text (max 4 ((int (digits_value qty) + 2) div 3))))"

definition validate_heap :: "str \<Rightarrow> json \<Rightarrow> py_error + str" where
  "validate_heap def v = (case v of
       JNull \<Rightarrow> Inr def
     | JStr s \<Rightarrow>
         if s = [] then Inr def
         else (case HEAP_RE (py_strip s) of
                 None \<Rightarrow> Inl (ValueError ''otp_build_heap: expected pattern'')
               | Some (qty, unit) \<Rightarrow> Inr (qty @ [ascii_lower unit]))
     | _ \<Rightarrow> Inl (ValueError ''otp_build_heap must be a string''))"

definition heap_to_gb :: "str \<Rightarrow> py_error + int" where
  "heap_to_gb heap = (case HEAP_RE (py_strip heap) of
       None \<Rightarrow> Inl (ValueError ''heap: expected pattern'')
     | Some (qty, unit) \<Rightarrow>
         let q = int (digits_value qty) in
         if ascii_lower unit = CHR ''g'' then Inr q else Inr (max 1 (- ((- q) div 1024))))"

definition mem_limit_for_heap :: "str \<Rightarrow> int \<Rightarrow> str option \<Rightarrow> py_error + str" where
  "mem_limit_for_heap def headroom_gb heap =
     rbind (case (if truthy heap then heap_to_gb (or_empty heap) else heap_to_gb def) of
              Inr gb \<Rightarrow> Inr gb
            | Inl (ValueError e) \<Rightarrow> heap_to_gb def
            | Inl e \<Rightarrow> Inl e)
       (\<lambda>gb. Inr (gb_text (gb + max (max MIN_BUILD_HEADROOM_GB (gb div 6)) headroom_gb)))"

text \<open>The size of the container of a heap of so many gigabytes, as the loop below asks for it.\<close>

definition cap_gb :: "int \<Rightarrow> int \<Rightarrow> py_error + int" where
  "cap_gb headroom_gb heap = rbind (mem_limit_for_heap DEFAULT_HEAP headroom_gb (Some (gb_text heap))) heap_to_gb"

function trim_heap :: "int \<Rightarrow> int \<Rightarrow> int \<Rightarrow> int \<Rightarrow> py_error + int" where
  "trim_heap headroom_gb avail min_gb heap =
     (if heap > min_gb
      then rbind (cap_gb headroom_gb heap)
             (\<lambda>c. if c > avail then trim_heap headroom_gb avail min_gb (heap - 1) else Inr heap)
      else Inr heap)"
  by pat_completeness auto
termination by (relation "measure (\<lambda>(headroom_gb, avail, min_gb, heap). nat (heap - min_gb))") auto

definition auto_build_heap :: "int \<Rightarrow> int \<Rightarrow> int \<Rightarrow> int \<Rightarrow> py_error + str option" where
  "auto_build_heap host_gb reserve_gb min_gb headroom_gb = (let avail = host_gb - reserve_gb in
     if avail < min_gb then Inr None
     else rbind (trim_heap headroom_gb avail min_gb (max min_gb ((avail * 6) div 7))) (\<lambda>heap.
          rbind (cap_gb headroom_gb heap) (\<lambda>c.
            if c > avail then Inr None else Inr (Some (gb_text heap)))))"

definition serve_mem_limit_for_heap :: "int \<Rightarrow> str option \<Rightarrow> py_error + str option" where
  "serve_mem_limit_for_heap headroom_gb heap =
     (if \<not> truthy heap then Inr None
      else (case heap_to_gb (or_empty heap) of
              Inl (ValueError e) \<Rightarrow> Inr None
            | Inl e \<Rightarrow> Inl e
            | Inr gb \<Rightarrow> Inr (Some (gb_text (gb + max (max headroom_gb (gb div 3)) MIN_SERVE_HEADROOM_GB)))))"

section \<open>\<open>memory_caps.py\<close>\<close>

definition MIN_LIMIT_MB :: int where "MIN_LIMIT_MB = 64"

definition BUILD_OOM_SCORE_ADJ :: int where "BUILD_OOM_SCORE_ADJ = 500"

definition BUILD_OOM_SCORE_ARGS :: "str list" where
  "BUILD_OOM_SCORE_ARGS = [''--oom-score-adj'', show_int BUILD_OOM_SCORE_ADJ]"

definition validate_mem_limit :: "str option \<Rightarrow> py_error + str option" where
  "validate_mem_limit v = (case v of
       None \<Rightarrow> Inr None
     | Some s \<Rightarrow>
         if py_strip s = [] then Inr None
         else (case LIMIT_RE (py_strip s) of
                 None \<Rightarrow> Inl (ValueError ''memory limit: expected pattern'')
               | Some (qty, unit) \<Rightarrow>
                   let q = int (digits_value qty); u = ascii_lower unit in
                   if q = 0 then Inl (ValueError ''memory limit 0 means no limit'')
                   else if (if u = CHR ''g'' then q * 1024 else q) < MIN_LIMIT_MB
                   then Inl (ValueError ''memory limit below 64m'')
                   else Inr (Some (show_int q @ [u]))))"

definition compose_memory_lines :: "str \<Rightarrow> str option \<Rightarrow> str" where
  "compose_memory_lines indent limit =
     (if \<not> truthy limit then []
      else indent @ ''mem_limit: '' @ [CHR 0x22] @ or_empty limit @ [CHR 0x22, CHR 0x0A]
         @ indent @ ''memswap_limit: '' @ [CHR 0x22] @ or_empty limit @ [CHR 0x22, CHR 0x0A])"

definition docker_run_memory_args :: "str option \<Rightarrow> str list" where
  "docker_run_memory_args limit =
     (if \<not> truthy limit then [] else [''--memory'', or_empty limit, ''--memory-swap'', or_empty limit])"

section \<open>\<open>otp_start_period.py\<close>, \<open>otp_api_timeout.py\<close>, \<open>otp_timezone.py\<close>, \<open>engine_versions.py\<close>\<close>

definition DEFAULT_START_PERIOD_SECONDS :: int where "DEFAULT_START_PERIOD_SECONDS = 300"
definition MIN_SECONDS :: int where "MIN_SECONDS = 30"
definition MAX_SECONDS :: int where "MAX_SECONDS = 1800"

definition COMMON_START_PERIODS :: "int list" where
  "COMMON_START_PERIODS = [120, 180, 300, 480, 600, 900]"

definition start_period_in_bounds :: "int \<Rightarrow> py_error + int" where
  "start_period_in_bounds n =
     (if n < MIN_SECONDS then Inl (ValueError ''otp_serve_start_period below minimum'')
      else if n > MAX_SECONDS then Inl (ValueError ''otp_serve_start_period above maximum'')
      else Inr n)"

definition validate_start_period :: "int \<Rightarrow> json \<Rightarrow> py_error + int" where
  "validate_start_period def v = (case v of
       JNull \<Rightarrow> Inr def
     | JStr s \<Rightarrow>
         if s = [] \<or> py_strip s = [] then Inr def
         else (case py_int (py_strip s) of
                 None \<Rightarrow> Inl (ValueError ''otp_serve_start_period must be an integer number of seconds'')
               | Some n \<Rightarrow> start_period_in_bounds n)
     | JBool b \<Rightarrow> Inl (ValueError ''otp_serve_start_period must be an integer, got bool'')
     | JInt n \<Rightarrow> start_period_in_bounds n
     | _ \<Rightarrow> Inl (ValueError ''otp_serve_start_period must be an int''))"

definition DEFAULT_TIMEOUT :: str where "DEFAULT_TIMEOUT = ''30s''"

definition COMMON_TIMEOUTS :: "str list" where
  "COMMON_TIMEOUTS = [''10s'', ''20s'', ''30s'', ''60s'', ''120s'']"

definition validate_timeout :: "runtime \<Rightarrow> str \<Rightarrow> json \<Rightarrow> py_error + str" where
  "validate_timeout rt def v = (case v of
       JNull \<Rightarrow> Inr def
     | JStr s \<Rightarrow>
         if s = [] then Inr def
         else (let stripped = rt_lower rt (py_strip s) in
               case TIMEOUT_RE stripped of
                 None \<Rightarrow> Inl (ValueError ''otp_api_timeout: expected pattern'')
               | Some m \<Rightarrow> Inr stripped)
     | _ \<Rightarrow> Inl (ValueError ''otp_api_timeout must be a string''))"

definition DEFAULT_TIMEZONE :: str where "DEFAULT_TIMEZONE = ''Europe/Paris''"

text \<open>\<open>ZoneInfo(key)\<close> is \<open>zone\<close>: the error it raises, or None. \<open>ZoneInfoNotFoundError\<close> is a \<open>KeyError\<close>.\<close>

definition validate_timezone :: "(str \<Rightarrow> py_error option) \<Rightarrow> json \<Rightarrow> py_error + str" where
  "validate_timezone zone v = (case v of
       JNull \<Rightarrow> Inr DEFAULT_TIMEZONE
     | JStr s \<Rightarrow>
         if s = [] then Inr DEFAULT_TIMEZONE
         else (case zone s of
                 None \<Rightarrow> Inr s
               | Some KeyError \<Rightarrow> Inl (ValueError ''otp_timezone is not a valid IANA timezone'')
               | Some e \<Rightarrow> Inl e)
     | _ \<Rightarrow> Inl (ValueError ''otp_timezone must be a string''))"

definition MOTIS_PINNED :: str where "MOTIS_PINNED = ''2.11.2''"

definition MOTIS_VERSION :: "str option \<Rightarrow> str" where
  "MOTIS_VERSION env = (if truthy env then or_empty env else MOTIS_PINNED)"

definition MOTIS_IMAGE :: "str option \<Rightarrow> str" where
  "MOTIS_IMAGE env = ''ghcr.io/motis-project/motis:'' @ MOTIS_VERSION env"

definition MOTIS_BUILD_VERSION :: "str option \<Rightarrow> str option \<Rightarrow> str" where
  "MOTIS_BUILD_VERSION build_env env = (if truthy build_env then or_empty build_env else MOTIS_VERSION env)"

definition MOTIS_BUILD_IMAGE :: "str option \<Rightarrow> str option \<Rightarrow> str" where
  "MOTIS_BUILD_IMAGE build_env env = ''ghcr.io/motis-project/motis:'' @ MOTIS_BUILD_VERSION build_env env"

section \<open>Sizes read back\<close>

lemma show_int_decimal: "0 \<le> n \<Longrightarrow> show_int n = show_nat (nat n)"
  by (simp add: show_int_def)

lemma strip_no_final_newline [simp]: "before_final_newline (py_strip s) = py_strip s"
proof -
  have "is_space (CHR 0x0A)" by (simp add: is_space_def)
  then have "\<not> (py_strip s \<noteq> [] \<and> last (py_strip s) = CHR 0x0A)"
    using py_strip_ends(2) [of s] by metis
  then show ?thesis unfolding before_final_newline_def by (rule if_not_P)
qed

lemma qty_unit_stripped:
  "qty_unit units (py_strip s) = Some (q, u) \<longleftrightarrow>
     py_strip s = q @ [u] \<and> u \<in> set units \<and> q \<noteq> [] \<and> list_all is_decimal q"
proof -
  have *: "t \<noteq> [] \<and> butlast t = q \<and> last t = u \<longleftrightarrow> t = q @ [u]" for t
    by (metis append_butlast_last_id butlast_snoc last_snoc snoc_eq_iff_butlast)
  show ?thesis unfolding qty_unit_def Let_def strip_no_final_newline
    using * [of "py_strip s"] by (auto split: if_splits)
qed

lemma py_strip_sized:
  assumes "q \<noteq> []" "list_all is_decimal q" "\<not> is_space u"
  shows "py_strip (q @ [u]) = q @ [u]"
proof -
  from assms(1,2) have "\<not> is_space (hd q)" by (cases q) (auto dest: is_decimal_not_space)
  with assms show ?thesis by (intro py_strip_no_space) simp_all
qed

lemma qty_unit_sized:
  assumes "q \<noteq> []" "list_all is_decimal q" "\<not> is_space u" "u \<in> set units"
  shows "qty_unit units (py_strip (q @ [u])) = Some (q, u)"
  using assms qty_unit_stripped [of units "q @ [u]" q u] py_strip_sized [OF assms(1-3)] by simp

lemma unit_not_space: "u \<in> set ''gGmM'' \<Longrightarrow> \<not> is_space u"
  by (auto simp: is_space_def)

lemma HEAP_RE_sized:
  "q \<noteq> [] \<Longrightarrow> list_all is_decimal q \<Longrightarrow> u \<in> set ''gGmM'' \<Longrightarrow> HEAP_RE (py_strip (q @ [u])) = Some (q, u)"
  unfolding HEAP_RE_def by (rule qty_unit_sized) (simp_all add: unit_not_space)

lemma HEAP_RE_gb_text: "0 \<le> n \<Longrightarrow> HEAP_RE (py_strip (gb_text n)) = Some (show_nat (nat n), CHR ''g'')"
  unfolding gb_text_def by (simp add: show_int_decimal HEAP_RE_sized show_nat_decimal)

lemma heap_to_gb_gb_text [simp]: "0 \<le> n \<Longrightarrow> heap_to_gb (gb_text n) = Inr n"
  by (simp add: heap_to_gb_def HEAP_RE_gb_text digits_value_show_nat ascii_lower_def)

lemma minus_no_sized: "CHR ''-'' # xs = q @ [u] \<Longrightarrow> q \<noteq> [] \<Longrightarrow> \<not> list_all is_decimal q"
  by (cases q) (auto simp: is_decimal_def)

lemma heap_to_gb_negative: "n < 0 \<Longrightarrow> heap_to_gb (gb_text n) = Inl (ValueError ''heap: expected pattern'')"
proof -
  assume "n < 0"
  then have t: "gb_text n = CHR ''-'' # (show_nat (nat (- n)) @ ''g'')" by (simp add: gb_text_def show_int_def)
  have strip: "py_strip (gb_text n) = gb_text n"
    by (intro py_strip_no_space) (auto simp: t is_space_def)
  have "HEAP_RE (py_strip (gb_text n)) \<noteq> Some (q, u)" for q u
  proof
    assume "HEAP_RE (py_strip (gb_text n)) = Some (q, u)"
    then have "py_strip (gb_text n) = q @ [u]" "q \<noteq> []" "list_all is_decimal q"
      unfolding HEAP_RE_def qty_unit_stripped by blast+
    then show False using minus_no_sized by (metis strip t)
  qed
  then have "HEAP_RE (py_strip (gb_text n)) = None" by (cases "HEAP_RE (py_strip (gb_text n))") auto
  then show ?thesis by (simp add: heap_to_gb_def)
qed

lemma heap_to_gb_nonneg: "heap_to_gb s = Inr n \<Longrightarrow> 0 \<le> n"
  by (auto simp: heap_to_gb_def Let_def split: option.splits if_splits)

lemma heap_to_gb_error: "heap_to_gb s = Inl e \<Longrightarrow> e = ValueError ''heap: expected pattern''"
  by (auto simp: heap_to_gb_def Let_def split: option.splits if_splits)

lemma gb_text_nonempty [simp]: "gb_text n \<noteq> []"
  by (simp add: gb_text_def)

lemma heap_to_gb_default [simp]: "heap_to_gb DEFAULT_HEAP = Inr 12"
proof -
  have "DEFAULT_HEAP = gb_text 12" by code_simp
  moreover have "heap_to_gb (gb_text 12) = Inr 12" by simp
  ultimately show ?thesis by (simp only:)
qed

text \<open>The memory of a container over the heap of its engine.\<close>

definition build_cap :: "int \<Rightarrow> int \<Rightarrow> int" where
  "build_cap headroom_gb gb = gb + max (max 4 (gb div 6)) headroom_gb"

lemma build_cap_mono: "a < b \<Longrightarrow> build_cap headroom_gb a < build_cap headroom_gb b"
proof -
  assume "a < b"
  then have "a div 6 \<le> b div 6" by (intro zdiv_mono1) simp_all
  with \<open>a < b\<close> show ?thesis by (simp add: build_cap_def)
qed

lemma build_cap_ge: "gb + 4 \<le> build_cap headroom_gb gb" "gb + headroom_gb \<le> build_cap headroom_gb gb"
  by (simp_all add: build_cap_def)

lemma mem_limit_of_gb:
  "heap_to_gb heap = Inr gb \<Longrightarrow> heap \<noteq> [] \<Longrightarrow>
     mem_limit_for_heap def headroom_gb (Some heap) = Inr (gb_text (build_cap headroom_gb gb))"
  by (simp add: mem_limit_for_heap_def rbind_def build_cap_def MIN_BUILD_HEADROOM_GB_def)

lemma cap_gb_eq: "0 \<le> heap \<Longrightarrow> cap_gb headroom_gb heap = Inr (build_cap headroom_gb heap)"
  using build_cap_ge(1) [of heap headroom_gb] by (simp add: cap_gb_def mem_limit_of_gb rbind_def)

lemma cap_gb_negative: "heap < 0 \<Longrightarrow> cap_gb headroom_gb heap = Inr (build_cap headroom_gb 12)"
  using build_cap_ge(1) [of 12 headroom_gb]
  by (simp add: cap_gb_def mem_limit_for_heap_def heap_to_gb_negative rbind_def build_cap_def MIN_BUILD_HEADROOM_GB_def)

declare trim_heap.simps [simp del]

lemma trim_heap_result:
  assumes "0 \<le> min_gb" "min_gb \<le> start"
  shows "\<exists>h. trim_heap headroom_gb avail min_gb start = Inr h \<and> min_gb \<le> h \<and> h \<le> start
     \<and> (h = min_gb \<or> build_cap headroom_gb h \<le> avail) \<and> (h = start \<or> avail < build_cap headroom_gb (h + 1))"
  using assms
proof (induction headroom_gb avail min_gb start rule: trim_heap.induct)
  case (1 headroom_gb avail min_gb heap)
  show ?case
  proof (cases "heap > min_gb \<and> build_cap headroom_gb heap > avail")
    case True
    with 1 have "\<exists>h. trim_heap headroom_gb avail min_gb (heap - 1) = Inr h \<and> min_gb \<le> h \<and> h \<le> heap - 1
       \<and> (h = min_gb \<or> build_cap headroom_gb h \<le> avail) \<and> (h = heap - 1 \<or> avail < build_cap headroom_gb (h + 1))"
      by (intro "1.IH" [of "build_cap headroom_gb heap"]) simp_all
    then obtain h where "trim_heap headroom_gb avail min_gb (heap - 1) = Inr h" "min_gb \<le> h" "h \<le> heap - 1"
       "h = min_gb \<or> build_cap headroom_gb h \<le> avail" "h = heap - 1 \<or> avail < build_cap headroom_gb (h + 1)" by blast
    with True "1.prems" show ?thesis by (subst trim_heap.simps) (auto simp: cap_gb_eq rbind_def)
  next
    case False
    with "1.prems" show ?thesis by (subst trim_heap.simps) (auto simp: cap_gb_eq rbind_def)
  qed
qed

section \<open>Properties\<close>

text \<open>C23: \<open>auto_build_heap\<close> always returns. It gives None exactly when the container of the least heap
  does not fit beside the reserve; else the heap it gives fits, is not below the least one, and at most
  one gigabyte below the largest heap that fits.\<close>

theorem auto_build_heap_result:
  assumes "0 \<le> min_gb"
  shows "case auto_build_heap host_gb reserve_gb min_gb headroom_gb of
       Inl e \<Rightarrow> False
     | Inr None \<Rightarrow> host_gb - reserve_gb < build_cap headroom_gb min_gb
     | Inr (Some t) \<Rightarrow> \<exists>h. t = gb_text h \<and> min_gb \<le> h \<and> cap_gb headroom_gb h = Inr (build_cap headroom_gb h)
         \<and> build_cap headroom_gb h \<le> host_gb - reserve_gb \<and> host_gb - reserve_gb < build_cap headroom_gb (h + 2)"
proof (cases "host_gb - reserve_gb < min_gb")
  case True
  then show ?thesis using build_cap_ge(1) [of min_gb headroom_gb] by (simp add: auto_build_heap_def Let_def)
next
  case False
  let ?avail = "host_gb - reserve_gb"
  let ?start = "max min_gb ((?avail * 6) div 7)"
  obtain h where h: "trim_heap headroom_gb ?avail min_gb ?start = Inr h" "min_gb \<le> h" "h \<le> ?start"
      "h = min_gb \<or> build_cap headroom_gb h \<le> ?avail" "h = ?start \<or> ?avail < build_cap headroom_gb (h + 1)"
    using trim_heap_result [OF assms, of ?start headroom_gb ?avail] by auto
  from h(2) assms have cap: "cap_gb headroom_gb h = Inr (build_cap headroom_gb h)" by (intro cap_gb_eq) simp
  have "x < x * 6 div 7 + 2 + (x * 6 div 7 + 2) div 6" for x :: int by linarith
  from this [of ?avail] have "?avail < ?start + 2 + (?start + 2) div 6"
    using zdiv_mono1 [of "?avail * 6 div 7 + 2" "?start + 2" 6] by linarith
  then have above: "?avail < build_cap headroom_gb (?start + 2)" unfolding build_cap_def by linarith
  have "?avail < build_cap headroom_gb (h + 2)"
    using h(5) above build_cap_mono [of "h + 1" "h + 2" headroom_gb] by auto
  with h False cap show ?thesis by (auto simp: auto_build_heap_def Let_def rbind_def)
qed

theorem auto_build_heap_result_witness:
  "case auto_build_heap 96 8 8 4 of Inr (Some t) \<Rightarrow> \<exists>h. t = gb_text h \<and> 8 \<le> h \<and> build_cap 4 h \<le> 88 | Inr None \<Rightarrow> 88 < build_cap 4 8 | _ \<Rightarrow> False"
  using auto_build_heap_result [of 8 96 8 4] by (auto split: sum.splits option.splits)

text \<open>One gigabyte is left on the table: on a host of 58 GB the answer is 42g, and 43g fits in the
  50 GB that are free.\<close>

lemma auto_build_heap_misses_largest:
  "auto_build_heap 58 8 8 4 = Inr (Some (gb_text 42))" "cap_gb 4 43 = Inr 50"
proof -
  have "build_cap 4 42 = 49" "build_cap 4 43 = 50" by (simp_all add: build_cap_def)
  then show "auto_build_heap 58 8 8 4 = Inr (Some (gb_text 42))" "cap_gb 4 43 = Inr 50"
    by (simp_all add: auto_build_heap_def Let_def rbind_def cap_gb_eq trim_heap.simps [of 4 50 8 42])
qed

lemma ascii_lower_units:
  "ascii_lower (CHR ''g'') = CHR ''g''" "ascii_lower (CHR ''G'') = CHR ''g''"
  "ascii_lower (CHR ''m'') = CHR ''m''" "ascii_lower (CHR ''M'') = CHR ''m''"
  by code_simp+

lemma validate_heap_sized:
  "validate_heap def (JStr s) = Inr t \<Longrightarrow> s \<noteq> [] \<Longrightarrow>
     \<exists>q u. HEAP_RE (py_strip s) = Some (q, u) \<and> HEAP_RE (py_strip t) = Some (q, ascii_lower u) \<and> t = q @ [ascii_lower u]
       \<and> q \<noteq> [] \<and> ascii_lower u \<in> {CHR ''g'', CHR ''m''}"
proof -
  assume a: "validate_heap def (JStr s) = Inr t" "s \<noteq> []"
  then obtain q u where m: "HEAP_RE (py_strip s) = Some (q, u)" "t = q @ [ascii_lower u]"
    by (auto simp: validate_heap_def split: option.splits)
  from m(1) have q: "q \<noteq> []" "list_all is_decimal q" "u \<in> set ''gGmM''" unfolding HEAP_RE_def qty_unit_stripped by blast+
  then have l: "ascii_lower u \<in> {CHR ''g'', CHR ''m''}" using ascii_lower_units by auto
  then have "HEAP_RE (py_strip t) = Some (q, ascii_lower u)" unfolding m(2) using q by (intro HEAP_RE_sized) auto
  with m q l show ?thesis by auto
qed

lemma ascii_lower_unit: "u \<in> {CHR ''g'', CHR ''m''} \<Longrightarrow> ascii_lower u = u"
  by (auto simp: ascii_lower_def)

lemma validate_mem_limit_gb_text: "1 \<le> n \<Longrightarrow> validate_mem_limit (Some (gb_text n)) = Inr (Some (gb_text n))"
proof -
  assume n: "1 \<le> n"
  then have re: "LIMIT_RE (py_strip (gb_text n)) = Some (show_nat (nat n), CHR ''g'')"
    using HEAP_RE_gb_text [of n] by (simp add: HEAP_RE_def LIMIT_RE_def)
  have "py_strip (gb_text n) \<noteq> []" using n py_strip_sized [of "show_nat (nat n)" "CHR ''g''"]
    by (simp add: gb_text_def show_int_decimal show_nat_decimal unit_not_space)
  with re n show ?thesis
    by (simp add: validate_mem_limit_def Let_def digits_value_show_nat ascii_lower_def MIN_LIMIT_MB_def gb_text_def)
qed

text \<open>C24: A heap setting that passes is stored in a form that passes unchanged and means the same number
  of gigabytes, and both containers it sizes have a cap that \<open>validate_mem_limit\<close> accepts as it is, at
  least four gigabytes above the heap.\<close>

theorem heap_setting_sizes_containers:
  assumes "validate_heap def (JStr s) = Inr t" "s \<noteq> []"
  shows "\<exists>n b v. validate_heap def (JStr t) = Inr t \<and> heap_to_gb s = Inr n \<and> heap_to_gb t = Inr n
     \<and> mem_limit_for_heap def headroom_gb (Some t) = Inr (gb_text b) \<and> n + 4 \<le> b \<and> n + headroom_gb \<le> b
     \<and> serve_mem_limit_for_heap headroom_gb (Some t) = Inr (Some (gb_text v)) \<and> n + 4 \<le> v \<and> n + headroom_gb \<le> v
     \<and> validate_mem_limit (Some (gb_text b)) = Inr (Some (gb_text b))
     \<and> validate_mem_limit (Some (gb_text v)) = Inr (Some (gb_text v))"
proof -
  from validate_heap_sized [OF assms] obtain q u where
    m: "HEAP_RE (py_strip s) = Some (q, u)" "HEAP_RE (py_strip t) = Some (q, ascii_lower u)" "t = q @ [ascii_lower u]" "q \<noteq> []"
       "ascii_lower u \<in> {CHR ''g'', CHR ''m''}" by blast
  have u: "ascii_lower (ascii_lower u) = ascii_lower u" using m(5) by (rule ascii_lower_unit)
  have again: "validate_heap def (JStr t) = Inr t" using m u by (simp add: validate_heap_def)
  have eq: "heap_to_gb t = heap_to_gb s" using m(1,2) u by (simp add: heap_to_gb_def)
  obtain n where n: "heap_to_gb s = Inr n" using m(1) by (cases "heap_to_gb s") (auto simp: heap_to_gb_def Let_def split: if_splits)
  then have n0: "0 \<le> n" by (rule heap_to_gb_nonneg)
  have ne: "t \<noteq> []" using m(3) by simp
  let ?v = "n + max (max headroom_gb (n div 3)) 4"
  have b: "mem_limit_for_heap def headroom_gb (Some t) = Inr (gb_text (build_cap headroom_gb n))"
    using n eq ne by (intro mem_limit_of_gb) simp_all
  have v: "serve_mem_limit_for_heap headroom_gb (Some t) = Inr (Some (gb_text ?v))"
    using n eq ne by (simp add: serve_mem_limit_for_heap_def MIN_SERVE_HEADROOM_GB_def)
  show ?thesis
    using again n eq b v n0 build_cap_ge [of n headroom_gb]
    by (intro exI [of _ n] exI [of _ "build_cap headroom_gb n"] exI [of _ ?v] conjI validate_mem_limit_gb_text) simp_all
qed

theorem heap_setting_sizes_containers_witness:
  "\<exists>n b. heap_to_gb ''24g'' = Inr n \<and> mem_limit_for_heap DEFAULT_HEAP 4 (Some ''24g'') = Inr (gb_text b) \<and> n + 4 \<le> b"
proof -
  have "validate_heap DEFAULT_HEAP (JStr '' 24G '') = Inr ''24g''" by code_simp
  from heap_setting_sizes_containers [OF this, of 4] show ?thesis by auto
qed

text \<open>A memory cap that passes passes again unchanged.\<close>

lemma validate_mem_limit_idem: "validate_mem_limit v = Inr (Some t) \<Longrightarrow> validate_mem_limit (Some t) = Inr (Some t)"
proof -
  assume "validate_mem_limit v = Inr (Some t)"
  then obtain s q u where m: "LIMIT_RE (py_strip s) = Some (q, u)" "t = show_nat (digits_value q) @ [ascii_lower u]"
      "digits_value q \<noteq> 0" "\<not> (if ascii_lower u = CHR ''g'' then int (digits_value q) * 1024 else int (digits_value q)) < MIN_LIMIT_MB"
    by (auto simp: validate_mem_limit_def Let_def show_int_decimal split: option.splits if_splits prod.splits)
  from m(1) have "u \<in> set ''gGmM''" unfolding LIMIT_RE_def qty_unit_stripped by blast
  then have u: "ascii_lower u \<in> {CHR ''g'', CHR ''m''}" using ascii_lower_units by auto
  then have sp: "\<not> is_space (ascii_lower u)" by (intro unit_not_space) auto
  have "LIMIT_RE (py_strip t) = Some (show_nat (digits_value q), ascii_lower u)"
    unfolding LIMIT_RE_def m(2) using u sp by (intro qty_unit_sized) (auto simp: show_nat_decimal)
  moreover have "py_strip t \<noteq> []" using py_strip_sized [OF _ _ sp, of "show_nat (digits_value q)"] m(2) by (simp add: show_nat_decimal)
  ultimately show ?thesis using m(3,4) ascii_lower_unit [OF u]
    by (simp add: validate_mem_limit_def Let_def digits_value_show_nat show_int_decimal m(2) split: if_splits)
qed

lemma start_period_bounds:
  "validate_start_period def v = Inr n \<Longrightarrow> MIN_SECONDS \<le> def \<and> def \<le> MAX_SECONDS \<Longrightarrow>
     MIN_SECONDS \<le> n \<and> n \<le> MAX_SECONDS \<and> validate_start_period def (JInt n) = Inr n"
  by (auto simp: validate_start_period_def start_period_in_bounds_def split: json.splits if_splits option.splits)

lemma validate_timeout_shape:
  "validate_timeout rt def v = Inr t \<Longrightarrow> t = def \<or> TIMEOUT_RE t \<noteq> None"
  by (auto simp: validate_timeout_def Let_def split: json.splits if_splits option.splits)

end
