(* ===== verification/Concurrency_Gate.thy ===== *)
theory Concurrency_Gate
  imports Viator_Prelude
begin

text \<open>
  \<open>app/concurrency.py\<close>: the gates that admit a request at once or refuse it. A gate's operations run
  under its lock or without an \<open>await\<close>, so each is one step; a request holds the gate from its admission
  until its body ends, however it ends. \<open>gate_step\<close> is the system of one gate, the requests inside it and
  the administrator's changes of the limit; a request id is used once at a time.
\<close>

section \<open>The gate\<close>

record gate =
  g_name :: str
  g_limit :: int
  g_in_flight :: int

datatype concurrency_exceeded = ConcurrencyExceeded str int

definition new_gate :: "str \<Rightarrow> int \<Rightarrow> gate" where
  "new_gate name limit = \<lparr>g_name = name, g_limit = limit, g_in_flight = 0\<rparr>"

definition set_limit :: "int \<Rightarrow> gate \<Rightarrow> py_error + gate" where
  "set_limit new_limit g = (if new_limit < 1 then Inl (ValueError ''limit must be >= 1'')
     else Inr (g\<lparr>g_limit := new_limit\<rparr>))"

definition acquire_or_fail :: "gate \<Rightarrow> concurrency_exceeded + gate" where
  "acquire_or_fail g = (if g_in_flight g \<ge> g_limit g then Inl (ConcurrencyExceeded (g_name g) (g_limit g))
     else Inr (g\<lparr>g_in_flight := g_in_flight g + 1\<rparr>))"

definition release :: "gate \<Rightarrow> gate" where
  "release g = g\<lparr>g_in_flight := g_in_flight g - 1\<rparr>"

section \<open>The three gates of the server\<close>

record semaphores =
  sem_journey :: gate
  sem_upload :: gate
  sem_rebuild :: gate
  sem_initialised :: bool

definition initial_semaphores :: semaphores where
  "initial_semaphores = \<lparr>sem_journey = new_gate ''journey'' 20, sem_upload = new_gate ''upload'' 3,
     sem_rebuild = new_gate ''rebuild'' 1, sem_initialised = False\<rparr>"

section \<open>Requests through a gate\<close>

datatype gate_event = Admitted nat | Refused nat | Ended nat | LimitSet int | LimitRefused int

inductive gate_step :: "gate \<times> nat list \<Rightarrow> gate_event \<Rightarrow> gate \<times> nat list \<Rightarrow> bool" where
  admit: "r \<notin> set active \<Longrightarrow> acquire_or_fail g = Inr g' \<Longrightarrow> gate_step (g, active) (Admitted r) (g', r # active)"
| refuse: "r \<notin> set active \<Longrightarrow> acquire_or_fail g = Inl e \<Longrightarrow> gate_step (g, active) (Refused r) (g, active)"
| finish: "r \<in> set active \<Longrightarrow> gate_step (g, active) (Ended r) (release g, remove1 r active)"
| set_ok: "set_limit n g = Inr g' \<Longrightarrow> gate_step (g, active) (LimitSet n) (g', active)"
| set_bad: "set_limit n g = Inl e \<Longrightarrow> gate_step (g, active) (LimitRefused n) (g, active)"

inductive_simps gate_step_simps:
  "gate_step (g, active) (Admitted r) s" "gate_step (g, active) (Refused r) s" "gate_step (g, active) (Ended r) s"
  "gate_step (g, active) (LimitSet n) s" "gate_step (g, active) (LimitRefused n) s"

inductive gate_run :: "gate \<times> nat list \<Rightarrow> gate_event list \<Rightarrow> gate \<times> nat list \<Rightarrow> bool" where
  gate_nil: "gate_run s [] s"
| gate_snoc: "gate_run s es s' \<Longrightarrow> gate_step s' e s'' \<Longrightarrow> gate_run s (es @ [e]) s''"

definition gate_inv :: "gate \<times> nat list \<Rightarrow> bool" where
  "gate_inv s = (g_in_flight (fst s) = int (length (snd s)) \<and> distinct (snd s) \<and> 1 \<le> g_limit (fst s))"

section \<open>Lemmas\<close>

lemma gate_step_inv: "gate_step s e s' \<Longrightarrow> gate_inv s \<Longrightarrow> gate_inv s'"
proof (induction rule: gate_step.induct)
  case (finish r active g)
  then have "Suc (length (remove1 r active)) = length active" using length_pos_if_in_set [of r active] by (simp add: length_remove1)
  with finish show ?case by (simp add: gate_inv_def release_def)
qed (auto simp: gate_inv_def acquire_or_fail_def set_limit_def split: if_splits)

lemma gate_run_inv: "gate_run s es s' \<Longrightarrow> gate_inv s \<Longrightarrow> gate_inv s'"
  by (induction rule: gate_run.induct) (auto intro: gate_step_inv)

text \<open>The requests inside, and the limit in force, read off the events.\<close>

fun inside :: "gate_event list \<Rightarrow> nat list \<Rightarrow> nat list" where
  "inside [] active = active"
| "inside (Admitted r # es) active = inside es (r # active)"
| "inside (Ended r # es) active = inside es (remove1 r active)"
| "inside (e # es) active = inside es active"

fun limit_after :: "gate_event list \<Rightarrow> int \<Rightarrow> int" where
  "limit_after [] n = n"
| "limit_after (LimitSet m # es) n = limit_after es m"
| "limit_after (e # es) n = limit_after es n"

lemma inside_snoc: "inside (es @ [e]) active = inside [e] (inside es active)"
  by (induction es active rule: inside.induct) auto

lemma limit_after_snoc: "limit_after (es @ [e]) n = limit_after [e] (limit_after es n)"
  by (induction es n rule: limit_after.induct) auto

lemma gate_run_reads:
  "gate_run (g, active) es (g', active') \<Longrightarrow> active' = inside es active \<and> g_limit g' = limit_after es (g_limit g)"
proof (induction "(g, active)" es "(g', active')" arbitrary: g' active' rule: gate_run.induct)
  case (gate_snoc es s' e)
  obtain g1 a1 where s': "s' = (g1, a1)" by (cases s')
  from gate_snoc(2) [OF s'] gate_snoc(3) show ?case unfolding s'
    by (cases e) (auto simp: gate_step_simps inside_snoc limit_after_snoc acquire_or_fail_def set_limit_def release_def split: if_splits)
qed simp

section \<open>Properties\<close>

text \<open>C22: In every history of a gate, with limits set and refused at any moment, a request is admitted only
  while fewer requests are inside than the limit in force, and refused only when that many are inside; a
  limit below one is always refused. \<open>in_flight\<close> is the number of requests inside, and with none inside
  the next request is admitted.\<close>

theorem gate_admits_below_limit:
  assumes "gate_run (new_gate name n, []) es (g, active)" "1 \<le> n" "gate_step (g, active) e (g', active')"
  shows "(case e of
       Admitted r \<Rightarrow> int (length (inside es [])) < limit_after es n \<and> r \<notin> set (inside es [])
     | Refused r \<Rightarrow> limit_after es n \<le> int (length (inside es []))
     | Ended r \<Rightarrow> r \<in> set (inside es [])
     | LimitSet m \<Rightarrow> 1 \<le> m
     | LimitRefused m \<Rightarrow> m < 1)
     \<and> g_in_flight g' = int (length (inside (es @ [e]) [])) \<and> distinct (inside (es @ [e]) [])
     \<and> 1 \<le> limit_after (es @ [e]) n
     \<and> (active' = [] \<longrightarrow> (\<exists>g''. acquire_or_fail g' = Inr g''))"
proof -
  have run: "gate_run (new_gate name n, []) (es @ [e]) (g', active')" using assms(1,3) by (rule gate_snoc)
  have init: "gate_inv (new_gate name n, [])" using assms(2) by (simp add: gate_inv_def new_gate_def)
  have inv: "gate_inv (g, active)" "gate_inv (g', active')" using gate_run_inv [OF assms(1) init] gate_run_inv [OF run init] by simp_all
  have reads: "active = inside es []" "g_limit g = limit_after es n"
     "active' = inside (es @ [e]) []" "g_limit g' = limit_after (es @ [e]) n"
    using gate_run_reads [OF assms(1)] gate_run_reads [OF run] by (simp_all add: new_gate_def)
  have "case e of Admitted r \<Rightarrow> int (length active) < g_limit g \<and> r \<notin> set active | Refused r \<Rightarrow> g_limit g \<le> int (length active)
      | Ended r \<Rightarrow> r \<in> set active | LimitSet m \<Rightarrow> 1 \<le> m | LimitRefused m \<Rightarrow> m < 1"
    using assms(3) inv(1)
    by (cases e) (auto simp: gate_step_simps gate_inv_def acquire_or_fail_def set_limit_def split: if_splits)
  then have ev: "case e of Admitted r \<Rightarrow> int (length (inside es [])) < limit_after es n \<and> r \<notin> set (inside es [])
      | Refused r \<Rightarrow> limit_after es n \<le> int (length (inside es [])) | Ended r \<Rightarrow> r \<in> set (inside es [])
      | LimitSet m \<Rightarrow> 1 \<le> m | LimitRefused m \<Rightarrow> m < 1"
    unfolding reads(1,2) .
  have "g_in_flight g' = int (length (inside (es @ [e]) [])) \<and> distinct (inside (es @ [e]) []) \<and> 1 \<le> limit_after (es @ [e]) n"
    using inv(2) unfolding gate_inv_def reads(3) reads(4) [symmetric] by simp
  moreover have "active' = [] \<longrightarrow> (\<exists>g''. acquire_or_fail g' = Inr g'')"
    using inv(2) by (simp add: gate_inv_def acquire_or_fail_def)
  ultimately show ?thesis using ev by blast
qed

theorem gate_admits_below_limit_witness:
  "limit_after [Admitted 1] 1 \<le> int (length (inside [Admitted 1] []))"
proof -
  have full: "gate_step (new_gate ''rebuild'' 1, []) (Admitted 1) (new_gate ''rebuild'' 1\<lparr>g_in_flight := 1\<rparr>, [1])"
    "gate_step (new_gate ''rebuild'' 1\<lparr>g_in_flight := 1\<rparr>, [1]) (Refused 2) (new_gate ''rebuild'' 1\<lparr>g_in_flight := 1\<rparr>, [1])"
    by (simp_all add: gate_step_simps acquire_or_fail_def new_gate_def)
  have "gate_run (new_gate ''rebuild'' 1, []) ([] @ [Admitted 1]) (new_gate ''rebuild'' 1\<lparr>g_in_flight := 1\<rparr>, [1])"
    by (rule gate_snoc [OF gate_nil full(1)])
  from gate_admits_below_limit [OF this _ full(2)] show ?thesis by simp
qed

end
