(* ===== verification/Runtime_Config.thy ===== *)
theory Runtime_Config
  imports Adapters Concurrency_Gate
begin

text \<open>
  The platform settings an administrator edits: the schema of \<open>app/config_schema.py\<close> with \<open>coerce\<close> and
  \<open>serialize\<close>, the read and write paths of \<open>app/config_service.py\<close>, and the two handlers of
  \<open>api/admin/config.py\<close> around them. The table \<open>platform_config\<close> is an association list of its rows, the
  audit log the list of entries appended; \<open>rp\<close> is \<open>str()\<close> of a float or container. A monotonic clock
  is read once per operation (\<open>now\<close>). Error texts are abbreviated to the key and the reason.
\<close>

section \<open>The schema\<close>

datatype field_type = FieldStr | FieldInt | FieldBool | FieldSecret

record field_spec =
  fs_type :: field_type
  fs_default :: json
  fs_min :: "int option"
  fs_max :: "int option"
  fs_choices :: "str list option"
  fs_sensitive :: bool

definition MASK_SENTINEL :: str where "MASK_SENTINEL = ''********''"

definition str_field :: "str \<Rightarrow> field_spec" where
  "str_field d = \<lparr>fs_type = FieldStr, fs_default = JStr d, fs_min = None, fs_max = None, fs_choices = None, fs_sensitive = False\<rparr>"

definition choice_field :: "str \<Rightarrow> str list \<Rightarrow> field_spec" where
  "choice_field d cs = (str_field d)\<lparr>fs_choices := Some cs\<rparr>"

definition secret_field :: "str \<Rightarrow> field_spec" where
  "secret_field d = (str_field d)\<lparr>fs_type := FieldSecret, fs_sensitive := True\<rparr>"

definition int_field :: "int \<Rightarrow> int \<Rightarrow> int \<Rightarrow> field_spec" where
  "int_field d lo hi = \<lparr>fs_type = FieldInt, fs_default = JInt d, fs_min = Some lo, fs_max = Some hi, fs_choices = None, fs_sensitive = False\<rparr>"

definition bool_field :: "bool \<Rightarrow> field_spec" where
  "bool_field d = \<lparr>fs_type = FieldBool, fs_default = JBool d, fs_min = None, fs_max = None, fs_choices = None, fs_sensitive = False\<rparr>"

definition CONFIG_SCHEMA :: "(str \<times> field_spec) list" where
  "CONFIG_SCHEMA = [
     (''SMTP_HOST'', str_field ''''),
     (''SMTP_PORT'', int_field 587 1 65535),
     (''SMTP_SECURE'', choice_field ''starttls'' [''none'', ''starttls'', ''tls'']),
     (''SMTP_USER'', str_field ''''),
     (''SMTP_PASS'', secret_field ''''),
     (''SMTP_FROM'', str_field ''no-reply@viator.local''),
     (''MAX_CONCURRENT_JOURNEYS'', int_field 20 1 200),
     (''MAX_CONCURRENT_REBUILDS'', int_field 1 1 4),
     (''MAX_CONCURRENT_UPLOADS'', int_field 3 1 20),
     (''JOURNEY_TIMEOUT_MS'', int_field 8000 1000 60000),
     (''FANOUT_TIMEOUT_MS'', int_field 10000 1000 60000),
     (''FANOUT_PARTIAL_OK'', bool_field True),
     (''STORE_RAW_RESPONSE'', bool_field True),
     (''OTP_NUM_ITINERARIES'', int_field 12 1 50),
     (''OTP_SEARCH_WINDOW_SECONDS'', int_field 21600 600 86400),
     (''OJP_COMPARISON_ENABLED'', bool_field False),
     (''OJP_API_ENDPOINT'', str_field ''https://api.opentransportdata.swiss/ojp20''),
     (''OJP_API_TOKEN'', secret_field ''''),
     (''OJP_TIMEOUT_MS'', int_field 10000 1000 60000),
     (''HAFAS_COMPARISON_ENABLED'', bool_field True),
     (''HAFAS_TIMEOUT_MS'', int_field 10000 1000 60000),
     (''JOURNEY_MATCH_DEPARTURE_TOLERANCE_S'', int_field 120 0 1800),
     (''JOURNEY_MATCH_ARRIVAL_TOLERANCE_S'', int_field 120 0 1800),
     (''JOURNEY_MATCH_SAME_SERVICE_MIN_PCT'', int_field 90 0 100),
     (''JOURNEY_MATCH_PROBABLE_MIN_PCT'', int_field 75 0 100),
     (''JOURNEY_MATCH_TRAIN_NUMBER_CONFLICT'', choice_field ''veto_unless_same_minutes'' [''veto'', ''veto_unless_same_minutes'', ''penalty'']),
     (''JOURNEY_MATCH_UNRESOLVED_ENDPOINTS'', choice_field ''allow'' [''allow'', ''reject'']),
     (''JOURNEY_MATCH_POSITION_FALLBACK_M'', int_field 1000 0 5000),
     (''JOURNEY_MATCH_TRANSFER_DIFFERENCE_S'', int_field 300 60 3600),
     (''COVERAGE_NUM_ITINERARIES'', int_field 50 1 200),
     (''COVERAGE_SEARCH_WINDOW_SECONDS'', int_field 14400 600 86400),
     (''COVERAGE_PAIR_TIMEOUT_MS'', int_field 60000 5000 300000),
     (''COVERAGE_PAIR_PARALLELISM'', int_field 5 1 20),
     (''COVERAGE_VERIFY_PARALLELISM'', int_field 2 1 10),
     (''COVERAGE_VERIFY_TIMEOUT_S'', int_field 30 5 300),
     (''COVERAGE_VERIFY_SLEEP_MS'', int_field 500 0 10000),
     (''COVERAGE_OEBB_STOP_SERIES'', str_field ''DELFI_stop_key''),
     (''COVERAGE_MATCH_DEPARTURE_TOLERANCE_S'', int_field 120 0 1800),
     (''COVERAGE_MATCH_ARRIVAL_TOLERANCE_S'', int_field 120 0 1800),
     (''COVERAGE_MATCH_SAME_SERVICE_MIN_PCT'', int_field 90 0 100),
     (''COVERAGE_MATCH_PROBABLE_MIN_PCT'', int_field 75 0 100),
     (''COVERAGE_MATCH_TRAIN_NUMBER_CONFLICT'', choice_field ''veto_unless_same_minutes'' [''veto'', ''veto_unless_same_minutes'', ''penalty'']),
     (''COVERAGE_MATCH_UNRESOLVED_ENDPOINTS'', choice_field ''reject'' [''allow'', ''reject'']),
     (''COVERAGE_MATCH_POSITION_FALLBACK_M'', int_field 1000 0 5000),
     (''COVERAGE_MATCH_TRANSFER_DIFFERENCE_S'', int_field 300 60 3600),
     (''COVERAGE_SLOT_COUNT'', int_field 6 1 24),
     (''COVERAGE_NUM_ITINERARIES_PER_SLOT'', int_field 10 1 50),
     (''COVERAGE_SLOT_TIMEOUT_MS'', int_field 20000 5000 120000),
     (''COVERAGE_WITHIN_PAIR_PARALLELISM'', int_field 3 1 10),
     (''COVERAGE_MAX_CONCURRENT_RUNS'', int_field 1 1 4),
     (''COVERAGE_MAX_RESUMES'', int_field 5 0 50),
     (''COVERAGE_DEFAULT_WINDOW_START'', str_field ''00:00''),
     (''COVERAGE_DEFAULT_WINDOW_END'', str_field ''24:00''),
     (''COVERAGE_DEFAULT_TIMEZONE'', choice_field ''UTC'' [''UTC'', ''Europe/Berlin'', ''Europe/Vienna'', ''Europe/Paris'', ''Europe/Madrid'', ''Europe/Stockholm'', ''Europe/Warsaw'', ''Europe/Budapest'', ''Europe/Prague'', ''Europe/Helsinki'', ''Europe/Athens'', ''Europe/Brussels'', ''Europe/Amsterdam'', ''Europe/Lisbon'', ''Europe/Rome'']),
     (''MASTER_STATIONS_REFRESH_DAYS'', int_field 30 1 365),
     (''MASTER_CARRIERS_REFRESH_DAYS'', int_field 90 1 365),
     (''REBUILD_DEBOUNCE_SECONDS'', int_field 1800 0 7200),
     (''WORKER_TICK_SECONDS'', int_field 15 5 300),
     (''REPLAY_MAX_BATCH_SIZE'', int_field 1000 10 10000),
     (''REPLAY_MAX_RPS'', int_field 5 1 50),
     (''REGISTRATION_OPEN'', bool_field True),
     (''REGISTRATION_DEFAULT_ROLE'', choice_field ''end_user'' [''end_user'', ''content_manager'']),
     (''AUDIT_RETENTION_DAYS'', int_field 365 30 3650),
     (''JOURNEY_SEARCH_RETENTION_DAYS'', int_field 365 30 3650),
     (''JOURNEY_TRIPS_RETENTION_DAYS'', int_field 180 30 3650),
     (''JOURNEY_RAW_RESPONSE_RETENTION_DAYS'', int_field 30 7 365)]"

section \<open>\<open>config_schema.py\<close>\<close>

definition is_sensitive :: "field_spec \<Rightarrow> bool" where
  "is_sensitive spec = (fs_sensitive spec \<or> fs_type spec = FieldSecret)"

definition TRUE_WORDS :: "str list" where "TRUE_WORDS = [''true'', ''1'', ''yes'', ''on'']"
definition FALSE_WORDS :: "str list" where "FALSE_WORDS = [''false'', ''0'', ''no'', ''off'']"

definition field_error :: "str \<Rightarrow> str \<Rightarrow> py_error + 'a" where
  "field_error key why = Inl (ValueError (key @ '': '' @ why))"

definition coerce_spec :: "(json \<Rightarrow> str) \<Rightarrow> str \<Rightarrow> field_spec \<Rightarrow> json \<Rightarrow> py_error + json" where
  "coerce_spec rp key spec raw =
     (if raw = JNull then Inr JNull
      else case fs_type spec of
        FieldInt \<Rightarrow> (case json_int raw of
            Inl OverflowError \<Rightarrow> Inl OverflowError
          | Inl e \<Rightarrow> field_error key ''expected int''
          | Inr n \<Rightarrow>
              if (case fs_min spec of Some lo \<Rightarrow> n < lo | None \<Rightarrow> False) then field_error key ''below minimum''
              else if (case fs_max spec of Some hi \<Rightarrow> n > hi | None \<Rightarrow> False) then field_error key ''above maximum''
              else Inr (JInt n))
      | FieldBool \<Rightarrow> (case raw of
            JBool b \<Rightarrow> Inr (JBool b)
          | JStr s \<Rightarrow>
              let normalized = map ascii_lower (py_strip s) in
              if normalized \<in> set TRUE_WORDS then Inr (JBool True)
              else if normalized \<in> set FALSE_WORDS then Inr (JBool False)
              else field_error key ''expected bool''
          | _ \<Rightarrow> field_error key ''expected bool'')
      | _ \<Rightarrow>
          let s = py_str rp raw in
          if (case fs_choices spec of Some cs \<Rightarrow> s \<notin> set cs | None \<Rightarrow> False) then field_error key ''must be one of the choices''
          else Inr (JStr s))"

definition coerce :: "(json \<Rightarrow> str) \<Rightarrow> str \<Rightarrow> json \<Rightarrow> py_error + json" where
  "coerce rp key raw = (case map_of CONFIG_SCHEMA key of
       None \<Rightarrow> Inl (ValueError ''unknown config key'')
     | Some spec \<Rightarrow> coerce_spec rp key spec raw)"

definition serialize_spec :: "(json \<Rightarrow> str) \<Rightarrow> field_spec \<Rightarrow> json \<Rightarrow> str option" where
  "serialize_spec rp spec v =
     (if v = JNull then None
      else if fs_type spec = FieldBool then Some (if json_truthy v then ''true'' else ''false'')
      else Some (py_str rp v))"

definition serialize :: "(json \<Rightarrow> str) \<Rightarrow> str \<Rightarrow> json \<Rightarrow> py_error + str option" where
  "serialize rp key v =
     (if v = JNull then Inr None
      else case map_of CONFIG_SCHEMA key of None \<Rightarrow> Inl KeyError | Some spec \<Rightarrow> Inr (serialize_spec rp spec v))"

definition default_for :: "str \<Rightarrow> py_error + json" where
  "default_for key = (case map_of CONFIG_SCHEMA key of None \<Rightarrow> Inl KeyError | Some spec \<Rightarrow> Inr (fs_default spec))"

section \<open>\<open>config_service.py\<close>: the state and the read path\<close>

type_synonym config = "(str \<times> json) list"

record config_row =
  cr_value :: "str option"
  cr_updated_by :: "str option"

record audit_entry =
  ae_action :: str
  ae_actor_user_id :: "str option"
  ae_actor_ip :: "str option"
  ae_target_kind :: str
  ae_target_id :: str
  ae_from :: json
  ae_to :: json

record config_state =
  cs_rows :: "(str \<times> config_row) list"
  cs_audit :: "audit_entry list"
  cs_cache :: "config option"
  cs_loaded_at :: real
  cs_semaphores :: semaphores

definition REFRESH_AFTER_SECONDS :: real where "REFRESH_AFTER_SECONDS = 30"

definition load_key :: "(json \<Rightarrow> str) \<Rightarrow> (str \<times> config_row) list \<Rightarrow> str \<times> field_spec \<Rightarrow> py_error + (str \<times> json)" where
  "load_key rp rows ks = (case map_of rows (fst ks) of
       Some row \<Rightarrow> (case cr_value row of
           Some text \<Rightarrow> rbind (coerce rp (fst ks) (JStr text)) (\<lambda>v. Inr (fst ks, v))
         | None \<Rightarrow> Inr (fst ks, fs_default (snd ks)))
     | None \<Rightarrow> Inr (fst ks, fs_default (snd ks)))"

definition load_from_db :: "(json \<Rightarrow> str) \<Rightarrow> (str \<times> config_row) list \<Rightarrow> py_error + config" where
  "load_from_db rp rows = map_err (load_key rp rows) CONFIG_SCHEMA"

definition is_cache_stale :: "real \<Rightarrow> config_state \<Rightarrow> bool" where
  "is_cache_stale now st = (cs_cache st = None \<or> now - cs_loaded_at st > REFRESH_AFTER_SECONDS)"

definition get_all :: "(json \<Rightarrow> str) \<Rightarrow> real \<Rightarrow> bool \<Rightarrow> config_state \<Rightarrow> (py_error + config) \<times> config_state" where
  "get_all rp now force_refresh st =
     (if force_refresh \<or> is_cache_stale now st
      then (case load_from_db rp (cs_rows st) of
              Inl e \<Rightarrow> (Inl e, st)
            | Inr cfg \<Rightarrow> (Inr cfg, st\<lparr>cs_cache := Some cfg, cs_loaded_at := now\<rparr>))
      else (case cs_cache st of Some cfg \<Rightarrow> (Inr cfg, st) | None \<Rightarrow> (Inl KeyError, st)))"

definition invalidate_cache :: "config_state \<Rightarrow> config_state" where
  "invalidate_cache st = st\<lparr>cs_cache := None, cs_loaded_at := 0\<rparr>"

definition masked :: "str \<times> json \<Rightarrow> str \<times> json" where
  "masked kv = (if (case map_of CONFIG_SCHEMA (fst kv) of Some spec \<Rightarrow> is_sensitive spec | None \<Rightarrow> False) \<and> json_truthy (snd kv)
     then (fst kv, JStr MASK_SENTINEL) else kv)"

definition as_response :: "(json \<Rightarrow> str) \<Rightarrow> real \<Rightarrow> config_state \<Rightarrow> (py_error + config) \<times> config_state" where
  "as_response rp now st = (case get_all rp now False st of
       (Inl e, st') \<Rightarrow> (Inl e, st')
     | (Inr cfg, st') \<Rightarrow> (Inr (map masked cfg), st'))"

section \<open>\<open>config_service.py\<close>: the write path\<close>

datatype patch_error = ConfigValidationError "(str \<times> str) list" | Raised py_error

text \<open>The loop over the request: the errors and the coerced values so far, in the order of their keys.\<close>

fun check_payload :: "(json \<Rightarrow> str) \<Rightarrow> (str \<times> json) list \<Rightarrow> (str \<times> str) list \<Rightarrow> config \<Rightarrow> py_error + ((str \<times> str) list \<times> config)" where
  "check_payload rp [] errors coerced = Inr (errors, coerced)"
| "check_payload rp ((key, raw) # kvs) errors coerced = (case map_of CONFIG_SCHEMA key of
       None \<Rightarrow> check_payload rp kvs (alist_set key ''unknown config key'' errors) coerced
     | Some spec \<Rightarrow>
         if is_sensitive spec \<and> raw = JStr MASK_SENTINEL then check_payload rp kvs errors coerced
         else (case coerce rp key raw of
                 Inr v \<Rightarrow> check_payload rp kvs errors (alist_set key v coerced)
               | Inl (ValueError m) \<Rightarrow> check_payload rp kvs (alist_set key m errors) coerced
               | Inl e \<Rightarrow> Inl e))"

definition audit_value :: "(json \<Rightarrow> str) \<Rightarrow> str \<Rightarrow> json \<Rightarrow> json" where
  "audit_value rp key v =
     (if (case map_of CONFIG_SCHEMA key of Some spec \<Rightarrow> is_sensitive spec | None \<Rightarrow> False) then JStr MASK_SENTINEL
      else (case v of JArr es \<Rightarrow> JStr (py_str rp v) | JObj kvs \<Rightarrow> JStr (py_str rp v) | _ \<Rightarrow> v))"

text \<open>One value: unchanged, or its row and its audit entry.\<close>

definition persist_value :: "(json \<Rightarrow> str) \<Rightarrow> str option \<Rightarrow> str option \<Rightarrow> config \<Rightarrow> str \<times> json \<Rightarrow> config_state \<Rightarrow> py_error + config_state" where
  "persist_value rp actor ip current kv st = (let key = fst kv; new_value = snd kv; old_value = alist_get current key JNull in
     if old_value = new_value then Inr st
     else rbind (serialize rp key new_value) (\<lambda>serialized.
       Inr (st\<lparr>cs_rows := alist_set key \<lparr>cr_value = serialized, cr_updated_by = actor\<rparr> (cs_rows st),
         cs_audit := cs_audit st @ [\<lparr>ae_action = ''config.update'', ae_actor_user_id = actor, ae_actor_ip = ip,
           ae_target_kind = ''platform_config'', ae_target_id = key,
           ae_from = audit_value rp key old_value, ae_to = audit_value rp key new_value\<rparr>]\<rparr>)))"

fun persist_all :: "(json \<Rightarrow> str) \<Rightarrow> str option \<Rightarrow> str option \<Rightarrow> config \<Rightarrow> config \<Rightarrow> config_state \<Rightarrow> py_error + config_state" where
  "persist_all rp actor ip current [] st = Inr st"
| "persist_all rp actor ip current (kv # kvs) st =
     rbind (persist_value rp actor ip current kv st) (persist_all rp actor ip current kvs)"

text \<open>\<open>int(cfg[...])\<close> of the three limits, each read when its gate is set.\<close>

definition config_int :: "config \<Rightarrow> str \<Rightarrow> py_error + int" where
  "config_int cfg key = (case map_of cfg key of None \<Rightarrow> Inl KeyError | Some v \<Rightarrow> json_int v)"

definition reload_gate :: "config \<Rightarrow> str \<Rightarrow> gate \<Rightarrow> py_error + gate" where
  "reload_gate cfg key g = rbind (config_int cfg key) (\<lambda>n. set_limit n g)"

definition reload_from_config :: "config \<Rightarrow> semaphores \<Rightarrow> py_error option \<times> semaphores" where
  "reload_from_config cfg s0 = (case reload_gate cfg ''MAX_CONCURRENT_JOURNEYS'' (sem_journey s0) of
       Inl e \<Rightarrow> (Some e, s0)
     | Inr j \<Rightarrow> let s1 = s0\<lparr>sem_journey := j\<rparr> in (case reload_gate cfg ''MAX_CONCURRENT_UPLOADS'' (sem_upload s1) of
         Inl e \<Rightarrow> (Some e, s1)
       | Inr u \<Rightarrow> let s2 = s1\<lparr>sem_upload := u\<rparr> in (case reload_gate cfg ''MAX_CONCURRENT_REBUILDS'' (sem_rebuild s2) of
           Inl e \<Rightarrow> (Some e, s2)
         | Inr r \<Rightarrow> (None, s2\<lparr>sem_rebuild := r, sem_initialised := True\<rparr>))))"

definition reload_semaphores :: "(json \<Rightarrow> str) \<Rightarrow> real \<Rightarrow> config_state \<Rightarrow> py_error option \<times> config_state" where
  "reload_semaphores rp now st = (case get_all rp now True st of
       (Inl e, st') \<Rightarrow> (Some e, st')
     | (Inr cfg, st') \<Rightarrow> (case reload_from_config cfg (cs_semaphores st') of
           (err, sems) \<Rightarrow> (err, st'\<lparr>cs_semaphores := sems\<rparr>)))"

definition apply_patch :: "(json \<Rightarrow> str) \<Rightarrow> real \<Rightarrow> str option \<Rightarrow> str option \<Rightarrow> json \<Rightarrow> config_state \<Rightarrow> (patch_error + config) \<times> config_state" where
  "apply_patch rp now actor ip payload st = (case payload of
       JObj kvs \<Rightarrow> (case check_payload rp kvs [] [] of
           Inl e \<Rightarrow> (Inl (Raised e), st)
         | Inr (errors, coerced) \<Rightarrow>
             if errors \<noteq> [] then (Inl (ConfigValidationError errors), st)
             else (case get_all rp now False st of
                 (Inl e, st1) \<Rightarrow> (Inl (Raised e), st1)
               | (Inr current, st1) \<Rightarrow> (case persist_all rp actor ip current coerced st1 of
                     Inl e \<Rightarrow> (Inl (Raised e), st1)
                   | Inr st2 \<Rightarrow> (case reload_semaphores rp now (invalidate_cache st2) of
                         (Some e, st3) \<Rightarrow> (Inl (Raised e), st3)
                       | (None, st3) \<Rightarrow> (case as_response rp now st3 of
                             (Inl e, st4) \<Rightarrow> (Inl (Raised e), st4)
                           | (Inr response, st4) \<Rightarrow> (Inr response, st4))))))
     | _ \<Rightarrow> (Inl (ConfigValidationError [(''_'', ''request body must be a JSON object'')]), st))"

text \<open>The handler: what was written is committed on success and rolled back otherwise; the process's cache
  and gates keep what the attempt left in them.\<close>

definition patch_config :: "(json \<Rightarrow> str) \<Rightarrow> real \<Rightarrow> str option \<Rightarrow> str option \<Rightarrow> json \<Rightarrow> config_state \<Rightarrow> (patch_error + config) \<times> config_state" where
  "patch_config rp now actor ip payload st = (case apply_patch rp now actor ip payload st of
       (Inr response, st') \<Rightarrow> (Inr response, st')
     | (Inl e, st') \<Rightarrow> (Inl e, st'\<lparr>cs_rows := cs_rows st, cs_audit := cs_audit st\<rparr>))"

end
