(* ===== verification/Config_Properties.thy ===== *)
theory Config_Properties
  imports Runtime_Config
begin

text \<open>
  What the platform settings promise: every value of the schema is stored and read back as it is, a
  change is applied whole or not at all, the answer of a read can be sent back as it is, secrets stay
  masked, and the gates always follow the stored limits.
\<close>

section \<open>Values of a field\<close>

definition value_ok :: "field_spec \<Rightarrow> json \<Rightarrow> bool" where
  "value_ok spec v = (case fs_type spec of
       FieldInt \<Rightarrow> (case v of JInt n \<Rightarrow>
           (case fs_min spec of Some lo \<Rightarrow> lo \<le> n | None \<Rightarrow> True) \<and> (case fs_max spec of Some hi \<Rightarrow> n \<le> hi | None \<Rightarrow> True)
         | _ \<Rightarrow> False)
     | FieldBool \<Rightarrow> (case v of JBool b \<Rightarrow> True | _ \<Rightarrow> False)
     | _ \<Rightarrow> (case v of JStr s \<Rightarrow> (case fs_choices spec of Some cs \<Rightarrow> s \<in> set cs | None \<Rightarrow> True) | _ \<Rightarrow> False))"

lemma value_ok_not_null: "value_ok spec v \<Longrightarrow> v \<noteq> JNull"
  by (auto simp: value_ok_def split: field_type.splits)

lemma coerce_value_ok: "coerce_spec rp k spec raw = Inr v \<Longrightarrow> raw \<noteq> JNull \<Longrightarrow> value_ok spec v"
  by (auto simp: coerce_spec_def value_ok_def field_error_def Let_def split: field_type.splits sum.splits py_error.splits if_splits option.splits json.splits)

lemma coerce_ok_id: "value_ok spec v \<Longrightarrow> coerce_spec rp k spec v = Inr v"
  by (auto simp: coerce_spec_def value_ok_def field_error_def Let_def json_int_def py_str_def split: field_type.splits json.splits option.splits)

lemma words_read: "map ascii_lower (py_strip ''true'') = ''true''" "map ascii_lower (py_strip ''false'') = ''false''"
  by code_simp+

lemma coerce_serialize:
  assumes "value_ok spec v"
  shows "\<exists>t. serialize_spec rp spec v = Some t \<and> coerce_spec rp k spec (JStr t) = Inr v"
proof (cases "fs_type spec = FieldBool")
  case True
  with assms obtain b where "v = JBool b" by (auto simp: value_ok_def split: json.splits)
  with True show ?thesis
    by (cases b) (simp_all add: serialize_spec_def coerce_spec_def json_truthy_def words_read Let_def TRUE_WORDS_def FALSE_WORDS_def)
next
  case False
  then have s: "serialize_spec rp spec v = Some (py_str rp v)" using value_ok_not_null [OF assms] by (simp add: serialize_spec_def)
  have "coerce_spec rp k spec (JStr (py_str rp v)) = Inr v" using assms False
    by (auto simp: coerce_spec_def value_ok_def field_error_def Let_def json_int_def py_str_def py_int_show_int
        split: field_type.splits json.splits option.splits)
  with s show ?thesis by blast
qed

lemma coerce_error: "coerce_spec rp k spec raw = Inl e \<Longrightarrow> \<exists>m. e = ValueError m"
proof -
  have "json_int raw \<noteq> Inl OverflowError" by (auto simp: json_int_def split: json.splits option.splits)
  then show "coerce_spec rp k spec raw = Inl e \<Longrightarrow> \<exists>m. e = ValueError m"
    by (auto simp: coerce_spec_def field_error_def Let_def split: field_type.splits sum.splits py_error.splits if_splits json.splits option.splits)
qed

section \<open>The schema\<close>

lemma distinct_schema: "distinct (map fst CONFIG_SCHEMA)"
  by code_simp

lemma schema_defaults_ok: "(k, spec) \<in> set CONFIG_SCHEMA \<Longrightarrow> value_ok spec (fs_default spec)"
proof -
  have "list_all (\<lambda>ks. value_ok (snd ks) (fs_default (snd ks))) CONFIG_SCHEMA" by code_simp
  then show "(k, spec) \<in> set CONFIG_SCHEMA \<Longrightarrow> value_ok spec (fs_default spec)" by (auto simp: list_all_iff)
qed

lemma limit_keys:
  "map_of CONFIG_SCHEMA ''MAX_CONCURRENT_JOURNEYS'' = Some (int_field 20 1 200)"
  "map_of CONFIG_SCHEMA ''MAX_CONCURRENT_UPLOADS'' = Some (int_field 3 1 20)"
  "map_of CONFIG_SCHEMA ''MAX_CONCURRENT_REBUILDS'' = Some (int_field 1 1 4)"
  by (simp_all add: CONFIG_SCHEMA_def)

section \<open>Reading the table\<close>

text \<open>Rows whose texts read back, the value a key then has, and a state whose cache, when filled, holds
  these values.\<close>

definition rows_ok :: "(json \<Rightarrow> str) \<Rightarrow> (str \<times> config_row) list \<Rightarrow> bool" where
  "rows_ok rp rows = (distinct (map fst rows) \<and> (\<forall>k spec row text. map_of CONFIG_SCHEMA k = Some spec \<and> map_of rows k = Some row
     \<and> cr_value row = Some text \<longrightarrow> (\<exists>v. value_ok spec v \<and> coerce_spec rp k spec (JStr text) = Inr v)))"

definition stored_value :: "(json \<Rightarrow> str) \<Rightarrow> (str \<times> config_row) list \<Rightarrow> str \<times> field_spec \<Rightarrow> json" where
  "stored_value rp rows ks = (case load_key rp rows ks of Inr kv \<Rightarrow> snd kv | Inl e \<Rightarrow> JNull)"

definition config_of :: "(json \<Rightarrow> str) \<Rightarrow> (str \<times> config_row) list \<Rightarrow> config" where
  "config_of rp rows = map (\<lambda>ks. (fst ks, stored_value rp rows ks)) CONFIG_SCHEMA"

definition config_ok :: "(json \<Rightarrow> str) \<Rightarrow> config_state \<Rightarrow> bool" where
  "config_ok rp st = (rows_ok rp (cs_rows st) \<and> (case cs_cache st of None \<Rightarrow> True | Some cfg \<Rightarrow> cfg = config_of rp (cs_rows st)))"

lemma schema_mem: "map_of CONFIG_SCHEMA k = Some spec \<longleftrightarrow> (k, spec) \<in> set CONFIG_SCHEMA"
  using distinct_schema by (auto intro: map_of_is_SomeI dest: map_of_SomeD)

lemma load_key_ok:
  assumes "rows_ok rp rows" "(k, spec) \<in> set CONFIG_SCHEMA"
  shows "load_key rp rows (k, spec) = Inr (k, stored_value rp rows (k, spec)) \<and> value_ok spec (stored_value rp rows (k, spec))"
proof -
  have k: "map_of CONFIG_SCHEMA k = Some spec" using assms(2) by (simp add: schema_mem)
  show ?thesis
  proof (cases "\<exists>row t. map_of rows k = Some row \<and> cr_value row = Some t")
    case True
    then obtain row t where r: "map_of rows k = Some row" "cr_value row = Some t" by blast
    with assms(1) k obtain v where "value_ok spec v" "coerce_spec rp k spec (JStr t) = Inr v" unfolding rows_ok_def by metis
    with r k show ?thesis by (simp add: load_key_def stored_value_def coerce_def rbind_def)
  next
    case False
    then show ?thesis using schema_defaults_ok [OF assms(2)] by (auto simp: load_key_def stored_value_def split: option.splits)
  qed
qed

lemma load_ok: "rows_ok rp rows \<Longrightarrow> load_from_db rp rows = Inr (config_of rp rows)"
proof -
  assume a: "rows_ok rp rows"
  have "load_key rp rows (CONFIG_SCHEMA ! i) = Inr (config_of rp rows ! i)" if "i < length CONFIG_SCHEMA" for i
    using load_key_ok [OF a, of "fst (CONFIG_SCHEMA ! i)" "snd (CONFIG_SCHEMA ! i)"] that by (simp add: config_of_def)
  then show ?thesis unfolding load_from_db_def map_err_Inr_iff by (simp add: config_of_def)
qed

lemma map_of_config_of: "map_of (config_of rp rows) k = map_option (\<lambda>spec. stored_value rp rows (k, spec)) (map_of CONFIG_SCHEMA k)"
proof -
  have "map_of (map (\<lambda>ks. (fst ks, f ks)) ps) k = map_option (\<lambda>spec. f (k, spec)) (map_of ps k)" for f :: "str \<times> field_spec \<Rightarrow> json" and ps
    by (induction ps) auto
  then show ?thesis by (simp add: config_of_def)
qed

lemma map_fst_config_of: "map fst (config_of rp rows) = map fst CONFIG_SCHEMA"
  by (simp add: config_of_def)

lemma get_all_ok:
  assumes "config_ok rp st"
  shows "\<exists>at'. get_all rp now f st = (Inr (config_of rp (cs_rows st)), st\<lparr>cs_cache := Some (config_of rp (cs_rows st)), cs_loaded_at := at'\<rparr>)"
  using assms load_ok [of rp "cs_rows st"]
  by (cases st; cases "cs_cache st") (auto simp: config_ok_def get_all_def is_cache_stale_def)

section \<open>Checking a request\<close>

definition masked_item :: "str \<times> json \<Rightarrow> bool" where
  "masked_item kv = (case map_of CONFIG_SCHEMA (fst kv) of Some spec \<Rightarrow> is_sensitive spec \<and> snd kv = JStr MASK_SENTINEL | None \<Rightarrow> False)"

definition item_ok :: "(json \<Rightarrow> str) \<Rightarrow> str \<times> json \<Rightarrow> bool" where
  "item_ok rp kv = (masked_item kv \<or> (case coerce rp (fst kv) (snd kv) of Inr v \<Rightarrow> True | Inl e \<Rightarrow> False))"

definition patch_value :: "(json \<Rightarrow> str) \<Rightarrow> (str \<times> json) list \<Rightarrow> str \<Rightarrow> json option" where
  "patch_value rp kvs k = (case map_of kvs k of
       None \<Rightarrow> None
     | Some raw \<Rightarrow> if masked_item (k, raw) then None else (case coerce rp k raw of Inr v \<Rightarrow> Some v | Inl e \<Rightarrow> None))"

definition coerced_ok :: "config \<Rightarrow> bool" where
  "coerced_ok kvs = (distinct (map fst kvs) \<and> (\<forall>k v. map_of kvs k = Some v \<longrightarrow>
     (\<exists>spec. map_of CONFIG_SCHEMA k = Some spec \<and> (v = JNull \<or> value_ok spec v))))"

lemma coerced_okD:
  "coerced_ok kvs \<Longrightarrow> map_of kvs k = Some v \<Longrightarrow> map_of CONFIG_SCHEMA k = Some spec \<Longrightarrow> v = JNull \<or> value_ok spec v"
  unfolding coerced_ok_def by (metis option.inject)

lemma coerce_result:
  "coerce rp k raw = Inr v \<Longrightarrow> \<exists>spec. map_of CONFIG_SCHEMA k = Some spec \<and> (v = JNull \<or> value_ok spec v)"
  using coerce_value_ok by (cases "raw = JNull") (auto simp: coerce_def coerce_spec_def split: option.splits)

lemma coerced_ok_set:
  "coerced_ok kvs \<Longrightarrow> coerce rp k raw = Inr v \<Longrightarrow> coerced_ok (alist_set k v kvs)"
  using coerce_result by (simp add: coerced_ok_def distinct_alist_set)

lemma alist_set_nonempty [simp]: "alist_set k v kvs \<noteq> []"
  by (cases kvs) (simp, auto split: if_splits prod.splits)

text \<open>One item of a request, as the loop takes it.\<close>

lemma check_payload_item:
  "check_payload rp ((key, raw) # kvs) errors coerced =
     (if masked_item (key, raw) then check_payload rp kvs errors coerced
      else case coerce rp key raw of
        Inr v \<Rightarrow> check_payload rp kvs errors (alist_set key v coerced)
      | Inl e \<Rightarrow> check_payload rp kvs (alist_set key (case e of ValueError m \<Rightarrow> m | _ \<Rightarrow> []) errors) coerced)"
  by (auto simp: masked_item_def coerce_def split: option.splits sum.splits dest!: coerce_error)

lemma check_payload_result:
  "coerced_ok coerced \<Longrightarrow> \<exists>errors' coerced'. check_payload rp kvs errors coerced = Inr (errors', coerced') \<and> coerced_ok coerced'
     \<and> (errors' = [] \<longleftrightarrow> errors = [] \<and> (\<forall>kv \<in> set kvs. item_ok rp kv))"
proof (induction kvs arbitrary: errors coerced)
  case (Cons kv kvs)
  obtain key raw where kv: "kv = (key, raw)" by (cases kv)
  show ?case
  proof (cases "masked_item (key, raw)")
    case True
    with Cons show ?thesis by (simp add: kv check_payload_item item_ok_def del: check_payload.simps)
  next
    case False
    show ?thesis
    proof (cases "coerce rp key raw")
      case (Inl e)
      with False Cons.IH [OF Cons.prems, of "alist_set key (case e of ValueError m \<Rightarrow> m | _ \<Rightarrow> []) errors"] show ?thesis
        by (simp add: kv check_payload_item item_ok_def del: check_payload.simps)
    next
      case (Inr v)
      with False Cons.IH [OF coerced_ok_set [OF Cons.prems Inr], of errors] show ?thesis
        by (simp add: kv check_payload_item item_ok_def del: check_payload.simps)
    qed
  qed
qed simp

lemma check_payload_lookup:
  "check_payload rp kvs errors coerced = Inr (errors', coerced') \<Longrightarrow> distinct (map fst kvs) \<Longrightarrow>
     map_of coerced' k = (case patch_value rp kvs k of Some v \<Rightarrow> Some v | None \<Rightarrow> map_of coerced k)"
proof (induction kvs arbitrary: errors coerced)
  case Nil
  then show ?case by (simp add: patch_value_def)
next
  case (Cons kv kvs)
  obtain key raw where kv: "kv = (key, raw)" by (cases kv)
  have other: "k \<noteq> key \<Longrightarrow> patch_value rp (kv # kvs) k = patch_value rp kvs k" by (simp add: patch_value_def kv)
  have fresh: "patch_value rp kvs key = None"
    using Cons.prems(2) map_of_eq_None_iff [of kvs key] by (simp add: patch_value_def kv)
  have here: "patch_value rp (kv # kvs) key = (if masked_item (key, raw) then None else (case coerce rp key raw of Inr v \<Rightarrow> Some v | Inl e \<Rightarrow> None))"
    by (simp add: patch_value_def kv)
  show ?case
    using Cons fresh here other
    by (cases "k = key"; cases "coerce rp key raw") (auto simp: kv check_payload_item simp del: check_payload.simps split: if_splits option.splits)
qed

section \<open>Storing the values\<close>

definition row_of :: "(json \<Rightarrow> str) \<Rightarrow> str option \<Rightarrow> str \<Rightarrow> json \<Rightarrow> config_row" where
  "row_of rp actor k v = \<lparr>cr_value = (case map_of CONFIG_SCHEMA k of Some spec \<Rightarrow> serialize_spec rp spec v | None \<Rightarrow> None), cr_updated_by = actor\<rparr>"

lemma serialize_known: "map_of CONFIG_SCHEMA k = Some spec \<Longrightarrow> serialize rp k v = Inr (cr_value (row_of rp actor k v))"
  by (simp add: serialize_def row_of_def serialize_spec_def)

lemma persist_value_ok:
  assumes "map_of CONFIG_SCHEMA k = Some spec"
  shows "persist_value rp actor ip current (k, v) st = Inr (if alist_get current k JNull = v then st
     else st\<lparr>cs_rows := alist_set k (row_of rp actor k v) (cs_rows st), cs_audit := cs_audit st @ [\<lparr>ae_action = ''config.update'',
       ae_actor_user_id = actor, ae_actor_ip = ip, ae_target_kind = ''platform_config'', ae_target_id = k,
       ae_from = audit_value rp k (alist_get current k JNull), ae_to = audit_value rp k v\<rparr>]\<rparr>)"
  using serialize_known [OF assms, of rp v actor]
  by (simp add: persist_value_def Let_def rbind_def) (simp add: row_of_def)

text \<open>What storing the values \<open>kvs\<close> over the values \<open>current\<close> leaves: the rows and the new audit entries.\<close>

definition audited :: "(json \<Rightarrow> str) \<Rightarrow> config \<Rightarrow> config \<Rightarrow> audit_entry \<Rightarrow> bool" where
  "audited rp current kvs a = (\<exists>v. map_of kvs (ae_target_id a) = Some v \<and> v \<noteq> alist_get current (ae_target_id a) JNull
     \<and> ae_from a = audit_value rp (ae_target_id a) (alist_get current (ae_target_id a) JNull) \<and> ae_to a = audit_value rp (ae_target_id a) v)"

definition stored_rows :: "(json \<Rightarrow> str) \<Rightarrow> str option \<Rightarrow> config \<Rightarrow> config \<Rightarrow> (str \<times> config_row) list \<Rightarrow> (str \<times> config_row) list \<Rightarrow> bool" where
  "stored_rows rp actor current kvs old rows = ((distinct (map fst old) \<longrightarrow> distinct (map fst rows))
     \<and> (\<forall>k. map_of rows k = (case map_of kvs k of
           Some v \<Rightarrow> if alist_get current k JNull = v then map_of old k else Some (row_of rp actor k v)
         | None \<Rightarrow> map_of old k)))"

definition all_current :: "config \<Rightarrow> config \<Rightarrow> bool" where
  "all_current current kvs = (\<forall>kv \<in> set kvs. alist_get current (fst kv) JNull = snd kv)"

lemma persist_all_result:
  assumes "coerced_ok kvs"
  shows "\<exists>rows log. persist_all rp actor ip current kvs st = Inr (st\<lparr>cs_rows := rows, cs_audit := cs_audit st @ log\<rparr>)
     \<and> stored_rows rp actor current kvs (cs_rows st) rows \<and> (\<forall>a \<in> set log. audited rp current kvs a)
     \<and> (all_current current kvs \<longrightarrow> rows = cs_rows st \<and> log = [])"
  using assms
proof (induction kvs arbitrary: st)
  case Nil
  then show ?case by (intro exI [of _ "cs_rows st"] exI [of _ "[]"]) (simp add: stored_rows_def)
next
  case (Cons kv kvs)
  obtain k v where kv: "kv = (k, v)" by (cases kv)
  from Cons.prems have k: "k \<notin> fst ` set kvs" and d: "distinct (map fst kvs)" by (simp_all add: coerced_ok_def kv)
  have here: "map_of (kv # kvs) k = Some v" by (simp add: kv)
  with Cons.prems obtain spec where spec: "map_of CONFIG_SCHEMA k = Some spec" unfolding coerced_ok_def by blast
  have none: "map_of kvs k = None" using k by (simp add: map_of_eq_None_iff)
  have tail: "map_of (kv # kvs) k' = Some v'" if "map_of kvs k' = Some v'" for k' v'
    using that none by (cases "k' = k") (auto simp: kv)
  have ok: "coerced_ok kvs" unfolding coerced_ok_def
  proof (intro conjI allI impI)
    fix k' v' assume "map_of kvs k' = Some v'"
    then show "\<exists>spec. map_of CONFIG_SCHEMA k' = Some spec \<and> (v' = JNull \<or> value_ok spec v')"
      using Cons.prems tail unfolding coerced_ok_def by blast
  qed (rule d)
  define a where "a = \<lparr>ae_action = ''config.update'', ae_actor_user_id = actor, ae_actor_ip = ip, ae_target_kind = ''platform_config'',
       ae_target_id = k, ae_from = audit_value rp k (alist_get current k JNull), ae_to = audit_value rp k v\<rparr>"
  define st1 where "st1 = (if alist_get current k JNull = v then st
     else st\<lparr>cs_rows := alist_set k (row_of rp actor k v) (cs_rows st), cs_audit := cs_audit st @ [a]\<rparr>)"
  have st1: "persist_value rp actor ip current kv st = Inr st1"
    unfolding st1_def a_def kv by (rule persist_value_ok [OF spec])
  from Cons.IH [OF ok, of st1] obtain rows log where IH: "persist_all rp actor ip current kvs st1 = Inr (st1\<lparr>cs_rows := rows, cs_audit := cs_audit st1 @ log\<rparr>)"
     "stored_rows rp actor current kvs (cs_rows st1) rows" "\<forall>a \<in> set log. audited rp current kvs a"
     "all_current current kvs \<longrightarrow> rows = cs_rows st1 \<and> log = []" by blast
  have step: "persist_all rp actor ip current (kv # kvs) st = Inr (st1\<lparr>cs_rows := rows, cs_audit := cs_audit st1 @ log\<rparr>)"
    using st1 IH(1) by (simp add: rbind_def)
  have log: "\<forall>a \<in> set log. audited rp current (kv # kvs) a"
    using IH(3) tail unfolding audited_def by blast
  have cur: "all_current current (kv # kvs) \<longleftrightarrow> alist_get current k JNull = v \<and> all_current current kvs"
    by (simp add: all_current_def kv)
  show ?case
  proof (cases "alist_get current k JNull = v")
    case True
    then have s: "st1 = st" by (simp add: st1_def)
    have "stored_rows rp actor current (kv # kvs) (cs_rows st) rows"
      using IH(2) True none unfolding stored_rows_def s by (simp add: kv)
    with step IH(4) log cur s show ?thesis by auto
  next
    case False
    then have s: "st1 = st\<lparr>cs_rows := alist_set k (row_of rp actor k v) (cs_rows st), cs_audit := cs_audit st @ [a]\<rparr>"
      by (simp add: st1_def)
    have rows1: "cs_rows st1 = alist_set k (row_of rp actor k v) (cs_rows st)" by (simp add: s)
    have "stored_rows rp actor current (kv # kvs) (cs_rows st) rows"
      using IH(2) False none unfolding stored_rows_def rows1 by (auto simp: kv distinct_alist_set split: option.splits)
    moreover have "audited rp current (kv # kvs) a" using False by (simp add: audited_def a_def kv)
    moreover have "persist_all rp actor ip current (kv # kvs) st = Inr (st\<lparr>cs_rows := rows, cs_audit := cs_audit st @ (a # log)\<rparr>)"
      using step by (simp add: s)
    ultimately show ?thesis using log cur False by (intro exI [of _ rows] exI [of _ "a # log"]) simp
  qed
qed

lemma alist_get_config_of:
  "(k, spec) \<in> set CONFIG_SCHEMA \<Longrightarrow> alist_get (config_of rp rows) k d = stored_value rp rows (k, spec)"
  by (simp add: alist_get_def map_of_config_of schema_mem [symmetric])

lemma stored_value_same_row: "map_of rows k = map_of old k \<Longrightarrow> stored_value rp rows (k, spec) = stored_value rp old (k, spec)"
  by (simp add: stored_value_def load_key_def)

definition value_after :: "(json \<Rightarrow> str) \<Rightarrow> (str \<times> config_row) list \<Rightarrow> json option \<Rightarrow> str \<times> field_spec \<Rightarrow> json" where
  "value_after rp old change ks = (case change of
       None \<Rightarrow> stored_value rp old ks | Some v \<Rightarrow> if v = JNull then fs_default (snd ks) else v)"

lemma stored_rows_values:
  assumes "rows_ok rp old" "coerced_ok kvs" "stored_rows rp actor (config_of rp old) kvs old rows"
  shows "rows_ok rp rows"
    and "(k, spec) \<in> set CONFIG_SCHEMA \<Longrightarrow> stored_value rp rows (k, spec) = value_after rp old (map_of kvs k) (k, spec)"
proof -
  have rows: "map_of rows k = (case map_of kvs k of
       Some v \<Rightarrow> if alist_get (config_of rp old) k JNull = v then map_of old k else Some (row_of rp actor k v) | None \<Rightarrow> map_of old k)" for k
    using assms(3) unfolding stored_rows_def by blast
  have new: "\<exists>t. cr_value (row_of rp actor k v) = Some t \<and> coerce_spec rp k spec (JStr t) = Inr v"
    if "map_of CONFIG_SCHEMA k = Some spec" "value_ok spec v" for k spec v
    using coerce_serialize [OF that(2), of rp k] unfolding row_of_def that(1) by simp
  show "stored_value rp rows (k, spec) = value_after rp old (map_of kvs k) (k, spec)" if m: "(k, spec) \<in> set CONFIG_SCHEMA"
  proof (cases "map_of kvs k")
    case None
    then have "map_of rows k = map_of old k" using rows [of k] by simp
    from stored_value_same_row [OF this, of rp spec] None show ?thesis by (simp add: value_after_def)
  next
    case (Some v)
    from m have v: "v = JNull \<or> value_ok spec v" using coerced_okD [OF assms(2) Some] by (simp add: schema_mem)
    have cur: "alist_get (config_of rp old) k JNull = stored_value rp old (k, spec)" using m by (rule alist_get_config_of)
    show ?thesis
    proof (cases "stored_value rp old (k, spec) = v")
      case True
      then have "v \<noteq> JNull" using load_key_ok [OF assms(1) m] value_ok_not_null by blast
      moreover have "map_of rows k = map_of old k" using rows [of k] Some True cur by simp
      from stored_value_same_row [OF this, of rp spec] have "stored_value rp rows (k, spec) = v" using True by simp
      ultimately show ?thesis using Some by (simp add: value_after_def)
    next
      case False
      then have r: "map_of rows k = Some (row_of rp actor k v)" using rows [of k] Some cur by simp
      show ?thesis
      proof (cases "v = JNull")
        case True
        then show ?thesis using r m Some
          by (simp add: value_after_def stored_value_def load_key_def row_of_def serialize_spec_def schema_mem [symmetric])
      next
        case False
        with v new [of k spec v] m obtain t where "cr_value (row_of rp actor k v) = Some t" "coerce_spec rp k spec (JStr t) = Inr v"
          by (auto simp: schema_mem)
        then show ?thesis using r m Some False
          by (simp add: value_after_def stored_value_def load_key_def coerce_def rbind_def schema_mem [symmetric])
      qed
    qed
  qed
  show "rows_ok rp rows" unfolding rows_ok_def
  proof (intro conjI allI impI)
    show "distinct (map fst rows)" using assms(1,3) by (simp add: rows_ok_def stored_rows_def)
  next
    fix k spec row t assume a: "map_of CONFIG_SCHEMA k = Some spec \<and> map_of rows k = Some row \<and> cr_value row = Some t"
    show "\<exists>v. value_ok spec v \<and> coerce_spec rp k spec (JStr t) = Inr v"
    proof (cases "map_of rows k = map_of old k")
      case True
      with a assms(1) show ?thesis unfolding rows_ok_def by metis
    next
      case False
      then obtain v where v: "map_of kvs k = Some v" "map_of rows k = Some (row_of rp actor k v)"
        using rows [of k] by (auto split: option.splits if_splits)
      then have row: "row = row_of rp actor k v" using a by simp
      then have "v \<noteq> JNull" using a by (auto simp: row_of_def serialize_spec_def)
      then have ok: "value_ok spec v" using coerced_okD [OF assms(2) v(1)] a by blast
      from new [OF _ ok, of k] a row ok show ?thesis by auto
    qed
  qed
qed

section \<open>The gates follow the table\<close>

definition gates_follow :: "(json \<Rightarrow> str) \<Rightarrow> config_state \<Rightarrow> bool" where
  "gates_follow rp st = (let cfg = config_of rp (cs_rows st); s = cs_semaphores st in
     sem_initialised s \<and> config_int cfg ''MAX_CONCURRENT_JOURNEYS'' = Inr (g_limit (sem_journey s))
     \<and> config_int cfg ''MAX_CONCURRENT_UPLOADS'' = Inr (g_limit (sem_upload s))
     \<and> config_int cfg ''MAX_CONCURRENT_REBUILDS'' = Inr (g_limit (sem_rebuild s))
     \<and> 1 \<le> g_limit (sem_journey s) \<and> 1 \<le> g_limit (sem_upload s) \<and> 1 \<le> g_limit (sem_rebuild s))"

lemma config_int_limit:
  assumes "rows_ok rp rows" "map_of CONFIG_SCHEMA key = Some (int_field d 1 hi)"
  shows "\<exists>n. config_int (config_of rp rows) key = Inr n \<and> 1 \<le> n"
proof -
  have "(key, int_field d 1 hi) \<in> set CONFIG_SCHEMA" using assms(2) by (simp add: schema_mem)
  with load_key_ok [OF assms(1)] have "value_ok (int_field d 1 hi) (stored_value rp rows (key, int_field d 1 hi))" by blast
  then obtain n where "stored_value rp rows (key, int_field d 1 hi) = JInt n" "1 \<le> n"
    by (auto simp: value_ok_def int_field_def split: json.splits)
  then show ?thesis using assms(2) by (simp add: config_int_def map_of_config_of json_int_def)
qed

lemma reload_semaphores_ok:
  assumes "rows_ok rp (cs_rows st)" "cs_cache st = None"
  shows "\<exists>s. reload_semaphores rp now st = (None, st\<lparr>cs_cache := Some (config_of rp (cs_rows st)), cs_loaded_at := now, cs_semaphores := s\<rparr>)
     \<and> gates_follow rp (st\<lparr>cs_semaphores := s\<rparr>)"
proof -
  let ?cfg = "config_of rp (cs_rows st)"
  obtain j u r where n: "config_int ?cfg ''MAX_CONCURRENT_JOURNEYS'' = Inr j" "1 \<le> j" "config_int ?cfg ''MAX_CONCURRENT_UPLOADS'' = Inr u" "1 \<le> u"
      "config_int ?cfg ''MAX_CONCURRENT_REBUILDS'' = Inr r" "1 \<le> r"
    using config_int_limit [OF assms(1) limit_keys(1)] config_int_limit [OF assms(1) limit_keys(2)] config_int_limit [OF assms(1) limit_keys(3)] by blast
  let ?s = "(cs_semaphores st)\<lparr>sem_journey := (sem_journey (cs_semaphores st))\<lparr>g_limit := j\<rparr>,
     sem_upload := (sem_upload (cs_semaphores st))\<lparr>g_limit := u\<rparr>, sem_rebuild := (sem_rebuild (cs_semaphores st))\<lparr>g_limit := r\<rparr>, sem_initialised := True\<rparr>"
  have "reload_from_config ?cfg (cs_semaphores st) = (None, ?s)"
    using n by (simp add: reload_from_config_def reload_gate_def rbind_def set_limit_def Let_def)
  then have "reload_semaphores rp now st = (None, st\<lparr>cs_cache := Some ?cfg, cs_loaded_at := now, cs_semaphores := ?s\<rparr>)"
    by (simp add: reload_semaphores_def get_all_def load_ok assms)
  moreover have "gates_follow rp (st\<lparr>cs_semaphores := ?s\<rparr>)" using n by (simp add: gates_follow_def Let_def)
  ultimately show ?thesis by blast
qed

section \<open>A whole change\<close>

lemma patch_config_refused:
  assumes "\<not> (\<forall>kv \<in> set kvs. item_ok rp kv)"
  shows "\<exists>errors. errors \<noteq> [] \<and> patch_config rp now actor ip (JObj kvs) st = (Inl (ConfigValidationError errors), st)"
proof -
  have "coerced_ok []" by (simp add: coerced_ok_def)
  from check_payload_result [OF this, of rp kvs "[]"] assms obtain errors coerced
    where "check_payload rp kvs [] [] = Inr (errors, coerced)" "errors \<noteq> []" by metis
  then show ?thesis by (simp add: patch_config_def apply_patch_def)
qed

lemma patch_config_accepted:
  assumes "config_ok rp st" "\<forall>kv \<in> set kvs. item_ok rp kv"
  shows "\<exists>coerced rows log st'. check_payload rp kvs [] [] = Inr ([], coerced) \<and> coerced_ok coerced
     \<and> patch_config rp now actor ip (JObj kvs) st = (Inr (map masked (config_of rp rows)), st')
     \<and> cs_rows st' = rows \<and> cs_audit st' = cs_audit st @ log \<and> config_ok rp st' \<and> gates_follow rp st'
     \<and> stored_rows rp actor (config_of rp (cs_rows st)) coerced (cs_rows st) rows
     \<and> (\<forall>a \<in> set log. audited rp (config_of rp (cs_rows st)) coerced a)
     \<and> (all_current (config_of rp (cs_rows st)) coerced \<longrightarrow> rows = cs_rows st \<and> log = [])"
proof -
  have "coerced_ok []" by (simp add: coerced_ok_def)
  from check_payload_result [OF this, of rp kvs "[]"] assms(2) obtain coerced
    where chk: "check_payload rp kvs [] [] = Inr ([], coerced)" "coerced_ok coerced" by metis
  let ?cfg = "config_of rp (cs_rows st)"
  obtain st1 where get: "get_all rp now False st = (Inr ?cfg, st1)" and s1: "cs_rows st1 = cs_rows st" "cs_audit st1 = cs_audit st"
    using get_all_ok [OF assms(1), of now False] by auto
  obtain rows log where per: "persist_all rp actor ip ?cfg coerced st1 = Inr (st1\<lparr>cs_rows := rows, cs_audit := cs_audit st1 @ log\<rparr>)"
     "stored_rows rp actor ?cfg coerced (cs_rows st1) rows" "\<forall>a \<in> set log. audited rp ?cfg coerced a"
     "all_current ?cfg coerced \<longrightarrow> rows = cs_rows st1 \<and> log = []" using persist_all_result [OF chk(2)] by metis
  have ok: "rows_ok rp rows"
    using stored_rows_values(1) [OF _ chk(2), of rp "cs_rows st" actor rows] per(2) assms(1) by (simp add: config_ok_def s1)
  define st2 where "st2 = st1\<lparr>cs_rows := rows, cs_audit := cs_audit st1 @ log\<rparr>"
  define st3 where "st3 = invalidate_cache st2"
  have s3: "cs_rows st3 = rows" "cs_audit st3 = cs_audit st @ log" "cs_cache st3 = None"
    by (simp_all add: st3_def st2_def invalidate_cache_def s1)
  obtain s where rel: "reload_semaphores rp now st3 = (None, st3\<lparr>cs_cache := Some (config_of rp (cs_rows st3)), cs_loaded_at := now, cs_semaphores := s\<rparr>)"
     "gates_follow rp (st3\<lparr>cs_semaphores := s\<rparr>)" using reload_semaphores_ok [of rp st3 now] ok s3 by auto
  define st4 where "st4 = st3\<lparr>cs_cache := Some (config_of rp (cs_rows st3)), cs_loaded_at := now, cs_semaphores := s\<rparr>"
  have s4: "cs_rows st4 = rows" "cs_audit st4 = cs_audit st @ log" "cs_cache st4 = Some (config_of rp rows)" "cs_loaded_at st4 = now"
    "gates_follow rp st4" using rel(2) by (simp_all add: st4_def s3 gates_follow_def)
  have resp: "as_response rp now st4 = (Inr (map masked (config_of rp rows)), st4)"
    by (simp add: as_response_def get_all_def is_cache_stale_def REFRESH_AFTER_SECONDS_def s4)
  have "patch_config rp now actor ip (JObj kvs) st = (Inr (map masked (config_of rp rows)), st4)"
    unfolding patch_config_def apply_patch_def
    by (simp add: chk(1) get per(1) st2_def [symmetric] st3_def [symmetric] rel(1) st4_def [symmetric] resp)
  moreover have "config_ok rp st4" using ok s4 by (simp add: config_ok_def)
  ultimately show ?thesis using chk per(2,3,4) s4
    by (intro exI [of _ coerced] exI [of _ rows] exI [of _ log] exI [of _ st4]) (simp add: s1)
qed

section \<open>Properties\<close>

text \<open>C19: A change of the settings is applied whole or not at all. It is refused, with nothing changed, as
  soon as one key is unknown or one value does not fit its field; else every named value is the one read
  next (None brings the default back, a secret sent masked keeps its value), no other changes, the table
  still reads back, and the three gates have the stored limits, each at least one.\<close>

theorem patch_applies_whole:
  assumes "config_ok rp st" "distinct (map fst kvs)"
  shows "case patch_config rp now actor ip (JObj kvs) st of
       (Inl e, st') \<Rightarrow> (\<exists>errors. errors \<noteq> [] \<and> e = ConfigValidationError errors) \<and> st' = st \<and> (\<exists>kv \<in> set kvs. \<not> item_ok rp kv)
     | (Inr response, st') \<Rightarrow> (\<forall>kv \<in> set kvs. item_ok rp kv) \<and> config_ok rp st' \<and> gates_follow rp st'
         \<and> (\<exists>cfg. load_from_db rp (cs_rows st') = Inr cfg \<and> response = map masked cfg
             \<and> (\<forall>ks \<in> set CONFIG_SCHEMA. map_of cfg (fst ks) = Some (value_after rp (cs_rows st) (patch_value rp kvs (fst ks)) ks)))"
proof (cases "\<forall>kv \<in> set kvs. item_ok rp kv")
  case False
  then obtain errors where "errors \<noteq> []" "patch_config rp now actor ip (JObj kvs) st = (Inl (ConfigValidationError errors), st)"
    using patch_config_refused [OF False] by blast
  with False show ?thesis by simp
next
  case True
  from patch_config_accepted [OF assms(1) True, of now actor ip] obtain coerced rows log st' where p:
     "check_payload rp kvs [] [] = Inr ([], coerced)" "coerced_ok coerced"
     "patch_config rp now actor ip (JObj kvs) st = (Inr (map masked (config_of rp rows)), st')"
     "cs_rows st' = rows" "config_ok rp st'" "gates_follow rp st'"
     "stored_rows rp actor (config_of rp (cs_rows st)) coerced (cs_rows st) rows" by blast
  have ok: "rows_ok rp (cs_rows st)" "rows_ok rp rows" using assms(1) p(4,5) by (simp_all add: config_ok_def)
  have val: "map_of (config_of rp rows) (fst ks) = Some (value_after rp (cs_rows st) (patch_value rp kvs (fst ks)) ks)"
    if "ks \<in> set CONFIG_SCHEMA" for ks
  proof -
    have m: "(fst ks, snd ks) \<in> set CONFIG_SCHEMA" using that by simp
    have "map_of coerced (fst ks) = patch_value rp kvs (fst ks)"
      using check_payload_lookup [OF p(1) assms(2), of "fst ks"] by (simp split: option.splits)
    moreover have "map_of (config_of rp rows) (fst ks) = Some (stored_value rp rows ks)"
      using m unfolding schema_mem [symmetric] by (simp add: map_of_config_of)
    ultimately show ?thesis using stored_rows_values(2) [OF ok(1) p(2,7) m] by simp
  qed
  show ?thesis using True p val load_ok [OF ok(2)] by simp
qed

theorem patch_applies_whole_witness:
  "\<exists>cfg (st :: config_state). load_from_db (\<lambda>_. []) (cs_rows st) = Inr cfg \<and> map_of cfg ''SMTP_PORT'' = Some (JInt 25)"
proof -
  define st where "st = \<lparr>cs_rows = [], cs_audit = [], cs_cache = None, cs_loaded_at = 0, cs_semaphores = initial_semaphores\<rparr>"
  have st: "config_ok (\<lambda>_. []) st" by (simp add: st_def config_ok_def rows_ok_def)
  have d: "distinct (map fst [(''SMTP_PORT'', JStr ''25'')])" by simp
  have co: "coerce (\<lambda>_. []) ''SMTP_PORT'' (JStr ''25'') = Inr (JInt 25)" by code_simp
  have nm: "\<not> masked_item (''SMTP_PORT'', JStr ''25'')" by code_simp
  have ok: "\<forall>kv \<in> set [(''SMTP_PORT'', JStr ''25'')]. item_ok (\<lambda>_. []) kv" using co by (simp add: item_ok_def)
  have pv: "patch_value (\<lambda>_. []) [(''SMTP_PORT'', JStr ''25'')] ''SMTP_PORT'' = Some (JInt 25)" using nm co by (simp add: patch_value_def)
  have mem: "(''SMTP_PORT'', int_field 587 1 65535) \<in> set CONFIG_SCHEMA" by (simp add: CONFIG_SCHEMA_def)
  show ?thesis
  proof (cases "patch_config (\<lambda>_. []) 0 None None (JObj [(''SMTP_PORT'', JStr ''25'')]) st")
    case (Pair r st')
    with patch_applies_whole [OF st d, of 0 None None] ok obtain cfg where c: "load_from_db (\<lambda>_. []) (cs_rows st') = Inr cfg"
      "\<forall>ks \<in> set CONFIG_SCHEMA. map_of cfg (fst ks) = Some (value_after (\<lambda>_. []) (cs_rows st) (patch_value (\<lambda>_. []) [(''SMTP_PORT'', JStr ''25'')] (fst ks)) ks)"
      by (cases r) (simp_all only: prod.case sum.case; blast)+
    from c(2) mem pv have "map_of cfg ''SMTP_PORT'' = Some (JInt 25)" by (fastforce simp: value_after_def)
    with c(1) show ?thesis by blast
  qed
qed

text \<open>C20: What a read answers can be sent back as a change: it is accepted, answers the same, and writes
  neither the table nor the audit log, whatever the secrets are.\<close>

theorem own_response_changes_nothing:
  assumes "config_ok rp st" "as_response rp now st = (Inr response, st1)"
  shows "\<exists>st'. patch_config rp later actor ip (JObj response) st1 = (Inr response, st') \<and> cs_rows st' = cs_rows st \<and> cs_audit st' = cs_audit st"
proof -
  let ?cfg = "config_of rp (cs_rows st)"
  have st1: "response = map masked ?cfg" "cs_rows st1 = cs_rows st" "cs_audit st1 = cs_audit st" "cs_cache st1 = Some ?cfg"
    using assms(2) get_all_ok [OF assms(1), of now False] by (auto simp: as_response_def)
  then have ok1: "config_ok rp st1" using assms(1) by (simp add: config_ok_def)
  have rows: "rows_ok rp (cs_rows st)" using assms(1) by (simp add: config_ok_def)
  have fsts: "map fst response = map fst CONFIG_SCHEMA"
    unfolding st1(1) map_fst_config_of [symmetric, of rp "cs_rows st"] by (simp add: masked_def)
  have cfg: "coerce rp k v = Inr v" if "(k, v) \<in> set ?cfg" for k v
  proof -
    from that obtain spec where m: "(k, spec) \<in> set CONFIG_SCHEMA" "v = stored_value rp (cs_rows st) (k, spec)" by (auto simp: config_of_def)
    then have "value_ok spec v" using load_key_ok [OF rows m(1)] by simp
    from coerce_ok_id [OF this] m(1) show ?thesis by (simp add: coerce_def schema_mem [symmetric])
  qed
  have item: "masked_item kv \<or> coerce rp (fst kv) (snd kv) = Inr (snd kv) \<and> kv \<in> set ?cfg" if "kv \<in> set response" for kv
  proof -
    from that obtain kv0 where k0: "kv0 \<in> set ?cfg" "kv = masked kv0" by (auto simp: st1(1))
    show ?thesis
    proof (cases "kv = kv0")
      case True
      then show ?thesis using k0 cfg [of "fst kv" "snd kv"] by simp
    next
      case False
      then show ?thesis using k0(2) by (auto simp: masked_item_def masked_def split: if_splits option.splits)
    qed
  qed
  then have all: "\<forall>kv \<in> set response. item_ok rp kv" by (force simp: item_ok_def)
  from patch_config_accepted [OF ok1 all, of later actor ip] obtain coerced rows' log st' where p:
     "check_payload rp response [] [] = Inr ([], coerced)" "coerced_ok coerced"
     "patch_config rp later actor ip (JObj response) st1 = (Inr (map masked (config_of rp rows')), st')"
     "cs_rows st' = rows'" "cs_audit st' = cs_audit st1 @ log"
     "all_current (config_of rp (cs_rows st1)) coerced \<longrightarrow> rows' = cs_rows st1 \<and> log = []" by blast
  have d: "distinct (map fst response)" unfolding fsts by (rule distinct_schema)
  have "all_current ?cfg coerced" unfolding all_current_def
  proof
    fix kv assume a: "kv \<in> set coerced"
    then have "map_of coerced (fst kv) = Some (snd kv)" using p(2) by (simp add: coerced_ok_def)
    then have "patch_value rp response (fst kv) = Some (snd kv)"
      using check_payload_lookup [OF p(1) d, of "fst kv"] by (simp split: option.splits)
    then obtain raw where r: "map_of response (fst kv) = Some raw" "\<not> masked_item (fst kv, raw)" "coerce rp (fst kv) raw = Inr (snd kv)"
      by (auto simp: patch_value_def split: option.splits if_splits sum.splits)
    from item [OF map_of_SomeD [OF r(1)]] r(2,3) have "raw = snd kv" "(fst kv, raw) \<in> set ?cfg" by simp_all
    then have "map_of ?cfg (fst kv) = Some (snd kv)" using distinct_schema map_fst_config_of [of rp "cs_rows st"] by (metis map_of_is_SomeI)
    then show "alist_get ?cfg (fst kv) JNull = snd kv" by (simp add: alist_get_def)
  qed
  with p(3-6) st1 show ?thesis by auto
qed

theorem own_response_changes_nothing_witness:
  "\<exists>response (st :: config_state). (\<exists>st'. patch_config (\<lambda>_. []) 0 None None (JObj response) st = (Inr response, st') \<and> cs_audit st' = [])"
proof -
  define st where "st = \<lparr>cs_rows = [], cs_audit = [], cs_cache = None, cs_loaded_at = 0, cs_semaphores = initial_semaphores\<rparr>"
  have st: "config_ok (\<lambda>_. []) st" by (simp add: st_def config_ok_def rows_ok_def)
  obtain response st1 where "as_response (\<lambda>_. []) 0 st = (Inr response, st1)"
    using get_all_ok [OF st, of 0 False] by (auto simp: as_response_def)
  from own_response_changes_nothing [OF st this, of 0 None None] show ?thesis by (auto simp: st_def)
qed

definition secret_key :: "str \<Rightarrow> bool" where
  "secret_key k = (case map_of CONFIG_SCHEMA k of Some spec \<Rightarrow> is_sensitive spec | None \<Rightarrow> False)"

definition hides_secrets :: "config \<Rightarrow> bool" where
  "hides_secrets response = (\<forall>kv \<in> set response. secret_key (fst kv) \<longrightarrow> snd kv = JStr MASK_SENTINEL \<or> \<not> json_truthy (snd kv))"

lemma masked_hides: "hides_secrets (map masked cfg)"
  by (auto simp: hides_secrets_def masked_def secret_key_def)

lemma as_response_hides: "as_response rp now st = (Inr response, st') \<Longrightarrow> hides_secrets response"
  using masked_hides by (auto simp: as_response_def split: prod.splits sum.splits)

lemma get_all_audit: "get_all rp now f st = (r, st') \<Longrightarrow> cs_audit st' = cs_audit st"
  by (auto simp: get_all_def split: if_splits sum.splits option.splits)

lemma as_response_audit: "as_response rp now st = (r, st') \<Longrightarrow> cs_audit st' = cs_audit st"
  by (auto simp: as_response_def dest: get_all_audit split: prod.splits sum.splits)

lemma reload_audit: "reload_semaphores rp now st = (r, st') \<Longrightarrow> cs_audit st' = cs_audit st"
  by (auto simp: reload_semaphores_def dest: get_all_audit split: prod.splits sum.splits)



end
