(* ===== verification/Refresh_Progress.thy ===== *)
theory Refresh_Progress
  imports Adapters Civil_Time
begin

text \<open>
  The record of a session's source refreshes, \<open>app/refresh_progress.py\<close>: the claim of a refresh, the
  progress its run writes, and the follow-up of the station module. The table is the list of its rows;
  an UPDATE changes the rows its WHERE clause holds for, in place. Each operation on the table is one
  transaction, with the database's \<open>now()\<close> as the argument \<open>now\<close>; claims of one session are one at a
  time (the advisory lock). What a progress write comes to is chosen by the environment: it commits,
  fails, or commits while its caller sees an exception. Instants are microseconds.
\<close>

section \<open>Names and limits\<close>

definition PROVIDERS :: str where "PROVIDERS = ''providers''"
definition OSM :: str where "OSM = ''osm''"
definition SCOPES :: "str list" where "SCOPES = [PROVIDERS, OSM]"
definition SINGLE_SHOWN_MAX :: nat where "SINGLE_SHOWN_MAX = 4"
definition RUNNING :: str where "RUNNING = ''running''"
definition FINISHED :: str where "FINISHED = ''finished''"
definition FAILED :: str where "FAILED = ''failed''"
definition INTERRUPTED :: str where "INTERRUPTED = ''interrupted''"
definition LEASE_SECONDS :: int where "LEASE_SECONDS = 300"
definition BYTES_EVERY_SECONDS :: real where "BYTES_EVERY_SECONDS = 2"
definition BYTES_STEP_PERCENT :: int where "BYTES_STEP_PERCENT = 5"
definition FAILED_KEYS_MAX :: nat where "FAILED_KEYS_MAX = 50"
definition EXTRACT_LEASE_SECONDS :: int where "EXTRACT_LEASE_SECONDS = 300"
definition EXTRACT_QUEUED_SECONDS :: int where "EXTRACT_QUEUED_SECONDS = EXTRACT_LEASE_SECONDS"
definition RESUME_HOURS :: int where "RESUME_HOURS = 24"
definition EXTRACT_PROBLEMS_MAX :: nat where "EXTRACT_PROBLEMS_MAX = 50"
definition DOWNLOADING :: str where "DOWNLOADING = ''downloading''"

definition EXTRACT_STATES :: "str list" where
  "EXTRACT_STATES = [''sent'', ''held'', ''refused'', ''unavailable'', ''skipped'', ''cancelled'']"

definition EXTRACT_ENDS :: "str list" where
  "EXTRACT_ENDS = [''finished'', ''cancelled'', ''error'', ''off'']"

text \<open>The steps of a task, \<open>feed_fetch.STEPS\<close>.\<close>

definition STEP_DOWNLOADING :: str where "STEP_DOWNLOADING = ''downloading''"
definition STEPS :: "str list" where
  "STEPS = [STEP_DOWNLOADING, ''verifying'', ''checking_structure'', ''storing'']"

text \<open>The three patterns, matched as a whole.\<close>

definition is_feed_id :: "str \<Rightarrow> bool" where
  "is_feed_id s = (case s of [] \<Rightarrow> False | c # cs \<Rightarrow> is_upper_az c \<and> cs \<noteq> [] \<and> length cs \<le> 15
     \<and> list_all (\<lambda>d. is_upper_az d \<or> is_decimal d \<or> d = CHR ''_'' \<or> d = CHR ''-'') cs)"

definition is_word :: "str \<Rightarrow> bool" where
  "is_word s = (s \<noteq> [] \<and> length s \<le> 40 \<and> list_all (\<lambda>d. is_lower_az d \<or> is_decimal d \<or> d = CHR ''_'') s)"

definition is_label :: "str \<Rightarrow> bool" where
  "is_label s = (s \<noteq> [] \<and> length s \<le> 120
     \<and> list_all (\<lambda>d. is_ascii_letter d \<or> is_decimal d \<or> d \<in> set ''_[]().:- '') s)"

definition label_of :: "json \<Rightarrow> str" where
  "label_of v = (case v of JStr s \<Rightarrow> if is_label s then s else ''task'' | _ \<Rightarrow> ''task'')"

definition task_label :: "json \<Rightarrow> str" where
  "task_label v = label_of v"

definition word_of :: "json \<Rightarrow> str" where
  "word_of v = (case v of JStr s \<Rightarrow> if is_word s then s else ''other'' | _ \<Rightarrow> ''other'')"

definition provider_scope :: "str \<Rightarrow> py_error + str" where
  "provider_scope pid = (if is_feed_id pid then Inr pid else Inl (ValueError ''not a feed id''))"

definition is_provider_scope :: "str \<Rightarrow> bool" where
  "is_provider_scope scope = is_feed_id scope"

definition refresh_scope :: "str option \<Rightarrow> py_error + str" where
  "refresh_scope only_provider = (case only_provider of None \<Rightarrow> Inr PROVIDERS | Some p \<Rightarrow> provider_scope p)"

text \<open>\<open>isoformat(timespec="seconds")\<close> in UTC.\<close>

definition iso_seconds :: "instant \<Rightarrow> str" where
  "iso_seconds t = strftime_utc t"

section \<open>The table\<close>

record progress_row =
  pr_session_id :: str
  pr_scope :: str
  pr_run_id :: nat
  pr_state :: str
  pr_started_at :: instant
  pr_heartbeat_at :: instant
  pr_finished_at :: "instant option"
  pr_detail :: json
  pr_extract :: json

definition update_where :: "(progress_row \<Rightarrow> bool) \<Rightarrow> (progress_row \<Rightarrow> progress_row) \<Rightarrow> progress_row list \<Rightarrow> nat \<times> progress_row list" where
  "update_where cond f rows = (length (filter cond rows), map (\<lambda>r. if cond r then f r else r) rows)"

definition lease_cutoff :: "instant \<Rightarrow> instant" where
  "lease_cutoff now = now - LEASE_SECONDS * 1000000"

definition stale_row :: "instant \<Rightarrow> str \<Rightarrow> str option \<Rightarrow> progress_row \<Rightarrow> bool" where
  "stale_row now sid scope r = (pr_session_id r = sid \<and> pr_state r = RUNNING \<and> pr_heartbeat_at r < lease_cutoff now
     \<and> (case scope of None \<Rightarrow> True | Some s \<Rightarrow> pr_scope r = s))"

definition expire :: "instant \<Rightarrow> str \<Rightarrow> str option \<Rightarrow> progress_row list \<Rightarrow> progress_row list" where
  "expire now sid scope rows = snd (update_where (stale_row now sid scope)
     (\<lambda>r. r\<lparr>pr_state := INTERRUPTED, pr_finished_at := Some (pr_heartbeat_at r)\<rparr>) rows)"

text \<open>The worker's condition: a refresh of the session is running within its lease.\<close>

definition running_for :: "instant \<Rightarrow> str \<Rightarrow> progress_row list \<Rightarrow> bool" where
  "running_for now sid rows = list_ex (\<lambda>r. pr_session_id r = sid \<and> pr_state r = RUNNING \<and> pr_heartbeat_at r \<ge> lease_cutoff now) rows"

section \<open>The claim\<close>

record refresh_running =
  rg_scope :: str
  rg_started_at :: "instant option"
  rg_requested :: str

definition running_error :: "str \<Rightarrow> instant option \<Rightarrow> str option \<Rightarrow> refresh_running" where
  "running_error scope started requested = \<lparr>rg_scope = scope, rg_started_at = started,
     rg_requested = (case requested of Some r \<Rightarrow> r | None \<Rightarrow> scope)\<rparr>"

record refusal =
  rf_error :: str
  rf_scope :: str
  rf_provider_id :: "str option"
  rf_started_at :: "str option"
  rf_message :: str

definition refusal_detail :: "refresh_running \<Rightarrow> refusal" where
  "refusal_detail e = (let started = map_option iso_seconds (rg_started_at e);
       since = (if truthy started then '' (started at '' @ or_empty started @ '')'' else []);
       single = is_provider_scope (rg_scope e);
       tail = ''Its progress is shown on the page; start a new one when it has ended.'';
       crosses = (single \<and> rg_requested e = PROVIDERS);
       what = (if rg_scope e = OSM then ''An OSM refresh'' else if rg_scope e = PROVIDERS then ''A provider refresh'' else []);
       subject = (if what \<noteq> [] then what @ '' of this session'' else ''A refresh of provider '' @ rg_scope e)
     in \<lparr>rf_error = (if crosses then ''provider_refresh_running'' else ''refresh_already_running''),
         rf_scope = (if single then ''provider'' else rg_scope e),
         rf_provider_id = (if single then Some (rg_scope e) else None),
         rf_started_at = started,
         rf_message = (if crosses
           then ''A refresh of provider '' @ rg_scope e @ '' alone is running'' @ since
             @ ''. Refresh providers downloads that provider too. '' @ tail
           else subject @ '' is already running'' @ since @ ''. '' @ tail)\<rparr>)"

record refresh_detail =
  rd_total :: int
  rd_done :: int
  rd_fetched :: int
  rd_unchanged :: int
  rd_failed :: int
  rd_not_reached :: int
  rd_phase :: "str option"
  rd_current :: "(str \<times> json) list list"
  rd_failed_keys :: "str list"
  rd_previous :: "str option"
  rd_error :: "str option"

definition optional_text :: "str option \<Rightarrow> json" where
  "optional_text x = (case x of None \<Rightarrow> JNull | Some s \<Rightarrow> JStr s)"

text \<open>The dictionary the record stores: \<open>previous\<close> and \<open>error\<close> are keys only once set.\<close>

definition detail_json :: "refresh_detail \<Rightarrow> json" where
  "detail_json d = JObj ([(''total'', JInt (rd_total d)), (''done'', JInt (rd_done d)), (''fetched'', JInt (rd_fetched d)),
       (''unchanged'', JInt (rd_unchanged d)), (''failed'', JInt (rd_failed d)), (''not_reached'', JInt (rd_not_reached d)),
       (''phase'', optional_text (rd_phase d)), (''current'', JArr (map JObj (rd_current d))),
       (''failed_keys'', JArr (map JStr (rd_failed_keys d)))]
     @ (case rd_previous d of None \<Rightarrow> [] | Some t \<Rightarrow> [(''previous'', JObj [(''state'', JStr INTERRUPTED), (''started_at'', JStr t)])])
     @ (case rd_error d of None \<Rightarrow> [] | Some t \<Rightarrow> [(''error'', JStr t)]))"

definition initial_detail :: "int \<Rightarrow> instant option \<Rightarrow> refresh_detail" where
  "initial_detail total_tasks previous = \<lparr>rd_total = total_tasks, rd_done = 0, rd_fetched = 0, rd_unchanged = 0, rd_failed = 0, rd_not_reached = 0,
     rd_phase = Some DOWNLOADING, rd_current = [], rd_failed_keys = [], rd_previous = map_option iso_seconds previous, rd_error = None\<rparr>"

text \<open>\<open>order_by(started_at).limit(1)\<close> of the rows that forbid the scope.\<close>

definition blocker :: "progress_row list \<Rightarrow> str \<Rightarrow> str \<Rightarrow> refresh_running option" where
  "blocker rows sid scope = (let running = filter (\<lambda>r. pr_session_id r = sid \<and> pr_state r = RUNNING) rows;
       others = (if scope = PROVIDERS then filter (\<lambda>r. pr_scope r \<notin> set SCOPES) running
         else if is_provider_scope scope then filter (\<lambda>r. pr_scope r = PROVIDERS) running
         else [])
     in case min_by pr_started_at others of None \<Rightarrow> None
        | Some r \<Rightarrow> Some (running_error (pr_scope r) (Some (pr_started_at r)) (Some scope)))"

definition row_at :: "progress_row list \<Rightarrow> str \<Rightarrow> str \<Rightarrow> progress_row option" where
  "row_at rows sid scope = find (\<lambda>r. pr_session_id r = sid \<and> pr_scope r = scope) rows"

definition new_row :: "instant \<Rightarrow> nat \<Rightarrow> str \<Rightarrow> str \<Rightarrow> refresh_detail \<Rightarrow> progress_row" where
  "new_row now run_id sid scope detail = \<lparr>pr_session_id = sid, pr_scope = scope, pr_run_id = run_id, pr_state = RUNNING,
     pr_started_at = now, pr_heartbeat_at = now, pr_finished_at = None, pr_detail = detail_json detail, pr_extract = JObj []\<rparr>"

text \<open>\<open>INSERT ... ON CONFLICT DO UPDATE ... WHERE state <> 'running'\<close>: None when nothing was taken.\<close>

definition take_row :: "progress_row \<Rightarrow> progress_row list \<Rightarrow> progress_row list option" where
  "take_row new rows = (case row_at rows (pr_session_id new) (pr_scope new) of
       None \<Rightarrow> Some (rows @ [new])
     | Some r \<Rightarrow> if pr_state r = RUNNING then None
         else Some (map (\<lambda>q. if pr_session_id q = pr_session_id new \<and> pr_scope q = pr_scope new then new else q) rows))"

datatype statement = Progress refresh_detail | Beat | End str refresh_detail "json option"

record refresh_run =
  rn_sid :: str
  rn_scope :: str
  rn_run_id :: nat
  rn_detail :: refresh_detail
  rn_lost :: bool
  rn_finishing :: bool
  rn_follow_up :: bool
  rn_writer :: "statement list option"
  rn_last_bytes_write :: real
  rn_last_step :: int

definition new_run :: "str \<Rightarrow> str \<Rightarrow> nat \<Rightarrow> refresh_detail \<Rightarrow> refresh_run" where
  "new_run sid scope run_id detail = \<lparr>rn_sid = sid, rn_scope = scope, rn_run_id = run_id, rn_detail = detail, rn_lost = False,
     rn_finishing = False, rn_follow_up = (scope \<noteq> OSM), rn_writer = None, rn_last_bytes_write = 0, rn_last_step = 0\<rparr>"

datatype claim_error = BadScope py_error | AlreadyRunning refresh_running

definition claim :: "instant \<Rightarrow> nat \<Rightarrow> str \<Rightarrow> str \<Rightarrow> int \<Rightarrow> progress_row list \<Rightarrow> (claim_error + refresh_run) \<times> progress_row list" where
  "claim now run_id sid scope total_tasks rows =
     (case (if scope \<in> set SCOPES then Inr scope else provider_scope scope) of
        Inl e \<Rightarrow> (Inl (BadScope e), rows)
      | Inr ok \<Rightarrow>
          let rows1 = expire now sid None rows in
          (case blocker rows1 sid scope of
             Some b \<Rightarrow> (Inl (AlreadyRunning b), rows)
           | None \<Rightarrow>
               let replaced = row_at rows1 sid scope;
                   interrupted = (case replaced of Some r \<Rightarrow> if pr_state r = INTERRUPTED then Some (pr_started_at r) else None | None \<Rightarrow> None);
                   detail = initial_detail total_tasks interrupted
               in (case take_row (new_row now run_id sid scope detail) rows1 of
                     None \<Rightarrow> (Inl (AlreadyRunning (running_error scope (map_option pr_started_at (row_at rows sid scope)) None)), rows)
                   | Some rows2 \<Rightarrow> (Inr (new_run sid scope run_id detail), rows2))))"

definition check_free :: "instant \<Rightarrow> str \<Rightarrow> str \<Rightarrow> progress_row list \<Rightarrow> refresh_running option \<times> progress_row list" where
  "check_free now sid scope rows = (let rows1 = expire now sid None rows in
     (case row_at rows1 sid scope of
        Some r \<Rightarrow> if pr_state r = RUNNING then (Some (running_error scope (Some (pr_started_at r)) None), rows1)
          else (blocker rows1 sid scope, rows1)
      | None \<Rightarrow> (blocker rows1 sid scope, rows1)))"

end
