(* ===== verification/Refresh_Run.thy ===== *)
theory Refresh_Run
  imports Refresh_Progress
begin

text \<open>
  The progress writer of one claimed refresh (\<open>RefreshRun\<close>) and of the station module's pass after it
  (\<open>ExtractFollowUp\<close>, \<open>touch_queued\<close>, \<open>resume_passes\<close>), from \<open>app/refresh_progress.py\<close>. An operation
  takes the run and the table and gives both back. Inside \<open>async with\<close> the progress writes wait in
  \<open>rn_writer\<close>, in order, each with the detail as it was when it was made; \<open>writer_step\<close> is the writer
  thread's next one. \<open>clock\<close> is the monotonic clock in seconds, \<open>wall\<close> the process's wall clock.
\<close>

section \<open>Statements on the table\<close>

datatype write_end = Wrote | WriteFailed | WroteUnseen

definition fenced :: "str \<Rightarrow> str \<Rightarrow> nat \<Rightarrow> progress_row \<Rightarrow> bool" where
  "fenced sid scope run_id r = (pr_session_id r = sid \<and> pr_scope r = scope \<and> pr_run_id r = run_id \<and> pr_state r = RUNNING)"

definition statement_values :: "instant \<Rightarrow> statement \<Rightarrow> progress_row \<Rightarrow> progress_row" where
  "statement_values now stmt r = (case stmt of
       Progress d \<Rightarrow> r\<lparr>pr_detail := detail_json d, pr_heartbeat_at := now\<rparr>
     | Beat \<Rightarrow> r\<lparr>pr_heartbeat_at := now\<rparr>
     | End state d extract \<Rightarrow> r\<lparr>pr_state := state, pr_finished_at := Some now, pr_heartbeat_at := now, pr_detail := detail_json d,
         pr_extract := (case extract of None \<Rightarrow> pr_extract r | Some x \<Rightarrow> x)\<rparr>)"

definition exec_statement :: "instant \<Rightarrow> str \<Rightarrow> str \<Rightarrow> nat \<Rightarrow> statement \<Rightarrow> progress_row list \<Rightarrow> nat \<times> progress_row list" where
  "exec_statement now sid scope run_id stmt rows = update_where (fenced sid scope run_id) (statement_values now stmt) rows"

type_synonym run_state = "refresh_run \<times> progress_row list"
type_synonym write_env = "instant \<times> write_end"

definition execute :: "write_env \<Rightarrow> bool \<Rightarrow> statement \<Rightarrow> run_state \<Rightarrow> run_state" where
  "execute env beat stmt s = (case (s, env) of ((run, rows), (now, out)) \<Rightarrow>
     (case exec_statement now (rn_sid run) (rn_scope run) (rn_run_id run) stmt rows of (changed, rows') \<Rightarrow>
        (case out of
           WriteFailed \<Rightarrow> (run, rows)
         | WroteUnseen \<Rightarrow> (run, rows')
         | Wrote \<Rightarrow> (if changed = 0 \<and> \<not> rn_lost run \<and> \<not> (beat \<and> rn_finishing run) then run\<lparr>rn_lost := True\<rparr> else run, rows'))))"

definition write_progress :: "write_env \<Rightarrow> run_state \<Rightarrow> run_state" where
  "write_progress env s = (case s of (run, rows) \<Rightarrow>
     (case rn_writer run of
        Some queue \<Rightarrow> (run\<lparr>rn_writer := Some (queue @ [Progress (rn_detail run)])\<rparr>, rows)
      | None \<Rightarrow> execute env False (Progress (rn_detail run)) (run, rows)))"

definition writer_step :: "write_env \<Rightarrow> run_state \<Rightarrow> run_state" where
  "writer_step env s = (case s of (run, rows) \<Rightarrow>
     (case rn_writer run of
        Some (stmt # queue) \<Rightarrow> execute env False stmt (run\<lparr>rn_writer := Some queue\<rparr>, rows)
      | _ \<Rightarrow> (run, rows)))"

definition beat :: "write_env \<Rightarrow> run_state \<Rightarrow> run_state" where
  "beat env s = (if rn_finishing (fst s) then s else execute env True Beat s)"

section \<open>Progress\<close>

definition set_detail :: "(refresh_detail \<Rightarrow> refresh_detail) \<Rightarrow> refresh_run \<Rightarrow> refresh_run" where
  "set_detail f run = run\<lparr>rn_detail := f (rn_detail run)\<rparr>"

definition optional_int :: "int option \<Rightarrow> json" where
  "optional_int x = (case x of None \<Rightarrow> JNull | Some n \<Rightarrow> JInt n)"

definition restart_throttle :: "real \<Rightarrow> refresh_run \<Rightarrow> refresh_run" where
  "restart_throttle clock run = run\<lparr>rn_last_bytes_write := clock, rn_last_step := 0\<rparr>"

definition progress_step :: "int \<Rightarrow> int option \<Rightarrow> int" where
  "progress_step so_far whole = (case whole of
       None \<Rightarrow> 0
     | Some t \<Rightarrow> if t = 0 then 0 else (let percent = min 100 (so_far * 100 div t) in percent - percent mod BYTES_STEP_PERCENT))"

definition throttled_write :: "write_env \<Rightarrow> real \<Rightarrow> int \<Rightarrow> int option \<Rightarrow> run_state \<Rightarrow> run_state" where
  "throttled_write env clock so_far whole s = (case s of (run, rows) \<Rightarrow>
     (let step = progress_step so_far whole in
      if clock - rn_last_bytes_write run \<ge> BYTES_EVERY_SECONDS \<or> step > rn_last_step run
      then write_progress env (run\<lparr>rn_last_bytes_write := clock, rn_last_step := max step (rn_last_step run)\<rparr>, rows)
      else s))"

definition task_start :: "write_env \<Rightarrow> real \<Rightarrow> instant \<Rightarrow> str \<Rightarrow> run_state \<Rightarrow> run_state" where
  "task_start env clock wall label s = (case s of (run, rows) \<Rightarrow>
     write_progress env (restart_throttle clock (set_detail (\<lambda>d. d\<lparr>rd_current :=
       [[(''key'', JStr (label_of (JStr label))), (''bytes'', JNull), (''expected'', JNull), (''step'', JStr STEP_DOWNLOADING),
         (''scanned'', JNull), (''scan_total'', JNull), (''started_at'', JStr (iso_seconds wall))]]\<rparr>) run), rows))"

definition update_current :: "((str \<times> json) list \<Rightarrow> (str \<times> json) list) \<Rightarrow> refresh_run \<Rightarrow> refresh_run" where
  "update_current f run = set_detail (\<lambda>d. d\<lparr>rd_current := (case rd_current d of [] \<Rightarrow> [] | item # rest \<Rightarrow> f item # rest)\<rparr>) run"

definition bytes_received :: "write_env \<Rightarrow> real \<Rightarrow> int \<Rightarrow> int option \<Rightarrow> run_state \<Rightarrow> run_state" where
  "bytes_received env clock received expected s = (case s of (run, rows) \<Rightarrow>
     (if rd_current (rn_detail run) = [] then s
      else throttled_write env clock received expected
        (update_current (\<lambda>item. alist_set ''expected'' (optional_int expected) (alist_set ''bytes'' (JInt received) item)) run, rows)))"

definition step_reached :: "write_env \<Rightarrow> real \<Rightarrow> str \<Rightarrow> int option \<Rightarrow> int option \<Rightarrow> run_state \<Rightarrow> run_state" where
  "step_reached env clock name so_far whole s = (case s of (run, rows) \<Rightarrow>
     (case rd_current (rn_detail run) of
        [] \<Rightarrow> s
      | item # rest \<Rightarrow>
          if rn_finishing run \<or> name \<notin> set STEPS then s
          else let run1 = update_current (\<lambda>item. alist_set ''scan_total'' (optional_int whole) (alist_set ''scanned'' (optional_int so_far) item)) run in
            if dget item ''step'' \<noteq> JStr name
            then write_progress env (restart_throttle clock (update_current (alist_set ''step'' (JStr name)) run1), rows)
            else (case so_far of Some n \<Rightarrow> throttled_write env clock n whole (run1, rows) | None \<Rightarrow> (run1, rows))))"

definition count_outcome :: "json \<Rightarrow> str \<Rightarrow> refresh_detail \<Rightarrow> refresh_detail" where
  "count_outcome status label d =
     (let d1 = (if status = JStr ''fetched'' then d\<lparr>rd_fetched := rd_fetched d + 1\<rparr>
           else if status = JStr ''unchanged'' then d\<lparr>rd_unchanged := rd_unchanged d + 1\<rparr>
           else (let d0 = d\<lparr>rd_failed := rd_failed d + 1\<rparr> in
             if length (rd_failed_keys d0) < FAILED_KEYS_MAX
             then d0\<lparr>rd_failed_keys := rd_failed_keys d0 @ [label_of (JStr label)]\<rparr> else d0))
      in d1\<lparr>rd_done := rd_done d1 + 1, rd_current := []\<rparr>)"

definition task_done :: "write_env \<Rightarrow> str \<Rightarrow> (str \<times> json) list \<Rightarrow> run_state \<Rightarrow> run_state" where
  "task_done env label outcome s = (case s of (run, rows) \<Rightarrow>
     write_progress env (set_detail (count_outcome (dget outcome ''status'') label) run, rows))"

definition phase :: "write_env \<Rightarrow> instant \<Rightarrow> str \<Rightarrow> str option \<Rightarrow> run_state \<Rightarrow> run_state" where
  "phase env wall name label s = (case s of (run, rows) \<Rightarrow>
     write_progress env (set_detail (\<lambda>d. d\<lparr>rd_phase := Some name, rd_current :=
       (if truthy label then [[(''key'', JStr (label_of (JStr (or_empty label)))), (''bytes'', JNull), (''expected'', JNull),
          (''started_at'', JStr (iso_seconds wall))]] else [])\<rparr>) run, rows))"

text \<open>The follow-up a refresh leaves; \<open>enabled\<close> says that the station module is configured.\<close>

definition extract_on_finish :: "bool \<Rightarrow> instant \<Rightarrow> str \<Rightarrow> json" where
  "extract_on_finish enabled wall state =
     (if state \<noteq> FINISHED then JObj []
      else if \<not> enabled then JObj [(''state'', JStr ''off'')]
      else JObj [(''state'', JStr ''queued''), (''updated_at'', JStr (iso_seconds wall))])"

definition ended_detail :: "str option \<Rightarrow> refresh_detail \<Rightarrow> refresh_detail" where
  "ended_detail error d = (let d1 = d\<lparr>rd_current := [], rd_phase := None, rd_not_reached := max 0 (rd_total d - rd_done d)\<rparr> in
     (case error of None \<Rightarrow> d1 | Some e \<Rightarrow> d1\<lparr>rd_error := Some (word_of (JStr (map ascii_lower e)))\<rparr>))"

definition finish :: "write_env \<Rightarrow> bool \<Rightarrow> instant \<Rightarrow> str \<Rightarrow> str option \<Rightarrow> run_state \<Rightarrow> run_state" where
  "finish env enabled wall state error s = (case s of (run, rows) \<Rightarrow>
     (let run1 = set_detail (ended_detail error) run in
      execute env False (End state (rn_detail run1)
        (if rn_follow_up run1 then Some (extract_on_finish enabled wall state) else None)) (run1, rows)))"

section \<open>Lifetime\<close>

definition run_enter :: "run_state \<Rightarrow> run_state" where
  "run_enter s = ((fst s)\<lparr>rn_writer := Some []\<rparr>, snd s)"

text \<open>\<open>shutdown(wait=True)\<close>: what is queued is written, in order; write \<open>i\<close> meets \<open>env i\<close>.\<close>

fun drain :: "(nat \<Rightarrow> write_env) \<Rightarrow> statement list \<Rightarrow> run_state \<Rightarrow> run_state" where
  "drain env [] s = s"
| "drain env (stmt # queue) s = drain (\<lambda>i. env (Suc i)) queue (execute (env 0) False stmt s)"

definition end_run :: "(nat \<Rightarrow> write_env) \<Rightarrow> bool \<Rightarrow> instant \<Rightarrow> str \<Rightarrow> str option \<Rightarrow> run_state \<Rightarrow> run_state" where
  "end_run env enabled wall state error s = (case s of (run, rows) \<Rightarrow>
     (case rn_writer run of
        None \<Rightarrow> finish (env 0) enabled wall state error s
      | Some queue \<Rightarrow> (case drain env queue (run, rows) of (run1, rows1) \<Rightarrow>
          finish (env (length queue)) enabled wall state error (run1\<lparr>rn_writer := None\<rparr>, rows1))))"

text \<open>How the body left: normally, on an \<open>Exception\<close> of this type name, or cancelled.\<close>

datatype body_end = Returned | Raised_as str | Cancelled

definition end_state :: "body_end \<Rightarrow> str \<times> str option" where
  "end_state b = (case b of Returned \<Rightarrow> (FINISHED, None) | Raised_as name \<Rightarrow> (FAILED, Some name) | Cancelled \<Rightarrow> (INTERRUPTED, None))"

definition run_exit :: "(nat \<Rightarrow> write_env) \<Rightarrow> bool \<Rightarrow> instant \<Rightarrow> body_end \<Rightarrow> run_state \<Rightarrow> run_state" where
  "run_exit env enabled wall b s = (case end_state b of (state, error) \<Rightarrow>
     end_run env enabled wall state error ((fst s)\<lparr>rn_finishing := True\<rparr>, snd s))"

section \<open>The station module's follow-up\<close>

definition extract_state_of :: "progress_row \<Rightarrow> json" where
  "extract_state_of r = (case jget (pr_extract r) ''state'' of Some v \<Rightarrow> v | None \<Rightarrow> JNull)"

text \<open>\<open>jsonb || jsonb\<close> of two objects.\<close>

definition json_concat :: "json \<Rightarrow> (str \<times> json) list \<Rightarrow> json" where
  "json_concat v kvs = JObj (foldl (\<lambda>d kv. alist_set (fst kv) (snd kv) d) (dict_or_empty (Some v)) kvs)"

definition follow_up_row :: "str \<Rightarrow> str \<Rightarrow> nat \<Rightarrow> progress_row \<Rightarrow> bool" where
  "follow_up_row sid scope run_id r = (pr_session_id r = sid \<and> pr_scope r = scope \<and> pr_run_id r = run_id \<and> pr_state r = FINISHED)"

definition touch_queued :: "bool \<Rightarrow> instant \<Rightarrow> str \<Rightarrow> str \<Rightarrow> nat \<Rightarrow> progress_row list \<Rightarrow> progress_row list" where
  "touch_queued ok wall sid scope run_id rows =
     (if ok then snd (update_where (\<lambda>r. follow_up_row sid scope run_id r \<and> extract_state_of r = JStr ''queued'')
        (\<lambda>r. r\<lparr>pr_extract := json_concat (pr_extract r) [(''updated_at'', JStr (iso_seconds wall))]\<rparr>) rows) else rows)"

definition to_resume :: "instant \<Rightarrow> progress_row \<Rightarrow> bool" where
  "to_resume now r = (pr_state r = FINISHED \<and> pr_scope r \<noteq> OSM \<and> extract_state_of r \<in> {JStr ''queued'', JStr RUNNING}
     \<and> (case pr_finished_at r of Some t \<Rightarrow> t > now - RESUME_HOURS * 3600 * 1000000 | None \<Rightarrow> False))"

definition resume_passes :: "instant \<Rightarrow> instant \<Rightarrow> progress_row list \<Rightarrow> (str \<times> str option \<times> nat) list \<times> progress_row list" where
  "resume_passes now wall rows =
     (map (\<lambda>r. (pr_session_id r, if pr_scope r = PROVIDERS then None else Some (pr_scope r), pr_run_id r))
        (filter (\<lambda>r. pr_scope r = PROVIDERS \<or> is_provider_scope (pr_scope r)) (filter (to_resume now) rows)),
      snd (update_where (to_resume now) (\<lambda>r. r\<lparr>pr_extract := JObj [(''state'', JStr ''queued''), (''updated_at'', JStr (iso_seconds wall)),
        (''resumed'', JBool True)]\<rparr>) rows))"

record follow_up =
  fu_sid :: str
  fu_run_id :: nat
  fu_scope :: str
  fu_state :: "(str \<times> json) list"
  fu_stopped :: bool

record outcome =
  oc_provider_id :: str
  oc_state :: str
  oc_reason :: "str option"
  oc_complete :: bool

definition follow_up_write :: "bool \<Rightarrow> instant \<Rightarrow> follow_up \<times> progress_row list \<Rightarrow> follow_up \<times> progress_row list" where
  "follow_up_write ok wall s = (case s of (fu, rows) \<Rightarrow>
     (let fu1 = fu\<lparr>fu_state := alist_set ''updated_at'' (JStr (iso_seconds wall)) (fu_state fu)\<rparr> in
      (fu1, if ok then snd (update_where (follow_up_row (fu_sid fu) (fu_scope fu) (fu_run_id fu)) (\<lambda>r. r\<lparr>pr_extract := JObj (fu_state fu1)\<rparr>) rows)
            else rows)))"

definition pass_started :: "bool \<Rightarrow> instant \<Rightarrow> int \<Rightarrow> follow_up \<times> progress_row list \<Rightarrow> follow_up \<times> progress_row list" where
  "pass_started ok wall feeds s = follow_up_write ok wall ((fst s)\<lparr>fu_state :=
     [(''state'', JStr RUNNING), (''total'', JInt feeds), (''handled'', JInt 0)] @ map (\<lambda>k. (k, JInt 0)) EXTRACT_STATES
     @ [(''reasons'', JObj []), (''problems'', JArr []), (''current'', JNull), (''current_started_at'', JNull),
        (''started_at'', JStr (iso_seconds wall)), (''finished_at'', JNull)]\<rparr>, snd s)"

definition feed_started :: "bool \<Rightarrow> instant \<Rightarrow> str \<Rightarrow> follow_up \<times> progress_row list \<Rightarrow> follow_up \<times> progress_row list" where
  "feed_started ok wall provider_id s =
     (if fu_state (fst s) = [] then s
      else follow_up_write ok wall ((fst s)\<lparr>fu_state := alist_set ''current_started_at'' (JStr (iso_seconds wall))
        (alist_set ''current'' (JStr (label_of (JStr provider_id))) (fu_state (fst s)))\<rparr>, snd s))"

definition add_one :: "str \<Rightarrow> (str \<times> json) list \<Rightarrow> (str \<times> json) list" where
  "add_one k d = alist_set k (JInt ((case dget d k of JInt n \<Rightarrow> n | _ \<Rightarrow> 0) + 1)) d"

definition counted_outcome :: "outcome \<Rightarrow> (str \<times> json) list \<Rightarrow> (str \<times> json) list" where
  "counted_outcome oc d =
     (let state = (if oc_state oc \<in> set EXTRACT_STATES then oc_state oc else ''skipped'');
          word = (if truthy (oc_reason oc) then Some (word_of (JStr (or_empty (oc_reason oc)))) else None);
          d1 = add_one ''handled'' (add_one state d);
          d2 = (case word of None \<Rightarrow> d1
            | Some w \<Rightarrow> if state \<in> {''sent'', ''held''} then d1
                else alist_set ''reasons'' (JObj (add_one w (case dget d1 ''reasons'' of JObj kvs \<Rightarrow> kvs | _ \<Rightarrow> []))) d1);
          problems = (case dget d2 ''problems'' of JArr ps \<Rightarrow> ps | _ \<Rightarrow> []);
          d3 = (if \<not> oc_complete oc \<and> length problems < EXTRACT_PROBLEMS_MAX
            then alist_set ''problems'' (JArr (problems @ [JObj [(''provider'', JStr (label_of (JStr (oc_provider_id oc)))),
                (''state'', JStr state), (''reason'', optional_text word)]])) d2 else d2)
      in alist_set ''current_started_at'' JNull (alist_set ''current'' JNull d3))"

definition pass_outcome :: "bool \<Rightarrow> instant \<Rightarrow> outcome \<Rightarrow> follow_up \<times> progress_row list \<Rightarrow> follow_up \<times> progress_row list" where
  "pass_outcome ok wall oc s =
     (if fu_state (fst s) = [] then s
      else follow_up_write ok wall ((fst s)\<lparr>fu_state := counted_outcome oc (fu_state (fst s))\<rparr>, snd s))"

definition pass_finished :: "bool \<Rightarrow> instant \<Rightarrow> str \<Rightarrow> follow_up \<times> progress_row list \<Rightarrow> follow_up \<times> progress_row list" where
  "pass_finished ok wall ending s =
     (let s1 = (if fu_state (fst s) = [] then pass_started ok wall 0 s else s);
          fu = (fst s1)\<lparr>fu_stopped := True, fu_state := alist_set ''finished_at'' (JStr (iso_seconds wall)) (alist_set ''current_started_at'' JNull
            (alist_set ''current'' JNull (alist_set ''state'' (JStr (if ending \<in> set EXTRACT_ENDS then ending else ''error'')) (fu_state (fst s1)))))\<rparr>
      in follow_up_write ok wall (fu, snd s1))"

end
