(* ===== verification/Refresh_Properties.thy ===== *)
theory Refresh_Properties
  imports Refresh_Run
begin

text \<open>
  The table of the refreshes as a state machine, \<open>refresh_step\<close>: claims, checks, reads that expire
  silent records, the fenced statements of claimed runs, and the follow-up writes, in any order and with
  any clocks. Then what its reachable states promise: one refresh of a kind at a time, and a refresh
  that lost its record changes nothing any more.
\<close>

section \<open>The state machine\<close>

type_synonym issue = "str \<times> str \<times> nat"

inductive refresh_step :: "progress_row list \<times> issue list \<Rightarrow> progress_row list \<times> issue list \<Rightarrow> bool" where
  claimed: "run_id \<notin> (snd \<circ> snd) ` set issued \<Longrightarrow> claim now run_id sid scope n rows = (Inr run, rows') \<Longrightarrow>
     refresh_step (rows, issued) (rows', (sid, scope, run_id) # issued)"
| expired: "refresh_step (rows, issued) (expire now sid scope rows, issued)"
| stated: "(sid, scope, run_id) \<in> set issued \<Longrightarrow> (case stmt of End state d x \<Rightarrow> state \<in> {FINISHED, FAILED, INTERRUPTED} | _ \<Rightarrow> True) \<Longrightarrow>
     refresh_step (rows, issued) (snd (exec_statement now sid scope run_id stmt rows), issued)"
| touched: "refresh_step (rows, issued) (touch_queued ok wall sid scope run_id rows, issued)"
| resumed: "refresh_step (rows, issued) (snd (resume_passes now wall rows), issued)"
| passed: "refresh_step (rows, issued) (snd (follow_up_write ok wall (fu, rows)), issued)"

inductive refresh_steps :: "progress_row list \<times> issue list \<Rightarrow> progress_row list \<times> issue list \<Rightarrow> bool" where
  steps_refl: "refresh_steps s s"
| steps_step: "refresh_steps s s' \<Longrightarrow> refresh_step s' s'' \<Longrightarrow> refresh_steps s s''"

lemmas refresh_step_induct = refresh_step.induct [split_format (complete)]

definition row_key :: "progress_row \<Rightarrow> str \<times> str" where
  "row_key r = (pr_session_id r, pr_scope r)"

definition is_running :: "progress_row \<Rightarrow> bool" where
  "is_running r = (pr_state r = RUNNING)"

text \<open>Two running records that must not be: the whole session's providers and one provider alone.\<close>

definition clashing :: "progress_row \<Rightarrow> progress_row \<Rightarrow> bool" where
  "clashing r q = (pr_session_id r = pr_session_id q \<and> pr_scope r = PROVIDERS \<and> is_provider_scope (pr_scope q))"

definition table_ok :: "progress_row list \<Rightarrow> issue list \<Rightarrow> bool" where
  "table_ok rows issued = (distinct (map row_key rows) \<and> distinct (map (snd \<circ> snd) issued)
     \<and> (\<forall>r \<in> set rows. (is_running r \<longleftrightarrow> pr_finished_at r = None) \<and> (pr_session_id r, pr_scope r, pr_run_id r) \<in> set issued
          \<and> (pr_scope r \<in> set SCOPES \<or> is_provider_scope (pr_scope r)))
     \<and> (\<forall>r \<in> set rows. \<forall>q \<in> set rows. is_running r \<and> is_running q \<longrightarrow> \<not> clashing r q))"

section \<open>Updates\<close>

text \<open>A row function that keeps the row's names and starts no refresh.\<close>

definition mild :: "(progress_row \<Rightarrow> bool) \<Rightarrow> (progress_row \<Rightarrow> progress_row) \<Rightarrow> bool" where
  "mild cond f = (\<forall>r. cond r \<longrightarrow> row_key (f r) = row_key r \<and> pr_run_id (f r) = pr_run_id r \<and> (is_running (f r) \<longrightarrow> is_running r)
     \<and> ((is_running r \<longleftrightarrow> pr_finished_at r = None) \<longrightarrow> (is_running (f r) \<longleftrightarrow> pr_finished_at (f r) = None)))"

lemma set_update_where: "set (snd (update_where cond f rows)) = (\<lambda>r. if cond r then f r else r) ` set rows"
  by (simp add: update_where_def)

lemma keys_update_where: "mild cond f \<Longrightarrow> map row_key (snd (update_where cond f rows)) = map row_key rows"
  by (simp add: update_where_def mild_def)

lemma table_ok_update:
  assumes "table_ok rows issued" "mild cond f"
  shows "table_ok (snd (update_where cond f rows)) issued"
proof -
  define g where "g r = (if cond r then f r else r)" for r
  have k: "pr_session_id (g r) = pr_session_id r \<and> pr_scope (g r) = pr_scope r \<and> pr_run_id (g r) = pr_run_id r
    \<and> (is_running (g r) \<longrightarrow> is_running r)" for r using assms(2) by (simp add: mild_def row_key_def g_def)
  have fin: "is_running (g r) \<longleftrightarrow> pr_finished_at (g r) = None" if "is_running r \<longleftrightarrow> pr_finished_at r = None" for r
    using assms(2) that by (simp add: mild_def g_def)
  have rows: "set (snd (update_where cond f rows)) = g ` set rows" by (simp add: set_update_where g_def)
  show ?thesis unfolding table_ok_def rows ball_simps keys_update_where [OF assms(2)] clashing_def
  proof (intro conjI ballI impI)
    show "distinct (map row_key rows)" "distinct (map (snd \<circ> snd) issued)" using assms(1) by (simp_all add: table_ok_def)
  next
    fix r assume "r \<in> set rows"
    then have r: "is_running r \<longleftrightarrow> pr_finished_at r = None" "(pr_session_id r, pr_scope r, pr_run_id r) \<in> set issued"
      "pr_scope r \<in> set SCOPES \<or> is_provider_scope (pr_scope r)" using assms(1) by (simp_all add: table_ok_def)
    show "is_running (g r) \<longleftrightarrow> pr_finished_at (g r) = None" using fin [OF r(1)] .
    show "(pr_session_id (g r), pr_scope (g r), pr_run_id (g r)) \<in> set issued" using r(2) k [of r] by simp
    show "pr_scope (g r) \<in> set SCOPES \<or> is_provider_scope (pr_scope (g r))" using r(3) k [of r] by simp
  next
    fix r q assume "r \<in> set rows" "q \<in> set rows" "is_running (g r) \<and> is_running (g q)"
    then have "r \<in> set rows" "q \<in> set rows" "is_running r \<and> is_running q" using k by blast+
    then have "\<not> clashing r q" using assms(1) unfolding table_ok_def by blast
    then show "\<not> (pr_session_id (g r) = pr_session_id (g q) \<and> pr_scope (g r) = PROVIDERS \<and> is_provider_scope (pr_scope (g q)))"
      using k [of r] k [of q] by (simp add: clashing_def)
  qed
qed

lemma mild_expire: "mild (stale_row now sid scope) (\<lambda>r. r\<lparr>pr_state := INTERRUPTED, pr_finished_at := Some (pr_heartbeat_at r)\<rparr>)"
  by (simp add: mild_def row_key_def is_running_def INTERRUPTED_def RUNNING_def)

lemma mild_statement:
  "(case stmt of End state d x \<Rightarrow> state \<in> {FINISHED, FAILED, INTERRUPTED} | _ \<Rightarrow> True) \<Longrightarrow>
     mild (fenced sid scope run_id) (statement_values now stmt)"
  by (auto simp: mild_def row_key_def is_running_def statement_values_def fenced_def FINISHED_def FAILED_def INTERRUPTED_def RUNNING_def
      split: statement.splits)

lemma mild_extract: "mild cond (\<lambda>r. r\<lparr>pr_extract := x r\<rparr>)"
  by (simp add: mild_def row_key_def is_running_def)

lemma unchanged_update: "\<exists>cond f. mild cond f \<and> rows = snd (update_where cond f rows)"
  by (intro exI [of _ "\<lambda>_. False"] exI [of _ id]) (simp add: mild_def update_where_def)

text \<open>Every step but a claim is such an update.\<close>

lemma refresh_step_mild:
  assumes "refresh_step (rows, issued) (rows', issued')"
  shows "(issued' = issued \<and> (\<exists>cond f. mild cond f \<and> rows' = snd (update_where cond f rows)))
     \<or> (\<exists>now run_id sid scope n run. run_id \<notin> (snd \<circ> snd) ` set issued \<and> claim now run_id sid scope n rows = (Inr run, rows')
          \<and> issued' = (sid, scope, run_id) # issued)"
  using assms
proof (cases rule: refresh_step.cases)
  case (expired now sid scope)
  then show ?thesis using mild_expire unfolding expire_def by blast
next
  case (stated sid scope run_id stmt now)
  then show ?thesis using mild_statement unfolding exec_statement_def by blast
next
  case (touched ok wall sid scope run_id)
  have "\<exists>cond f. mild cond f \<and> touch_queued ok wall sid scope run_id rows = snd (update_where cond f rows)"
  proof (cases ok)
    case True
    then show ?thesis unfolding touch_queued_def by (simp only: if_True) (rule exI, rule exI, rule conjI [OF mild_extract refl])
  next
    case False
    then have "touch_queued ok wall sid scope run_id rows = rows" by (simp add: touch_queued_def)
    then show ?thesis using unchanged_update [of rows] by simp
  qed
  then show ?thesis unfolding touched by blast
next
  case (resumed now wall)
  have "\<exists>cond f. mild cond f \<and> snd (resume_passes now wall rows) = snd (update_where cond f rows)"
    unfolding resume_passes_def snd_conv by (rule exI, rule exI, rule conjI [OF mild_extract refl])
  then show ?thesis unfolding resumed by blast
next
  case (passed ok wall fu)
  have "\<exists>cond f. mild cond f \<and> snd (follow_up_write ok wall (fu, rows)) = snd (update_where cond f rows)"
  proof (cases ok)
    case True
    then show ?thesis unfolding follow_up_write_def Let_def
      by (simp only: if_True prod.case snd_conv) (rule exI, rule exI, rule conjI [OF mild_extract refl])
  next
    case False
    then have "snd (follow_up_write ok wall (fu, rows)) = rows" by (simp add: follow_up_write_def Let_def)
    then show ?thesis using unchanged_update [of rows] by simp
  qed
  then show ?thesis unfolding passed by blast
qed blast

section \<open>A claim\<close>

lemma row_at_Some: "row_at rows sid scope = Some r \<Longrightarrow> r \<in> set rows \<and> pr_session_id r = sid \<and> pr_scope r = scope"
  unfolding row_at_def find_Some_iff by force

lemma row_at_None: "row_at rows sid scope = None \<longleftrightarrow> (\<forall>r \<in> set rows. row_key r \<noteq> (sid, scope))"
  unfolding row_at_def find_None_iff by (auto simp: row_key_def)

lemma row_at_unique:
  "distinct (map row_key rows) \<Longrightarrow> r \<in> set rows \<Longrightarrow> row_at rows (pr_session_id r) (pr_scope r) = Some r"
proof -
  assume d: "distinct (map row_key rows)" and r: "r \<in> set rows"
  obtain q where q: "row_at rows (pr_session_id r) (pr_scope r) = Some q"
    using r row_at_None [of rows "pr_session_id r" "pr_scope r"] by (auto simp: row_key_def)
  from row_at_Some [OF q] have "q \<in> set rows" "row_key q = row_key r" by (simp_all add: row_key_def)
  with d r have "q = r" by (auto simp: distinct_map inj_on_def)
  with q show ?thesis by simp
qed

lemma table_ok_expire: "table_ok rows issued \<Longrightarrow> table_ok (expire now sid scope rows) issued"
  unfolding expire_def by (rule table_ok_update [OF _ mild_expire])

text \<open>A running record within its lease that forbids a refresh of the scope.\<close>

definition forbids :: "instant \<Rightarrow> str \<Rightarrow> str \<Rightarrow> progress_row \<Rightarrow> bool" where
  "forbids now sid scope r = (pr_session_id r = sid \<and> is_running r \<and> pr_heartbeat_at r \<ge> lease_cutoff now
     \<and> (pr_scope r = scope \<or> scope = PROVIDERS \<and> is_provider_scope (pr_scope r) \<or> is_provider_scope scope \<and> pr_scope r = PROVIDERS))"

lemma expire_running:
  "{r \<in> set (expire now sid None rows). pr_session_id r = sid \<and> is_running r} = {r \<in> set rows. pr_session_id r = sid \<and> is_running r \<and> pr_heartbeat_at r \<ge> lease_cutoff now}"
proof -
  define ended where "ended r = r\<lparr>pr_state := INTERRUPTED, pr_finished_at := Some (pr_heartbeat_at r)\<rparr>" for r :: progress_row
  define g where "g r = (if stale_row now sid None r then ended r else r)" for r
  have rows: "set (expire now sid None rows) = g ` set rows" unfolding expire_def set_update_where g_def ended_def ..
  have ended: "\<not> is_running (ended r)" for r by (simp add: ended_def is_running_def INTERRUPTED_def RUNNING_def)
  have g: "pr_session_id (g r) = sid \<and> is_running (g r) \<longleftrightarrow> g r = r \<and> pr_session_id r = sid \<and> is_running r \<and> pr_heartbeat_at r \<ge> lease_cutoff now" for r
  proof (cases "stale_row now sid None r")
    case True
    then have "\<not> is_running (g r)" "\<not> pr_heartbeat_at r \<ge> lease_cutoff now" using ended by (simp_all add: g_def stale_row_def)
    then show ?thesis by blast
  next
    case False
    then have "g r = r" by (simp add: g_def)
    with False show ?thesis by (auto simp: stale_row_def is_running_def)
  qed
  show ?thesis unfolding rows
  proof (intro set_eqI iffI)
    fix x assume "x \<in> {r \<in> g ` set rows. pr_session_id r = sid \<and> is_running r}"
    then obtain r where r: "r \<in> set rows" "x = g r" "pr_session_id (g r) = sid \<and> is_running (g r)" by blast
    with g [of r] show "x \<in> {r \<in> set rows. pr_session_id r = sid \<and> is_running r \<and> pr_heartbeat_at r \<ge> lease_cutoff now}" by simp
  next
    fix r assume r: "r \<in> {r \<in> set rows. pr_session_id r = sid \<and> is_running r \<and> pr_heartbeat_at r \<ge> lease_cutoff now}"
    then have "\<not> stale_row now sid None r" by (simp add: stale_row_def)
    then have "g r = r" by (simp add: g_def)
    with r show "r \<in> {r \<in> g ` set rows. pr_session_id r = sid \<and> is_running r}" by (metis (mono_tags, lifting) image_eqI mem_Collect_eq)
  qed
qed

lemma provider_not_kind: "is_provider_scope scope \<Longrightarrow> scope \<notin> set SCOPES"
proof -
  have "\<not> is_provider_scope PROVIDERS" "\<not> is_provider_scope OSM" by code_simp+
  then show "is_provider_scope scope \<Longrightarrow> scope \<notin> set SCOPES" by (auto simp: SCOPES_def)
qed

definition excludes :: "str \<Rightarrow> progress_row \<Rightarrow> bool" where
  "excludes scope r = (scope = PROVIDERS \<and> pr_scope r \<notin> set SCOPES \<or> scope \<noteq> PROVIDERS \<and> is_provider_scope scope \<and> pr_scope r = PROVIDERS)"

lemma blocker_filter:
  "blocker rows sid scope = map_option (\<lambda>r. running_error (pr_scope r) (Some (pr_started_at r)) (Some scope))
     (min_by pr_started_at (filter (\<lambda>r. pr_session_id r = sid \<and> is_running r \<and> excludes scope r) rows))"
proof -
  have "filter (\<lambda>r. pr_scope r \<notin> set SCOPES) (filter (\<lambda>r. pr_session_id r = sid \<and> pr_state r = RUNNING) rows)
     = filter (\<lambda>r. pr_session_id r = sid \<and> is_running r \<and> excludes scope r) rows" if "scope = PROVIDERS"
    using that by (auto simp: is_running_def excludes_def intro: filter_cong)
  moreover have "filter (\<lambda>r. pr_scope r = PROVIDERS) (filter (\<lambda>r. pr_session_id r = sid \<and> pr_state r = RUNNING) rows)
     = filter (\<lambda>r. pr_session_id r = sid \<and> is_running r \<and> excludes scope r) rows" if "scope \<noteq> PROVIDERS" "is_provider_scope scope"
    using that by (auto simp: is_running_def excludes_def intro: filter_cong)
  moreover have "filter (\<lambda>r. pr_session_id r = sid \<and> is_running r \<and> excludes scope r) rows = []" if "scope \<noteq> PROVIDERS" "\<not> is_provider_scope scope"
    using that by (simp add: excludes_def)
  ultimately show ?thesis by (simp add: blocker_def Let_def split: option.splits)
qed

lemma blocker_None: "blocker rows sid scope = None \<longleftrightarrow> \<not> (\<exists>r \<in> set rows. pr_session_id r = sid \<and> is_running r \<and> excludes scope r)"
  by (auto simp: blocker_filter filter_empty_conv)

lemma blocker_Some:
  "blocker rows sid scope = Some b \<Longrightarrow> \<exists>r \<in> set rows. pr_session_id r = sid \<and> is_running r \<and> excludes scope r
     \<and> b = running_error (pr_scope r) (Some (pr_started_at r)) (Some scope)"
proof -
  assume "blocker rows sid scope = Some b"
  then obtain r where r: "min_by pr_started_at (filter (\<lambda>r. pr_session_id r = sid \<and> is_running r \<and> excludes scope r) rows) = Some r"
    "b = running_error (pr_scope r) (Some (pr_started_at r)) (Some scope)" by (auto simp: blocker_filter)
  from min_by_mem [OF r(1)] r(2) show ?thesis by auto
qed

lemma forbids_excludes:
  assumes "table_ok rows issued" "scope \<in> set SCOPES \<or> is_provider_scope scope" "r \<in> set rows"
  shows "forbids now sid scope r \<longleftrightarrow> pr_session_id r = sid \<and> is_running r \<and> pr_heartbeat_at r \<ge> lease_cutoff now
     \<and> (pr_scope r = scope \<or> excludes scope r)"
proof -
  have "pr_scope r \<in> set SCOPES \<or> is_provider_scope (pr_scope r)" using assms(1,3) by (simp add: table_ok_def)
  moreover have "\<not> is_provider_scope PROVIDERS" using provider_not_kind [of PROVIDERS] by (auto simp: SCOPES_def)
  moreover have "pr_scope r \<notin> set SCOPES \<longleftrightarrow> is_provider_scope (pr_scope r)" using calculation(1) provider_not_kind by blast
  ultimately show ?thesis unfolding forbids_def excludes_def by blast
qed

text \<open>Taking a row: where it stood, or at the end.\<close>

lemma take_row_result:
  assumes "take_row new rows = Some rows'" "distinct (map row_key rows)"
  shows "set rows' = insert new {r \<in> set rows. row_key r \<noteq> row_key new}" "distinct (map row_key rows')"
proof -
  have k: "row_key q = row_key new \<longleftrightarrow> pr_session_id q = pr_session_id new \<and> pr_scope q = pr_scope new" for q by (auto simp: row_key_def)
  show "set rows' = insert new {r \<in> set rows. row_key r \<noteq> row_key new}"
  proof (cases "row_at rows (pr_session_id new) (pr_scope new)")
    case None
    then have "\<forall>r \<in> set rows. row_key r \<noteq> row_key new" by (simp add: row_at_None row_key_def)
    with None assms(1) show ?thesis by (auto simp: take_row_def)
  next
    case (Some r)
    then have "r \<in> set rows" "row_key r = row_key new" using row_at_Some [OF Some] by (simp_all add: row_key_def)
    with Some assms(1) show ?thesis by (force simp: take_row_def k [symmetric] split: if_splits)
  qed
  show "distinct (map row_key rows')"
  proof (cases "row_at rows (pr_session_id new) (pr_scope new)")
    case None
    then have "\<forall>r \<in> set rows. row_key r \<noteq> row_key new" by (simp add: row_at_None row_key_def)
    then have "row_key new \<notin> row_key ` set rows" by (metis imageE)
    with None assms show ?thesis by (auto simp: take_row_def)
  next
    case (Some r)
    with assms(1) have "rows' = map (\<lambda>q. if row_key q = row_key new then new else q) rows" by (simp add: take_row_def k split: if_splits)
    then have "map row_key rows' = map row_key rows" by simp
    with assms(2) show ?thesis by (simp only:)
  qed
qed

lemma claim_taken:
  assumes "claim now run_id sid scope n rows = (Inr run, rows')"
  shows "scope \<in> set SCOPES \<or> is_provider_scope scope" "blocker (expire now sid None rows) sid scope = None"
    "\<exists>d. run = new_run sid scope run_id d \<and> take_row (new_row now run_id sid scope d) (expire now sid None rows) = Some rows'
       \<and> rd_total d = n \<and> rd_done d = 0"
  using assms by (auto simp: claim_def provider_scope_def is_provider_scope_def Let_def initial_detail_def split: if_splits option.splits sum.splits)

lemma take_row_free:
  "take_row new rows = Some rows' \<Longrightarrow> distinct (map row_key rows) \<Longrightarrow> r \<in> set rows \<Longrightarrow> row_key r = row_key new \<Longrightarrow> \<not> is_running r"
  using row_at_unique [of rows r] by (auto simp: take_row_def row_key_def is_running_def split: if_splits option.splits)

lemma table_ok_claim:
  assumes "table_ok rows issued" "run_id \<notin> (snd \<circ> snd) ` set issued" "claim now run_id sid scope n rows = (Inr run, rows')"
  shows "table_ok rows' ((sid, scope, run_id) # issued)"
proof -
  note t = claim_taken [OF assms(3)]
  from t(3) obtain d where d: "take_row (new_row now run_id sid scope d) (expire now sid None rows) = Some rows'" by blast
  let ?new = "new_row now run_id sid scope d"
  have ok: "table_ok (expire now sid None rows) issued" using assms(1) by (rule table_ok_expire)
  then have dist: "distinct (map row_key (expire now sid None rows))" by (simp add: table_ok_def)
  note r = take_row_result [OF d dist]
  have new: "is_running ?new" "pr_finished_at ?new = None" "pr_session_id ?new = sid" "pr_scope ?new = scope" "pr_run_id ?new = run_id"
    by (simp_all add: new_row_def is_running_def)
  have kinds: "pr_scope q \<notin> set SCOPES \<longleftrightarrow> is_provider_scope (pr_scope q)" if "q \<in> set (expire now sid None rows)" for q
    using ok that provider_not_kind unfolding table_ok_def by blast
  have free: "\<not> clashing ?new q \<and> \<not> clashing q ?new" if "q \<in> set (expire now sid None rows)" "is_running q" for q
  proof -
    have "\<not> (pr_session_id q = sid \<and> excludes scope q)" using t(2) that unfolding blocker_None by blast
    moreover have "\<not> is_provider_scope PROVIDERS" using provider_not_kind [of PROVIDERS] by (auto simp: SCOPES_def)
    ultimately show ?thesis using kinds [OF that(1)] by (auto simp: clashing_def excludes_def new)
  qed
  have self: "\<not> clashing ?new ?new" using provider_not_kind [of PROVIDERS] by (auto simp: clashing_def new SCOPES_def)
  show ?thesis unfolding table_ok_def r(1)
  proof (intro conjI ballI impI)
    show "distinct (map row_key rows')" by (rule r(2))
    show "distinct (map (snd \<circ> snd) ((sid, scope, run_id) # issued))" using assms(2) ok by (auto simp: table_ok_def)
  next
    fix q assume q: "q \<in> insert ?new {r \<in> set (expire now sid None rows). row_key r \<noteq> row_key ?new}"
    show "is_running q \<longleftrightarrow> pr_finished_at q = None" using q ok new unfolding table_ok_def by auto
    show "(pr_session_id q, pr_scope q, pr_run_id q) \<in> set ((sid, scope, run_id) # issued)" using q ok new unfolding table_ok_def by auto
    show "pr_scope q \<in> set SCOPES \<or> is_provider_scope (pr_scope q)" using q ok new t(1) unfolding table_ok_def by auto
  next
    fix q p assume "q \<in> insert ?new {r \<in> set (expire now sid None rows). row_key r \<noteq> row_key ?new}"
      "p \<in> insert ?new {r \<in> set (expire now sid None rows). row_key r \<noteq> row_key ?new}" "is_running q \<and> is_running p"
    then show "\<not> clashing q p" using free self ok unfolding table_ok_def by blast
  qed
qed

lemma table_ok_step: "refresh_step (rows, issued) (rows', issued') \<Longrightarrow> table_ok rows issued \<Longrightarrow> table_ok rows' issued'"
  using refresh_step_mild [of rows issued rows' issued'] table_ok_update table_ok_claim by metis

lemma table_ok_steps: "refresh_steps s s' \<Longrightarrow> table_ok (fst s) (snd s) \<Longrightarrow> table_ok (fst s') (snd s')"
  by (induction rule: refresh_steps.induct) (use table_ok_step in \<open>auto simp: prod_eq_iff\<close>)

lemma table_ok_initial: "table_ok [] []"
  by (simp add: table_ok_def)

section \<open>Properties of the table\<close>

text \<open>C15: Whatever claims, reads, writes and follow-ups came before, in whatever order and with whatever
  clocks, a session has at most one record of a kind, a record is running exactly while it has no end,
  and the whole session's provider refresh never runs beside the refresh of one provider.\<close>

theorem one_refresh_at_a_time:
  assumes "refresh_steps ([], []) (rows, issued)" "r \<in> set rows" "q \<in> set rows"
  shows "(row_key r = row_key q \<longrightarrow> r = q) \<and> (is_running r \<longleftrightarrow> pr_finished_at r = None)
     \<and> \<not> (is_running r \<and> is_running q \<and> pr_session_id r = pr_session_id q \<and> pr_scope r = PROVIDERS \<and> is_provider_scope (pr_scope q))"
proof -
  have ok: "table_ok rows issued" using table_ok_steps [OF assms(1)] by (simp add: table_ok_initial)
  then have "inj_on row_key (set rows)" by (simp add: table_ok_def distinct_map)
  then show ?thesis using ok assms(2,3) unfolding table_ok_def inj_on_def clashing_def by blast
qed

lemma sample_claim: "claim 0 1 ''s'' PROVIDERS 3 [] = (Inr (new_run ''s'' PROVIDERS 1 (initial_detail 3 None)),
     [new_row 0 1 ''s'' PROVIDERS (initial_detail 3 None)])"
  by (simp add: claim_def SCOPES_def expire_def update_where_def blocker_def min_by_def row_at_def take_row_def new_row_def is_provider_scope_def Let_def)

lemma sample_steps: "refresh_steps ([], []) ([new_row 0 1 ''s'' PROVIDERS (initial_detail 3 None)], [(''s'', PROVIDERS, 1)])"
  by (rule steps_step [OF steps_refl], rule refresh_step.claimed [OF _ sample_claim]) simp

theorem one_refresh_at_a_time_witness:
  "is_running (new_row 0 1 ''s'' PROVIDERS (initial_detail 3 None)) \<longleftrightarrow> pr_finished_at (new_row 0 1 ''s'' PROVIDERS (initial_detail 3 None)) = None"
  using one_refresh_at_a_time [OF sample_steps, of "new_row 0 1 ''s'' PROVIDERS (initial_detail 3 None)"] by simp

lemma table_ok_key: "table_ok rows issued \<Longrightarrow> r \<in> set rows \<Longrightarrow> row_at rows (pr_session_id r) (pr_scope r) = Some r"
  by (rule row_at_unique) (simp_all add: table_ok_def)

lemma expire_keeps: "r \<in> set rows \<Longrightarrow> is_running r \<Longrightarrow> pr_session_id r = sid \<Longrightarrow> pr_heartbeat_at r \<ge> lease_cutoff now \<Longrightarrow>
    r \<in> set (expire now sid None rows)"
  using expire_running [of now sid rows] by blast

lemma running_after_expire: "r \<in> set (expire now sid None rows) \<Longrightarrow> is_running r \<Longrightarrow> pr_session_id r = sid \<Longrightarrow>
    r \<in> set rows \<and> pr_heartbeat_at r \<ge> lease_cutoff now"
  using expire_running [of now sid rows] by blast

lemma blocked_iff:
  assumes "table_ok rows issued" "scope \<in> set SCOPES \<or> is_provider_scope scope"
  shows "(\<exists>r \<in> set rows. forbids now sid scope r) \<longleftrightarrow>
     blocker (expire now sid None rows) sid scope \<noteq> None \<or> (\<exists>r. row_at (expire now sid None rows) sid scope = Some r \<and> is_running r)"
proof -
  let ?rows1 = "expire now sid None rows"
  have ok1: "table_ok ?rows1 issued" using assms(1) by (rule table_ok_expire)
  have at1: "(\<exists>r. row_at ?rows1 sid scope = Some r \<and> is_running r) \<longleftrightarrow> (\<exists>r \<in> set ?rows1. pr_session_id r = sid \<and> pr_scope r = scope \<and> is_running r)"
    using row_at_Some [of ?rows1 sid scope] table_ok_key [OF ok1] by metis
  have "(\<exists>r \<in> set rows. forbids now sid scope r) \<longleftrightarrow> (\<exists>r \<in> set ?rows1. pr_session_id r = sid \<and> is_running r \<and> (pr_scope r = scope \<or> excludes scope r))"
    using forbids_excludes [OF assms] expire_keeps running_after_expire by metis
  then show ?thesis unfolding at1 blocker_None by blast
qed

lemma claim_cases:
  assumes "scope \<in> set SCOPES \<or> is_provider_scope scope"
  shows "claim now run_id sid scope n rows = (let rows1 = expire now sid None rows in
     case blocker rows1 sid scope of Some b \<Rightarrow> (Inl (AlreadyRunning b), rows)
     | None \<Rightarrow> let detail = initial_detail n (case row_at rows1 sid scope of Some r \<Rightarrow> if pr_state r = INTERRUPTED then Some (pr_started_at r) else None | None \<Rightarrow> None)
       in case take_row (new_row now run_id sid scope detail) rows1 of
            None \<Rightarrow> (Inl (AlreadyRunning (running_error scope (map_option pr_started_at (row_at rows sid scope)) None)), rows)
          | Some rows2 \<Rightarrow> (Inr (new_run sid scope run_id detail), rows2))"
  using assms by (auto simp: claim_def provider_scope_def is_provider_scope_def Let_def split: option.splits)

text \<open>In a reachable table, a claim is refused exactly when a record that forbids it is running within
  its lease; the refusal names the scope and the start of such a record and changes nothing. Otherwise
  the claim has the only record of its kind, running from now, every other record of the session is as
  the expiry of the silent ones leaves it, and \<open>check_free\<close> answers the same before the claim.\<close>

theorem claim_admits_exactly_when_free:
  assumes "refresh_steps ([], []) (rows, issued)" "scope \<in> set SCOPES \<or> is_provider_scope scope"
  shows "(case claim now run_id sid scope n rows of
       (Inl e, rows') \<Rightarrow> rows' = rows \<and> (\<exists>r \<in> set rows. forbids now sid scope r
           \<and> (\<exists>b. e = AlreadyRunning b \<and> rg_scope b = pr_scope r \<and> rg_started_at b = Some (pr_started_at r) \<and> rg_requested b = scope))
     | (Inr run, rows') \<Rightarrow> \<not> (\<exists>r \<in> set rows. forbids now sid scope r)
         \<and> (\<exists>d. run = new_run sid scope run_id d \<and> set rows' = insert (new_row now run_id sid scope d)
               {r \<in> set (expire now sid None rows). row_key r \<noteq> (sid, scope)}))
     \<and> (fst (check_free now sid scope rows) = None \<longleftrightarrow> \<not> (\<exists>r \<in> set rows. forbids now sid scope r))"
proof -
  have ok: "table_ok rows issued" using table_ok_steps [OF assms(1)] by (simp add: table_ok_initial)
  let ?rows1 = "expire now sid None rows"
  have ok1: "table_ok ?rows1 issued" using ok by (rule table_ok_expire)
  note cases = claim_cases [OF assms(2), of now run_id sid n rows, unfolded Let_def]
  note iff = blocked_iff [OF ok assms(2), of now sid]
  have free: "fst (check_free now sid scope rows) = None \<longleftrightarrow> \<not> (\<exists>r \<in> set rows. forbids now sid scope r)"
    unfolding iff by (auto simp: check_free_def Let_def is_running_def split: option.splits)
  have main: "case claim now run_id sid scope n rows of
       (Inl e, rows') \<Rightarrow> rows' = rows \<and> (\<exists>r \<in> set rows. forbids now sid scope r
           \<and> (\<exists>b. e = AlreadyRunning b \<and> rg_scope b = pr_scope r \<and> rg_started_at b = Some (pr_started_at r) \<and> rg_requested b = scope))
     | (Inr run, rows') \<Rightarrow> \<not> (\<exists>r \<in> set rows. forbids now sid scope r)
         \<and> (\<exists>d. run = new_run sid scope run_id d \<and> set rows' = insert (new_row now run_id sid scope d)
               {r \<in> set ?rows1. row_key r \<noteq> (sid, scope)})"
  proof (cases "blocker ?rows1 sid scope")
    case (Some b)
    then obtain r where r: "r \<in> set ?rows1" "pr_session_id r = sid" "is_running r" "excludes scope r"
       "b = running_error (pr_scope r) (Some (pr_started_at r)) (Some scope)" using blocker_Some by blast
    then have "r \<in> set rows" "forbids now sid scope r"
      using running_after_expire [OF r(1,3,2)] forbids_excludes [OF ok assms(2)] by auto
    with r(5) Some cases show ?thesis by (auto simp: running_error_def)
  next
    case None
    show ?thesis
    proof (cases "\<exists>r. row_at ?rows1 sid scope = Some r \<and> is_running r")
      case True
      then obtain r where r: "row_at ?rows1 sid scope = Some r" "is_running r" by blast
      note m = row_at_Some [OF r(1)]
      then have mem: "r \<in> set rows" "pr_heartbeat_at r \<ge> lease_cutoff now" using running_after_expire [of r] r(2) by blast+
      then have f: "forbids now sid scope r" using m r(2) by (simp add: forbids_def)
      have "row_at rows sid scope = Some r" using table_ok_key [OF ok mem(1)] m by simp
      with None r cases have "claim now run_id sid scope n rows = (Inl (AlreadyRunning (running_error scope (Some (pr_started_at r)) None)), rows)"
        by (simp add: take_row_def new_row_def is_running_def)
      with mem f m show ?thesis by (auto simp: running_error_def)
    next
      case False
      obtain d where d: "claim now run_id sid scope n rows = (case take_row (new_row now run_id sid scope d) ?rows1 of
            None \<Rightarrow> (Inl (AlreadyRunning (running_error scope (map_option pr_started_at (row_at rows sid scope)) None)), rows)
          | Some rows2 \<Rightarrow> (Inr (new_run sid scope run_id d), rows2))" using None cases by simp
      obtain rows2 where rows2: "take_row (new_row now run_id sid scope d) ?rows1 = Some rows2"
        using False by (cases "row_at ?rows1 sid scope") (auto simp: take_row_def new_row_def is_running_def)
      have dist: "distinct (map row_key ?rows1)" using ok1 by (simp add: table_ok_def)
      have "\<not> (\<exists>r \<in> set rows. forbids now sid scope r)" unfolding iff using None False by simp
      moreover have "set rows2 = insert (new_row now run_id sid scope d) {r \<in> set ?rows1. row_key r \<noteq> (sid, scope)}"
        using take_row_result(1) [OF rows2 dist] by (simp add: row_key_def new_row_def)
      ultimately show ?thesis using d rows2 by auto
    qed
  qed
  show ?thesis using main free by (rule conjI)
qed

theorem claim_admits_exactly_when_free_witness:
  "fst (check_free 1 ''s'' OSM [new_row 0 1 ''s'' PROVIDERS (initial_detail 3 None)]) = None"
proof -
  have "OSM \<in> set SCOPES \<or> is_provider_scope OSM" by (simp add: SCOPES_def)
  moreover have "\<not> is_provider_scope OSM" "OSM \<noteq> PROVIDERS" by code_simp+
  ultimately show ?thesis using claim_admits_exactly_when_free [OF sample_steps, where scope = OSM and now = 1 and run_id = 2 and sid = "''s''" and n = 5]
    by (auto simp: forbids_def new_row_def)
qed

lemma id_not_running_step:
  assumes "refresh_step (rows, issued) (rows', issued')" "\<forall>r \<in> set rows. pr_run_id r = run_id \<longrightarrow> \<not> is_running r"
    "run_id \<in> (snd \<circ> snd) ` set issued"
  shows "(\<forall>r \<in> set rows'. pr_run_id r = run_id \<longrightarrow> \<not> is_running r) \<and> run_id \<in> (snd \<circ> snd) ` set issued'"
  using refresh_step_mild [OF assms(1)]
proof
  assume "issued' = issued \<and> (\<exists>cond f. mild cond f \<and> rows' = snd (update_where cond f rows))"
  then obtain cond f where u: "mild cond f" "rows' = snd (update_where cond f rows)" "issued' = issued" by blast
  have "\<not> is_running r" if "r \<in> set rows'" "pr_run_id r = run_id" for r
  proof -
    from that(1) obtain q where q: "q \<in> set rows" "r = (if cond q then f q else q)" unfolding u(2) set_update_where by blast
    then have "pr_run_id q = run_id" "is_running r \<longrightarrow> is_running q" using u(1) that(2) by (auto simp: mild_def split: if_splits)
    with assms(2) q(1) show ?thesis by blast
  qed
  with u(3) assms(3) show ?thesis by simp
next
  assume "\<exists>now id sid scope n run. id \<notin> (snd \<circ> snd) ` set issued \<and> claim now id sid scope n rows = (Inr run, rows')
          \<and> issued' = (sid, scope, id) # issued"
  then obtain now id sid scope n run where c: "id \<notin> (snd \<circ> snd) ` set issued" "claim now id sid scope n rows = (Inr run, rows')"
    "issued' = (sid, scope, id) # issued" by blast
  from claim_taken(3) [OF c(2)] obtain d where d: "take_row (new_row now id sid scope d) (expire now sid None rows) = Some rows'" by blast
  have sub: "r \<in> insert (new_row now id sid scope d) (set (expire now sid None rows))" if "r \<in> set rows'" for r
    using d that by (auto simp: take_row_def split: option.splits if_splits)
  have "\<not> is_running r" if "r \<in> set rows'" "pr_run_id r = run_id" for r
  proof -
    have "run_id \<noteq> id" using c(1) assms(3) by blast
    then have "r \<in> set (expire now sid None rows)" using sub [OF that(1)] that(2) by (auto simp: new_row_def)
    then obtain q where "q \<in> set rows" "r = (if stale_row now sid None q then q\<lparr>pr_state := INTERRUPTED, pr_finished_at := Some (pr_heartbeat_at q)\<rparr> else q)"
      unfolding expire_def set_update_where by blast
    then show ?thesis using assms(2) that(2) by (auto simp: is_running_def INTERRUPTED_def RUNNING_def split: if_splits)
  qed
  with c(3) assms(3) show ?thesis by auto
qed

lemma id_not_running_steps:
  assumes "refresh_steps s s'" "\<forall>r \<in> set (fst s). pr_run_id r = run_id \<longrightarrow> \<not> is_running r" "run_id \<in> (snd \<circ> snd) ` set (snd s)"
  shows "(\<forall>r \<in> set (fst s'). pr_run_id r = run_id \<longrightarrow> \<not> is_running r) \<and> run_id \<in> (snd \<circ> snd) ` set (snd s')"
  using assms
proof (induction rule: refresh_steps.induct)
  case (steps_step s s' s'')
  then show ?case using id_not_running_step [of "fst s'" "snd s'" "fst s''" "snd s''" run_id] by simp
qed simp

text \<open>C16: Once another refresh has taken a run's record, or the record has ended, no write of that run ever
  changes the table again, whatever happens next, and its next write that commits marks the run lost.\<close>

theorem lost_refresh_changes_nothing:
  assumes "refresh_steps ([], []) (rows, issued)" "(rn_sid run, rn_scope run, rn_run_id run) \<in> set issued"
    "\<forall>r \<in> set rows. \<not> fenced (rn_sid run) (rn_scope run) (rn_run_id run) r" "refresh_steps (rows, issued) (later, issued')"
  shows "exec_statement now (rn_sid run) (rn_scope run) (rn_run_id run) stmt later = (0, later)
     \<and> snd (execute (now, out) b stmt (run, later)) = later
     \<and> (out = Wrote \<and> \<not> (b \<and> rn_finishing run) \<longrightarrow> rn_lost (fst (execute (now, out) b stmt (run, later))))"
proof -
  have ok: "table_ok rows issued" using table_ok_steps [OF assms(1)] by (simp add: table_ok_initial)
  have "\<not> is_running r" if "r \<in> set rows" "pr_run_id r = rn_run_id run" for r
  proof -
    have own: "(pr_session_id r, pr_scope r, pr_run_id r) \<in> set issued" and "distinct (map (snd \<circ> snd) issued)"
      using ok that(1) by (simp_all add: table_ok_def)
    then have "inj_on (snd \<circ> snd) (set issued)" by (simp add: distinct_map)
    from inj_onD [OF this _ own assms(2)] that(2)
    have "(pr_session_id r, pr_scope r, pr_run_id r) = (rn_sid run, rn_scope run, rn_run_id run)" by simp
    then show ?thesis using assms(3) that(1) by (auto simp: fenced_def is_running_def)
  qed
  moreover have "rn_run_id run \<in> (snd \<circ> snd) ` set issued" using assms(2) by force
  ultimately have "\<forall>r \<in> set later. pr_run_id r = rn_run_id run \<longrightarrow> \<not> is_running r"
    using id_not_running_steps [OF assms(4), of "rn_run_id run"] by simp
  then have none: "\<not> fenced (rn_sid run) (rn_scope run) (rn_run_id run) r" if "r \<in> set later" for r
    using that by (auto simp: fenced_def is_running_def)
  then have "exec_statement now (rn_sid run) (rn_scope run) (rn_run_id run) stmt later = (0, later)"
    by (auto simp: exec_statement_def update_where_def filter_empty_conv intro: map_idI)
  then show ?thesis by (auto simp: execute_def split: write_end.splits)
qed

theorem lost_refresh_changes_nothing_witness:
  "\<exists>rows issued. refresh_steps ([], []) (rows, issued) \<and> exec_statement 9 ''s'' PROVIDERS 1 Beat rows = (0, rows)"
proof -
  let ?run = "new_run ''s'' PROVIDERS 1 (initial_detail 3 None)"
  let ?rows = "snd (exec_statement 5 ''s'' PROVIDERS 1 (End FINISHED (initial_detail 3 None) None) [new_row 0 1 ''s'' PROVIDERS (initial_detail 3 None)])"
  have "refresh_step ([new_row 0 1 ''s'' PROVIDERS (initial_detail 3 None)], [(''s'', PROVIDERS, 1)]) (?rows, [(''s'', PROVIDERS, 1)])"
    by (rule refresh_step.stated) simp_all
  then have s: "refresh_steps ([], []) (?rows, [(''s'', PROVIDERS, 1)])" by (rule steps_step [OF sample_steps])
  have n: "\<forall>r \<in> set ?rows. \<not> fenced (rn_sid ?run) (rn_scope ?run) (rn_run_id ?run) r"
    by (simp add: exec_statement_def update_where_def fenced_def statement_values_def new_row_def new_run_def FINISHED_def RUNNING_def)
  have i: "(rn_sid ?run, rn_scope ?run, rn_run_id ?run) \<in> set [(''s'', PROVIDERS, 1)]" by (simp add: new_run_def)
  from lost_refresh_changes_nothing [OF s i n steps_refl, of 9 Beat] s show ?thesis by (auto simp: new_run_def)
qed

end
