(* ===== verification/Refresh_Run_Properties.thy ===== *)
theory Refresh_Run_Properties
  imports Refresh_Properties
begin

text \<open>
  What one refresh's writer promises: its counts add up and its labels have the shape of a label in every
  state of the run, and leaving the run writes its end last, over whatever progress was still queued.
\<close>

section \<open>Labels and words\<close>

lemma label_of_label [simp]: "is_label (label_of v)"
proof -
  have "is_label ''task''" by code_simp
  then show ?thesis by (simp add: label_of_def split: json.splits)
qed

lemma word_of_word [simp]: "is_word (word_of v)"
proof -
  have "is_word ''other''" by code_simp
  then show ?thesis by (simp add: word_of_def split: json.splits)
qed

section \<open>The detail of a run\<close>

definition item_key_ok :: "(str \<times> json) list \<Rightarrow> bool" where
  "item_key_ok item = (case dget item ''key'' of JStr s \<Rightarrow> is_label s | _ \<Rightarrow> False)"

definition detail_ok :: "refresh_detail \<Rightarrow> bool" where
  "detail_ok d = (0 \<le> rd_fetched d \<and> 0 \<le> rd_unchanged d \<and> 0 \<le> rd_failed d \<and> rd_done d = rd_fetched d + rd_unchanged d + rd_failed d
     \<and> int (length (rd_failed_keys d)) = min (rd_failed d) (int FAILED_KEYS_MAX) \<and> list_all is_label (rd_failed_keys d)
     \<and> length (rd_current d) \<le> 1 \<and> list_all item_key_ok (rd_current d)
     \<and> (case rd_error d of None \<Rightarrow> True | Some e \<Rightarrow> is_word e))"

definition statement_ok :: "statement \<Rightarrow> bool" where
  "statement_ok stmt = (case stmt of Progress d \<Rightarrow> detail_ok d | Beat \<Rightarrow> True | End state d x \<Rightarrow> False)"

definition run_ok :: "refresh_run \<Rightarrow> bool" where
  "run_ok run = (detail_ok (rn_detail run) \<and> (case rn_writer run of None \<Rightarrow> True | Some q \<Rightarrow> list_all statement_ok q))"

text \<open>The operations of a run, in any order, with anything happening to the table in between.\<close>

inductive run_step :: "run_state \<Rightarrow> run_state \<Rightarrow> bool" where
  task: "run_step s (task_start env clock wall label s)"
| bytes: "run_step s (bytes_received env clock received expected s)"
| step: "run_step s (step_reached env clock name n whole s)"
| ended: "run_step s (task_done env label result s)"
| phased: "run_step s (phase env wall name lbl s)"
| writer: "run_step s (writer_step env s)"
| beaten: "run_step s (beat env s)"
| entered: "run_step s (run_enter s)"
| elsewhere: "run_step (run, rows) (run, rows')"

inductive run_steps :: "run_state \<Rightarrow> run_state \<Rightarrow> bool" where
  run_refl: "run_steps s s"
| run_more: "run_steps s s' \<Longrightarrow> run_step s' s'' \<Longrightarrow> run_steps s s''"

lemma execute_run [simp]:
  "rn_detail (fst (execute env b stmt s)) = rn_detail (fst s)" "rn_writer (fst (execute env b stmt s)) = rn_writer (fst s)"
  "rn_sid (fst (execute env b stmt s)) = rn_sid (fst s)" "rn_scope (fst (execute env b stmt s)) = rn_scope (fst s)"
  "rn_run_id (fst (execute env b stmt s)) = rn_run_id (fst s)" "rn_follow_up (fst (execute env b stmt s)) = rn_follow_up (fst s)"
  "rn_finishing (fst (execute env b stmt s)) = rn_finishing (fst s)"
  by (simp_all add: execute_def split: prod.splits write_end.splits)

lemma write_progress_ok: "run_ok run \<Longrightarrow> run_ok (fst (write_progress env (run, rows)))"
  by (cases "rn_writer run") (auto simp: write_progress_def run_ok_def statement_ok_def)

lemma throttled_write_ok: "run_ok run \<Longrightarrow> run_ok (fst (throttled_write env clock n whole (run, rows)))"
  by (auto simp: throttled_write_def Let_def intro!: write_progress_ok) (simp_all add: run_ok_def)

lemma run_ok_detail: "run_ok run \<Longrightarrow> detail_ok (f (rn_detail run)) \<Longrightarrow> run_ok (set_detail f run)"
  by (simp add: run_ok_def set_detail_def)

lemma run_ok_throttle: "run_ok run \<Longrightarrow> run_ok (restart_throttle clock run)"
  by (simp add: run_ok_def restart_throttle_def)

lemma dget_alist_set [simp]: "dget (alist_set k v d) k' = (if k' = k then v else dget d k')"
  by (simp add: dget_def)

lemma run_ok_current:
  assumes "run_ok run" "\<And>item. item_key_ok item \<Longrightarrow> item_key_ok (f item)"
  shows "run_ok (update_current f run)"
  unfolding update_current_def
  by (rule run_ok_detail [OF assms(1)]) (use assms in \<open>auto simp: run_ok_def detail_ok_def split: list.splits\<close>)

lemma item_key_set: "k \<noteq> ''key'' \<Longrightarrow> item_key_ok item \<Longrightarrow> item_key_ok (alist_set k v item)"
  by (simp add: item_key_ok_def)

lemma count_outcome_ok: "detail_ok d \<Longrightarrow> detail_ok (count_outcome status label d)"
  by (auto simp: count_outcome_def detail_ok_def Let_def FAILED_KEYS_MAX_def)

lemma detail_ok_current: "detail_ok d \<Longrightarrow> item_key_ok item \<Longrightarrow> detail_ok (d\<lparr>rd_current := [item]\<rparr>)"
  by (simp add: detail_ok_def)

lemma detail_ok_phase: "detail_ok d \<Longrightarrow> list_all item_key_ok c \<Longrightarrow> length c \<le> 1 \<Longrightarrow> detail_ok (d\<lparr>rd_phase := p, rd_current := c\<rparr>)"
  by (simp add: detail_ok_def)

lemma run_okD: "run_ok run \<Longrightarrow> detail_ok (rn_detail run)"
  by (simp add: run_ok_def)

lemma item_key_label: "item_key_ok ((''key'', JStr (label_of v)) # rest)"
  by (simp add: item_key_ok_def dget_def)

lemma run_step_ok: "run_step s s' \<Longrightarrow> run_ok (fst s) \<Longrightarrow> run_ok (fst s')"
proof (induction rule: run_step.induct)
  case (task s env clock wall label)
  then show ?case
    by (cases s) (auto simp: task_start_def intro!: write_progress_ok run_ok_throttle run_ok_detail detail_ok_current item_key_label run_okD)
next
  case (bytes s env clock received expected)
  then show ?case
    by (cases s) (auto simp: bytes_received_def intro!: throttled_write_ok run_ok_current item_key_set)
next
  case (step s env clock name n whole)
  obtain run rows where s: "s = (run, rows)" by (cases s)
  have "run_ok (update_current (\<lambda>item. alist_set ''scan_total'' (optional_int whole) (alist_set ''scanned'' (optional_int n) item)) run)"
    using step by (intro run_ok_current item_key_set) (simp_all add: s)
  then show ?case using step
    by (auto simp: s step_reached_def Let_def split: list.splits option.splits
        intro!: throttled_write_ok write_progress_ok run_ok_throttle run_ok_current item_key_set)
next
  case (ended s env label result)
  then show ?case
    by (cases s) (auto simp: task_done_def intro!: write_progress_ok run_ok_detail count_outcome_ok run_okD)
next
  case (phased s env wall name lbl)
  then show ?case
    by (cases s) (auto simp: phase_def intro!: write_progress_ok run_ok_detail detail_ok_phase item_key_label run_okD)
next
  case (writer s env)
  then show ?case by (cases s) (auto simp: writer_step_def run_ok_def split: option.splits list.splits)
next
  case (beaten s env)
  then show ?case by (cases s) (auto simp: beat_def run_ok_def)
next
  case (entered s)
  then show ?case by (cases s) (auto simp: run_enter_def run_ok_def)
qed simp

lemma run_steps_ok: "run_steps s s' \<Longrightarrow> run_ok (fst s) \<Longrightarrow> run_ok (fst s')"
  by (induction rule: run_steps.induct) (auto intro: run_step_ok)

lemma new_run_ok: "run_ok (new_run sid scope run_id (initial_detail n previous))"
  by (simp add: run_ok_def new_run_def detail_ok_def initial_detail_def FAILED_KEYS_MAX_def)

section \<open>The end of a run\<close>

lemma exec_fenced_length:
  "exec_statement now sid scope run_id stmt rows = (length (filter (fenced sid scope run_id) rows),
     map (\<lambda>r. if fenced sid scope run_id r then statement_values now stmt r else r) rows)"
  by (simp add: exec_statement_def update_where_def)

text \<open>A statement that ends nothing is undone by the end that follows it.\<close>

lemma end_after:
  assumes "statement_ok stmt"
  shows "exec_statement now sid scope run_id (End state d y) (snd (exec_statement t sid scope run_id stmt rows))
     = exec_statement now sid scope run_id (End state d y) rows"
proof -
  have f: "fenced sid scope run_id (statement_values t stmt r) = fenced sid scope run_id r" for r
    using assms by (cases stmt) (simp_all add: statement_values_def fenced_def statement_ok_def)
  have g: "fenced sid scope run_id (if fenced sid scope run_id r then statement_values t stmt r else r) = fenced sid scope run_id r" for r
    using f by simp
  have v: "statement_values now (End state d y) (statement_values t stmt r) = statement_values now (End state d y) r" for r
    using assms by (cases stmt; cases y) (simp_all add: statement_values_def statement_ok_def)
  show ?thesis unfolding exec_fenced_length by (auto simp: filter_map g comp_def v)
qed

lemma execute_rows:
  "snd env = Wrote \<Longrightarrow> snd (execute env b stmt (run, rows)) = snd (exec_statement (fst env) (rn_sid run) (rn_scope run) (rn_run_id run) stmt rows)"
  by (cases env; cases "exec_statement (fst env) (rn_sid run) (rn_scope run) (rn_run_id run) stmt rows") (auto simp: execute_def)

lemma execute_not_lost:
  "\<exists>r \<in> set rows. fenced (rn_sid run) (rn_scope run) (rn_run_id run) r \<Longrightarrow> fst (execute env b stmt (run, rows)) = run"
  by (auto simp: execute_def exec_fenced_length filter_empty_conv split: prod.splits write_end.splits)

lemma still_fenced:
  assumes "statement_ok stmt" "\<exists>r \<in> set rows. fenced sid scope run_id r"
  shows "\<exists>r \<in> set (snd (exec_statement now sid scope run_id stmt rows)). fenced sid scope run_id r"
proof -
  from assms(2) obtain r where r: "r \<in> set rows" "fenced sid scope run_id r" by blast
  then have "statement_values now stmt r \<in> set (snd (exec_statement now sid scope run_id stmt rows))"
    by (force simp: exec_fenced_length)
  moreover have "fenced sid scope run_id (statement_values now stmt r)"
    using assms(1) r(2) by (cases stmt) (simp_all add: statement_values_def fenced_def statement_ok_def)
  ultimately show ?thesis by blast
qed

lemma drain_held:
  assumes "list_all statement_ok q" "\<forall>i. snd (env i) = Wrote" "\<exists>r \<in> set rows. fenced (rn_sid run) (rn_scope run) (rn_run_id run) r"
  shows "\<exists>rows'. drain env q (run, rows) = (run, rows') \<and> (\<exists>r \<in> set rows'. fenced (rn_sid run) (rn_scope run) (rn_run_id run) r)
     \<and> (\<forall>now state d y. exec_statement now (rn_sid run) (rn_scope run) (rn_run_id run) (End state d y) rows'
          = exec_statement now (rn_sid run) (rn_scope run) (rn_run_id run) (End state d y) rows)"
  using assms
proof (induction q arbitrary: env rows)
  case (Cons stmt q)
  let ?rows1 = "snd (exec_statement (fst (env 0)) (rn_sid run) (rn_scope run) (rn_run_id run) stmt rows)"
  have "execute (env 0) False stmt (run, rows) = (run, ?rows1)"
    using execute_rows [of "env 0" False stmt run rows] execute_not_lost [OF Cons.prems(3), of "env 0" False stmt] Cons.prems(2)
    by (simp add: prod_eq_iff)
  moreover have "\<exists>r \<in> set ?rows1. fenced (rn_sid run) (rn_scope run) (rn_run_id run) r"
    using still_fenced [OF _ Cons.prems(3)] Cons.prems(1) by simp
  moreover have "exec_statement now (rn_sid run) (rn_scope run) (rn_run_id run) (End state d y) ?rows1
          = exec_statement now (rn_sid run) (rn_scope run) (rn_run_id run) (End state d y) rows" for now state d y
    using end_after Cons.prems(1) by simp
  ultimately show ?case using Cons.IH [of "\<lambda>i. env (Suc i)" ?rows1] Cons.prems(1,2) by simp
qed simp

section \<open>Properties\<close>

text \<open>In every state of a run, whatever its operations, its lost writes and the table, the tasks done are
  the fetched, the unchanged and the failed ones, at most fifty failed tasks are named and all of them up
  to fifty, and everything named has the shape of a label or of a word: no other text gets in.\<close>

theorem refresh_counts_add_up:
  assumes "run_steps (new_run sid scope run_id (initial_detail n previous), rows) (run, rows')"
  shows "rd_done (rn_detail run) = rd_fetched (rn_detail run) + rd_unchanged (rn_detail run) + rd_failed (rn_detail run)
     \<and> int (length (rd_failed_keys (rn_detail run))) = min (rd_failed (rn_detail run)) 50
     \<and> (\<forall>k \<in> set (rd_failed_keys (rn_detail run)). is_label k) \<and> (\<forall>item \<in> set (rd_current (rn_detail run)). item_key_ok item)
     \<and> (\<forall>stmt \<in> set (case rn_writer run of Some q \<Rightarrow> q | None \<Rightarrow> []). statement_ok stmt)"
proof -
  have "run_ok run" using run_steps_ok [OF assms] new_run_ok by simp
  then show ?thesis by (auto simp: run_ok_def detail_ok_def list_all_iff FAILED_KEYS_MAX_def split: option.splits)
qed

theorem refresh_counts_add_up_witness:
  "rd_failed_keys (count_outcome (JStr ''skipped'') ''https://x'' (initial_detail 3 None)) = [''task'']
   \<and> list_all is_label (rd_failed_keys (count_outcome (JStr ''skipped'') ''https://x'' (initial_detail 3 None)))"
proof -
  let ?s = "(new_run ''s'' OSM 1 (initial_detail 3 None), [])"
  have st: "run_steps ?s (task_done (0, WriteFailed) ''https://x'' [(''status'', JStr ''skipped'')] ?s)"
    by (rule run_more [OF run_refl run_step.ended])
  have d: "task_done (0, WriteFailed) ''https://x'' [(''status'', JStr ''skipped'')] ?s
      = (set_detail (count_outcome (JStr ''skipped'') ''https://x'') (new_run ''s'' OSM 1 (initial_detail 3 None)), [])"
    by (simp add: task_done_def write_progress_def new_run_def set_detail_def execute_def dget_def exec_fenced_length)
  have e: "rd_failed_keys (count_outcome (JStr ''skipped'') ''https://x'' (initial_detail 3 None)) = [''task'']" by code_simp
  from refresh_counts_add_up [OF st [unfolded d]] e show ?thesis by (simp add: set_detail_def new_run_def)
qed

text \<open>C17: Leaving a run that still holds its record, with every write committed, leaves the table as if only
  its end had been written: the end state, the counts with what was not reached, no current task, and
  whatever was queued before is overwritten, never written after it.\<close>

theorem exit_writes_end_last:
  assumes "run_ok run" "\<exists>r \<in> set rows. fenced (rn_sid run) (rn_scope run) (rn_run_id run) r" "\<forall>i. snd (env i) = Wrote"
  shows "case run_exit env enabled wall b (run, rows) of (run', rows') \<Rightarrow>
       rn_lost run' = rn_lost run \<and> rn_writer run' = None
     \<and> (\<exists>now. rows' = map (\<lambda>r. if fenced (rn_sid run) (rn_scope run) (rn_run_id run) r
          then r\<lparr>pr_state := fst (end_state b), pr_finished_at := Some now, pr_heartbeat_at := now,
                 pr_detail := detail_json (ended_detail (snd (end_state b)) (rn_detail run)),
                 pr_extract := (if rn_follow_up run then extract_on_finish enabled wall (fst (end_state b)) else pr_extract r)\<rparr>
          else r) rows)"
proof -
  define q where "q = (case rn_writer run of Some q \<Rightarrow> q | None \<Rightarrow> [])"
  have q: "list_all statement_ok q" using assms(1) by (auto simp: q_def run_ok_def split: option.splits)
  define run1 where "run1 = run\<lparr>rn_finishing := True\<rparr>"
  have same: "rn_sid run1 = rn_sid run" "rn_scope run1 = rn_scope run" "rn_run_id run1 = rn_run_id run" "rn_detail run1 = rn_detail run"
    "rn_follow_up run1 = rn_follow_up run" "rn_lost run1 = rn_lost run" "rn_writer run1 = rn_writer run" by (simp_all add: run1_def)
  obtain rows1 where rows1: "drain env q (run1, rows) = (run1, rows1)"
     "\<exists>r \<in> set rows1. fenced (rn_sid run) (rn_scope run) (rn_run_id run) r"
     "\<And>now state d y. exec_statement now (rn_sid run) (rn_scope run) (rn_run_id run) (End state d y) rows1
          = exec_statement now (rn_sid run) (rn_scope run) (rn_run_id run) (End state d y) rows"
    using drain_held [OF q assms(3), of rows run1] assms(2) unfolding same by blast
  define run0 where "run0 = run1\<lparr>rn_writer := None\<rparr>"
  define run2 where "run2 = set_detail (ended_detail (snd (end_state b))) run0"
  have run2: "rn_sid run2 = rn_sid run" "rn_scope run2 = rn_scope run" "rn_run_id run2 = rn_run_id run" "rn_lost run2 = rn_lost run"
    "rn_writer run2 = None" "rn_follow_up run2 = rn_follow_up run" "rn_detail run2 = ended_detail (snd (end_state b)) (rn_detail run)"
    by (simp_all add: run2_def run0_def set_detail_def same)
  let ?x = "if rn_follow_up run then Some (extract_on_finish enabled wall (fst (end_state b))) else None"
  have "end_run env enabled wall (fst (end_state b)) (snd (end_state b)) (run1, rows)
      = finish (env (length q)) enabled wall (fst (end_state b)) (snd (end_state b)) (run0, rows1)"
  proof (cases "rn_writer run")
    case None
    then have "run0 = run1" "rows1 = rows" "q = []" using rows1(1) same(7) by (simp_all add: q_def run0_def)
    then show ?thesis using None same(7) by (simp add: end_run_def)
  next
    case (Some ws)
    then have "rn_writer run1 = Some q" using same(7) by (simp add: q_def)
    then show ?thesis using rows1(1) by (simp add: end_run_def run0_def)
  qed
  moreover have "finish (env (length q)) enabled wall (fst (end_state b)) (snd (end_state b)) (run0, rows1)
      = execute (env (length q)) False (End (fst (end_state b)) (rn_detail run2) ?x) (run2, rows1)"
    unfolding finish_def prod.case Let_def run2_def [symmetric] run2(6) ..
  ultimately have "run_exit env enabled wall b (run, rows) = execute (env (length q)) False (End (fst (end_state b)) (rn_detail run2) ?x) (run2, rows1)"
    unfolding run_exit_def case_prod_beta fst_conv snd_conv run1_def [symmetric] by (rule trans)
  moreover have "execute (env (length q)) False (End (fst (end_state b)) (rn_detail run2) ?x) (run2, rows1)
     = (run2, snd (exec_statement (fst (env (length q))) (rn_sid run) (rn_scope run) (rn_run_id run) (End (fst (end_state b)) (rn_detail run2) ?x) rows))"
    using execute_rows [of "env (length q)" False _ run2 rows1] execute_not_lost [of rows1 run2 "env (length q)" False] assms(3) rows1(2,3)
    by (simp add: prod_eq_iff run2)
  ultimately show ?thesis
    using run2 by (auto simp: exec_fenced_length statement_values_def intro!: exI [of _ "fst (env (length q))"])
qed

theorem exit_writes_end_last_witness:
  "\<exists>run' row. run_exit (\<lambda>i. (7, Wrote)) False 0 Returned (new_run ''s'' OSM 1 (initial_detail 3 None), [new_row 0 1 ''s'' OSM (initial_detail 3 None)])
     = (run', [row]) \<and> pr_state row = FINISHED"
proof -
  let ?run = "new_run ''s'' OSM 1 (initial_detail 3 None)"
  have f: "fenced (rn_sid ?run) (rn_scope ?run) (rn_run_id ?run) (new_row 0 1 ''s'' OSM (initial_detail 3 None))"
    by (simp add: new_run_def new_row_def fenced_def)
  then have "\<exists>r \<in> set [new_row 0 1 ''s'' OSM (initial_detail 3 None)]. fenced (rn_sid ?run) (rn_scope ?run) (rn_run_id ?run) r" by simp
  from exit_writes_end_last [OF new_run_ok this, of "\<lambda>i. (7, Wrote)" False 0 Returned] f show ?thesis
    by (auto simp: end_state_def split: prod.splits)
qed

end
