(* ===== verification/Refresh_Page.thy ===== *)
theory Refresh_Page
  imports Refresh_Run
begin

text \<open>
  What the sessions page reads of the refreshes: \<open>read\<close> of \<open>app/refresh_progress.py\<close> and what it calls.
  The stored \<open>detail\<close> and \<open>extract\<close> are any JSON; \<open>datetime.fromisoformat\<close> is the clock parameter \<open>ck\<close>,
  \<open>wall\<close> the web process's clock, \<open>now\<close> the database's.
\<close>

definition COUNTS :: "str list" where
  "COUNTS = [''total'', ''done'', ''fetched'', ''unchanged'', ''failed'', ''not_reached'']"

definition EXTRACT_COUNTS :: "str list" where
  "EXTRACT_COUNTS = [''total'', ''handled''] @ EXTRACT_STATES"

definition count_of :: "json \<Rightarrow> int" where
  "count_of v = (case v of JInt n \<Rightarrow> if n \<ge> 0 then n else 0 | _ \<Rightarrow> 0)"

definition optional_count :: "json \<Rightarrow> json" where
  "optional_count v = (if v = JNull then JNull else JInt (count_of v))"

definition parse_time :: "clock \<Rightarrow> json \<Rightarrow> instant option" where
  "parse_time ck v = (case v of
       JStr s \<Rightarrow> if length s > 40 then None else (case ck_fromisoformat ck s of Some (Aware t) \<Rightarrow> Some t | _ \<Rightarrow> None)
     | _ \<Rightarrow> None)"

definition whole_seconds :: "instant \<Rightarrow> int" where
  "whole_seconds d = max 0 (d div 1000000)"

definition seconds_since :: "clock \<Rightarrow> json \<Rightarrow> instant \<Rightarrow> json" where
  "seconds_since ck v now = (case parse_time ck v of Some started \<Rightarrow> JInt (whole_seconds (now - started)) | None \<Rightarrow> JNull)"

definition public_item :: "clock \<Rightarrow> instant \<Rightarrow> (str \<times> json) list \<Rightarrow> json" where
  "public_item ck now item = JObj [(''key'', JStr (label_of (dget item ''key''))), (''bytes'', optional_count (dget item ''bytes'')),
     (''expected'', optional_count (dget item ''expected'')),
     (''step'', if dget item ''step'' \<in> set (map JStr STEPS) then dget item ''step'' else JNull),
     (''scanned'', optional_count (dget item ''scanned'')), (''scan_total'', optional_count (dget item ''scan_total'')),
     (''elapsed_seconds'', seconds_since ck (dget item ''started_at'') now)]"

definition objects :: "json list \<Rightarrow> (str \<times> json) list list" where
  "objects xs = concat (map (\<lambda>v. case v of JObj kvs \<Rightarrow> [kvs] | _ \<Rightarrow> []) xs)"

definition public_current :: "clock \<Rightarrow> instant \<Rightarrow> json \<Rightarrow> json" where
  "public_current ck now items = (case items of
       JArr es \<Rightarrow> JArr (map (public_item ck now) (objects (take 4 es))) | _ \<Rightarrow> JArr [])"

definition shown_extract_state :: "clock \<Rightarrow> instant \<Rightarrow> (str \<times> json) list \<Rightarrow> str" where
  "shown_extract_state ck now extract = (let state = word_of (dget extract ''state'');
       limit = (if state = ''queued'' then Some EXTRACT_QUEUED_SECONDS else if state = RUNNING then Some EXTRACT_LEASE_SECONDS else None)
     in case limit of
          None \<Rightarrow> state
        | Some l \<Rightarrow> (case parse_time ck (dget extract ''updated_at'') of
              None \<Rightarrow> INTERRUPTED
            | Some t \<Rightarrow> if now - t > l * 1000000 then INTERRUPTED else state))"

definition public_problems :: "json \<Rightarrow> json" where
  "public_problems items = (case items of
       JArr es \<Rightarrow> JArr (map (\<lambda>item. JObj [(''provider'', JStr (label_of (dget item ''provider''))), (''state'', JStr (word_of (dget item ''state''))),
            (''reason'', if json_truthy (dget item ''reason'') then JStr (word_of (dget item ''reason'')) else JNull)])
          (objects (take EXTRACT_PROBLEMS_MAX es)))
     | _ \<Rightarrow> JArr [])"

definition short_text :: "json \<Rightarrow> json" where
  "short_text v = (case v of JStr s \<Rightarrow> if length s \<le> 40 then JStr s else JNull | _ \<Rightarrow> JNull)"

definition public_reasons :: "json \<Rightarrow> json" where
  "public_reasons v = (case v of
       JObj kvs \<Rightarrow> JObj (foldl (\<lambda>d kv. alist_set (word_of (JStr (fst kv))) (JInt (count_of (snd kv))) d) [] kvs) | _ \<Rightarrow> JObj [])"

definition public_extract_pass :: "clock \<Rightarrow> instant \<Rightarrow> (str \<times> json) list \<Rightarrow> (str \<times> json) list" where
  "public_extract_pass ck wall extract = (let current = dget extract ''current'' in
     map (\<lambda>k. (k, JInt (count_of (dget extract k)))) EXTRACT_COUNTS
     @ [(''reasons'', public_reasons (dget extract ''reasons'')),
        (''current'', if json_truthy current then JStr (label_of current) else JNull),
        (''current_elapsed_seconds'', if json_truthy current then seconds_since ck (dget extract ''current_started_at'') wall else JNull),
        (''started_at'', short_text (dget extract ''started_at'')), (''finished_at'', short_text (dget extract ''finished_at'')),
        (''problems'', public_problems (dget extract ''problems''))])"

definition public_extract :: "clock \<Rightarrow> instant \<Rightarrow> instant \<Rightarrow> json \<Rightarrow> json" where
  "public_extract ck wall now v = (case v of
       JObj extract \<Rightarrow>
         if \<not> json_truthy (dget extract ''state'') then JNull
         else JObj ([(''state'', JStr (shown_extract_state ck now extract)),
             (''updated_at'', case parse_time ck (dget extract ''updated_at'') of Some t \<Rightarrow> JStr (iso_seconds t) | None \<Rightarrow> JNull)]
           @ (if map_of extract ''total'' \<noteq> None then public_extract_pass ck wall extract else [])
           @ [(''resumed'', JBool (dget extract ''resumed'' = JBool True))])
     | _ \<Rightarrow> JNull)"

definition public_row :: "clock \<Rightarrow> instant \<Rightarrow> instant \<Rightarrow> progress_row \<Rightarrow> py_error + json" where
  "public_row ck wall now r = (let detail = (case pr_detail r of JObj kvs \<Rightarrow> kvs | _ \<Rightarrow> []);
       end_at = (case pr_finished_at r of Some t \<Rightarrow> t | None \<Rightarrow> now); single = is_provider_scope (pr_scope r) in
     rbind (jiter (dget detail ''failed_keys'')) (\<lambda>failed_keys. Inr (JObj (
       [(''scope'', JStr (if single then ''provider'' else pr_scope r)),
        (''provider_id'', if single then JStr (pr_scope r) else JNull), (''state'', JStr (pr_state r)),
        (''started_at'', JStr (iso_seconds (pr_started_at r))), (''finished_at'', optional_text (map_option iso_seconds (pr_finished_at r))),
        (''heartbeat_at'', JStr (iso_seconds (pr_heartbeat_at r))), (''elapsed_seconds'', JInt (whole_seconds (end_at - pr_started_at r)))]
       @ map (\<lambda>k. (k, JInt (count_of (dget detail k)))) COUNTS
       @ [(''phase'', if json_truthy (dget detail ''phase'') then JStr (word_of (dget detail ''phase'')) else JNull),
          (''current'', if pr_state r = RUNNING then public_current ck wall (dget detail ''current'') else JArr []),
          (''failed_keys'', JArr (take FAILED_KEYS_MAX (map (\<lambda>k. JStr (label_of k)) failed_keys))),
          (''error'', if json_truthy (dget detail ''error'') then JStr (word_of (dget detail ''error'')) else JNull),
          (''previous'', case dget detail ''previous'' of
              JObj previous \<Rightarrow> JObj [(''state'', JStr INTERRUPTED), (''started_at'', short_text (dget previous ''started_at''))] | _ \<Rightarrow> JNull),
          (''extract'', public_extract ck wall now (pr_extract r))]))))"

definition follow_up_active :: "clock \<Rightarrow> instant \<Rightarrow> progress_row \<Rightarrow> bool" where
  "follow_up_active ck now r = (let extract = (case pr_extract r of JObj kvs \<Rightarrow> kvs | _ \<Rightarrow> []) in
     json_truthy (dget extract ''state'') \<and> shown_extract_state ck now extract \<in> {''queued'', RUNNING})"

definition superseded :: "progress_row \<Rightarrow> progress_row option \<Rightarrow> bool" where
  "superseded r whole = (case whole of None \<Rightarrow> False | Some w \<Rightarrow> pr_state w = FINISHED \<and> pr_started_at w > pr_started_at r)"

definition singles_shown :: "clock \<Rightarrow> instant \<Rightarrow> progress_row list \<Rightarrow> progress_row option \<Rightarrow> progress_row list" where
  "singles_shown ck now rows whole = (let newest_first = sort_key (\<lambda>r. - pr_started_at r) rows;
       running = take SINGLE_SHOWN_MAX (filter (\<lambda>r. pr_state r = RUNNING) newest_first);
       ended = filter (\<lambda>r. pr_state r \<noteq> RUNNING) newest_first;
       kept = take SINGLE_SHOWN_MAX (filter (follow_up_active ck now) ended)
     in running @ (case ended of
          newest # rest \<Rightarrow> if newest \<notin> set kept \<and> \<not> superseded newest whole then newest # kept else kept
        | [] \<Rightarrow> kept))"

definition provider_ids :: "json \<Rightarrow> str list" where
  "provider_ids config = (case config of
       JObj kvs \<Rightarrow> (case dget kvs ''sources'' of
           JObj sources \<Rightarrow> (case dget sources ''providers'' of
               JArr es \<Rightarrow> dedup (concat (map (\<lambda>p. case dget p ''id'' of JStr i \<Rightarrow> [i] | _ \<Rightarrow> []) (objects es)))
             | _ \<Rightarrow> [])
         | _ \<Rightarrow> [])
     | _ \<Rightarrow> [])"

definition read_progress :: "clock \<Rightarrow> instant \<Rightarrow> instant \<Rightarrow> str \<Rightarrow> str list option \<Rightarrow> progress_row list \<Rightarrow> (py_error + json) \<times> progress_row list" where
  "read_progress ck wall now sid providers rows0 = (let rows1 = expire now sid None rows0;
       rows = filter (\<lambda>r. pr_session_id r = sid) rows1;
       kind = (\<lambda>scope. find (\<lambda>r. pr_scope r = scope) rows);
       singles = filter (\<lambda>r. is_provider_scope (pr_scope r) \<and> (case providers of None \<Rightarrow> True | Some ps \<Rightarrow> pr_scope r \<in> set ps)) rows;
       part = (\<lambda>scope. case kind scope of Some r \<Rightarrow> public_row ck wall now r | None \<Rightarrow> Inr JNull)
     in (rbind (part PROVIDERS) (\<lambda>p. rbind (part OSM) (\<lambda>q.
           rbind (map_err (public_row ck wall now) (singles_shown ck now singles (kind PROVIDERS))) (\<lambda>single.
             Inr (JObj [(PROVIDERS, p), (OSM, q), (''single'', JArr single), (''now'', JStr (iso_seconds now))])))), rows1))"

section \<open>Texts that reach the page\<close>

fun json_texts :: "json \<Rightarrow> str set" where
  "json_texts (JStr s) = {s}"
| "json_texts (JArr es) = (\<Union>e \<in> set es. json_texts e)"
| "json_texts (JObj kvs) = (\<Union>kv \<in> set kvs. json_texts (snd kv))"
| "json_texts v = {}"

definition shown_text :: "str \<Rightarrow> bool" where
  "shown_text s = (is_label s \<or> is_word s \<or> length s \<le> 40 \<or> (\<exists>t. s = iso_seconds t))"

definition shown :: "json \<Rightarrow> bool" where
  "shown j = (\<forall>s \<in> json_texts j. shown_text s)"

lemma shown_simps [simp]:
  "shown JNull" "shown (JInt n)" "shown (JBool b)" "shown (JStr s) = shown_text s"
  "shown (JArr es) = list_all shown es" "shown (JObj kvs) = list_all (\<lambda>kv. shown (snd kv)) kvs"
  by (auto simp: shown_def list_all_iff)

lemma shown_label [simp]: "shown_text (label_of v)"
proof -
  have "is_label ''task''" by code_simp
  then show ?thesis by (simp add: shown_text_def label_of_def split: json.splits)
qed

lemma shown_word [simp]: "shown_text (word_of v)"
proof -
  have "is_word ''other''" by code_simp
  then show ?thesis by (simp add: shown_text_def word_of_def split: json.splits)
qed

lemma shown_iso [simp]: "shown_text (iso_seconds t)"
  by (auto simp: shown_text_def)

lemma shown_counts [simp]: "shown (optional_count v)" "shown (seconds_since ck v now)"
  by (simp_all add: optional_count_def seconds_since_def split: option.splits)

lemma shown_short [simp]: "shown (short_text v)"
  by (simp add: short_text_def shown_text_def split: json.splits)

lemma shown_steps: "v \<in> set (map JStr STEPS) \<Longrightarrow> shown v"
  by (auto simp: STEPS_def STEP_DOWNLOADING_def shown_text_def)

lemma shown_item [simp]: "shown (public_item ck now item)"
  using shown_steps [of "dget item ''step''"] by (simp add: public_item_def)

lemma shown_current [simp]: "shown (public_current ck now v)"
  by (simp add: public_current_def list.pred_map comp_def list_all_iff split: json.splits)

lemma interrupted_shown [simp]: "shown_text INTERRUPTED"
  by (simp add: shown_text_def INTERRUPTED_def)

lemma shown_queued [simp]: "shown_text ''queued''" "shown_text RUNNING"
  by (simp_all add: shown_text_def RUNNING_def)

lemma shown_state [simp]: "shown_text (shown_extract_state ck now extract)"
  by (simp add: shown_extract_state_def Let_def split: option.split)

lemma shown_problems [simp]: "shown (public_problems v)"
  by (simp add: public_problems_def list.pred_map comp_def list_all_iff split: json.splits)

lemma shown_reasons [simp]: "shown (public_reasons v)"
proof -
  have "list_all (\<lambda>kv. shown (snd kv)) (foldl (\<lambda>d kv. alist_set (word_of (JStr (fst kv))) (JInt (count_of (snd kv))) d) d0 kvs)"
    if "list_all (\<lambda>kv. shown (snd kv)) d0" for d0 kvs
    using that
  proof (induction kvs arbitrary: d0)
    case (Cons kv kvs)
    have "list_all (\<lambda>kv. shown (snd kv)) (alist_set k (JInt n) d)" if "list_all (\<lambda>kv. shown (snd kv)) d" for k n d
      using that by (induction d) auto
    from Cons.IH [OF this [OF Cons.prems]] show ?case by simp
  qed simp
  then show ?thesis by (simp add: public_reasons_def split: json.splits)
qed

lemma shown_pass [simp]: "list_all (\<lambda>kv. shown (snd kv)) (public_extract_pass ck wall extract)"
  by (simp add: public_extract_pass_def Let_def list.pred_map comp_def list_all_iff)

lemma shown_extract [simp]: "shown (public_extract ck wall now v)"
  by (simp add: public_extract_def split: json.splits option.splits)

section \<open>Properties\<close>



end
