(* ===== verification/Netex_Calendar.thy ===== *)
theory Netex_Calendar
  imports Adapters Civil_Time
begin

text \<open>
  The NeTEx calendar rewrite of \<open>app/netex_calendar.py\<close>: the day bits of a day type, the calendar of one
  ServiceCalendarFrame, what MOTIS would misread of it, the days of its assignments and the periods
  written back. An XML element is its local name, its attributes, its text and its children; parsing is a
  parameter, as is \<open>date.fromisoformat\<close> (\<open>fromiso\<close>, the ordinal of the date, None for a ValueError).
\<close>

section \<open>Elements\<close>

datatype xml = Element (xml_local: str) (xml_attrs: "(str \<times> str) list") (xml_text: "str option") (xml_children: "xml list")

definition attr :: "xml \<Rightarrow> str \<Rightarrow> str option" where
  "attr el name = map_of (xml_attrs el) name"

definition child :: "xml \<Rightarrow> str \<Rightarrow> xml option" where
  "child el name = find (\<lambda>c. xml_local c = name) (xml_children el)"

definition child_text :: "xml \<Rightarrow> str \<Rightarrow> str" where
  "child_text el name = (case child el name of Some c \<Rightarrow> py_strip (or_empty (xml_text c)) | None \<Rightarrow> [])"

definition child_ref :: "xml \<Rightarrow> str \<Rightarrow> str" where
  "child_ref el name = (case child el name of Some c \<Rightarrow> or_empty (attr c ''ref'') | None \<Rightarrow> [])"

text \<open>\<open>iter()\<close>: the element and all below it, in document order.\<close>

fun xml_iter :: "xml \<Rightarrow> xml list" where
  "xml_iter (Element n a t cs) = Element n a t cs # concat (map xml_iter cs)"

definition date_of :: "(str \<Rightarrow> int option) \<Rightarrow> str \<Rightarrow> int option" where
  "date_of fromiso s = fromiso (take 10 s)"

text \<open>\<open>int(order) if order.isdigit() else 0\<close>: the superscript digits pass the test and not \<open>int\<close>.\<close>

definition order_of :: "xml \<Rightarrow> py_error + int" where
  "order_of a = (let order = or_empty (attr a ''order'') in
     if py_isdigit order then (case py_int order of Some n \<Rightarrow> Inr n | None \<Rightarrow> Inl (ValueError order)) else Inr 0)"

definition WEEKDAYS :: "(str \<times> int list) list" where
  "WEEKDAYS = [(''monday'', [0]), (''tuesday'', [1]), (''wednesday'', [2]), (''thursday'', [3]), (''friday'', [4]),
     (''saturday'', [5]), (''sunday'', [6]), (''weekdays'', [0, 1, 2, 3, 4]), (''weekend'', [5, 6]),
     (''everyday'', [0, 1, 2, 3, 4, 5, 6])]"

definition weekdays_of :: "runtime \<Rightarrow> xml \<Rightarrow> int list option" where
  "weekdays_of rt day_type = (let days = concat (map (\<lambda>el. if xml_local el = ''DaysOfWeek''
         then concat (map (\<lambda>token. alist_get WEEKDAYS (rt_lower rt token) []) (py_split (or_empty (xml_text el)))) else [])
       (xml_iter day_type))
     in if days = [] then None else Some (dedup days))"

definition is_available :: "xml \<Rightarrow> bool" where
  "is_available a = (let v = or_empty (attr a ''isAvailable''); w = (if v \<noteq> [] then v else child_text a ''isAvailable'')
     in (if w \<noteq> [] then w else ''true'') \<noteq> ''false'')"

section \<open>The days of a day type\<close>

record day_bits =
  db_base :: int
  db_days :: "bool list"

definition no_days :: day_bits where
  "no_days = \<lparr>db_base = 0, db_days = []\<rparr>"

definition set_day :: "day_bits \<Rightarrow> int \<Rightarrow> bool \<Rightarrow> day_bits" where
  "set_day b ordinal on =
     (if db_days b = [] then (if on then \<lparr>db_base = ordinal, db_days = [True]\<rparr> else b)
      else (let i = ordinal - db_base b in
        if \<not> (0 \<le> i \<and> i < int (length (db_days b))) then
          (if \<not> on then b
           else if i < 0 then \<lparr>db_base = ordinal, db_days = (replicate (nat (- i)) False @ db_days b)[0 := on]\<rparr>
           else b\<lparr>db_days := (db_days b @ replicate (nat i + 1 - length (db_days b)) False)[nat i := on]\<rparr>)
        else b\<lparr>db_days := (db_days b)[nat i := on]\<rparr>))"

text \<open>\<open>find(1)\<close> and \<open>rfind(1)\<close>; the text has a character per day from the first to the last.\<close>

definition first_on :: "bool list \<Rightarrow> nat" where
  "first_on days = length (takeWhile Not days)"

definition last_on :: "bool list \<Rightarrow> nat" where
  "last_on days = length days - 1 - first_on (rev days)"

definition bit_text :: "bool list \<Rightarrow> str" where
  "bit_text days = map (\<lambda>b. if b then CHR ''1'' else CHR ''0'') days"

definition span :: "day_bits \<Rightarrow> (int \<times> str) option" where
  "span b = (let first = first_on (db_days b); last_i = last_on (db_days b) in
     if True \<notin> set (db_days b) then None
     else Some (db_base b + int first, bit_text (take (last_i + 1 - first) (drop first (db_days b)))))"

section \<open>The calendar of a frame\<close>

record period =
  p_start :: "int option"
  p_end :: "int option"
  p_from_day :: str
  p_to_day :: str
  p_bits :: str
  p_uic :: bool

record frame_stats =
  fr_day_types :: nat
  fr_assignments_in :: nat
  fr_unresolved :: nat
  fr_streamed :: bool
  fr_out_of_order :: nat

record calendar =
  ca_op_days :: "(str \<times> int) list"
  ca_periods :: "(str \<times> period) list"
  ca_weekdays :: "(str \<times> int list option) list"
  ca_days :: "(str \<times> day_bits) list"
  ca_stats :: frame_stats
  ca_by_operating_day :: bool
  ca_period_refs :: "(str \<times> str) list"
  ca_dated :: "str list"

definition new_calendar :: calendar where
  "new_calendar = \<lparr>ca_op_days = [], ca_periods = [], ca_weekdays = [], ca_days = [],
     ca_stats = \<lparr>fr_day_types = 0, fr_assignments_in = 0, fr_unresolved = 0, fr_streamed = False, fr_out_of_order = 0\<rparr>,
     ca_by_operating_day = False, ca_period_refs = [], ca_dated = []\<rparr>"

definition define_element :: "runtime \<Rightarrow> (str \<Rightarrow> int option) \<Rightarrow> xml \<Rightarrow> calendar \<Rightarrow> bool \<times> calendar" where
  "define_element rt fromiso el c = (let name = xml_local el; ident = or_empty (attr el ''id'') in
     if name = ''OperatingDay'' then
       (True, case date_of fromiso (child_text el ''CalendarDate'') of
           Some d \<Rightarrow> c\<lparr>ca_op_days := alist_set ident d (ca_op_days c)\<rparr> | None \<Rightarrow> c)
     else if name = ''OperatingPeriod'' \<or> name = ''UicOperatingPeriod'' then
       (True, c\<lparr>ca_periods := alist_set ident \<lparr>p_start = date_of fromiso (child_text el ''FromDate''),
           p_end = date_of fromiso (child_text el ''ToDate''), p_from_day = child_ref el ''FromOperatingDayRef'',
           p_to_day = child_ref el ''ToOperatingDayRef'', p_bits = child_text el ''ValidDayBits'',
           p_uic = (name = ''UicOperatingPeriod'')\<rparr> (ca_periods c)\<rparr>)
     else if name = ''DayType'' then (True, c\<lparr>ca_weekdays := alist_set ident (weekdays_of rt el) (ca_weekdays c)\<rparr>)
     else (False, c))"

definition note_assignment :: "xml \<Rightarrow> calendar \<Rightarrow> calendar" where
  "note_assignment a c0 = (let dt = child_ref a ''DayTypeRef'';
       c1 = c0\<lparr>ca_stats := (ca_stats c0)\<lparr>fr_assignments_in := fr_assignments_in (ca_stats c0) + 1\<rparr>\<rparr>;
       c2 = (if child_ref a ''OperatingDayRef'' \<noteq> [] then c1\<lparr>ca_by_operating_day := True\<rparr> else c1);
       pref = child_ref a ''OperatingPeriodRef''
     in if pref \<noteq> [] then c2\<lparr>ca_period_refs := ca_period_refs c2 @ [(dt, pref)]\<rparr>
        else if child_text a ''Date'' \<noteq> [] then c2\<lparr>ca_dated := List.insert dt (ca_dated c2)\<rparr>
        else c2)"

definition needs_conversion :: "calendar \<Rightarrow> bool" where
  "needs_conversion c =
     (if ca_by_operating_day c then True
      else if list_ex (\<lambda>(dt, p). case map_of (ca_periods c) p of Some q \<Rightarrow> \<not> p_uic q | None \<Rightarrow> False) (ca_period_refs c) then True
      else if ca_dated c = [] \<or> list_ex (\<lambda>(dt, p). map_of (ca_periods c) p = None) (ca_period_refs c) then False
      else list_ex (\<lambda>(dt, p). dt \<in> set (ca_dated c)) (ca_period_refs c))"

text \<open>The ordinals of the characters other than \<open>0\<close> among the first \<open>n\<close>.\<close>

definition bits_days :: "int \<Rightarrow> str \<Rightarrow> int list" where
  "bits_days first bits = map (\<lambda>ic. first + int (fst ic)) (filter (\<lambda>ic. snd ic \<noteq> CHR ''0'') (py_enumerate bits))"

definition period_days :: "calendar \<Rightarrow> str \<Rightarrow> int list option" where
  "period_days c pid = (case map_of (ca_periods c) pid of
       None \<Rightarrow> None
     | Some p \<Rightarrow>
         (case (case p_start p of Some d \<Rightarrow> Some d | None \<Rightarrow> map_of (ca_op_days c) (p_from_day p),
                case p_end p of Some d \<Rightarrow> Some d | None \<Rightarrow> map_of (ca_op_days c) (p_to_day p)) of
            (Some first, Some final) \<Rightarrow>
              if final < first then None
              else (let n = nat (final - first) + 1 in
                if p_bits p = [] then Some (map (\<lambda>i. first + int i) [0..<n])
                else Some (bits_days first (take n (p_bits p))))
          | _ \<Rightarrow> None))"

definition assignment_days :: "(str \<Rightarrow> int option) \<Rightarrow> xml \<Rightarrow> str \<Rightarrow> calendar \<Rightarrow> int list option" where
  "assignment_days fromiso a dt c =
     (let pref = child_ref a ''OperatingPeriodRef''; op_day = child_ref a ''OperatingDayRef'' in
      if pref \<noteq> [] then
        (case (period_days c pref, alist_get (ca_weekdays c) dt None) of
           (Some days, Some allowed) \<Rightarrow> Some (filter (\<lambda>d. (d - 1) mod 7 \<in> set allowed) days)
         | (days, _) \<Rightarrow> days)
      else if op_day \<noteq> [] then map_option (\<lambda>d. [d]) (map_of (ca_op_days c) op_day)
      else map_option (\<lambda>d. [d]) (date_of fromiso (child_text a ''Date'')))"

definition apply_assignment :: "(str \<Rightarrow> int option) \<Rightarrow> xml \<Rightarrow> calendar \<Rightarrow> calendar" where
  "apply_assignment fromiso a c = (let dt = child_ref a ''DayTypeRef'' in
     case (if dt = [] then None else assignment_days fromiso a dt c) of
       None \<Rightarrow> c\<lparr>ca_stats := (ca_stats c)\<lparr>fr_unresolved := fr_unresolved (ca_stats c) + 1\<rparr>\<rparr>
     | Some days \<Rightarrow> c\<lparr>ca_days := alist_set dt (foldl (\<lambda>b d. set_day b d (is_available a)) (alist_get (ca_days c) dt no_days) days) (ca_days c)\<rparr>)"

section \<open>Writing it back\<close>

text \<open>\<open>xml.sax.saxutils.quoteattr\<close>.\<close>

definition escape_char :: "char \<Rightarrow> str" where
  "escape_char ch = (if ch = CHR ''&'' then ''&amp;'' else if ch = CHR ''>'' then ''&gt;'' else if ch = CHR ''<'' then ''&lt;''
     else if ch = CHR 0x0A then ''&#10;'' else if ch = CHR 0x0D then ''&#13;'' else if ch = CHR 0x09 then ''&#9;'' else [ch])"

definition quoteattr :: "str \<Rightarrow> str" where
  "quoteattr s = (let data = concat (map escape_char s); dq = CHR 0x22; sq = CHR 0x27 in
     if dq \<in> set data then
       (if sq \<in> set data then [dq] @ concat (map (\<lambda>ch. if ch = dq then ''&quot;'' else [ch]) data) @ [dq]
        else [sq] @ data @ [sq])
     else [dq] @ data @ [dq])"

text \<open>\<open>date.isoformat()\<close> of an ordinal; ordinal 719163 is 1970-01-01.\<close>

definition ordinal_text :: "int \<Rightarrow> str" where
  "ordinal_text d = date_text ((d - 719163) * 86400000000)"

definition DAY_2000_01_01 :: int where "DAY_2000_01_01 = 730120"

text \<open>The day types written, with the first day and the bits of each.\<close>

definition written_types :: "calendar \<Rightarrow> str list" where
  "written_types c = sort (remdups (map fst (ca_weekdays c) @ map fst (ca_days c)))"

definition written_span :: "calendar \<Rightarrow> str \<Rightarrow> int \<times> str" where
  "written_span c dt = (case map_of (ca_days c) dt of
       Some b \<Rightarrow> (case span b of Some s \<Rightarrow> s | None \<Rightarrow> (DAY_2000_01_01, ''0''))
     | None \<Rightarrow> (DAY_2000_01_01, ''0''))"

definition written_last :: "int \<times> str \<Rightarrow> int" where
  "written_last s = fst s + int (length (snd s)) - 1"

definition period_text :: "str \<Rightarrow> calendar \<Rightarrow> str \<Rightarrow> str" where
  "period_text p c dt = (let s = written_span c dt; pid = quoteattr (''VIATOR:UicOperatingPeriod:'' @ dt) in
     ''<'' @ p @ ''UicOperatingPeriod version='' @ quoteattr ''1'' @ '' id='' @ pid @ ''>''
     @ ''<'' @ p @ ''FromDate>'' @ ordinal_text (fst s) @ ''T00:00:00</'' @ p @ ''FromDate>''
     @ ''<'' @ p @ ''ToDate>'' @ ordinal_text (written_last s) @ ''T00:00:00</'' @ p @ ''ToDate>''
     @ ''<'' @ p @ ''ValidDayBits>'' @ snd s @ ''</'' @ p @ ''ValidDayBits>''
     @ ''</'' @ p @ ''UicOperatingPeriod>'')"

definition assignment_text :: "str \<Rightarrow> str \<Rightarrow> str" where
  "assignment_text p dt =
     ''<'' @ p @ ''DayTypeAssignment version='' @ quoteattr ''1'' @ '' id='' @ quoteattr (''VIATOR:DayTypeAssignment:'' @ dt)
     @ '' order='' @ quoteattr ''1'' @ ''>''
     @ ''<'' @ p @ ''OperatingPeriodRef ref='' @ quoteattr (''VIATOR:UicOperatingPeriod:'' @ dt) @ ''/>''
     @ ''<'' @ p @ ''DayTypeRef ref='' @ quoteattr dt @ ''/>''
     @ ''</'' @ p @ ''DayTypeAssignment>''"

definition render :: "str \<Rightarrow> calendar \<Rightarrow> (str \<times> str) \<times> calendar" where
  "render px c = (let p = (if px = [] then [] else px @ '':''); dts = written_types c in
     ((concat (map (period_text p c) dts),
       ''<'' @ p @ ''dayTypeAssignments>'' @ concat (map (assignment_text p) dts) @ ''</'' @ p @ ''dayTypeAssignments>''),
      c\<lparr>ca_stats := (ca_stats c)\<lparr>fr_day_types := length dts\<rparr>\<rparr>))"

section \<open>A frame\<close>

definition is_assignment :: "xml \<Rightarrow> bool" where
  "is_assignment el = (xml_local el = ''DayTypeAssignment'')"

definition read_element :: "runtime \<Rightarrow> (str \<Rightarrow> int option) \<Rightarrow> calendar \<Rightarrow> xml \<Rightarrow> calendar" where
  "read_element rt fromiso c el = (if is_assignment el then note_assignment el c else snd (define_element rt fromiso el c))"

definition frame_calendar :: "runtime \<Rightarrow> (str \<Rightarrow> int option) \<Rightarrow> xml \<Rightarrow> calendar" where
  "frame_calendar rt fromiso frame = foldl (read_element rt fromiso) new_calendar (xml_iter frame)"

text \<open>The assignments in the order of \<open>order\<close>, then of the document.\<close>

definition frame_assignments :: "xml \<Rightarrow> py_error + xml list" where
  "frame_assignments frame = rbind (map_err (\<lambda>a. rbind (order_of a) (\<lambda>n. Inr (n, a))) (filter is_assignment (xml_iter frame)))
     (\<lambda>keyed. Inr (map snd (sort_key fst keyed)))"

definition converted_calendar :: "runtime \<Rightarrow> (str \<Rightarrow> int option) \<Rightarrow> xml \<Rightarrow> py_error + calendar option" where
  "converted_calendar rt fromiso frame = (let c = frame_calendar rt fromiso frame in
     if \<not> needs_conversion c then Inr None
     else rbind (frame_assignments frame) (\<lambda>as. Inr (Some (foldl (\<lambda>c a. apply_assignment fromiso a c) c as))))"

text \<open>A frame read as a stream: each assignment is noted and applied as it comes, with the count of those
  listed before a lower \<open>order\<close>.\<close>

definition scan_element :: "runtime \<Rightarrow> (str \<Rightarrow> int option) \<Rightarrow> xml \<Rightarrow> calendar \<times> (str \<times> int) list \<Rightarrow> py_error + calendar \<times> (str \<times> int) list" where
  "scan_element rt fromiso el s = (case s of (c, last_order) \<Rightarrow>
     (if is_assignment el then
        rbind (order_of el) (\<lambda>n. let dt = child_ref el ''DayTypeRef'';
           c1 = (if n < alist_get last_order dt n then c\<lparr>ca_stats := (ca_stats c)\<lparr>fr_out_of_order := fr_out_of_order (ca_stats c) + 1\<rparr>\<rparr> else c)
         in Inr (apply_assignment fromiso el (note_assignment el c1), alist_set dt n last_order))
      else Inr (snd (define_element rt fromiso el c), last_order)))"

fun scan_elements :: "runtime \<Rightarrow> (str \<Rightarrow> int option) \<Rightarrow> xml list \<Rightarrow> calendar \<times> (str \<times> int) list \<Rightarrow> py_error + calendar \<times> (str \<times> int) list" where
  "scan_elements rt fromiso [] s = Inr s"
| "scan_elements rt fromiso (el # els) s = rbind (scan_element rt fromiso el s) (scan_elements rt fromiso els)"

text \<open>The \<open>end\<close> events of the parser: an element ends after all below it. One that is defined or noted is
  taken out of its parent, which no reader of another element looks at.\<close>

fun xml_ends :: "xml \<Rightarrow> xml list" where
  "xml_ends (Element n a t cs) = concat (map xml_ends cs) @ [Element n a t cs]"

definition scan :: "runtime \<Rightarrow> (str \<Rightarrow> int option) \<Rightarrow> xml \<Rightarrow> py_error + calendar" where
  "scan rt fromiso frame = rbind (scan_elements rt fromiso (xml_ends frame) (new_calendar, [])) (\<lambda>s. Inr (fst s))"

end
