(* ===== verification/Netex_Calendar_Properties.thy ===== *)
theory Netex_Calendar_Properties
  imports Netex_Calendar
begin

text \<open>
  The calendar rewrite keeps every service day: the day bits are a set of days (the locale \<open>day_store\<close>,
  interpreted on them), the assignments of a day type come to the days they name in their order, and the
  period written back reads as exactly those days.
\<close>

section \<open>A set of days\<close>

locale day_store =
  fixes empty :: 's
    and put :: "'s \<Rightarrow> int \<Rightarrow> bool \<Rightarrow> 's"
    and members :: "'s \<Rightarrow> int set"
  assumes members_empty: "members empty = {}"
    and members_put: "members (put s d on) = (if on then insert d (members s) else members s - {d})"
begin

lemma members_puts:
  "members (foldl (\<lambda>s d. put s d on) s ds) = (if on then members s \<union> set ds else members s - set ds)"
  by (induction ds arbitrary: s) (auto simp: members_put)

end

definition bits_set :: "day_bits \<Rightarrow> int set" where
  "bits_set b = {db_base b + int i | i. i < length (db_days b) \<and> db_days b ! i}"

lemma bits_set_mem: "d \<in> bits_set b \<longleftrightarrow> 0 \<le> d - db_base b \<and> nat (d - db_base b) < length (db_days b) \<and> db_days b ! nat (d - db_base b)"
proof
  assume "d \<in> bits_set b"
  then show "0 \<le> d - db_base b \<and> nat (d - db_base b) < length (db_days b) \<and> db_days b ! nat (d - db_base b)"
    by (auto simp: bits_set_def)
next
  assume a: "0 \<le> d - db_base b \<and> nat (d - db_base b) < length (db_days b) \<and> db_days b ! nat (d - db_base b)"
  then have "d = db_base b + int (nat (d - db_base b))" by simp
  with a show "d \<in> bits_set b" unfolding bits_set_def by blast
qed

lemma set_day_members: "bits_set (set_day b d on) = (if on then insert d (bits_set b) else bits_set b - {d})"
proof (rule set_eqI)
  fix x
  let ?i = "d - db_base b"
  consider (empty) "db_days b = []" | (inside) "db_days b \<noteq> []" "0 \<le> ?i" "?i < int (length (db_days b))"
    | (off) "db_days b \<noteq> []" "\<not> (0 \<le> ?i \<and> ?i < int (length (db_days b)))" "\<not> on"
    | (before) "db_days b \<noteq> []" "?i < 0" "on" | (after) "db_days b \<noteq> []" "int (length (db_days b)) \<le> ?i" "on" by linarith
  then show "x \<in> bits_set (set_day b d on) \<longleftrightarrow> x \<in> (if on then insert d (bits_set b) else bits_set b - {d})"
  proof cases
    case empty
    then show ?thesis by (auto simp: set_day_def bits_set_mem)
  next
    case inside
    then have "set_day b d on = b\<lparr>db_days := (db_days b)[nat ?i := on]\<rparr>" by (simp add: set_day_def Let_def)
    then show ?thesis using inside by (auto simp: bits_set_mem nth_list_update nat_eq_iff)
  next
    case off
    then have "set_day b d on = b" by (auto simp: set_day_def Let_def)
    then show ?thesis using off by (auto simp: bits_set_mem)
  next
    case before
    then have e: "set_day b d on = \<lparr>db_base = d, db_days = (replicate (nat (- ?i)) False @ db_days b)[0 := True]\<rparr>"
      by (simp add: set_day_def Let_def)
    have "x \<in> bits_set (set_day b d on) \<longleftrightarrow> x = d \<or> x \<in> bits_set b"
    proof -
      have k: "nat (x - d) - nat (db_base b - d) = nat (x - db_base b)" if "\<not> x < db_base b" using that before by arith
      show ?thesis unfolding e bits_set_mem using before k
        by (auto simp: nth_list_update nth_append nat_eq_iff)
    qed
    then show ?thesis using before by simp
  next
    case after
    then have e: "set_day b d on = b\<lparr>db_days := (db_days b @ replicate (nat ?i + 1 - length (db_days b)) False)[nat ?i := True]\<rparr>"
      by (simp add: set_day_def Let_def)
    have "x \<in> bits_set (set_day b d on) \<longleftrightarrow> x = d \<or> x \<in> bits_set b"
      unfolding e bits_set_mem using after
      by (auto simp: nth_list_update nth_append nat_eq_iff)
    then show ?thesis using after by simp
  qed
qed

interpretation day_set: day_store no_days set_day bits_set
  by unfold_locales (auto simp: set_day_members bits_set_mem no_days_def)

section \<open>Spans\<close>

lemma bits_days_mem: "d \<in> set (bits_days first bits) \<longleftrightarrow> 0 \<le> d - first \<and> nat (d - first) < length bits \<and> bits ! nat (d - first) \<noteq> CHR ''0''"
proof
  assume "d \<in> set (bits_days first bits)"
  then show "0 \<le> d - first \<and> nat (d - first) < length bits \<and> bits ! nat (d - first) \<noteq> CHR ''0''"
    by (auto simp: bits_days_def py_enumerate_def in_set_zip)
next
  assume a: "0 \<le> d - first \<and> nat (d - first) < length bits \<and> bits ! nat (d - first) \<noteq> CHR ''0''"
  let ?i = "nat (d - first)"
  have "(?i, bits ! ?i) \<in> set (py_enumerate bits)" using a
    by (auto simp: py_enumerate_def in_set_zip intro!: exI [of _ ?i])
  then have "(?i, bits ! ?i) \<in> set (filter (\<lambda>ic. snd ic \<noteq> CHR ''0'') (py_enumerate bits))" using a by simp
  moreover have "d = first + int (fst (?i, bits ! ?i))" using a by simp
  ultimately show "d \<in> set (bits_days first bits)" unfolding bits_days_def set_map by blast
qed

lemma first_on_le: "True \<in> set ds \<Longrightarrow> first_on ds < length ds \<and> ds ! first_on ds \<and> (\<forall>i < first_on ds. \<not> ds ! i)"
proof (induction ds)
  case (Cons d ds)
  then show ?case by (cases d) (auto simp: first_on_def nth_Cons split: nat.splits)
qed simp

lemma last_on_le:
  assumes "True \<in> set ds"
  shows "last_on ds < length ds \<and> ds ! last_on ds \<and> (\<forall>i. last_on ds < i \<and> i < length ds \<longrightarrow> \<not> ds ! i)"
proof -
  let ?k = "first_on (rev ds)"
  have k: "?k < length ds" "rev ds ! ?k" "\<forall>i < ?k. \<not> rev ds ! i" using first_on_le [of "rev ds"] assms by simp_all
  have "\<not> ds ! i" if "last_on ds < i" "i < length ds" for i
  proof -
    have "length ds - 1 - i < ?k" using that by (simp add: last_on_def)
    with k(3) have "\<not> rev ds ! (length ds - 1 - i)" by blast
    then show ?thesis using that by (simp add: rev_nth)
  qed
  then show ?thesis using k by (auto simp: last_on_def rev_nth)
qed

lemma first_le_last: "True \<in> set ds \<Longrightarrow> first_on ds \<le> last_on ds"
  using first_on_le [of ds] last_on_le [of ds] by (metis not_less)

lemma bit_text_days:
  "d \<in> set (bits_days first (bit_text ds)) \<longleftrightarrow> first \<le> d \<and> nat (d - first) < length ds \<and> ds ! nat (d - first)"
  unfolding bits_days_mem bit_text_def by (cases "nat (d - first) < length ds") simp_all

lemma slice_text_days:
  assumes "l < length ds"
  shows "d \<in> set (bits_days first (bit_text (take (l + 1 - f) (drop f ds)))) \<longleftrightarrow> first \<le> d \<and> nat (d - first) < l + 1 - f \<and> ds ! (f + nat (d - first))"
  unfolding bit_text_days using assms by (cases "nat (d - first) < l + 1 - f") simp_all

lemma span_reads_back:
  "(case span b of None \<Rightarrow> bits_set b = {} | Some s \<Rightarrow> set (bits_days (fst s) (snd s)) = bits_set b
     \<and> snd s \<noteq> [] \<and> hd (snd s) = CHR ''1'' \<and> last (snd s) = CHR ''1'')"
proof (cases "True \<in> set (db_days b)")
  case False
  then have "bits_set b = {}" by (auto simp: bits_set_def in_set_conv_nth)
  with False show ?thesis by (simp add: span_def)
next
  case True
  let ?f = "first_on (db_days b)" and ?l = "last_on (db_days b)"
  note f = first_on_le [OF True] and l = last_on_le [OF True] and fl = first_le_last [OF True]
  let ?ds = "take (?l + 1 - ?f) (drop ?f (db_days b))"
  have len: "length ?ds = ?l + 1 - ?f" using l by (auto simp: min_def)
  have nth: "?ds ! i = db_days b ! (?f + i)" if "i < ?l + 1 - ?f" for i using that l fl by (auto simp: nth_drop)
  have s: "span b = Some (db_base b + int ?f, bit_text ?ds)" using True by (simp add: span_def Let_def)
  have "set (bits_days (db_base b + int ?f) (bit_text ?ds)) = bits_set b"
  proof (rule set_eqI)
    fix d
    have "d \<in> set (bits_days (db_base b + int ?f) (bit_text ?ds))
        \<longleftrightarrow> db_base b + int ?f \<le> d \<and> nat (d - (db_base b + int ?f)) < ?l + 1 - ?f \<and> db_days b ! (?f + nat (d - (db_base b + int ?f)))"
      by (rule slice_text_days) (use l in blast)
    also have "\<dots> \<longleftrightarrow> d \<in> bits_set b"
    proof
      assume a: "db_base b + int ?f \<le> d \<and> nat (d - (db_base b + int ?f)) < ?l + 1 - ?f \<and> db_days b ! (?f + nat (d - (db_base b + int ?f)))"
      have "?f + nat (d - (db_base b + int ?f)) = nat (d - db_base b)" using a by linarith
      moreover have "nat (d - db_base b) \<le> ?l" using a fl by linarith
      ultimately show "d \<in> bits_set b" unfolding bits_set_mem using a l by auto
    next
      assume a: "d \<in> bits_set b"
      let ?i = "nat (d - db_base b)"
      have i: "0 \<le> d - db_base b" "?i < length (db_days b)" "db_days b ! ?i" using a by (simp_all add: bits_set_mem)
      then have "\<not> ?i < ?f" "\<not> ?l < ?i" using f l by blast+
      then have "?f + nat (d - (db_base b + int ?f)) = ?i" "db_base b + int ?f \<le> d" "nat (d - (db_base b + int ?f)) < ?l + 1 - ?f" using i(1) by linarith+
      with i(3) show "db_base b + int ?f \<le> d \<and> nat (d - (db_base b + int ?f)) < ?l + 1 - ?f \<and> db_days b ! (?f + nat (d - (db_base b + int ?f)))" by simp
    qed
    finally show "d \<in> set (bits_days (db_base b + int ?f) (bit_text ?ds)) \<longleftrightarrow> d \<in> bits_set b" .
  qed
  moreover have "bit_text ?ds \<noteq> []" using len fl by (auto simp: bit_text_def simp del: length_take length_drop)
  moreover have "hd (bit_text ?ds) = CHR ''1''" "last (bit_text ?ds) = CHR ''1''"
    using calculation(2) f l fl len nth [of 0] nth [of "?l - ?f"]
    by (simp_all add: bit_text_def hd_conv_nth last_conv_nth hd_map last_map del: take_eq_Nil)
  ultimately show ?thesis using s by simp
qed

section \<open>The days of the assignments\<close>

text \<open>The days a day type runs on: each assignment to it, in order, adds the days it names or takes them away.\<close>

definition assign_days :: "(str \<Rightarrow> int option) \<Rightarrow> calendar \<Rightarrow> str \<Rightarrow> int set \<Rightarrow> xml \<Rightarrow> int set" where
  "assign_days fromiso c dt days a = (if dt = [] \<or> child_ref a ''DayTypeRef'' \<noteq> dt then days
     else (case assignment_days fromiso a dt c of
         None \<Rightarrow> days
       | Some ds \<Rightarrow> if is_available a then days \<union> set ds else days - set ds))"

definition service_days :: "(str \<Rightarrow> int option) \<Rightarrow> calendar \<Rightarrow> xml list \<Rightarrow> str \<Rightarrow> int set" where
  "service_days fromiso c as dt = foldl (assign_days fromiso c dt) {} as"

text \<open>The period a reader of the rewritten file gets for a day type.\<close>

definition written_period :: "calendar \<Rightarrow> str \<Rightarrow> period" where
  "written_period c dt = (let s = written_span c dt in
     \<lparr>p_start = Some (fst s), p_end = Some (written_last s), p_from_day = [], p_to_day = [], p_bits = snd s, p_uic = True\<rparr>)"

definition days_of :: "calendar \<Rightarrow> str \<Rightarrow> int set" where
  "days_of c dt = bits_set (alist_get (ca_days c) dt no_days)"

definition same_frame :: "calendar \<Rightarrow> calendar \<Rightarrow> bool" where
  "same_frame c d \<longleftrightarrow> ca_op_days c = ca_op_days d \<and> ca_periods c = ca_periods d \<and> ca_weekdays c = ca_weekdays d"

lemma period_days_same:
  assumes "same_frame c d"
  shows "period_days c pid = period_days d pid"
proof -
  have e: "ca_op_days c = ca_op_days d" "ca_periods c = ca_periods d" using assms by (simp_all add: same_frame_def)
  show ?thesis unfolding period_days_def e by (rule refl)
qed

lemma assignment_days_same:
  assumes "same_frame c d"
  shows "assignment_days fromiso a dt c = assignment_days fromiso a dt d"
proof -
  have e: "ca_op_days c = ca_op_days d" "ca_weekdays c = ca_weekdays d" using assms by (simp_all add: same_frame_def)
  show ?thesis unfolding assignment_days_def period_days_same [OF assms] e by (rule refl)
qed

lemma apply_same_frame: "same_frame (apply_assignment fromiso a c) c"
  by (simp add: same_frame_def apply_assignment_def Let_def split: option.splits)

lemma days_of_apply: "days_of (apply_assignment fromiso a c) dt = assign_days fromiso c dt (days_of c dt) a"
  by (simp add: days_of_def apply_assignment_def assign_days_def Let_def alist_get_def day_set.members_puts split: option.splits)

lemma days_of_assignments:
  "same_frame c d \<Longrightarrow> days_of (foldl (\<lambda>c a. apply_assignment fromiso a c) c as) dt = foldl (assign_days fromiso d dt) (days_of c dt) as"
proof (induction as arbitrary: c)
  case (Cons a as)
  have "same_frame (apply_assignment fromiso a c) d" using apply_same_frame [of fromiso a c] Cons.prems by (simp add: same_frame_def)
  moreover have "assign_days fromiso c dt S a = assign_days fromiso d dt S a" for S
    by (simp add: assign_days_def assignment_days_same [OF Cons.prems])
  ultimately show ?case using Cons.IH by (simp add: days_of_apply)
qed simp

lemma written_span_days:
  "set (bits_days (fst (written_span c dt)) (snd (written_span c dt))) = days_of c dt \<and> snd (written_span c dt) \<noteq> []"
proof -
  have z: "set (bits_days d ''0'') = {}" for d by (simp add: bits_days_def py_enumerate_def)
  show ?thesis using span_reads_back [of "alist_get (ca_days c) dt no_days"] z
    by (auto simp: written_span_def days_of_def alist_get_def bits_set_mem no_days_def split: option.splits)
qed

lemma written_period_days:
  "period_days (new_calendar\<lparr>ca_periods := [(pid, written_period c dt)]\<rparr>) pid
     = Some (bits_days (fst (written_span c dt)) (snd (written_span c dt)))"
proof -
  let ?s = "written_span c dt"
  have "snd ?s \<noteq> []" using written_span_days by blast
  then have "\<not> written_last ?s < fst ?s" "nat (written_last ?s - fst ?s) + 1 = length (snd ?s)"
    by (cases "snd ?s"; simp add: written_last_def)+
  with \<open>snd ?s \<noteq> []\<close> show ?thesis by (simp add: period_days_def written_period_def Let_def)
qed

lemma days_of_frame: "days_of (frame_calendar rt fromiso frame) dt = {}"
proof -
  have "ca_days (foldl (read_element rt fromiso) c els) = ca_days c" for c els
  proof (induction els arbitrary: c)
    case (Cons el els)
    have "ca_days (read_element rt fromiso c el) = ca_days c"
      by (simp add: read_element_def note_assignment_def define_element_def Let_def split: option.splits)
    with Cons show ?case by simp
  qed simp
  then show ?thesis by (simp add: days_of_def frame_calendar_def new_calendar_def alist_get_def day_set.members_empty)
qed

text \<open>C25: a rewritten calendar keeps the service days. For each day type, the \<open>UicOperatingPeriod\<close> written for it
  reads, through the reader's own rules for a period, as exactly the days its assignments come to when
  they are applied in their order: every available assignment adds the days its period, operating day or
  date names, every unavailable one takes them away. A day type with a service day is written.\<close>

theorem converted_days_are_service_days:
  assumes "converted_calendar rt fromiso frame = Inr (Some c)" "frame_assignments frame = Inr as"
  shows "map_option set (period_days (new_calendar\<lparr>ca_periods := [(pid, written_period c dt)]\<rparr>) pid)
      = Some (service_days fromiso (frame_calendar rt fromiso frame) as dt)
    \<and> (service_days fromiso (frame_calendar rt fromiso frame) as dt = {} \<or> dt \<in> set (written_types c))"
proof -
  let ?f = "frame_calendar rt fromiso frame"
  have c: "c = foldl (\<lambda>c a. apply_assignment fromiso a c) ?f as"
    using assms by (simp add: converted_calendar_def Let_def split: if_splits)
  have d: "days_of c dt = service_days fromiso ?f as dt" unfolding c
    using days_of_assignments [of ?f ?f fromiso as dt] by (simp add: same_frame_def days_of_frame service_days_def)
  have "days_of c dt = {} \<or> dt \<in> set (written_types c)"
    by (force simp: days_of_def written_types_def alist_get_def bits_set_mem no_days_def split: option.splits dest: map_of_SomeD)
  with d show ?thesis by (simp add: written_period_days written_span_days)
qed

definition sample_frame :: xml where
  "sample_frame = Element ''ServiceCalendarFrame'' [] None
     [Element ''OperatingDay'' [(''id'', ''d1'')] None [Element ''CalendarDate'' [] (Some ''20'') []],
      Element ''OperatingPeriod'' [(''id'', ''p'')] None [Element ''FromDate'' [] (Some ''19'') [], Element ''ToDate'' [] (Some ''22'') []],
      Element ''DayTypeAssignment'' [(''order'', ''2'')] None
        [Element ''OperatingDayRef'' [(''ref'', ''d1'')] None [], Element ''DayTypeRef'' [(''ref'', ''t'')] None [],
         Element ''isAvailable'' [] (Some ''false'') []],
      Element ''DayTypeAssignment'' [(''order'', ''1'')] None
        [Element ''OperatingPeriodRef'' [(''ref'', ''p'')] None [], Element ''DayTypeRef'' [(''ref'', ''t'')] None []]]"

definition sample_dates :: "str \<Rightarrow> int option" where "sample_dates = py_int"

lemma converted_days_are_service_days_witness:
  "\<exists>c as. converted_calendar ascii_runtime sample_dates sample_frame = Inr (Some c)
     \<and> frame_assignments sample_frame = Inr as
     \<and> service_days sample_dates (frame_calendar ascii_runtime sample_dates sample_frame) as ''t'' = {19, 21, 22}
     \<and> map_option set (period_days (new_calendar\<lparr>ca_periods := [(''q'', written_period c ''t'')]\<rparr>) ''q'') = Some {19, 21, 22}"
proof -
  have n: "needs_conversion (frame_calendar ascii_runtime sample_dates sample_frame)" by code_simp
  have "map_sum id (map (\<lambda>a. child_ref a ''OperatingDayRef'')) (frame_assignments sample_frame) = Inr [[], ''d1'']" by code_simp
  then obtain as where as: "frame_assignments sample_frame = Inr as" by (cases "frame_assignments sample_frame") auto
  have "(case frame_assignments sample_frame of Inl e \<Rightarrow> False
      | Inr as \<Rightarrow> service_days sample_dates (frame_calendar ascii_runtime sample_dates sample_frame) as ''t'' = {19, 21, 22})" by code_simp
  with as have d: "service_days sample_dates (frame_calendar ascii_runtime sample_dates sample_frame) as ''t'' = {19, 21, 22}" by simp
  obtain c where c: "converted_calendar ascii_runtime sample_dates sample_frame = Inr (Some c)"
    using n as by (simp add: converted_calendar_def Let_def)
  show ?thesis using c as d converted_days_are_service_days [OF c as, of "''q''" "''t''"] by auto
qed

end
