(* ===== verification/Netex_Stream.thy ===== *)
theory Netex_Stream
  imports Netex_Calendar_Properties
begin

text \<open>
  A frame too large for memory is read as a stream, each assignment applied as it comes. When it defines
  its days and periods before it assigns them, and no assignment is counted as listed before a lower
  \<open>order\<close>, the stream is rewritten as the frame read whole.
\<close>

section \<open>The bits of one day type\<close>

definition assign_bits :: "(str \<Rightarrow> int option) \<Rightarrow> calendar \<Rightarrow> str \<Rightarrow> day_bits option \<Rightarrow> xml \<Rightarrow> day_bits option" where
  "assign_bits fromiso c dt bits a = (if dt = [] \<or> child_ref a ''DayTypeRef'' \<noteq> dt then bits
     else (case assignment_days fromiso a dt c of
         None \<Rightarrow> bits
       | Some ds \<Rightarrow> Some (foldl (\<lambda>b d. set_day b d (is_available a)) (case bits of None \<Rightarrow> no_days | Some b \<Rightarrow> b) ds)))"

lemma bits_of_apply: "map_of (ca_days (apply_assignment fromiso a c)) dt = assign_bits fromiso c dt (map_of (ca_days c) dt) a"
  by (simp add: apply_assignment_def assign_bits_def Let_def alist_get_def split: option.splits)

lemma assign_bits_same: "same_frame c d \<Longrightarrow> assign_bits fromiso c dt b a = assign_bits fromiso d dt b a"
  unfolding assign_bits_def using assignment_days_same [of c d] by simp

lemma bits_of_assignments:
  "same_frame c d \<Longrightarrow> map_of (ca_days (foldl (\<lambda>c a. apply_assignment fromiso a c) c as)) dt
     = foldl (assign_bits fromiso d dt) (map_of (ca_days c) dt) as
   \<and> same_frame (foldl (\<lambda>c a. apply_assignment fromiso a c) c as) d"
proof (induction as arbitrary: c)
  case (Cons a as)
  have "same_frame (apply_assignment fromiso a c) d" using apply_same_frame [of fromiso a c] Cons.prems by (simp add: same_frame_def)
  from Cons.IH [OF this] show ?case by (simp add: bits_of_apply assign_bits_same [OF Cons.prems])
qed simp

lemma assign_bits_own: "foldl (assign_bits fromiso d dt) b as = foldl (assign_bits fromiso d dt) b (filter (\<lambda>a. child_ref a ''DayTypeRef'' = dt) as)"
  by (induction as arbitrary: b) (simp_all add: assign_bits_def)

section \<open>What is read\<close>

definition is_read :: "xml \<Rightarrow> bool" where
  "is_read el \<longleftrightarrow> is_assignment el \<or> xml_local el \<in> {''OperatingDay'', ''OperatingPeriod'', ''UicOperatingPeriod'', ''DayType''}"

lemma skipped_element:
  assumes "\<not> is_read el"
  shows "scan_element rt fromiso el s = Inr s" "read_element rt fromiso c el = c"
  using assms by (auto simp: is_read_def scan_element_def read_element_def define_element_def Let_def split: prod.splits)

lemma scan_reads: "scan_elements rt fromiso els s = scan_elements rt fromiso (filter is_read els) s"
proof (induction els arbitrary: s)
  case (Cons el els)
  have "rbind (scan_element rt fromiso el s) (scan_elements rt fromiso els) = rbind (scan_element rt fromiso el s) (scan_elements rt fromiso (filter is_read els))"
    by (simp add: rbind_def Cons.IH split: sum.splits)
  then show ?case by (cases "is_read el") (simp_all add: skipped_element rbind_def)
qed simp

lemma frame_reads: "foldl (read_element rt fromiso) c els = foldl (read_element rt fromiso) c (filter is_read els)"
  by (induction els arbitrary: c) (simp_all add: skipped_element)

lemma scan_append: "scan_elements rt fromiso (xs @ ys) s = rbind (scan_elements rt fromiso xs s) (scan_elements rt fromiso ys)"
  by (induction xs arbitrary: s) (simp_all add: rbind_def split: sum.splits)

section \<open>One assignment\<close>

definition order_value :: "xml \<Rightarrow> int" where
  "order_value a = (case order_of a of Inr n \<Rightarrow> n | Inl _ \<Rightarrow> 0)"

definition same_notes :: "calendar \<Rightarrow> calendar \<Rightarrow> bool" where
  "same_notes c d \<longleftrightarrow> same_frame c d \<and> ca_by_operating_day c = ca_by_operating_day d \<and> ca_period_refs c = ca_period_refs d
     \<and> ca_dated c = ca_dated d"

definition out_of_order :: "calendar \<Rightarrow> nat" where
  "out_of_order c = fr_out_of_order (ca_stats c)"

lemma needs_same: "same_notes c d \<Longrightarrow> needs_conversion c = needs_conversion d"
  unfolding needs_conversion_def same_notes_def same_frame_def by simp

lemma apply_keeps:
  "ca_by_operating_day (apply_assignment fromiso a c) = ca_by_operating_day c"
  "ca_period_refs (apply_assignment fromiso a c) = ca_period_refs c"
  "ca_dated (apply_assignment fromiso a c) = ca_dated c"
  "out_of_order (apply_assignment fromiso a c) = out_of_order c"
  by (simp_all add: apply_assignment_def out_of_order_def Let_def split: option.splits)

lemma note_keeps:
  "ca_days (note_assignment a c) = ca_days c" "same_frame (note_assignment a c) c" "out_of_order (note_assignment a c) = out_of_order c"
  by (simp_all add: note_assignment_def same_frame_def out_of_order_def Let_def)

lemma note_same: "same_notes c d \<Longrightarrow> same_notes (note_assignment a c) (note_assignment a d)"
  by (simp add: note_assignment_def same_notes_def same_frame_def Let_def)

lemma scan_assignment:
  assumes "scan_element rt fromiso a (c, lo) = Inr (c', lo')" "is_assignment a" "same_notes c d"
  shows "order_of a = Inr (order_value a)" "lo' = alist_set (child_ref a ''DayTypeRef'') (order_value a) lo"
    "same_notes c' (note_assignment a d)" "map_of (ca_days c') dt = assign_bits fromiso d dt (map_of (ca_days c) dt) a"
    "out_of_order c' = out_of_order c
       + (if order_value a < alist_get lo (child_ref a ''DayTypeRef'') (order_value a) then 1 else 0)"
proof -
  let ?dt = "child_ref a ''DayTypeRef''"
  obtain n where n: "order_of a = Inr n" using assms(1,2) by (auto simp: scan_element_def)
  then have v: "order_value a = n" by (simp add: order_value_def)
  define c1 where "c1 = (if n < alist_get lo ?dt n then c\<lparr>ca_stats := (ca_stats c)\<lparr>fr_out_of_order := fr_out_of_order (ca_stats c) + 1\<rparr>\<rparr> else c)"
  have e: "c' = apply_assignment fromiso a (note_assignment a c1)" "lo' = alist_set ?dt n lo"
    using assms(1,2) n by (auto simp: scan_element_def c1_def Let_def)
  have c1: "same_notes c1 d" "ca_days c1 = ca_days c" "out_of_order c1 = out_of_order c + (if n < alist_get lo ?dt n then 1 else 0)"
    using assms(3) by (simp_all add: c1_def same_notes_def same_frame_def out_of_order_def)
  show "order_of a = Inr (order_value a)" "lo' = alist_set ?dt (order_value a) lo" using n v e by simp_all
  show "same_notes c' (note_assignment a d)"
    using note_same [OF c1(1), of a] apply_same_frame [of fromiso a "note_assignment a c1"]
    by (simp add: e same_notes_def apply_keeps) (simp add: same_frame_def)
  have "same_frame (note_assignment a c1) d" using note_keeps(2) [of a c1] c1(1) by (simp add: same_notes_def same_frame_def)
  then show "map_of (ca_days c') dt = assign_bits fromiso d dt (map_of (ca_days c) dt) a"
    by (simp add: e bits_of_apply note_keeps c1 assign_bits_same)
  show "out_of_order c' = out_of_order c + (if order_value a < alist_get lo ?dt (order_value a) then 1 else 0)"
    by (simp add: e apply_keeps note_keeps c1 v)
qed

section \<open>The assignments in a row\<close>

definition own_orders :: "str \<Rightarrow> xml list \<Rightarrow> int list" where
  "own_orders dt as = map order_value (filter (\<lambda>a. child_ref a ''DayTypeRef'' = dt) as)"

definition in_order :: "(str \<times> int) list \<Rightarrow> str \<Rightarrow> xml list \<Rightarrow> bool" where
  "in_order lo dt as \<longleftrightarrow> sorted ((case map_of lo dt of None \<Rightarrow> [] | Some n \<Rightarrow> [n]) @ own_orders dt as)"

lemma in_order_Cons:
  assumes "in_order (alist_set (child_ref a ''DayTypeRef'') (order_value a) lo) dt as"
    "\<not> order_value a < alist_get lo (child_ref a ''DayTypeRef'') (order_value a)"
  shows "in_order lo dt (a # as)"
  using assms by (auto simp: in_order_def own_orders_def alist_get_def split: option.splits if_splits)

lemma scan_assignments:
  assumes "\<forall>a \<in> set as. is_assignment a" "scan_elements rt fromiso as (c, lo) = Inr (c', lo')" "same_notes c d"
  shows "map_err order_of as = Inr (map order_value as) \<and> same_notes c' (foldl (\<lambda>d a. note_assignment a d) d as)
    \<and> map_of (ca_days c') dt = foldl (assign_bits fromiso d dt) (map_of (ca_days c) dt) as
    \<and> out_of_order c \<le> out_of_order c' \<and> (out_of_order c' = out_of_order c \<longrightarrow> in_order lo dt as)"
  using assms
proof (induction as arbitrary: c lo d)
  case Nil
  then show ?case by (simp add: in_order_def own_orders_def split: option.splits)
next
  case (Cons a as)
  obtain c1 lo1 where a: "scan_element rt fromiso a (c, lo) = Inr (c1, lo1)" "scan_elements rt fromiso as (c1, lo1) = Inr (c', lo')"
    using Cons.prems(2) by auto
  have "is_assignment a" using Cons.prems(1) by simp
  note one = scan_assignment [OF a(1) this Cons.prems(3)]
  have ih: "map_err order_of as = Inr (map order_value as)"
    "same_notes c' (foldl (\<lambda>d a. note_assignment a d) (note_assignment a d) as)"
    "map_of (ca_days c') dt = foldl (assign_bits fromiso (note_assignment a d) dt) (map_of (ca_days c1) dt) as"
    "out_of_order c1 \<le> out_of_order c'" "out_of_order c' = out_of_order c1 \<longrightarrow> in_order lo1 dt as"
    using Cons.IH [OF _ a(2) one(3)] Cons.prems(1) by simp_all
  have "assign_bits fromiso (note_assignment a d) dt = assign_bits fromiso d dt"
    by (intro ext) (rule assign_bits_same [OF note_keeps(2)])
  with ih(3) one(4) have days: "map_of (ca_days c') dt = foldl (assign_bits fromiso d dt) (map_of (ca_days c) dt) (a # as)" by simp
  have "in_order lo dt (a # as)" if "out_of_order c' = out_of_order c"
  proof -
    have "out_of_order c1 = out_of_order c" "out_of_order c' = out_of_order c1" using that one(5) ih(4) by (auto split: if_splits)
    with one(2,5) ih(5) show ?thesis by (intro in_order_Cons) (auto split: if_splits)
  qed
  then show ?case using ih(1,2,4) one(1,5) days by simp
qed

lemma scan_definitions:
  "\<forall>el \<in> set els. \<not> is_assignment el \<Longrightarrow> scan_elements rt fromiso els (c, lo) = Inr (foldl (read_element rt fromiso) c els, lo)"
  by (induction els arbitrary: c) (simp_all add: scan_element_def read_element_def rbind_def)

lemma read_assignments: "\<forall>a \<in> set as. is_assignment a \<Longrightarrow> foldl (read_element rt fromiso) c as = foldl (\<lambda>d a. note_assignment a d) c as"
  by (induction as arbitrary: c) (simp_all add: read_element_def)

lemma definitions_keep:
  "\<forall>el \<in> set els. \<not> is_assignment el \<Longrightarrow> ca_days (foldl (read_element rt fromiso) c els) = ca_days c
    \<and> out_of_order (foldl (read_element rt fromiso) c els) = out_of_order c"
proof (induction els arbitrary: c)
  case (Cons el els)
  have "ca_days (read_element rt fromiso c el) = ca_days c \<and> out_of_order (read_element rt fromiso c el) = out_of_order c"
    using Cons.prems by (simp add: read_element_def define_element_def out_of_order_def Let_def split: option.splits)
  with Cons show ?case by simp
qed simp

lemma notes_keep: "ca_days (foldl (\<lambda>d a. note_assignment a d) c as) = ca_days c \<and> same_frame (foldl (\<lambda>d a. note_assignment a d) c as) c"
proof (induction as arbitrary: c)
  case (Cons a as)
  show ?case using Cons.IH [of "note_assignment a c"] note_keeps [of a c] by (simp add: same_frame_def)
qed (simp add: same_frame_def)

lemma sort_keyed: "map snd (sort_key fst (map (\<lambda>a. (f a, a)) xs)) = sort_key f xs"
proof -
  have ins: "insort_key fst (f a, a) (map (\<lambda>a. (f a, a)) ys) = map (\<lambda>a. (f a, a)) (insort_key f a ys)" for a ys
    by (induction ys) simp_all
  have "sort_key fst (map (\<lambda>a. (f a, a)) xs) = map (\<lambda>a. (f a, a)) (sort_key f xs)"
    by (induction xs) (simp_all add: ins)
  then show ?thesis by (simp add: comp_def)
qed

section \<open>The whole frame\<close>

lemma render_same:
  assumes "map_of (ca_days c) = map_of (ca_days d)" "ca_weekdays c = ca_weekdays d"
  shows "fst (render px c) = fst (render px d)"
proof -
  have "fst ` set (ca_days c) = fst ` set (ca_days d)" using assms(1) by (metis dom_map_of_conv_image_fst)
  then have t: "written_types c = written_types d"
    unfolding written_types_def sorted_list_of_set_sort_remdups [symmetric] by (simp add: assms(2))
  have "written_span c = written_span d" by (intro ext) (simp add: written_span_def assms(1))
  then have "period_text p c = period_text p d" for p by (intro ext) (simp add: period_text_def Let_def)
  with t show ?thesis by (simp add: render_def Let_def)
qed

lemma sorted_assignments:
  assumes "map_err order_of as = Inr (map order_value as)" "filter is_assignment (xml_iter frame) = as"
  shows "frame_assignments frame = Inr (sort_key order_value as)"
proof -
  have "map_err (\<lambda>a. rbind (order_of a) (\<lambda>n. Inr (n, a))) as = Inr (map (\<lambda>a. (order_value a, a)) as)"
    using assms(1) by (simp add: map_err_Inr_iff)
  then show ?thesis by (simp add: frame_assignments_def assms(2) sort_keyed)
qed

lemma own_in_order: "in_order [] dt as \<Longrightarrow> filter (\<lambda>a. child_ref a ''DayTypeRef'' = dt) (sort_key order_value as) = filter (\<lambda>a. child_ref a ''DayTypeRef'' = dt) as"
  by (simp add: in_order_def own_orders_def filter_sort sort_key_id_if_sorted)


definition streamed_sample :: xml where
  "streamed_sample = Element ''ServiceCalendarFrame'' [] None
     [Element ''OperatingDay'' [(''id'', ''d1'')] None [Element ''CalendarDate'' [] (Some ''20'') []],
      Element ''DayTypeAssignment'' [(''order'', ''1'')] None
        [Element ''OperatingDayRef'' [(''ref'', ''d1'')] None [], Element ''DayTypeRef'' [(''ref'', ''t'')] None []],
      Element ''DayTypeAssignment'' [(''order'', ''1'')] None
        [Element ''Date'' [] (Some ''25'') [], Element ''DayTypeRef'' [(''ref'', ''t'')] None []]]"


end
