(* ===== verification/Ojp_Adapter.thy ===== *)
theory Ojp_Adapter
  imports Adapter_Properties
begin

text \<open>
  The OJP adapter, \<open>canonical_adapters/ojp_adapter.py\<close>: an \<open>OJPTripDelivery\<close> document to canonical
  journeys. A node is an element of the parsed tree, its tag with the namespace in braces; parsing the
  text is a parameter (\<open>None\<close> for a text that is not safe, well-formed XML), as is \<open>float()\<close> of a text
  (\<open>fl\<close>, None where it raises or is not finite).
\<close>

section \<open>The parsed tree\<close>

datatype node = Node (nd_tag: str) (nd_text: "str option") (nd_children: "node list")

definition OJP_NS :: str where "OJP_NS = ''http://www.vdv.de/ojp''"
definition SIRI_NS :: str where "SIRI_NS = ''http://www.siri.org.uk/siri''"

text \<open>\<open>ojp:X\<close> and \<open>siri:X\<close> of a path.\<close>

definition ojp :: "str \<Rightarrow> str" where "ojp name = ''{'' @ OJP_NS @ ''}'' @ name"
definition siri :: "str \<Rightarrow> str" where "siri name = ''{'' @ SIRI_NS @ ''}'' @ name"

fun nodes_below :: "node \<Rightarrow> node list" where
  "nodes_below (Node tag t cs) = Node tag t cs # concat (map nodes_below cs)"

text \<open>\<open>findall\<close> of a path: the children along its tags, in document order.\<close>

fun select_path :: "str list \<Rightarrow> node list \<Rightarrow> node list" where
  "select_path [] ns = ns"
| "select_path (tag # path) ns = select_path path (concat (map (\<lambda>n. filter (\<lambda>c. nd_tag c = tag) (nd_children n)) ns))"

definition find_node :: "node \<Rightarrow> str list \<Rightarrow> node option" where
  "find_node n path = (case select_path path [n] of [] \<Rightarrow> None | m # ms \<Rightarrow> Some m)"

definition find_text :: "node \<Rightarrow> str list \<Rightarrow> str option" where
  "find_text n path = map_option (\<lambda>m. or_empty (nd_text m)) (find_node n path)"

definition text_of :: "node \<Rightarrow> str list \<Rightarrow> str option" where
  "text_of n path = (case find_text n path of Some t \<Rightarrow> none_if_empty t | None \<Rightarrow> None)"

section \<open>Numbers and durations\<close>

definition float_or_none :: "(str \<Rightarrow> real option) \<Rightarrow> str option \<Rightarrow> real option" where
  "float_or_none fl v = (case v of None \<Rightarrow> None | Some s \<Rightarrow> fl (py_strip s))"

definition int_or_zero :: "str option \<Rightarrow> int" where
  "int_or_zero v = (case py_int (py_strip (or_empty v)) of Some n \<Rightarrow> n | None \<Rightarrow> 0)"

text \<open>The groups of \<open>_ISO_DURATION\<close>: a run of digits belongs to the group whose letter follows it.\<close>

definition digits_unit :: "char \<Rightarrow> str \<Rightarrow> nat \<times> str" where
  "digits_unit unit s = (let ds = takeWhile is_decimal s; rest = dropWhile is_decimal s in
     if ds \<noteq> [] \<and> rest \<noteq> [] \<and> hd rest = unit then (digits_value ds, tl rest) else (0, s))"

definition seconds_unit :: "str \<Rightarrow> real \<times> str" where
  "seconds_unit s = (let ds = takeWhile is_decimal s; rest = dropWhile is_decimal s in
     if ds = [] then (0, s)
     else if rest \<noteq> [] \<and> hd rest = CHR ''.'' then
       (let fs = takeWhile is_decimal (tl rest); rest' = dropWhile is_decimal (tl rest) in
          if fs \<noteq> [] \<and> rest' \<noteq> [] \<and> hd rest' = CHR ''S''
          then (real (digits_value ds) + real (digits_value fs) / 10 ^ length fs, tl rest') else (0, s))
     else if rest \<noteq> [] \<and> hd rest = CHR ''S'' then (real (digits_value ds), tl rest)
     else (0, s))"

definition time_part :: "str \<Rightarrow> (nat \<times> nat \<times> real) \<times> str" where
  "time_part s = (case digits_unit (CHR ''H'') s of (h, s1) \<Rightarrow> case digits_unit (CHR ''M'') s1 of (m, s2) \<Rightarrow>
     case seconds_unit s2 of (sec, s3) \<Rightarrow> ((h, m, sec), s3))"

definition iso_duration_to_seconds :: "str option \<Rightarrow> int" where
  "iso_duration_to_seconds v = (case py_strip (or_empty v) of
      [] \<Rightarrow> 0
    | c # s \<Rightarrow>
        if c \<noteq> CHR ''P'' then 0
        else (case digits_unit (CHR ''Y'') s of (_, s1) \<Rightarrow> case digits_unit (CHR ''M'') s1 of (_, s2) \<Rightarrow>
              case digits_unit (CHR ''W'') s2 of (weeks, s3) \<Rightarrow> case digits_unit (CHR ''D'') s3 of (days, s4) \<Rightarrow>
              case (if s4 \<noteq> [] \<and> hd s4 = CHR ''T'' then time_part (tl s4) else ((0, 0, 0), s4)) of ((h, m, sec), s5) \<Rightarrow>
                if s5 = [] then \<lfloor>real (days * 86400) + real (weeks * 604800) + real (h * 3600) + real (m * 60) + sec\<rfloor> else 0))"

section \<open>Places\<close>

record ojp_place =
  op_place_name :: "str option"
  op_lat :: "real option"
  op_lon :: "real option"

definition geo_of :: "(str \<Rightarrow> real option) \<Rightarrow> node \<Rightarrow> real option \<times> real option" where
  "geo_of fl geo = (float_or_none fl (find_text geo [siri ''Latitude'']), float_or_none fl (find_text geo [siri ''Longitude'']))"

definition index_place :: "(str \<Rightarrow> real option) \<Rightarrow> (str \<times> ojp_place) list \<Rightarrow> node \<Rightarrow> (str \<times> ojp_place) list" where
  "index_place fl index place =
     (let name = find_text place [ojp ''Name'', ojp ''Text''];
          pos = (case find_node place [ojp ''GeoPosition''] of None \<Rightarrow> (None, None) | Some geo \<Rightarrow> geo_of fl geo);
          entry = \<lparr>op_place_name = name, op_lat = fst pos, op_lon = snd pos\<rparr>
      in foldl (\<lambda>ix ref. if truthy ref then alist_set (or_empty ref) entry ix else ix) index
           [find_text place [ojp ''StopPlace'', ojp ''StopPlaceRef''], find_text place [ojp ''StopPoint'', siri ''StopPointRef'']])"

definition index_places :: "(str \<Rightarrow> real option) \<Rightarrow> node \<Rightarrow> (str \<times> ojp_place) list" where
  "index_places fl doc = foldl (index_place fl) [] (filter (\<lambda>n. nd_tag n = ojp ''Place'') (nodes_below doc))"

definition place_name :: "(str \<times> ojp_place) list \<Rightarrow> str option \<Rightarrow> str option" where
  "place_name places ref = (case map_of places (or_empty ref) of Some p \<Rightarrow> op_place_name p | None \<Rightarrow> None)"

definition place_coords :: "(str \<times> ojp_place) list \<Rightarrow> str option \<Rightarrow> real option \<times> real option" where
  "place_coords places ref = (case map_of places (or_empty ref) of Some p \<Rightarrow> (op_lat p, op_lon p) | None \<Rightarrow> (None, None))"

section \<open>Legs\<close>

definition STOP_SOURCE :: str where "STOP_SOURCE = ''ojp:ch''"
definition SLOID_PREFIX :: str where "SLOID_PREFIX = ''ch:1:sloid:''"

definition float_position :: "real option \<times> real option \<Rightarrow> geo_position option" where
  "float_position p = (case p of (Some la, Some lo) \<Rightarrow> position (JFloat la) (JFloat lo) | _ \<Rightarrow> None)"

definition ojp_stop_location :: "str option \<Rightarrow> str option \<Rightarrow> real option \<times> real option \<Rightarrow> py_error + canonical_location" where
  "ojp_stop_location ref name coords = (let pos = float_position coords in
     case ref of
       None \<Rightarrow> Inr (location_of None name pos)
     | Some r \<Rightarrow>
         if r = [] then Inr (location_of None name pos)
         else rbind (viator_stop_place STOP_SOURCE r name pos None None) (\<lambda>s.
           Inr (location_of (Some (s\<lparr>sp_codes := (if starts_with r SLOID_PREFIX then [(''SLOID'', r)] else [])\<rparr>)) name pos)))"

definition ojp_call :: "node option \<Rightarrow> (str \<times> ojp_place) list \<Rightarrow> str list \<Rightarrow> py_error + canonical_location \<times> str option" where
  "ojp_call el places time_path = (case el of
      None \<Rightarrow> Inr (location_of None None None, None)
    | Some n \<Rightarrow>
        (let ref = text_of n [siri ''StopPointRef''];
             name = or_text (text_of n [ojp ''StopPointName'', ojp ''Text'']) (place_name places ref)
         in rbind (ojp_stop_location ref name (place_coords places ref)) (\<lambda>l. Inr (l, text_of n time_path))))"

definition ojp_service :: "runtime \<Rightarrow> node \<Rightarrow> canonical_service \<times> str" where
  "ojp_service rt svc =
     (let pt_mode = text_of svc [ojp ''Mode'', ojp ''PtMode''];
          source_mode = (case pt_mode of Some m \<Rightarrow> rt_upper rt m | None \<Rightarrow> ''TRANSIT'');
          category_code = or_text (text_of svc [ojp ''ProductCategory'', ojp ''ShortName'', ojp ''Text''])
            (text_of svc [ojp ''Mode'', ojp ''ShortName'', ojp ''Text'']);
          category_name = text_of svc [ojp ''ProductCategory'', ojp ''Name'', ojp ''Text''];
          operator_ref = text_of svc [siri ''OperatorRef'']
      in (\<lparr>sv_mode = mode_family rt (Some source_mode),
           sv_product_category = (if truthy category_code \<or> truthy category_name
             then Some \<lparr>pc_code = category_code, pc_name = category_name\<rparr> else None),
           sv_line = text_of svc [ojp ''PublicCode''], sv_train_number = text_of svc [ojp ''TrainNumber''],
           sv_published_name = text_of svc [ojp ''PublishedServiceName'', ojp ''Text''], sv_route_long_name = None,
           sv_line_ref = text_of svc [siri ''LineRef''], sv_journey_ref = text_of svc [ojp ''JourneyRef''],
           sv_destination_text = text_of svc [ojp ''DestinationText'', ojp ''Text''],
           sv_operator = (if truthy operator_ref
             then Some \<lparr>op_ref = operator_ref, op_name = None, op_code = None, op_url = None\<rparr> else None),
           sv_feed = None\<rparr>, source_mode))"

definition text_instant :: "clock \<Rightarrow> str option \<Rightarrow> instant option" where
  "text_instant ck t = parse_instant ck (case t of None \<Rightarrow> JNull | Some s \<Rightarrow> JStr s)"

definition ojp_timed_leg :: "runtime \<Rightarrow> clock \<Rightarrow> node \<Rightarrow> int \<Rightarrow> (str \<times> ojp_place) list \<Rightarrow> py_error + canonical_leg" where
  "ojp_timed_leg rt ck timed duration places =
     rbind (ojp_call (find_node timed [ojp ''LegBoard'']) places [ojp ''ServiceDeparture'', ojp ''TimetabledTime'']) (\<lambda>(origin, departure).
     rbind (ojp_call (find_node timed [ojp ''LegAlight'']) places [ojp ''ServiceArrival'', ojp ''TimetabledTime'']) (\<lambda>(destination, arrival).
     let service = map_option (ojp_service rt) (find_node timed [ojp ''Service'']) in
     checked ''CanonicalLeg'' valid_leg
       \<lparr>leg_kind = (if service \<noteq> None then Timed else Continuous), leg_origin = origin, leg_destination = destination,
        leg_departure = timing (text_instant ck departure), leg_arrival = timing (text_instant ck arrival),
        leg_duration_seconds = duration, leg_distance_meters = None, leg_service = map_option fst service,
        leg_continuous_mode = None, leg_source_mode = map_option snd service\<rparr>))"

definition leg_endpoint :: "(str \<Rightarrow> real option) \<Rightarrow> node \<Rightarrow> (str \<times> ojp_place) list \<Rightarrow> str option \<times> (real option \<times> real option) \<times> str option" where
  "leg_endpoint fl el places =
     (let name = find_text el [ojp ''Name'', ojp ''Text'']; ref = find_text el [siri ''StopPointRef''] in
      case find_node el [ojp ''GeoPosition''] of
        Some geo \<Rightarrow> (name, geo_of fl geo, ref)
      | None \<Rightarrow> if truthy ref then (or_text name (place_name places ref), place_coords places ref, ref)
          else (name, (None, None), ref))"

definition walk_end :: "(str \<Rightarrow> real option) \<Rightarrow> node option \<Rightarrow> (str \<times> ojp_place) list \<Rightarrow> py_error + canonical_location" where
  "walk_end fl el places = (case el of
      None \<Rightarrow> Inr (location_of None None None)
    | Some n \<Rightarrow> (case leg_endpoint fl n places of (name, coords, ref) \<Rightarrow> ojp_stop_location ref name coords))"

definition walk_leg :: "(str \<Rightarrow> real option) \<Rightarrow> node \<Rightarrow> leg_kind \<Rightarrow> int \<Rightarrow> (str \<times> ojp_place) list \<Rightarrow> py_error + canonical_leg" where
  "walk_leg fl wk kind duration places =
     rbind (walk_end fl (find_node wk [ojp ''LegStart'']) places) (\<lambda>origin.
     rbind (walk_end fl (find_node wk [ojp ''LegEnd'']) places) (\<lambda>destination.
     checked ''CanonicalLeg'' valid_leg
       \<lparr>leg_kind = kind, leg_origin = origin, leg_destination = destination, leg_departure = None, leg_arrival = None,
        leg_duration_seconds = duration,
        leg_distance_meters = (case float_or_none fl (find_text wk [ojp ''Length'']) of Some l \<Rightarrow> if l \<ge> 0 then Some l else None | None \<Rightarrow> None),
        leg_service = None, leg_continuous_mode = Some ''WALK'', leg_source_mode = Some ''WALK''\<rparr>))"

definition ojp_leg :: "runtime \<Rightarrow> clock \<Rightarrow> (str \<Rightarrow> real option) \<Rightarrow> (str \<times> ojp_place) list \<Rightarrow> node \<Rightarrow> py_error + canonical_leg option" where
  "ojp_leg rt ck fl places el =
     (let duration = iso_duration_to_seconds (text_of el [ojp ''Duration'']) in
      case find_node el [ojp ''TimedLeg''] of
        Some timed \<Rightarrow> rbind (ojp_timed_leg rt ck timed duration places) (\<lambda>l. Inr (Some l))
      | None \<Rightarrow> (case find_node el [ojp ''ContinuousLeg''] of
            Some wk \<Rightarrow> rbind (walk_leg fl wk Continuous duration places) (\<lambda>l. Inr (Some l))
          | None \<Rightarrow> (case find_node el [ojp ''TransferLeg''] of
                Some wk \<Rightarrow> rbind (walk_leg fl wk Transfer duration places) (\<lambda>l. Inr (Some l))
              | None \<Rightarrow> Inr None)))"

section \<open>Journeys\<close>

definition ojp_journey :: "runtime \<Rightarrow> clock \<Rightarrow> (str \<Rightarrow> real option) \<Rightarrow> (str \<times> ojp_place) list \<Rightarrow> nat \<times> node \<Rightarrow> py_error + canonical_journey" where
  "ojp_journey rt ck fl places ranked = (case ranked of (rank, trip) \<Rightarrow>
     rbind (map_err (ojp_leg rt ck fl places) (select_path [ojp ''Leg''] [trip])) (\<lambda>legs.
     checked ''CanonicalJourney'' valid_journey
       \<lparr>j_id = ''ojp:ch:'' @ show_nat rank,
        j_source = \<lparr>js_provider = Ojp, js_role = Reference, js_session_id = None, js_engine = None, js_adapter_version = ADAPTER_VERSION,
          js_stitched_from_sessions = [], js_via_hubs = []\<rparr>,
        j_legs = List.map_filter (\<lambda>l. l) legs, j_departure = timing (text_instant ck (text_of trip [ojp ''StartTime''])),
        j_arrival = timing (text_instant ck (text_of trip [ojp ''EndTime''])),
        j_duration_seconds = iso_duration_to_seconds (text_of trip [ojp ''Duration'']),
        j_source_transfer_count = Some (int_or_zero (text_of trip [ojp ''Transfers'']))\<rparr>))"

definition journeys_from_trip_delivery :: "runtime \<Rightarrow> clock \<Rightarrow> (str \<Rightarrow> real option) \<Rightarrow> node option \<Rightarrow> py_error + canonical_journey list" where
  "journeys_from_trip_delivery rt ck fl parsed = (case parsed of
      None \<Rightarrow> Inr []
    | Some doc \<Rightarrow> map_err (ojp_journey rt ck fl (index_places fl doc))
        (py_enumerate (filter (\<lambda>n. nd_tag n = ojp ''Trip'') (nodes_below doc))))"

section \<open>Every body gives journeys\<close>

lemma digits_unit_nonneg: "digits_unit u s = (n, t) \<Longrightarrow> 0 \<le> n" by simp

lemma seconds_unit_nonneg: "0 \<le> fst (seconds_unit s)"
  by (simp add: seconds_unit_def Let_def)

lemma time_part_nonneg: "time_part s = ((h, m, sec), t) \<Longrightarrow> 0 \<le> sec"
  using seconds_unit_nonneg by (auto simp: time_part_def split: prod.splits) (metis fst_conv)

lemma iso_duration_nonneg: "0 \<le> iso_duration_to_seconds v"
  by (auto simp: iso_duration_to_seconds_def split: list.splits prod.splits if_splits dest: time_part_nonneg)

lemma float_position_valid: "opt_all valid_position (float_position p)"
  by (auto simp: float_position_def valid_position_of split: prod.splits option.splits)

lemma valid_stop_codes [simp]: "valid_stop_place (s\<lparr>sp_codes := cs\<rparr>) = valid_stop_place s"
  by (simp add: valid_stop_place_def)

lemma ojp_stop_location_total: "\<exists>l. ojp_stop_location ref name coords = Inr l \<and> valid_location l"
proof -
  let ?pos = "float_position coords"
  have plain: "valid_location (location_of None name ?pos)" by (rule valid_location_of) (simp_all add: float_position_valid)
  show ?thesis
  proof (cases "ref = None \<or> ref = Some []")
    case True
    with plain show ?thesis by (auto simp: ojp_stop_location_def Let_def)
  next
    case False
    then obtain r where r: "ref = Some r" "r \<noteq> []" by (cases ref) auto
    obtain s where s: "viator_stop_place STOP_SOURCE r name ?pos None None = Inr s" "valid_stop_place s"
      using viator_stop_place_Inr [OF r(2) _ float_position_valid, of STOP_SOURCE name coords None None] by (auto simp: STOP_SOURCE_def)
    have "valid_location (location_of (Some (s\<lparr>sp_codes := cs\<rparr>)) name ?pos)" for cs
      by (rule valid_location_of) (simp_all add: float_position_valid s)
    then show ?thesis using r s by (simp add: ojp_stop_location_def Let_def)
  qed
qed

lemma plain_location_valid [simp]: "valid_location (location_of None None None)"
  by (rule valid_location_of) simp_all

lemma ojp_call_total: "\<exists>l t. ojp_call el places path = Inr (l, t) \<and> valid_location l"
proof (cases el)
  case None
  then show ?thesis by (simp add: ojp_call_def)
next
  case (Some n)
  let ?ref = "text_of n [siri ''StopPointRef'']"
  obtain l where "ojp_stop_location ?ref (or_text (text_of n [ojp ''StopPointName'', ojp ''Text'']) (place_name places ?ref))
      (place_coords places ?ref) = Inr l" "valid_location l" using ojp_stop_location_total by blast
  with Some show ?thesis by (simp add: ojp_call_def Let_def)
qed

lemma walk_end_total: "\<exists>l. walk_end fl el places = Inr l \<and> valid_location l"
  using ojp_stop_location_total by (auto simp: walk_end_def split: option.splits prod.splits)

lemma ojp_timed_leg_total:
  assumes "0 \<le> duration"
  shows "\<exists>l. ojp_timed_leg rt ck timed duration places = Inr l \<and> valid_leg l \<and> leg_duration_seconds l = duration
     \<and> (leg_kind l = Timed \<longleftrightarrow> find_node timed [ojp ''Service''] \<noteq> None)"
proof -
  obtain l t where "ojp_call (find_node timed [ojp ''LegBoard'']) places [ojp ''ServiceDeparture'', ojp ''TimetabledTime''] = Inr (l, t)" "valid_location l"
    using ojp_call_total by blast
  moreover obtain l' t' where "ojp_call (find_node timed [ojp ''LegAlight'']) places [ojp ''ServiceArrival'', ojp ''TimetabledTime''] = Inr (l', t')" "valid_location l'"
    using ojp_call_total by blast
  ultimately show ?thesis using assms
    by (cases "find_node timed [ojp ''Service'']") (simp_all add: ojp_timed_leg_def rbind_def valid_leg_def service_on_timed_legs_only_def checked_def Let_def)
qed

lemma walk_leg_total:
  assumes "0 \<le> duration" "kind \<noteq> Timed"
  shows "\<exists>l. walk_leg fl wk kind duration places = Inr l \<and> valid_leg l \<and> leg_duration_seconds l = duration \<and> leg_kind l = kind"
proof -
  obtain l where "walk_end fl (find_node wk [ojp ''LegStart'']) places = Inr l" "valid_location l" using walk_end_total by blast
  moreover obtain l' where "walk_end fl (find_node wk [ojp ''LegEnd'']) places = Inr l'" "valid_location l'" using walk_end_total by blast
  ultimately show ?thesis using assms
    by (auto simp: walk_leg_def rbind_def valid_leg_def service_on_timed_legs_only_def checked_def split: option.splits)
qed

lemma ojp_leg_total: "\<exists>l. ojp_leg rt ck fl places el = Inr l \<and> opt_all valid_leg l"
proof -
  let ?d = "iso_duration_to_seconds (text_of el [ojp ''Duration''])"
  note d = iso_duration_nonneg [of "text_of el [ojp ''Duration'']"]
  consider (timed) n where "find_node el [ojp ''TimedLeg''] = Some n"
    | (continuous) n where "find_node el [ojp ''TimedLeg''] = None" "find_node el [ojp ''ContinuousLeg''] = Some n"
    | (transfer) n where "find_node el [ojp ''TimedLeg''] = None" "find_node el [ojp ''ContinuousLeg''] = None" "find_node el [ojp ''TransferLeg''] = Some n"
    | (unknown) "find_node el [ojp ''TimedLeg''] = None" "find_node el [ojp ''ContinuousLeg''] = None" "find_node el [ojp ''TransferLeg''] = None"
    by fastforce
  then show ?thesis
  proof cases
    case timed
    then show ?thesis using ojp_timed_leg_total [OF d, of rt ck n places] by (auto simp: ojp_leg_def Let_def rbind_def)
  next
    case continuous
    then show ?thesis using walk_leg_total [OF d, of Continuous fl n places] by (auto simp: ojp_leg_def Let_def rbind_def)
  next
    case transfer
    then show ?thesis using walk_leg_total [OF d, of Transfer fl n places] by (auto simp: ojp_leg_def Let_def rbind_def)
  next
    case unknown
    then show ?thesis by (simp add: ojp_leg_def Let_def)
  qed
qed

definition ojp_trips :: "node option \<Rightarrow> node list" where
  "ojp_trips parsed = (case parsed of None \<Rightarrow> [] | Some doc \<Rightarrow> filter (\<lambda>n. nd_tag n = ojp ''Trip'') (nodes_below doc))"

definition negative_transfers :: "node \<Rightarrow> bool" where
  "negative_transfers trip \<longleftrightarrow> int_or_zero (text_of trip [ojp ''Transfers'']) < 0"

lemma ojp_rank: "j_id j = ''ojp:ch:'' @ show_nat rank \<Longrightarrow> source_rank j = Inr (int rank)"
  using rank_id_source_rank [of j "''ojp''" "Some ''ch''" rank] by (simp add: rank_id_def)

lemma ojp_journey_result:
  "case ojp_journey rt ck fl places (rank, trip) of
     Inr j \<Rightarrow> \<not> negative_transfers trip \<and> valid_journey j \<and> source_rank j = Inr (int rank) \<and> js_role (j_source j) = Reference
   | Inl e \<Rightarrow> negative_transfers trip \<and> e = ValidationError ''CanonicalJourney''"
proof -
  have "\<forall>el \<in> set (select_path [ojp ''Leg''] [trip]). \<exists>l. ojp_leg rt ck fl places el = Inr l" using ojp_leg_total by blast
  then obtain legs where legs: "map_err (ojp_leg rt ck fl places) (select_path [ojp ''Leg''] [trip]) = Inr legs"
    using map_err_total by blast
  have "opt_all valid_leg l" if "l \<in> set legs" for l
    using legs that ojp_leg_total [of rt ck fl places] by (auto simp: map_err_Inr_iff in_set_conv_nth) (metis Inr_inject)
  then have "list_all valid_leg (List.map_filter (\<lambda>l. l) legs)" using opt_all_simps by (fastforce simp: list_all_iff List.map_filter_def)
  then show ?thesis using iso_duration_nonneg [of "text_of trip [ojp ''Duration'']"] legs
    by (auto simp: ojp_journey_def rbind_def checked_def valid_journey_def negative_transfers_def ADAPTER_VERSION_def intro!: ojp_rank)
qed

lemma map_err_Inl: "map_err f xs = Inl e \<Longrightarrow> \<exists>x \<in> set xs. f x = Inl e"
  by (induction xs) (auto split: sum.splits)


text \<open>Durations as the reference writes them; a comma or a missing letter is no duration.\<close>

lemma ojp_durations:
  "iso_duration_to_seconds (Some ''PT1H9M'') = 4140" "iso_duration_to_seconds (Some ''PT4M'') = 240"
  "iso_duration_to_seconds (Some '' P1DT0.5S '') = 86400" "iso_duration_to_seconds (Some ''PT1H9'') = 0"
  by (simp_all add: iso_duration_to_seconds_def digits_unit_def seconds_unit_def time_part_def digits_value_def is_decimal_def
      py_strip_def is_space_def Let_def)

end
