(* ===== verification/Country_Geometry.thy ===== *)
theory Country_Geometry
  imports Adapters
begin

text \<open>
  The country of a position, \<open>app/osm_geo.py\<close>, and the UIC prefixes of
  \<open>app/gtfs_cross_border_filter.py\<close> it reads. The bundled boundaries and the border patch are arguments:
  a feature is its ISO code and its geometry, as the GeoJSON files give them. Coordinates are reals;
  a point is longitude and latitude. \<open>min\<close> and \<open>max\<close> of no point raise, so does loading such a feature.
\<close>

section \<open>UIC prefixes\<close>

definition UIC_COUNTRY_NAMES :: "(str \<times> str) list" where
  "UIC_COUNTRY_NAMES = [(''10'', ''FI''), (''20'', ''RU''), (''21'', ''BY''), (''22'', ''UA''), (''23'', ''MD''), (''24'', ''LT''),
     (''25'', ''LV''), (''26'', ''EE''), (''41'', ''AL''), (''50'', ''BA''), (''51'', ''PL''), (''52'', ''BG''), (''53'', ''RO''),
     (''54'', ''CZ''), (''55'', ''HU''), (''56'', ''SK''), (''60'', ''IE''), (''62'', ''ME''), (''65'', ''MK''), (''70'', ''GB''),
     (''71'', ''ES''), (''72'', ''RS''), (''73'', ''GR''), (''74'', ''SE''), (''75'', ''TR''), (''76'', ''NO''), (''78'', ''HR''),
     (''79'', ''SI''), (''80'', ''DE''), (''81'', ''AT''), (''82'', ''LU''), (''83'', ''IT''), (''84'', ''NL''), (''85'', ''CH''),
     (''86'', ''DK''), (''87'', ''FR''), (''88'', ''BE''), (''94'', ''PT'')]"

definition UIC_PREFIX_BY_ISO :: "(str \<times> str) list" where
  "UIC_PREFIX_BY_ISO = map (\<lambda>(px, cc). (cc, px)) UIC_COUNTRY_NAMES"

definition country_prefix :: "str option \<Rightarrow> str option" where
  "country_prefix stop_id = (if \<not> truthy stop_id then None else map_option (take 2) (UIC_RE (or_empty stop_id)))"

section \<open>The countries\<close>

definition COUNTRY_NAMES :: "(str \<times> str) list" where
  "COUNTRY_NAMES = [(''AT'', ''Austria''), (''BE'', ''Belgium''), (''BG'', ''Bulgaria''), (''HR'', ''Croatia''), (''CY'', ''Cyprus''),
     (''CZ'', ''Czechia''), (''DK'', ''Denmark''), (''EE'', ''Estonia''), (''FI'', ''Finland''), (''FR'', ''France''),
     (''DE'', ''Germany''), (''GR'', ''Greece''), (''HU'', ''Hungary''), (''IS'', ''Iceland''), (''IE'', ''Ireland''),
     (''IT'', ''Italy''), (''LV'', ''Latvia''), (''LI'', ''Liechtenstein''), (''LT'', ''Lithuania''), (''LU'', ''Luxembourg''),
     (''MT'', ''Malta''), (''NL'', ''Netherlands''), (''NO'', ''Norway''), (''PL'', ''Poland''), (''PT'', ''Portugal''),
     (''RO'', ''Romania''), (''SK'', ''Slovakia''), (''SI'', ''Slovenia''), (''ES'', ''Spain''), (''SE'', ''Sweden''),
     (''CH'', ''Switzerland''), (''GB'', ''United Kingdom'')]"

definition VALID_COUNTRIES :: "str list" where "VALID_COUNTRIES = map fst COUNTRY_NAMES"

definition OTHER_COUNTRIES :: "str list" where
  "OTHER_COUNTRIES = [''AD'', ''AL'', ''AX'', ''BA'', ''BY'', ''FO'', ''GG'', ''IM'', ''JE'', ''MC'',
     ''MD'', ''ME'', ''MK'', ''RS'', ''RU'', ''SM'', ''TR'', ''UA'', ''VA'', ''XK'']"

definition NEIGHBOUR_COUNTRIES :: "str list" where
  "NEIGHBOUR_COUNTRIES = [''AM'', ''AZ'', ''BR'', ''CN'', ''GE'', ''GI'', ''IQ'', ''IR'', ''JP'', ''KP'', ''KZ'', ''MN'', ''SR'', ''SY'']"

definition BUNDLED_COUNTRIES :: "str list" where
  "BUNDLED_COUNTRIES = VALID_COUNTRIES @ OTHER_COUNTRIES @ NEIGHBOUR_COUNTRIES"

definition COAST_TOLERANCE_KM :: real where "COAST_TOLERANCE_KM = 10"
definition BORDER_DOUBT_KM :: real where "BORDER_DOUBT_KM = 3"
definition V1_BORDER_DOUBT_KM :: real where "V1_BORDER_DOUBT_KM = 1 / 2"
definition SUGGEST_MIN_STOPS :: nat where "SUGGEST_MIN_STOPS = 5"

text \<open>\<open>Aring\<close> is \<open>CHR 0xC5\<close>.\<close>

definition OTHER_COUNTRY_NAMES :: "(str \<times> str) list" where
  "OTHER_COUNTRY_NAMES = [(''AD'', ''Andorra''), (''AL'', ''Albania''), (''AM'', ''Armenia''), (''AX'', CHR 0xC5 # ''land''),
     (''AZ'', ''Azerbaijan''), (''BA'', ''Bosnia and Herzegovina''), (''BR'', ''Brazil''), (''BY'', ''Belarus''), (''CN'', ''China''),
     (''FO'', ''Faroe Islands''), (''GE'', ''Georgia''), (''GG'', ''Guernsey''), (''GI'', ''Gibraltar''), (''IM'', ''Isle of Man''),
     (''IQ'', ''Iraq''), (''IR'', ''Iran''), (''JE'', ''Jersey''), (''JP'', ''Japan''), (''KP'', ''North Korea''),
     (''KZ'', ''Kazakhstan''), (''MC'', ''Monaco''), (''MD'', ''Moldova''), (''ME'', ''Montenegro''), (''MK'', ''North Macedonia''),
     (''MN'', ''Mongolia''), (''RS'', ''Serbia''), (''RU'', ''Russia''), (''SM'', ''San Marino''), (''SR'', ''Suriname''),
     (''SY'', ''Syria''), (''TR'', ''Turkey''), (''UA'', ''Ukraine''), (''VA'', ''Vatican City''), (''XK'', ''Kosovo'')]"

definition BUNDLED_COUNTRY_NAMES :: "(str \<times> str) list" where
  "BUNDLED_COUNTRY_NAMES = COUNTRY_NAMES @ OTHER_COUNTRY_NAMES"

fun checked_codes :: "runtime \<Rightarrow> json list \<Rightarrow> py_error + str list" where
  "checked_codes rt [] = Inr []"
| "checked_codes rt (item # items) = (case item of
      JStr s \<Rightarrow> (let code = rt_upper rt (py_strip s) in
        if code = [] then checked_codes rt items
        else if code \<notin> set VALID_COUNTRIES then Inl (ValueError ''osm_countries'')
        else rbind (checked_codes rt items) (\<lambda>codes. Inr (code # codes)))
    | _ \<Rightarrow> Inl (ValueError ''osm_countries''))"

definition validate_countries :: "runtime \<Rightarrow> json \<Rightarrow> py_error + str list" where
  "validate_countries rt value = (case value of
      JNull \<Rightarrow> Inr []
    | JArr items \<Rightarrow> rbind (checked_codes rt items) (\<lambda>codes. Inr (sort (remdups codes)))
    | _ \<Rightarrow> if value = JStr [] then Inr [] else Inl (ValueError ''osm_countries''))"

section \<open>Boundaries\<close>

type_synonym point = "real \<times> real"
type_synonym ring = "point list"
type_synonym polygon = "ring list"

datatype geometry = Polygon polygon | MultiPolygon "polygon list" | Other_geometry

record bbox =
  min_lon :: real
  min_lat :: real
  max_lon :: real
  max_lat :: real

fun iter_polygons :: "geometry \<Rightarrow> polygon list" where
  "iter_polygons (Polygon p) = [p]"
| "iter_polygons (MultiPolygon ps) = ps"
| "iter_polygons Other_geometry = []"

definition geom_bbox :: "geometry \<Rightarrow> py_error + bbox" where
  "geom_bbox geom = (let pts = concat (concat (iter_polygons geom)) in
     if pts = [] then Inl (ValueError ''min() iterable argument is empty'')
     else Inr \<lparr>min_lon = Min (set (map fst pts)), min_lat = Min (set (map snd pts)),
       max_lon = Max (set (map fst pts)), max_lat = Max (set (map snd pts))\<rparr>)"

text \<open>\<open>_features\<close>: the features with a code and a geometry.\<close>

definition load_features :: "(str option \<times> geometry option) list \<Rightarrow> py_error + (str \<times> bbox \<times> geometry) list" where
  "load_features fs = map_err (\<lambda>(cc, geom). rbind (geom_bbox geom) (\<lambda>b. Inr (cc, b, geom)))
     (List.map_filter (\<lambda>f. case f of (Some cc, Some geom) \<Rightarrow> if cc = [] then None else Some (cc, geom) | _ \<Rightarrow> None) fs)"

type_synonym country_polygon = "str \<times> bbox \<times> polygon"

definition polygons_of :: "(str \<times> geometry) list \<Rightarrow> py_error + country_polygon list" where
  "polygons_of fs = map_err (\<lambda>(cc, p). rbind (geom_bbox (Polygon p)) (\<lambda>b. Inr (cc, b, p)))
     (concat (map (\<lambda>(cc, geom). map (Pair cc) (iter_polygons geom)) fs))"

definition bundled_polygons :: "(str option \<times> geometry option) list \<Rightarrow> py_error + country_polygon list" where
  "bundled_polygons fs = rbind (load_features fs) (\<lambda>features. polygons_of (map (\<lambda>(cc, b, geom). (cc, geom)) features))"

definition patch_polygons :: "(str option \<times> geometry option) list \<Rightarrow> py_error + country_polygon list" where
  "patch_polygons fs = polygons_of (List.map_filter
     (\<lambda>f. case f of (Some cc, Some geom) \<Rightarrow> if cc \<in> set VALID_COUNTRIES then Some (cc, geom) else None | _ \<Rightarrow> None) fs)"

text \<open>The segments from each point to the one before it, the first to the last.\<close>

definition ring_edges :: "ring \<Rightarrow> (point \<times> point) list" where
  "ring_edges r = zip r (last r # r)"

definition crosses :: "real \<Rightarrow> real \<Rightarrow> point \<times> point \<Rightarrow> bool" where
  "crosses plon plat e = (case e of ((xi, yi), (xj, yj)) \<Rightarrow>
     (yi > plat) \<noteq> (yj > plat) \<and> plon < (xj - xi) * (plat - yi) / (yj - yi) + xi)"

definition ring_contains :: "real \<Rightarrow> real \<Rightarrow> ring \<Rightarrow> bool" where
  "ring_contains plon plat r = foldl (\<lambda>inside e. if crosses plon plat e then \<not> inside else inside) False (ring_edges r)"

definition polygon_contains :: "real \<Rightarrow> real \<Rightarrow> polygon \<Rightarrow> bool" where
  "polygon_contains plon plat p = foldl (\<lambda>inside r. if ring_contains plon plat r then \<not> inside else inside) False p"

definition in_bbox :: "real \<Rightarrow> real \<Rightarrow> real \<Rightarrow> real \<Rightarrow> bbox \<Rightarrow> bool" where
  "in_bbox d_lat d_lon plat plon b = (min_lon b - d_lon \<le> plon \<and> plon \<le> max_lon b + d_lon \<and> min_lat b - d_lat \<le> plat \<and> plat \<le> max_lat b + d_lat)"

text \<open>\<open>allowed\<close> is None for every country.\<close>

definition allows :: "str list option \<Rightarrow> str \<Rightarrow> bool" where
  "allows allowed cc = (case allowed of None \<Rightarrow> True | Some isos \<Rightarrow> cc \<in> set isos)"

definition containing :: "real \<Rightarrow> real \<Rightarrow> str list option \<Rightarrow> country_polygon list \<Rightarrow> str option" where
  "containing plat plon allowed ps = map_option fst
     (find (\<lambda>(cc, b, p). allows allowed cc \<and> in_bbox 0 0 plat plon b \<and> polygon_contains plon plat p) ps)"

section \<open>Distances\<close>

definition segment_km :: "real \<times> real \<Rightarrow> real \<times> real \<Rightarrow> real" where
  "segment_km a b = (case (a, b) of ((ax, ay), (bx, by')) \<Rightarrow>
     (let dx = bx - ax; dy = by' - ay; length2 = dx * dx + dy * dy;
          t = (if length2 > 0 then max 0 (min 1 (- (ax * dx + ay * dy) / length2)) else 0)
      in sqrt ((ax + t * dx)\<^sup>2 + (ay + t * dy)\<^sup>2)))"

text \<open>A point in km from the position, with the km of a degree of latitude and of longitude there.\<close>

definition scale_at :: "real \<Rightarrow> real \<times> real" where
  "scale_at plat = (11057 / 100, 11132 / 100 * max (cos (plat * pi / 180)) (5 / 100))"

definition to_km :: "real \<Rightarrow> real \<Rightarrow> real \<times> real \<Rightarrow> point \<Rightarrow> real \<times> real" where
  "to_km plat plon k p = ((fst p - plon) * snd k, (snd p - plat) * fst k)"

definition pairwise_points :: "ring \<Rightarrow> (point \<times> point) list" where
  "pairwise_points r = zip r (tl r)"

text \<open>None is the infinite distance of a polygon without a segment.\<close>

definition closer :: "real option \<Rightarrow> real \<Rightarrow> real option" where
  "closer best d = (case best of None \<Rightarrow> Some d | Some b \<Rightarrow> Some (min b d))"

definition polygon_km :: "real \<Rightarrow> real \<Rightarrow> polygon \<Rightarrow> real \<times> real \<Rightarrow> real option" where
  "polygon_km plat plon p k = foldl closer None
     (map (\<lambda>(a, b). segment_km (to_km plat plon k a) (to_km plat plon k b)) (concat (map pairwise_points p)))"

definition note_distance :: "real \<Rightarrow> str \<Rightarrow> real option \<Rightarrow> (str \<times> real) list \<Rightarrow> (str \<times> real) list" where
  "note_distance km cc distance found = (case distance of
      None \<Rightarrow> found
    | Some d \<Rightarrow> if d \<le> km \<and> (case map_of found cc of None \<Rightarrow> True | Some best \<Rightarrow> d < best) then alist_set cc d found else found)"

definition boundaries_within :: "real \<Rightarrow> real \<Rightarrow> real \<Rightarrow> str list option \<Rightarrow> country_polygon list \<Rightarrow> (str \<times> real) list" where
  "boundaries_within plat plon km allowed ps = (let k = scale_at plat in
     foldl (\<lambda>found (cc, b, p). if allows allowed cc \<and> in_bbox (km / fst k) (km / snd k) plat plon b
         then note_distance km cc (polygon_km plat plon p k) found else found) [] ps)"

definition segment_far :: "real \<Rightarrow> (real \<times> real) \<times> (real \<times> real) \<Rightarrow> bool" where
  "segment_far km s = (case s of ((ax, ay), (bx, by')) \<Rightarrow>
     (ax > km \<and> bx > km) \<or> (ax < - km \<and> bx < - km) \<or> (ay > km \<and> by' > km) \<or> (ay < - km \<and> by' < - km))"

definition ring_within :: "real \<Rightarrow> real \<Rightarrow> ring \<Rightarrow> real \<times> real \<Rightarrow> real \<Rightarrow> bool" where
  "ring_within plat plon r k km = list_ex (\<lambda>(p, q). let s = (to_km plat plon k p, to_km plat plon k q) in
     \<not> segment_far km s \<and> segment_km (fst s) (snd s) \<le> km) (pairwise_points r)"

definition patch_line_within :: "real \<Rightarrow> real \<Rightarrow> real \<Rightarrow> str \<Rightarrow> country_polygon list \<Rightarrow> bool" where
  "patch_line_within plat plon km cc patch = (let k = scale_at plat in
     list_ex (\<lambda>(other, b, p). other \<noteq> cc \<and> in_bbox (km / fst k) (km / snd k) plat plon b
       \<and> list_ex (\<lambda>r. ring_within plat plon r k km) p) patch)"

section \<open>The country of a position\<close>

definition NON_V1 :: "str list" where "NON_V1 = filter (\<lambda>cc. cc \<notin> set VALID_COUNTRIES) BUNDLED_COUNTRIES"

definition patch_in_doubt :: "real \<Rightarrow> real \<Rightarrow> str \<Rightarrow> country_polygon list \<Rightarrow> country_polygon list \<Rightarrow> bool" where
  "patch_in_doubt plat plon cc ps patch =
     (patch_line_within plat plon V1_BORDER_DOUBT_KM cc patch \<or> containing plat plon (Some NON_V1) ps \<noteq> None
      \<or> boundaries_within plat plon BORDER_DOUBT_KM (Some NON_V1) ps \<noteq> [])"

definition country_for_point :: "country_polygon list \<Rightarrow> real \<Rightarrow> real \<Rightarrow> str option" where
  "country_for_point ps plat plon = containing plat plon (Some VALID_COUNTRIES) ps"

text \<open>\<open>min(near, key=near.__getitem__)\<close>: the first of the nearest.\<close>

definition nearest :: "(str \<times> real) list \<Rightarrow> (str \<times> real) option" where
  "nearest found = min_by snd found"

definition country_of_position :: "country_polygon list \<Rightarrow> country_polygon list \<Rightarrow> real \<Rightarrow> real \<Rightarrow> str option" where
  "country_of_position ps patch plat plon =
     (if \<bar>plat\<bar> \<le> 1 / 10000000 \<and> \<bar>plon\<bar> \<le> 1 / 10000000 then None
      else (case containing plat plon None patch of
          Some cc \<Rightarrow> if patch_in_doubt plat plon cc ps patch then None else Some cc
        | None \<Rightarrow>
            (case (case containing plat plon None ps of
                Some cc \<Rightarrow> Some (cc, 0)
              | None \<Rightarrow> nearest (boundaries_within plat plon COAST_TOLERANCE_KM None ps)) of
              None \<Rightarrow> None
            | Some (cc, distance) \<Rightarrow>
                if cc \<in> set NEIGHBOUR_COUNTRIES then None
                else if boundaries_within plat plon (distance + BORDER_DOUBT_KM) (Some (filter (\<lambda>i. i \<noteq> cc) BUNDLED_COUNTRIES)) ps \<noteq> []
                then None else Some cc)))"

section \<open>Stops\<close>

definition country_of_stop :: "country_polygon list \<Rightarrow> str option \<Rightarrow> real option \<Rightarrow> real option \<Rightarrow> str option" where
  "country_of_stop ps stop_id la lo =
     (case (case country_prefix stop_id of Some px \<Rightarrow> map_of UIC_COUNTRY_NAMES px | None \<Rightarrow> None) of
        Some cc \<Rightarrow> if cc \<in> set VALID_COUNTRIES then Some cc
          else (case (la, lo) of (Some a, Some b) \<Rightarrow> if \<bar>a\<bar> > 1 / 10000000 \<or> \<bar>b\<bar> > 1 / 10000000 then country_for_point ps a b else None | _ \<Rightarrow> None)
      | None \<Rightarrow> (case (la, lo) of (Some a, Some b) \<Rightarrow> if \<bar>a\<bar> > 1 / 10000000 \<or> \<bar>b\<bar> > 1 / 10000000 then country_for_point ps a b else None | _ \<Rightarrow> None))"

definition detect_from_stops :: "country_polygon list \<Rightarrow> (str option \<times> real option \<times> real option) list \<Rightarrow> (str \<times> nat) list" where
  "detect_from_stops ps stops = foldl (\<lambda>counts (stop_id, la, lo). case country_of_stop ps stop_id la lo of
       None \<Rightarrow> counts | Some cc \<Rightarrow> alist_set cc (alist_get counts cc 0 + 1) counts) [] stops"

definition suggested_countries :: "(str \<times> nat) list \<Rightarrow> str list" where
  "suggested_countries counts = sort (map fst (filter (\<lambda>(cc, n). n \<ge> SUGGEST_MIN_STOPS) counts))"

text \<open>The codes and the polygons of the crop.\<close>

definition crop_geojson :: "runtime \<Rightarrow> (str \<times> bbox \<times> geometry) list \<Rightarrow> str list \<Rightarrow> py_error + str list \<times> polygon list" where
  "crop_geojson rt features countries = rbind (validate_countries rt (JArr (map JStr countries))) (\<lambda>wanted.
     Inr (wanted, concat (map (\<lambda>(cc, b, geom). iter_polygons geom) (filter (\<lambda>(cc, b, geom). cc \<in> set wanted) features))))"

end
