(* ===== verification/Country_Geometry_Properties.thy ===== *)
theory Country_Geometry_Properties
  imports Country_Geometry
begin

text \<open>
  The lookups of a country test a polygon's box before its rings and skip segments that are far on one
  side. Here they are proved equal to the plain lookups, and the country of a position is shown to be
  clear of the borders the boundaries cannot tell.
\<close>

section \<open>Parity of a ray\<close>

lemma toggle_parity: "foldl (\<lambda>inside e. if P e then \<not> inside else inside) b es = (b \<noteq> odd (length (filter P es)))"
  by (induction es arbitrary: b) auto

fun changes :: "(point \<Rightarrow> bool) \<Rightarrow> point \<Rightarrow> point list \<Rightarrow> nat" where
  "changes Q a [] = 0"
| "changes Q a (x # xs) = (if Q x \<noteq> Q a then 1 else 0) + changes Q x xs"

lemma changes_parity: "odd (changes Q a xs) = (Q a \<noteq> Q (last (a # xs)))"
  by (induction xs arbitrary: a) (auto split: if_splits)

lemma changes_filter:
  fixes Q :: "point \<Rightarrow> bool"
  shows "length (filter (\<lambda>(x, y). Q x \<noteq> Q y) (zip xs (a # xs))) = changes Q a xs"
  by (induction xs arbitrary: a) auto

text \<open>Round a ring, the sides change an even number of times.\<close>

lemma ring_changes_even:
  fixes Q :: "point \<Rightarrow> bool"
  shows "even (length (filter (\<lambda>(x, y). Q x \<noteq> Q y) (ring_edges r)))"
  using changes_parity [of Q "last r" r] changes_filter [of Q r "last r"] by (cases "r = []") (auto simp: ring_edges_def)

lemma ring_edges_points: "(p, q) \<in> set (ring_edges r) \<Longrightarrow> p \<in> set r \<and> q \<in> set r"
proof -
  assume e: "(p, q) \<in> set (ring_edges r)"
  then have "p \<in> set r" "q \<in> set (last r # r)" unfolding ring_edges_def by (auto dest: set_zip_leftD set_zip_rightD)
  moreover have "r \<noteq> []" using e by (auto simp: ring_edges_def)
  ultimately show ?thesis by auto
qed

text \<open>The point of a crossing segment at the position's height lies between its ends.\<close>

lemma crossing_between:
  fixes xi :: real
  assumes "(yi > plat) \<noteq> (yj > plat)" "lo \<le> xi" "lo \<le> xj" "xi \<le> hi" "xj \<le> hi"
  shows "lo \<le> (xj - xi) * (plat - yi) / (yj - yi) + xi \<and> (xj - xi) * (plat - yi) / (yj - yi) + xi \<le> hi"
proof -
  define t where "t = (plat - yi) / (yj - yi)"
  have t: "0 \<le> t" "t \<le> 1" using assms(1) by (auto simp: t_def divide_simps)
  have "(xj - xi) * (plat - yi) / (yj - yi) + xi = (xj - xi) * t + xi" by (simp add: t_def)
  also have "\<dots> = (1 - t) * xi + t * xj" by (simp add: algebra_simps)
  finally have e: "(xj - xi) * (plat - yi) / (yj - yi) + xi = (1 - t) * xi + t * xj" .
  have "(1 - t) * lo + t * lo \<le> (1 - t) * xi + t * xj" using t assms by (intro add_mono mult_left_mono) auto
  moreover have "(1 - t) * xi + t * xj \<le> (1 - t) * hi + t * hi" using t assms by (intro add_mono mult_left_mono) auto
  ultimately show ?thesis unfolding e by (simp add: algebra_simps)
qed

definition boxed :: "bbox \<Rightarrow> polygon \<Rightarrow> bool" where
  "boxed b p \<longleftrightarrow> (\<forall>r \<in> set p. \<forall>q \<in> set r. min_lon b \<le> fst q \<and> fst q \<le> max_lon b \<and> min_lat b \<le> snd q \<and> snd q \<le> max_lat b)"

lemma ring_contains_parity: "ring_contains plon plat r = odd (length (filter (crosses plon plat) (ring_edges r)))"
  by (simp add: ring_contains_def toggle_parity)

lemma outside_ring:
  assumes "\<forall>q \<in> set r. min_lon b \<le> fst q \<and> fst q \<le> max_lon b \<and> min_lat b \<le> snd q \<and> snd q \<le> max_lat b"
    "\<not> in_bbox 0 0 plat plon b"
  shows "\<not> ring_contains plon plat r"
proof -
  let ?side = "\<lambda>(x, y). (snd x > plat) \<noteq> (snd (y :: point) > plat)"
  have bounds: "min_lon b \<le> fst p \<and> fst p \<le> max_lon b \<and> min_lat b \<le> snd p \<and> snd p \<le> max_lat b
      \<and> min_lon b \<le> fst q \<and> fst q \<le> max_lon b \<and> min_lat b \<le> snd q \<and> snd q \<le> max_lat b" if "(p, q) \<in> set (ring_edges r)" for p q
    using ring_edges_points [OF that] assms(1) by blast
  have between: "min_lon b \<le> (fst q - fst p) * (plat - snd p) / (snd q - snd p) + fst p
      \<and> (fst q - fst p) * (plat - snd p) / (snd q - snd p) + fst p \<le> max_lon b"
    if "(p, q) \<in> set (ring_edges r)" "?side (p, q)" for p q
    using that bounds [OF that(1)] by (intro crossing_between) auto
  have c: "crosses plon plat (p, q) = (?side (p, q) \<and> plon < (fst q - fst p) * (plat - snd p) / (snd q - snd p) + fst p)" for p q
    by (simp add: crosses_def split: prod.splits)
  consider (height) "plat < min_lat b \<or> max_lat b < plat" | (right) "max_lon b < plon" | (left) "plon < min_lon b"
    using assms(2) by (auto simp: in_bbox_def not_le)
  then have "filter (crosses plon plat) (ring_edges r) = [] \<or> filter (crosses plon plat) (ring_edges r) = filter ?side (ring_edges r)"
  proof cases
    case height
    have "\<not> crosses plon plat (p, q)" if "(p, q) \<in> set (ring_edges r)" for p q
      using bounds [OF that] height unfolding c by auto
    then show ?thesis by (auto simp: filter_empty_conv)
  next
    case right
    have "\<not> crosses plon plat (p, q)" if "(p, q) \<in> set (ring_edges r)" for p q
      using between [OF that] right unfolding c by linarith
    then show ?thesis by (auto simp: filter_empty_conv)
  next
    case left
    have "crosses plon plat (p, q) = ?side (p, q)" if "(p, q) \<in> set (ring_edges r)" for p q
      using between [OF that] left unfolding c by linarith
    then have "crosses plon plat e = ?side e" if "e \<in> set (ring_edges r)" for e using that by (cases e) blast
    then show ?thesis by (intro disjI2 filter_cong) auto
  qed
  moreover have "even (length (filter ?side (ring_edges r)))"
    using ring_changes_even [of "\<lambda>x. snd x > plat" r] by (simp add: case_prod_unfold)
  ultimately show ?thesis unfolding ring_contains_parity by (elim disjE) simp_all
qed

lemma outside_polygon: "boxed b p \<Longrightarrow> \<not> in_bbox 0 0 plat plon b \<Longrightarrow> \<not> polygon_contains plon plat p"
proof -
  assume a: "boxed b p" "\<not> in_bbox 0 0 plat plon b"
  then have "filter (ring_contains plon plat) p = []" using outside_ring [OF _ a(2)] by (auto simp: boxed_def filter_empty_conv)
  then show ?thesis by (simp add: polygon_contains_def toggle_parity)
qed

section \<open>Distances\<close>

text \<open>The point of the segment the distance is taken to.\<close>

lemma segment_km_point:
  "\<exists>t. 0 \<le> t \<and> t \<le> 1 \<and> segment_km (ax, ay) (bx, by') = sqrt ((ax + t * (bx - ax))\<^sup>2 + (ay + t * (by' - ay))\<^sup>2)"
proof -
  let ?dx = "bx - ax" and ?dy = "by' - ay"
  let ?t = "if ?dx * ?dx + ?dy * ?dy > 0 then max 0 (min 1 (- (ax * ?dx + ay * ?dy) / (?dx * ?dx + ?dy * ?dy))) else 0"
  have "0 \<le> ?t" "?t \<le> 1" by simp_all
  moreover have "segment_km (ax, ay) (bx, by') = sqrt ((ax + ?t * ?dx)\<^sup>2 + (ay + ?t * ?dy)\<^sup>2)"
    by (simp add: segment_km_def Let_def)
  ultimately show ?thesis by blast
qed

lemma on_segment:
  fixes a b lo hi :: real
  assumes "0 \<le> t" "t \<le> 1" "lo \<le> a" "lo \<le> b" "a \<le> hi" "b \<le> hi"
  shows "lo \<le> a + t * (b - a) \<and> a + t * (b - a) \<le> hi"
proof -
  have e: "a + t * (b - a) = (1 - t) * a + t * b" by (simp add: algebra_simps)
  have "(1 - t) * lo + t * lo \<le> (1 - t) * a + t * b" using assms by (intro add_mono mult_left_mono) auto
  moreover have "(1 - t) * a + t * b \<le> (1 - t) * hi + t * hi" using assms by (intro add_mono mult_left_mono) auto
  ultimately show ?thesis unfolding e by (simp add: algebra_simps)
qed

lemma segment_km_ge:
  assumes "lx \<le> ax" "lx \<le> bx" "ax \<le> hx" "bx \<le> hx" "ly \<le> ay" "ly \<le> by'" "ay \<le> hy" "by' \<le> hy"
  shows "lx \<le> segment_km (ax, ay) (bx, by') \<and> - hx \<le> segment_km (ax, ay) (bx, by')
     \<and> ly \<le> segment_km (ax, ay) (bx, by') \<and> - hy \<le> segment_km (ax, ay) (bx, by')"
proof -
  obtain t where t: "0 \<le> t" "t \<le> 1" and d: "segment_km (ax, ay) (bx, by') = sqrt ((ax + t * (bx - ax))\<^sup>2 + (ay + t * (by' - ay))\<^sup>2)"
    using segment_km_point by blast
  let ?x = "ax + t * (bx - ax)" and ?y = "ay + t * (by' - ay)"
  have "\<bar>?x\<bar> \<le> sqrt (?x\<^sup>2 + ?y\<^sup>2)" "\<bar>?y\<bar> \<le> sqrt (?x\<^sup>2 + ?y\<^sup>2)" by (simp_all add: real_le_rsqrt)
  moreover have "lx \<le> ?x" "?x \<le> hx" "ly \<le> ?y" "?y \<le> hy" using on_segment [OF t] assms by blast+
  ultimately show ?thesis unfolding d by linarith
qed

lemma segment_far_km:
  assumes "segment_far km s"
  shows "km < segment_km (fst s) (snd s)"
proof -
  obtain ax ay bx by' where s: "s = ((ax, ay), (bx, by'))" by (metis prod.exhaust)
  have g: "min ax bx \<le> segment_km (ax, ay) (bx, by')" "- max ax bx \<le> segment_km (ax, ay) (bx, by')"
    "min ay by' \<le> segment_km (ax, ay) (bx, by')" "- max ay by' \<le> segment_km (ax, ay) (bx, by')"
    using segment_km_ge [of "min ax bx" ax bx "max ax bx" "min ay by'" ay by' "max ay by'"] by auto
  show ?thesis using assms g unfolding s segment_far_def by auto
qed

lemma scale_positive: "0 < fst (scale_at plat)" "0 < snd (scale_at plat)"
proof -
  have "0 < max (cos (plat * pi / 180)) (5 / 100)" by (simp add: less_max_iff_disj)
  then show "0 < snd (scale_at plat)" by (simp add: scale_at_def)
qed (simp add: scale_at_def)

section \<open>Boxes lose nothing\<close>

lemma geom_bbox_boxed:
  assumes "geom_bbox (Polygon p) = Inr b"
  shows "boxed b p"
  unfolding boxed_def
proof (intro ballI)
  fix r q assume q: "r \<in> set p" "q \<in> set r"
  then have "fst q \<in> set (map fst (concat p))" "snd q \<in> set (map snd (concat p))" by (auto intro!: imageI)
  then have "Min (set (map fst (concat p))) \<le> fst q" "fst q \<le> Max (set (map fst (concat p)))"
    "Min (set (map snd (concat p))) \<le> snd q" "snd q \<le> Max (set (map snd (concat p)))"
    by (intro Min_le Max_ge; simp only: List.finite_set)+
  then show "min_lon b \<le> fst q \<and> fst q \<le> max_lon b \<and> min_lat b \<le> snd q \<and> snd q \<le> max_lat b"
    using assms by (auto simp: geom_bbox_def Let_def split: if_splits)
qed

lemma map_err_mem: "map_err f xs = Inr ys \<Longrightarrow> y \<in> set ys \<Longrightarrow> \<exists>x \<in> set xs. f x = Inr y"
  by (metis map_err_Inr_iff in_set_conv_nth nth_mem)

lemma polygons_boxed:
  assumes "polygons_of fs = Inr ps" "(cc, b, p) \<in> set ps"
  shows "boxed b p"
  using map_err_mem [OF assms(1) [unfolded polygons_of_def] assms(2)] geom_bbox_boxed by (auto split: prod.splits)

lemma closer_simps [simp]: "closer None d = Some d" "closer (Some b) d = Some (min b d)"
  by (simp_all add: closer_def)

definition polygon_segments :: "real \<Rightarrow> real \<Rightarrow> polygon \<Rightarrow> real \<times> real \<Rightarrow> ((real \<times> real) \<times> (real \<times> real)) list" where
  "polygon_segments plat plon p k = map (\<lambda>(a, b). (to_km plat plon k a, to_km plat plon k b)) (concat (map pairwise_points p))"

lemma foldl_closer: "foldl closer best ds = (case best of
    None \<Rightarrow> if ds = [] then None else Some (Min (set ds)) | Some d \<Rightarrow> Some (Min (insert d (set ds))))"
proof (induction ds arbitrary: best)
  case Nil
  then show ?case by (simp split: option.splits)
next
  case (Cons d ds)
  have "Min (insert (min x d) (set ds)) = Min (insert x (insert d (set ds)))" for x
    by (cases "ds = []") (simp_all add: min.assoc)
  then show ?case by (simp add: Cons.IH split: option.splits)
qed

lemma polygon_km_segments: "polygon_km plat plon p k = foldl closer None (map (\<lambda>s. segment_km (fst s) (snd s)) (polygon_segments plat plon p k))"
  by (simp add: polygon_km_def polygon_segments_def comp_def case_prod_unfold)

lemma polygon_km_attained:
  assumes "polygon_km plat plon p k = Some d"
  shows "\<exists>s \<in> set (polygon_segments plat plon p k). segment_km (fst s) (snd s) = d"
proof -
  let ?ds = "map (\<lambda>s. segment_km (fst s) (snd s)) (polygon_segments plat plon p k)"
  have "?ds \<noteq> []" "d = Min (set ?ds)" using assms unfolding polygon_km_segments foldl_closer by (auto split: if_splits)
  then have "d \<in> set ?ds" by (metis List.finite_set Min_in set_empty)
  then show ?thesis by auto
qed

lemma polygon_km_least:
  assumes "s \<in> set (polygon_segments plat plon p k)"
  shows "\<exists>d. polygon_km plat plon p k = Some d \<and> d \<le> segment_km (fst s) (snd s)"
  using assms unfolding polygon_km_segments foldl_closer by (auto intro!: Min_le)

lemma segment_points:
  assumes "s \<in> set (polygon_segments plat plon p k)"
  shows "\<exists>r \<in> set p. \<exists>a \<in> set r. \<exists>b \<in> set r. s = (to_km plat plon k a, to_km plat plon k b)"
proof -
  obtain r a b where "r \<in> set p" "(a, b) \<in> set (zip r (tl r))" "s = (to_km plat plon k a, to_km plat plon k b)"
    using assms by (auto simp: polygon_segments_def pairwise_points_def)
  then show ?thesis by (metis in_set_zipE list.sel(2) list.set_sel(2))
qed

lemma near_in_bbox:
  assumes "boxed b p" "s \<in> set (polygon_segments plat plon p (scale_at plat))" "segment_km (fst s) (snd s) \<le> km"
  shows "in_bbox (km / fst (scale_at plat)) (km / snd (scale_at plat)) plat plon b"
proof -
  let ?k = "scale_at plat"
  obtain r a c where r: "r \<in> set p" "a \<in> set r" "c \<in> set r" and s: "s = (to_km plat plon ?k a, to_km plat plon ?k c)"
    using segment_points [OF assms(2)] by blast
  have box: "min_lon b \<le> fst q \<and> fst q \<le> max_lon b \<and> min_lat b \<le> snd q \<and> snd q \<le> max_lat b" if "q \<in> {a, c}" for q
    using assms(1) r that by (auto simp: boxed_def)
  note k = scale_positive [of plat]
  have "(min_lon b - plon) * snd ?k \<le> segment_km (fst s) (snd s) \<and> - ((max_lon b - plon) * snd ?k) \<le> segment_km (fst s) (snd s)
      \<and> (min_lat b - plat) * fst ?k \<le> segment_km (fst s) (snd s) \<and> - ((max_lat b - plat) * fst ?k) \<le> segment_km (fst s) (snd s)"
    unfolding s to_km_def fst_conv snd_conv using box [of a] box [of c] k
    by (intro segment_km_ge mult_right_mono) auto
  with assms(3) have "(min_lon b - plon) * snd ?k \<le> km" "(plon - max_lon b) * snd ?k \<le> km"
    "(min_lat b - plat) * fst ?k \<le> km" "(plat - max_lat b) * fst ?k \<le> km" by (auto simp: algebra_simps)
  then have "min_lon b - plon \<le> km / snd ?k" "plon - max_lon b \<le> km / snd ?k" "min_lat b - plat \<le> km / fst ?k" "plat - max_lat b \<le> km / fst ?k"
    using k by (simp_all add: le_divide_eq)
  then show ?thesis by (auto simp: in_bbox_def)
qed

lemma near_polygon_in_bbox:
  assumes "boxed b p" "polygon_km plat plon p (scale_at plat) = Some d" "d \<le> km"
  shows "in_bbox (km / fst (scale_at plat)) (km / snd (scale_at plat)) plat plon b"
  using polygon_km_attained [OF assms(2)] near_in_bbox [OF assms(1)] assms(3) by metis

section \<open>The plain lookups\<close>

definition boundary_km :: "real \<Rightarrow> real \<Rightarrow> country_polygon list \<Rightarrow> str \<Rightarrow> real option" where
  "boundary_km plat plon ps cc = foldl closer None
     (List.map_filter (\<lambda>(i, b, p). if i = cc then polygon_km plat plon p (scale_at plat) else None) ps)"

definition up_to :: "real \<Rightarrow> real option \<Rightarrow> real option" where
  "up_to km distance = (case distance of None \<Rightarrow> None | Some d \<Rightarrow> if d \<le> km then Some d else None)"

lemma find_boxed:
  assumes "\<forall>(cc, b, p) \<in> set ps. boxed b p"
  shows "containing plat plon allowed ps = map_option fst (find (\<lambda>(cc, b, p). allows allowed cc \<and> polygon_contains plon plat p) ps)"
proof -
  have "(allows allowed cc \<and> in_bbox 0 0 plat plon b \<and> polygon_contains plon plat p) = (allows allowed cc \<and> polygon_contains plon plat p)"
    if "(cc, b, p) \<in> set ps" for cc b p using assms that outside_polygon [of b p plat plon] by blast
  then show ?thesis unfolding containing_def by (intro arg_cong [where f = "map_option fst"] find_cong) auto
qed

lemma boundary_km_snoc: "boundary_km plat plon (ps @ [(i, b, p)]) cc
   = (case (if i = cc then polygon_km plat plon p (scale_at plat) else None) of None \<Rightarrow> boundary_km plat plon ps cc
      | Some d \<Rightarrow> closer (boundary_km plat plon ps cc) d)"
  by (auto simp: boundary_km_def List.map_filter_def split: option.splits)

lemma boundaries_within_plain:
  assumes "\<forall>(cc, b, p) \<in> set ps. boxed b p"
  shows "map_of (boundaries_within plat plon km allowed ps) cc = (if allows allowed cc then up_to km (boundary_km plat plon ps cc) else None)"
  using assms
proof (induction ps rule: rev_induct)
  case Nil
  then show ?case by (simp add: boundaries_within_def boundary_km_def up_to_def map_filter_simps Let_def)
next
  case (snoc x ps)
  obtain i b p where x: "x = (i, b, p)" by (metis prod.exhaust)
  let ?k = "scale_at plat"
  define found where "found = boundaries_within plat plon km allowed ps"
  define o' where "o' = polygon_km plat plon p ?k"
  have step: "boundaries_within plat plon km allowed (ps @ [x])
      = (if allows allowed i \<and> in_bbox (km / fst ?k) (km / snd ?k) plat plon b then note_distance km i o' found else found)"
    by (simp add: boundaries_within_def found_def o'_def x Let_def)
  have ih: "map_of found cc = (if allows allowed cc then up_to km (boundary_km plat plon ps cc) else None)"
    using snoc by (simp add: found_def)
  have near: "in_bbox (km / fst ?k) (km / snd ?k) plat plon b" if "o' = Some d" "d \<le> km" for d
    using near_polygon_in_bbox [of b p plat plon d km] snoc.prems that by (simp add: x o'_def)
  show ?case
  proof (cases "i = cc \<and> allows allowed cc")
    case False
    have other: "map_of (note_distance km i o' found) cc = map_of found cc" if "i \<noteq> cc"
      using that by (simp add: note_distance_def split: option.splits)
    show ?thesis
    proof (cases "i = cc")
      case True
      with False show ?thesis unfolding step by (simp add: ih)
    next
      case False
      then show ?thesis unfolding step unfolding x boundary_km_snoc by (simp add: ih other)
    qed
  next
    case True
    show ?thesis
    proof (cases o')
      case None
      then show ?thesis unfolding step using True by (simp add: ih x boundary_km_snoc note_distance_def o'_def)
    next
      case (Some d)
      have bk: "boundary_km plat plon (ps @ [x]) cc = closer (boundary_km plat plon ps cc) d"
        using True Some by (simp add: x boundary_km_snoc o'_def)
      show ?thesis
      proof (cases "d \<le> km")
        case within_km: True
        then show ?thesis unfolding step bk using True Some near [OF Some within_km]
          by (auto simp: ih note_distance_def up_to_def min_def split: option.splits)
      next
        case False
        then show ?thesis unfolding step bk using True Some
          by (auto simp: ih note_distance_def up_to_def min_def split: option.splits)
      qed
    qed
  qed
qed

lemma ring_within_plain: "ring_within plat plon r k km \<longleftrightarrow> (\<exists>s \<in> set (polygon_segments plat plon [r] k). segment_km (fst s) (snd s) \<le> km)"
proof -
  have "(\<not> segment_far km s \<and> segment_km (fst s) (snd s) \<le> km) = (segment_km (fst s) (snd s) \<le> km)" for s
    using segment_far_km [of km s] by auto
  then show ?thesis by (simp add: ring_within_def list_ex_iff polygon_segments_def Let_def case_prod_unfold)
qed

lemma polygon_within_plain:
  "list_ex (\<lambda>r. ring_within plat plon r k km) p \<longleftrightarrow> up_to km (polygon_km plat plon p k) \<noteq> None"
proof -
  have "list_ex (\<lambda>r. ring_within plat plon r k km) p \<longleftrightarrow> (\<exists>s \<in> set (polygon_segments plat plon p k). segment_km (fst s) (snd s) \<le> km)"
    by (auto simp: list_ex_iff ring_within_plain polygon_segments_def)
  also have "\<dots> \<longleftrightarrow> up_to km (polygon_km plat plon p k) \<noteq> None"
  proof
    assume "\<exists>s \<in> set (polygon_segments plat plon p k). segment_km (fst s) (snd s) \<le> km"
    then obtain s where "s \<in> set (polygon_segments plat plon p k)" "segment_km (fst s) (snd s) \<le> km" by blast
    then show "up_to km (polygon_km plat plon p k) \<noteq> None" using polygon_km_least [of s plat plon p k] by (auto simp: up_to_def)
  next
    assume "up_to km (polygon_km plat plon p k) \<noteq> None"
    then obtain d where "polygon_km plat plon p k = Some d" "d \<le> km" by (auto simp: up_to_def split: option.splits if_splits)
    then show "\<exists>s \<in> set (polygon_segments plat plon p k). segment_km (fst s) (snd s) \<le> km" using polygon_km_attained by fastforce
  qed
  finally show ?thesis .
qed

lemma patch_line_plain:
  assumes "\<forall>(cc, b, p) \<in> set ps. boxed b p"
  shows "patch_line_within plat plon km cc ps \<longleftrightarrow> list_ex (\<lambda>(i, b, p). i \<noteq> cc \<and> up_to km (polygon_km plat plon p (scale_at plat)) \<noteq> None) ps"
proof -
  have "(i \<noteq> cc \<and> in_bbox (km / fst (scale_at plat)) (km / snd (scale_at plat)) plat plon b \<and> up_to km (polygon_km plat plon p (scale_at plat)) \<noteq> None)
      = (i \<noteq> cc \<and> up_to km (polygon_km plat plon p (scale_at plat)) \<noteq> None)" if "(i, b, p) \<in> set ps" for i b p
  proof -
    have "boxed b p" using assms that by blast
    then show ?thesis using near_polygon_in_bbox [of b p plat plon _ km] by (auto simp: up_to_def split: option.splits)
  qed
  then show ?thesis unfolding patch_line_within_def Let_def polygon_within_plain list_ex_iff by blast
qed

lemma all_boxed: "polygons_of fs = Inr ps \<Longrightarrow> \<forall>(cc, b, p) \<in> set ps. boxed b p"
  using polygons_boxed by fastforce

text \<open>C30: the shortcuts of the boundary lookups change no answer. For polygons loaded from any boundaries,
  the test of a polygon's box before its rings, the box grown by the distance asked for, and the skip of
  segments far on one side give what the plain lookups give: the first allowed polygon an even-odd ray
  finds, the least distance to each allowed country when it is at most the one asked, and whether the
  line of another country passes that near.\<close>

theorem lookups_ignore_boxes:
  assumes "polygons_of fs = Inr ps"
  shows "containing plat plon allowed ps = map_option fst (find (\<lambda>(cc, b, p). allows allowed cc \<and> polygon_contains plon plat p) ps)
    \<and> map_of (boundaries_within plat plon km allowed ps) cc = (if allows allowed cc then up_to km (boundary_km plat plon ps cc) else None)
    \<and> patch_line_within plat plon km cc ps = list_ex (\<lambda>(i, b, p). i \<noteq> cc \<and> up_to km (polygon_km plat plon p (scale_at plat)) \<noteq> None) ps"
  using find_boxed boundaries_within_plain patch_line_plain all_boxed [OF assms] by blast

definition sample_square :: polygon where
  "sample_square = [[(5, -5), (5, 5), (15, 5), (15, -5), (5, -5)]]"

lemma sample_square_loads:
  "polygons_of [(''FR'', Polygon sample_square)] = Inr [(''FR'', \<lparr>min_lon = 5, min_lat = -5, max_lon = 15, max_lat = 5\<rparr>, sample_square)]"
  by (simp add: polygons_of_def geom_bbox_def sample_square_def Let_def rbind_def)

lemma sample_square_holds: "polygon_contains 10 0 sample_square"
  by (simp add: polygon_contains_def ring_contains_def ring_edges_def crosses_def sample_square_def)

lemma lookups_ignore_boxes_witness:
  "\<exists>ps. polygons_of [(''FR'', Polygon sample_square)] = Inr ps \<and> containing 0 10 None ps = Some ''FR''"
  using lookups_ignore_boxes [OF sample_square_loads, of 0 10 None] sample_square_holds
  by (simp add: sample_square_loads allows_def)

section \<open>The country of a position\<close>

definition plain_lookup :: "real \<Rightarrow> real \<Rightarrow> country_polygon list \<Rightarrow> str option" where
  "plain_lookup plat plon ps = map_option fst (find (\<lambda>(cc, b, p). polygon_contains plon plat p) ps)"

text \<open>No boundary of these countries passes within the distance.\<close>

definition clear_of :: "real \<Rightarrow> real \<Rightarrow> real \<Rightarrow> str list \<Rightarrow> country_polygon list \<Rightarrow> bool" where
  "clear_of plat plon km ccs ps = list_all (\<lambda>cc. up_to km (boundary_km plat plon ps cc) = None) ccs"

lemma containing_plain: "polygons_of fs = Inr ps \<Longrightarrow> containing plat plon None ps = plain_lookup plat plon ps"
  using find_boxed [OF all_boxed] by (simp add: plain_lookup_def allows_def)

lemma within_clear:
  assumes "polygons_of fs = Inr ps" "boundaries_within plat plon km (Some ccs) ps = []"
  shows "clear_of plat plon km ccs ps"
proof -
  have "up_to km (boundary_km plat plon ps cc) = None" if "cc \<in> set ccs" for cc
    using boundaries_within_plain [OF all_boxed [OF assms(1)], of plat plon km "Some ccs" cc] assms(2) that by (simp add: allows_def)
  then show ?thesis by (simp add: clear_of_def list_all_iff)
qed

lemma boundaries_distinct: "distinct (map fst (boundaries_within plat plon km allowed ps))"
proof -
  have "distinct (map fst (foldl (\<lambda>found (cc, b, p). if allows allowed cc \<and> in_bbox d e plat plon b
         then note_distance km cc (polygon_km plat plon p k) found else found) found ps))" if "distinct (map fst found)" for d e k found
    using that
  proof (induction ps arbitrary: found)
    case (Cons x ps)
    have "distinct (map fst (note_distance km cc o' found))" for cc o'
      using Cons.prems by (auto simp: note_distance_def intro: distinct_alist_set split: option.splits)
    with Cons show ?case by (cases x) simp
  qed simp
  then show ?thesis by (simp add: boundaries_within_def Let_def)
qed

lemma nearest_boundary:
  assumes "polygons_of fs = Inr ps" "nearest (boundaries_within plat plon km None ps) = Some (cc, d)"
  shows "boundary_km plat plon ps cc = Some d \<and> d \<le> km \<and> (\<forall>i e. boundary_km plat plon ps i = Some e \<longrightarrow> d \<le> e)"
proof -
  let ?found = "boundaries_within plat plon km None ps"
  have plain: "map_of ?found i = up_to km (boundary_km plat plon ps i)" for i
    using boundaries_within_plain [OF all_boxed [OF assms(1)]] by (simp add: allows_def)
  have "(cc, d) \<in> set ?found" using assms(2) min_by_mem by (auto simp: nearest_def)
  then have "map_of ?found cc = Some d" using boundaries_distinct by simp
  then have d: "boundary_km plat plon ps cc = Some d" "d \<le> km" unfolding plain by (auto simp: up_to_def split: option.splits if_splits)
  have "d \<le> e" if "boundary_km plat plon ps i = Some e" for i e
  proof (cases "e \<le> km")
    case True
    then have "map_of ?found i = Some e" unfolding plain using that by (simp add: up_to_def)
    then have "(i, e) \<in> set ?found" by (rule map_of_SomeD)
    then show ?thesis using min_by_le [of snd ?found "(cc, d)" "(i, e)"] assms(2) by (simp add: nearest_def)
  qed (use d(2) in simp)
  with d show ?thesis by blast
qed

lemma polygons_countries:
  assumes "polygons_of fs = Inr ps" "(cc, b, p) \<in> set ps"
  shows "cc \<in> fst ` set fs"
proof -
  obtain x where x: "x \<in> set (concat (map (\<lambda>(cc, geom). map (Pair cc) (iter_polygons geom)) fs))"
      "(case x of (cc, p) \<Rightarrow> rbind (geom_bbox (Polygon p)) (\<lambda>b. Inr (cc, b, p))) = Inr (cc, b, p)"
    using map_err_mem [OF assms(1) [unfolded polygons_of_def] assms(2)] by blast
  from x(2) have "fst x = cc" by (cases x) simp
  moreover from x(1) have "fst x \<in> fst ` set fs" by force
  ultimately show ?thesis by simp
qed

lemma patch_countries:
  assumes "patch_polygons fs = Inr patch" "(cc, b, p) \<in> set patch"
  shows "cc \<in> set VALID_COUNTRIES"
  using polygons_countries [OF assms(1) [unfolded patch_polygons_def] assms(2)]
  by (auto simp: List.map_filter_def split: option.splits if_splits)

lemma valid_not_neighbour: "cc \<in> set VALID_COUNTRIES \<Longrightarrow> cc \<notin> set NEIGHBOUR_COUNTRIES"
proof -
  have "list_all (\<lambda>c. c \<notin> set NEIGHBOUR_COUNTRIES) VALID_COUNTRIES" by code_simp
  then show "cc \<in> set VALID_COUNTRIES \<Longrightarrow> cc \<notin> set NEIGHBOUR_COUNTRIES" by (simp add: list_all_iff)
qed

lemma bundled_loads: "bundled_polygons fs = Inr ps \<Longrightarrow> \<exists>gs. polygons_of gs = Inr ps"
  by (auto simp: bundled_polygons_def)

lemma patch_loads: "patch_polygons fs = Inr ps \<Longrightarrow> \<exists>gs. polygons_of gs = Inr ps"
  by (auto simp: patch_polygons_def)

lemma plain_lookup_mem: "plain_lookup plat plon ps = Some cc \<Longrightarrow> \<exists>b p. (cc, b, p) \<in> set ps \<and> polygon_contains plon plat p"
  by (auto simp: plain_lookup_def find_Some_iff) (metis nth_mem)

lemma not_containing:
  assumes "polygons_of fs = Inr ps" "containing plat plon (Some ccs) ps = None"
  shows "\<not> list_ex (\<lambda>(cc, b, p). cc \<in> set ccs \<and> polygon_contains plon plat p) ps"
  using assms(2) find_boxed [OF all_boxed [OF assms(1)]] by (fastforce simp: allows_def find_None_iff list_ex_iff)

text \<open>What makes a country sure inside the patch, and outside it.\<close>

definition sure_in_patch :: "real \<Rightarrow> real \<Rightarrow> country_polygon list \<Rightarrow> country_polygon list \<Rightarrow> str \<Rightarrow> bool" where
  "sure_in_patch plat plon ps patch cc \<longleftrightarrow>
     list_all (\<lambda>(i, b, p). i = cc \<or> up_to (1 / 2) (polygon_km plat plon p (scale_at plat)) = None) patch
     \<and> \<not> list_ex (\<lambda>(i, b, p). i \<in> set NON_V1 \<and> polygon_contains plon plat p) ps \<and> clear_of plat plon 3 NON_V1 ps"

definition sure_outside :: "real \<Rightarrow> real \<Rightarrow> country_polygon list \<Rightarrow> str \<Rightarrow> real \<Rightarrow> bool" where
  "sure_outside plat plon ps cc d \<longleftrightarrow>
     (case plain_lookup plat plon ps of
        Some i \<Rightarrow> i = cc \<and> d = 0
      | None \<Rightarrow> boundary_km plat plon ps cc = Some d \<and> d \<le> 10 \<and> (\<forall>i e. boundary_km plat plon ps i = Some e \<longrightarrow> d \<le> e))
     \<and> clear_of plat plon (d + 3) (filter (\<lambda>i. i \<noteq> cc) BUNDLED_COUNTRIES) ps"

lemma patch_sure:
  assumes "polygons_of fs = Inr ps" "polygons_of gs = Inr patch" "\<not> patch_in_doubt plat plon cc ps patch"
  shows "sure_in_patch plat plon ps patch cc"
proof -
  have "\<not> patch_line_within plat plon (1 / 2) cc patch" "containing plat plon (Some NON_V1) ps = None"
    "boundaries_within plat plon 3 (Some NON_V1) ps = []"
    using assms(3) by (auto simp: patch_in_doubt_def V1_BORDER_DOUBT_KM_def BORDER_DOUBT_KM_def)
  moreover have "list_all (\<lambda>(i, b, p). i = cc \<or> up_to (1 / 2) (polygon_km plat plon p (scale_at plat)) = None) patch"
    using calculation(1) unfolding patch_line_plain [OF all_boxed [OF assms(2)]]
    by (fastforce simp: list_all_iff list_ex_iff)
  ultimately show ?thesis using not_containing [OF assms(1)] within_clear [OF assms(1)] by (simp add: sure_in_patch_def)
qed

text \<open>C31: a position is given a country only where the boundaries can tell. It is never one of the
  neighbouring countries, nor the placeholder (0, 0). Inside the border patch it is the patch's country, with no
  other patch line within half a kilometre and no boundary of a country outside the first list within
  three; elsewhere it is the country whose boundary holds the position, or on a coast the one with the
  nearest boundary within ten kilometres, and every other country's boundary is more than three
  kilometres beyond.\<close>

theorem position_clear_of_borders:
  assumes "bundled_polygons fs = Inr ps" "patch_polygons gs = Inr patch" "country_of_position ps patch plat plon = Some cc"
  shows "cc \<notin> set NEIGHBOUR_COUNTRIES \<and> (plat, plon) \<noteq> (0, 0)
    \<and> (case plain_lookup plat plon patch of
         Some i \<Rightarrow> i = cc \<and> sure_in_patch plat plon ps patch cc
       | None \<Rightarrow> \<exists>d. sure_outside plat plon ps cc d)"
proof -
  obtain hs where ps: "polygons_of hs = Inr ps" using bundled_loads [OF assms(1)] by blast
  obtain ks where patch: "polygons_of ks = Inr patch" using patch_loads [OF assms(2)] by blast
  have zero: "(plat, plon) \<noteq> (0, 0)" using assms(3) by (auto simp: country_of_position_def)
  show ?thesis
  proof (cases "plain_lookup plat plon patch")
    case (Some i)
    then have "i = cc" "\<not> patch_in_doubt plat plon cc ps patch"
      using assms(3) by (auto simp: country_of_position_def containing_plain [OF patch] split: if_splits)
    moreover have "cc \<in> set VALID_COUNTRIES"
      using plain_lookup_mem [OF Some] patch_countries [OF assms(2)] \<open>i = cc\<close> by blast
    ultimately show ?thesis using Some zero patch_sure [OF ps patch] valid_not_neighbour by simp
  next
    case None
    obtain d where d: "(case plain_lookup plat plon ps of Some i \<Rightarrow> Some (i, 0)
        | None \<Rightarrow> nearest (boundaries_within plat plon 10 None ps)) = Some (cc, d)"
      and far: "cc \<notin> set NEIGHBOUR_COUNTRIES"
        "boundaries_within plat plon (d + 3) (Some (filter (\<lambda>i. i \<noteq> cc) BUNDLED_COUNTRIES)) ps = []"
      using assms(3) None
      by (auto simp: country_of_position_def containing_plain [OF patch] containing_plain [OF ps] COAST_TOLERANCE_KM_def BORDER_DOUBT_KM_def
          split: if_splits option.splits prod.splits)
    have "sure_outside plat plon ps cc d"
      using d nearest_boundary [OF ps] within_clear [OF ps far(2)] by (auto simp: sure_outside_def split: option.splits)
    then show ?thesis using None zero far(1) by auto
  qed
qed

lemma sample_bundle:
  "bundled_polygons [(Some ''FR'', Some (Polygon sample_square))] = Inr [(''FR'', \<lparr>min_lon = 5, min_lat = -5, max_lon = 15, max_lat = 5\<rparr>, sample_square)]"
  using sample_square_loads
  by (simp add: bundled_polygons_def load_features_def List.map_filter_def geom_bbox_def sample_square_def Let_def rbind_def)

lemma position_clear_of_borders_witness:
  "\<exists>ps. bundled_polygons [(Some ''FR'', Some (Polygon sample_square))] = Inr ps \<and> country_of_position ps [] 0 10 = Some ''FR''
     \<and> (\<exists>d. sure_outside 0 10 ps ''FR'' d)"
proof -
  let ?ps = "[(''FR'', \<lparr>min_lon = 5, min_lat = -5, max_lon = 15, max_lat = 5\<rparr>, sample_square)]"
  have patch: "patch_polygons [] = Inr []" by (simp add: patch_polygons_def polygons_of_def List.map_filter_def)
  have "''FR'' \<notin> set NEIGHBOUR_COUNTRIES" by code_simp
  then have c: "country_of_position ?ps [] 0 10 = Some ''FR''"
    using sample_square_holds
    by (simp add: country_of_position_def containing_def allows_def in_bbox_def boundaries_within_def Let_def)
  show ?thesis using position_clear_of_borders [OF sample_bundle patch c] sample_bundle c by (simp add: plain_lookup_def)
qed

text \<open>A crop holds the polygons of its countries and no other.\<close>

lemma crop_polygons:
  assumes "crop_geojson rt features countries = Inr (wanted, ps)"
  shows "p \<in> set ps \<longleftrightarrow> (\<exists>(cc, b, geom) \<in> set features. cc \<in> set wanted \<and> p \<in> set (iter_polygons geom))"
  using assms by (fastforce simp: crop_geojson_def)

end
