(* ===== verification/Cross_Border.thy ===== *)
theory Cross_Border
  imports Country_Geometry
begin

text \<open>
  The filter of \<open>app/gtfs_cross_border_filter.py\<close>: a GTFS archive to its routes that cross a border. A member
  the filter reads is a table, its field names and its rows; a row is the dictionary \<open>csv.DictReader\<close> gives,
  its cells None where the line is too short. The other members are their bytes. \<open>fl\<close> is \<open>float()\<close> of a
  text (None where it raises or is not finite), \<open>ps\<close> the loaded boundaries. Reading and writing the zip and
  its CSV text are the library's; sets are lists read with \<open>\<in>\<close>.
\<close>

section \<open>Archives\<close>

type_synonym cell = "str option"
type_synonym csv_row = "(str \<times> cell) list"
type_synonym csv_table = "str list \<times> csv_row list"

record archive =
  ar_tables :: "(str \<times> csv_table) list"
  ar_others :: "(str \<times> str) list"

definition AGENCY :: str where "AGENCY = ''agency.txt''"
definition STOPS :: str where "STOPS = ''stops.txt''"
definition ROUTES :: str where "ROUTES = ''routes.txt''"
definition TRIPS :: str where "TRIPS = ''trips.txt''"
definition STOP_TIMES :: str where "STOP_TIMES = ''stop_times.txt''"
definition CALENDAR :: str where "CALENDAR = ''calendar.txt''"
definition CALENDAR_DATES :: str where "CALENDAR_DATES = ''calendar_dates.txt''"
definition SHAPES :: str where "SHAPES = ''shapes.txt''"
definition TRANSFERS :: str where "TRANSFERS = ''transfers.txt''"
definition FREQUENCIES :: str where "FREQUENCIES = ''frequencies.txt''"

definition read_csv :: "archive \<Rightarrow> str \<Rightarrow> csv_table" where
  "read_csv z name = (case map_of (ar_tables z) name of Some t \<Rightarrow> t | None \<Rightarrow> ([], []))"

text \<open>\<open>row.get(k)\<close> and \<open>row.get(k, "")\<close>.\<close>

definition cell :: "csv_row \<Rightarrow> str \<Rightarrow> cell" where
  "cell r k = (case map_of r k of Some v \<Rightarrow> v | None \<Rightarrow> None)"

definition cell_or :: "csv_row \<Rightarrow> str \<Rightarrow> cell" where
  "cell_or r k = (case map_of r k of Some v \<Rightarrow> v | None \<Rightarrow> Some [])"

section \<open>Countries of stops\<close>

definition recognised_country :: "str option \<Rightarrow> str option" where
  "recognised_country stop_id = (case country_prefix stop_id of
      Some p \<Rightarrow> if map_of UIC_COUNTRY_NAMES p \<noteq> None then Some p else None | None \<Rightarrow> None)"

definition parse_coord :: "(str \<Rightarrow> real option) \<Rightarrow> str option \<Rightarrow> real option" where
  "parse_coord fl value = (case value of None \<Rightarrow> None | Some s \<Rightarrow> if s = [] then None else fl s)"

definition country_of_stop_row :: "(str \<Rightarrow> real option) \<Rightarrow> country_polygon list \<Rightarrow> csv_row \<Rightarrow> str option" where
  "country_of_stop_row fl ps row = (let sid = cell row ''stop_id'' in
     case recognised_country sid of
       Some p \<Rightarrow> Some p
     | None \<Rightarrow>
         if country_prefix sid \<noteq> None then None
         else (case (parse_coord fl (cell row ''stop_lat''), parse_coord fl (cell row ''stop_lon'')) of
             (Some la, Some lo) \<Rightarrow> (case country_for_point ps la lo of
                 Some cc \<Rightarrow> if cc = [] then None else map_of UIC_PREFIX_BY_ISO cc | None \<Rightarrow> None)
           | _ \<Rightarrow> None))"

definition is_rail_route_type :: "str option \<Rightarrow> bool" where
  "is_rail_route_type route_type = (case py_int (py_strip (or_empty route_type)) of
      Some rt \<Rightarrow> rt = 2 \<or> (100 \<le> rt \<and> rt \<le> 117) | None \<Rightarrow> False)"

type_synonym stop_countries = "(cell \<times> str option) list"

definition country_at :: "stop_countries \<Rightarrow> cell \<Rightarrow> str option" where
  "country_at sc sid = (case map_of sc sid of Some c \<Rightarrow> c | None \<Rightarrow> None)"

definition stop_country_map :: "(str \<Rightarrow> real option) \<Rightarrow> country_polygon list \<Rightarrow> csv_row list \<Rightarrow> stop_countries \<times> (cell \<times> str) list" where
  "stop_country_map fl ps stop_rows =
     (let stop_parent = foldl (\<lambda>sp s. let parent = py_strip (or_empty (cell s ''parent_station'')) in
            if parent = [] then sp else alist_set (cell_or s ''stop_id'') parent sp) [] stop_rows;
          own = foldl (\<lambda>sc s. alist_set (cell_or s ''stop_id'') (country_of_stop_row fl ps s) sc) [] stop_rows
      in (foldl (\<lambda>sc (sid, parent). if country_at sc sid = None \<and> country_at sc (Some parent) \<noteq> None
                   then alist_set sid (country_at sc (Some parent)) sc else sc) own stop_parent,
          stop_parent))"

definition stop_sequence :: "str option \<Rightarrow> int" where
  "stop_sequence value = (case py_int (py_strip (or_empty value)) of Some n \<Rightarrow> n | None \<Rightarrow> 2 ^ 30)"

section \<open>The two passes over the stop times\<close>

record classified =
  cl_rows :: nat
  cl_countries :: "(str \<times> str list) list"
  cl_origins :: "(cell \<times> (int \<times> str option)) list"

definition classify_row :: "(cell \<times> cell) list \<Rightarrow> stop_countries \<Rightarrow> classified \<Rightarrow> csv_row \<Rightarrow> classified" where
  "classify_row trip_route sc c0 row =
     (let c = c0\<lparr>cl_rows := cl_rows c0 + 1\<rparr>; tid = cell_or row ''trip_id'' in
      case map_of trip_route tid of
        Some (Some route_id) \<Rightarrow>
          (let ctry = country_at sc (cell_or row ''stop_id'');
               c1 = (case ctry of
                   Some cc \<Rightarrow> c\<lparr>cl_countries := alist_set route_id (List.insert cc (alist_get (cl_countries c) route_id [])) (cl_countries c)\<rparr>
                 | None \<Rightarrow> c);
               seq = stop_sequence (cell row ''stop_sequence'')
           in (case map_of (cl_origins c1) tid of
                 Some (least, at_least) \<Rightarrow> if seq < least then c1\<lparr>cl_origins := alist_set tid (seq, ctry) (cl_origins c1)\<rparr> else c1
               | None \<Rightarrow> c1\<lparr>cl_origins := alist_set tid (seq, ctry) (cl_origins c1)\<rparr>))
      | _ \<Rightarrow> c)"

definition classify_routes :: "csv_row list \<Rightarrow> (cell \<times> cell) list \<Rightarrow> stop_countries \<Rightarrow> classified" where
  "classify_routes rows trip_route sc = foldl (classify_row trip_route sc) \<lparr>cl_rows = 0, cl_countries = [], cl_origins = []\<rparr> rows"

definition cross_border :: "classified \<Rightarrow> str list" where
  "cross_border c = map fst (filter (\<lambda>(rid, ctrys). length ctrys \<ge> 2) (cl_countries c))"

definition trip_origin :: "classified \<Rightarrow> cell \<Rightarrow> str option" where
  "trip_origin c tid = (case map_of (cl_origins c) tid of Some (seq, ctry) \<Rightarrow> ctry | None \<Rightarrow> None)"

definition collect_stop_times :: "csv_row list \<Rightarrow> cell list \<Rightarrow> csv_row list" where
  "collect_stop_times rows kept_trip_ids = filter (\<lambda>r. cell_or r ''trip_id'' \<in> set kept_trip_ids) rows"

section \<open>What is kept\<close>

record kept_sets =
  kp_route_ids :: "cell list"
  kp_trip_ids :: "cell list"
  kp_service_ids :: "cell list"
  kp_shape_ids :: "cell list"
  kp_agency_ids :: "cell list"
  kp_stop_ids :: "cell list"

record cross_border_stats =
  st_routes_total :: nat
  st_routes_rail :: nat
  st_routes_kept :: nat
  st_trips_total :: nat
  st_trips_kept :: nat
  st_stop_times_total :: nat
  st_stop_times_kept :: nat
  st_stops_total :: nat
  st_stops_kept :: nat
  st_country_combos :: "(str \<times> nat) list"
  st_home_country :: "str option"

definition rail_route_ids :: "bool \<Rightarrow> csv_row list \<Rightarrow> cell list" where
  "rail_route_ids rail_only rows = remdups (map (\<lambda>r. cell_or r ''route_id'')
     (filter (\<lambda>r. \<not> rail_only \<or> is_rail_route_type (cell r ''route_type'')) rows))"

definition trip_routes :: "cell list \<Rightarrow> csv_row list \<Rightarrow> (cell \<times> cell) list" where
  "trip_routes rail rows = foldl (\<lambda>tr t. alist_set (cell_or t ''trip_id'') (cell_or t ''route_id'') tr) []
     (filter (\<lambda>t. cell_or t ''route_id'' \<in> set rail) rows)"

definition kept_trip_ids :: "classified \<Rightarrow> str option \<Rightarrow> csv_row list \<Rightarrow> cell list" where
  "kept_trip_ids c home rows = remdups (map (\<lambda>t. cell_or t ''trip_id'') (filter (\<lambda>t.
     (case cell_or t ''route_id'' of Some r \<Rightarrow> r \<in> set (cross_border c) | None \<Rightarrow> False)
     \<and> (home = None \<or> trip_origin c (cell_or t ''trip_id'') = home)) rows))"

definition kept_refs :: "str \<Rightarrow> csv_row list \<Rightarrow> cell list" where
  "kept_refs key rows = remdups (map (\<lambda>r. cell_or r key) (filter (\<lambda>r. truthy (cell r key)) rows))"

definition kept_of :: "cell list \<Rightarrow> csv_row list \<Rightarrow> csv_row list \<Rightarrow> csv_row list \<Rightarrow> (cell \<times> str) list \<Rightarrow> kept_sets" where
  "kept_of trip_ids route_rows trip_rows st_rows stop_parent =
     (let trips = filter (\<lambda>t. cell_or t ''trip_id'' \<in> set trip_ids) trip_rows;
          route_ids = remdups (map (\<lambda>t. cell_or t ''route_id'') trips);
          stop_ids = map (\<lambda>r. cell_or r ''stop_id'') (collect_stop_times st_rows trip_ids)
      in \<lparr>kp_route_ids = route_ids, kp_trip_ids = trip_ids, kp_service_ids = kept_refs ''service_id'' trips,
          kp_shape_ids = kept_refs ''shape_id'' trips,
          kp_agency_ids = kept_refs ''agency_id'' (filter (\<lambda>r. cell_or r ''route_id'' \<in> set route_ids) route_rows),
          kp_stop_ids = remdups (stop_ids @ List.map_filter (\<lambda>sid. map_option Some (map_of stop_parent sid)) stop_ids)\<rparr>)"

definition combo_of :: "classified \<Rightarrow> cell \<Rightarrow> str" where
  "combo_of c rid = (let names = sort (map (\<lambda>cc. alist_get UIC_COUNTRY_NAMES cc cc) (alist_get (cl_countries c) (or_empty rid) []))
     in concat (map (\<lambda>(i, n). (if i = 0 then [] else ''+'') @ n) (py_enumerate names)))"

definition country_combos :: "classified \<Rightarrow> cell list \<Rightarrow> (str \<times> nat) list" where
  "country_combos c route_ids = foldl (\<lambda>combos rid. let combo = combo_of c rid in alist_set combo (alist_get combos combo 0 + 1) combos) [] route_ids"

section \<open>The output\<close>

definition maybe_write :: "str \<Rightarrow> str list \<Rightarrow> csv_row list \<Rightarrow> (str \<times> csv_table) list" where
  "maybe_write name header rows = (if header = [] then [] else [(name, (header, rows))])"

definition read_filter_write :: "archive \<Rightarrow> str \<Rightarrow> (csv_row \<Rightarrow> bool) \<Rightarrow> (str \<times> csv_table) list" where
  "read_filter_write z name pred = (case read_csv z name of (header, rows) \<Rightarrow> maybe_write name header (filter pred rows))"

definition write_agency :: "archive \<Rightarrow> cell list \<Rightarrow> (str \<times> csv_table) list" where
  "write_agency z agency_ids = (case read_csv z AGENCY of (header, rows) \<Rightarrow>
     maybe_write AGENCY header (if ''agency_id'' \<in> set header \<and> agency_ids \<noteq> []
       then filter (\<lambda>a. cell_or a ''agency_id'' \<in> set agency_ids) rows else rows))"

definition kept_transfer :: "kept_sets \<Rightarrow> csv_row \<Rightarrow> bool" where
  "kept_transfer kept r = (cell_or r ''from_stop_id'' \<in> set (kp_stop_ids kept) \<and> cell_or r ''to_stop_id'' \<in> set (kp_stop_ids kept)
     \<and> (\<not> truthy (cell r ''from_trip_id'') \<or> cell_or r ''from_trip_id'' \<in> set (kp_trip_ids kept))
     \<and> (\<not> truthy (cell r ''to_trip_id'') \<or> cell_or r ''to_trip_id'' \<in> set (kp_trip_ids kept)))"

definition in_kept :: "str \<Rightarrow> cell list \<Rightarrow> csv_row \<Rightarrow> bool" where
  "in_kept key ids r = (cell_or r key \<in> set ids)"

definition write_filtered_feed :: "archive \<Rightarrow> kept_sets \<Rightarrow> archive" where
  "write_filtered_feed z kept =
     \<lparr>ar_tables = read_filter_write z ROUTES (in_kept ''route_id'' (kp_route_ids kept))
        @ read_filter_write z TRIPS (in_kept ''trip_id'' (kp_trip_ids kept))
        @ read_filter_write z STOP_TIMES (in_kept ''trip_id'' (kp_trip_ids kept))
        @ read_filter_write z STOPS (in_kept ''stop_id'' (kp_stop_ids kept))
        @ write_agency z (kp_agency_ids kept)
        @ read_filter_write z CALENDAR (in_kept ''service_id'' (kp_service_ids kept))
        @ read_filter_write z CALENDAR_DATES (in_kept ''service_id'' (kp_service_ids kept))
        @ read_filter_write z SHAPES (in_kept ''shape_id'' (kp_shape_ids kept))
        @ read_filter_write z TRANSFERS (kept_transfer kept)
        @ read_filter_write z FREQUENCIES (in_kept ''trip_id'' (kp_trip_ids kept)),
      ar_others = filter (\<lambda>(name, bytes). \<not> ends_with name ''/'') (ar_others z)\<rparr>"

definition home_prefix :: "runtime \<Rightarrow> str option \<Rightarrow> py_error + str option" where
  "home_prefix rt home_country =
     (if \<not> truthy home_country then Inr None
      else (case map_of UIC_PREFIX_BY_ISO (rt_upper rt (py_strip (or_empty home_country))) of
          Some p \<Rightarrow> Inr (Some p) | None \<Rightarrow> Inl (ValueError ''home_country'')))"

definition filter_to_cross_border :: "runtime \<Rightarrow> (str \<Rightarrow> real option) \<Rightarrow> country_polygon list \<Rightarrow> bool \<Rightarrow> str option \<Rightarrow> archive \<Rightarrow> py_error + archive \<times> cross_border_stats" where
  "filter_to_cross_border rt fl ps rail_only home_country z =
     rbind (home_prefix rt home_country) (\<lambda>home.
       let stop_rows = snd (read_csv z STOPS); route_rows = snd (read_csv z ROUTES); trip_rows = snd (read_csv z TRIPS);
           st_rows = snd (read_csv z STOP_TIMES);
           rail = rail_route_ids rail_only route_rows
       in case stop_country_map fl ps stop_rows of (stop_country, stop_parent) \<Rightarrow>
       let c = classify_routes st_rows (trip_routes rail trip_rows) stop_country;
           kept = kept_of (kept_trip_ids c home trip_rows) route_rows trip_rows st_rows stop_parent
       in Inr (write_filtered_feed z kept,
         \<lparr>st_routes_total = length route_rows, st_routes_rail = length rail, st_routes_kept = length (kp_route_ids kept),
          st_trips_total = length trip_rows, st_trips_kept = length (kp_trip_ids kept),
          st_stop_times_total = cl_rows c, st_stop_times_kept = length (collect_stop_times st_rows (kp_trip_ids kept)),
          st_stops_total = length stop_rows, st_stops_kept = length (filter (in_kept ''stop_id'' (kp_stop_ids kept)) stop_rows),
          st_country_combos = country_combos c (kp_route_ids kept),
          st_home_country = (if truthy home_country then Some (rt_upper rt (py_strip (or_empty home_country))) else None)\<rparr>))"

end
