(* ===== verification/Cross_Border_Properties.thy ===== *)
theory Cross_Border_Properties
  imports Cross_Border
begin

text \<open>
  The cross-border filter keeps a feed whole: what a kept row refers to is kept, and the trips kept are
  those of the routes that cross a border, by the country they depart when a home country is given.
\<close>

section \<open>Rows read and written\<close>

definition rows_of :: "archive \<Rightarrow> str \<Rightarrow> csv_row list" where
  "rows_of z name = snd (read_csv z name)"

text \<open>A table without a header has no rows, as \<open>csv.DictReader\<close> reads it.\<close>

definition read_tables :: "archive \<Rightarrow> bool" where
  "read_tables z \<longleftrightarrow> list_all (\<lambda>(name, (header, rows)). header = [] \<longrightarrow> rows = []) (ar_tables z)"

lemma read_tables_rows: "read_tables z \<Longrightarrow> fst (read_csv z name) = [] \<Longrightarrow> rows_of z name = []"
  by (auto simp: read_tables_def rows_of_def read_csv_def list_all_iff split: option.splits prod.splits dest!: map_of_SomeD)

definition TABLES :: "str list" where
  "TABLES = [ROUTES, TRIPS, STOP_TIMES, STOPS, AGENCY, CALENDAR, CALENDAR_DATES, SHAPES, TRANSFERS, FREQUENCIES]"

lemmas table_names = ROUTES_def TRIPS_def STOP_TIMES_def STOPS_def AGENCY_def CALENDAR_def CALENDAR_DATES_def SHAPES_def TRANSFERS_def FREQUENCIES_def

lemma map_of_maybe_write: "map_of (maybe_write name header rows) other = (if other = name \<and> header \<noteq> [] then Some (header, rows) else None)"
  by (simp add: maybe_write_def)

lemma map_of_read_filter: "map_of (read_filter_write z name pred) other
   = (if other = name \<and> fst (read_csv z name) \<noteq> [] then Some (fst (read_csv z name), filter pred (rows_of z name)) else None)"
  by (simp add: read_filter_write_def map_of_maybe_write rows_of_def split: prod.splits)

definition kept_agency :: "archive \<Rightarrow> cell list \<Rightarrow> csv_row \<Rightarrow> bool" where
  "kept_agency z ids a \<longleftrightarrow> \<not> (''agency_id'' \<in> set (fst (read_csv z AGENCY)) \<and> ids \<noteq> []) \<or> in_kept ''agency_id'' ids a"

lemma write_agency_filter: "write_agency z ids = read_filter_write z AGENCY (kept_agency z ids)"
  by (auto simp: write_agency_def read_filter_write_def kept_agency_def in_kept_def split: prod.splits intro!: arg_cong [where f = "maybe_write AGENCY _"] filter_cong)

definition keeps_row :: "archive \<Rightarrow> kept_sets \<Rightarrow> str \<Rightarrow> csv_row \<Rightarrow> bool" where
  "keeps_row z kept name = (if name = ROUTES then in_kept ''route_id'' (kp_route_ids kept)
     else if name = TRIPS \<or> name = STOP_TIMES \<or> name = FREQUENCIES then in_kept ''trip_id'' (kp_trip_ids kept)
     else if name = STOPS then in_kept ''stop_id'' (kp_stop_ids kept)
     else if name = AGENCY then kept_agency z (kp_agency_ids kept)
     else if name = SHAPES then in_kept ''shape_id'' (kp_shape_ids kept)
     else if name = TRANSFERS then kept_transfer kept
     else in_kept ''service_id'' (kp_service_ids kept))"

lemma table_mem [simp]: "ROUTES \<in> set TABLES" "TRIPS \<in> set TABLES" "STOP_TIMES \<in> set TABLES" "STOPS \<in> set TABLES"
  "AGENCY \<in> set TABLES" "CALENDAR \<in> set TABLES" "CALENDAR_DATES \<in> set TABLES" "SHAPES \<in> set TABLES"
  "TRANSFERS \<in> set TABLES" "FREQUENCIES \<in> set TABLES"
  by (simp_all add: TABLES_def)

lemma keeps_row_simps [simp]: "keeps_row z kept ROUTES = in_kept ''route_id'' (kp_route_ids kept)"
  "keeps_row z kept TRIPS = in_kept ''trip_id'' (kp_trip_ids kept)" "keeps_row z kept STOP_TIMES = in_kept ''trip_id'' (kp_trip_ids kept)"
  "keeps_row z kept FREQUENCIES = in_kept ''trip_id'' (kp_trip_ids kept)" "keeps_row z kept STOPS = in_kept ''stop_id'' (kp_stop_ids kept)"
  "keeps_row z kept AGENCY = kept_agency z (kp_agency_ids kept)" "keeps_row z kept SHAPES = in_kept ''shape_id'' (kp_shape_ids kept)"
  "keeps_row z kept TRANSFERS = kept_transfer kept" "keeps_row z kept CALENDAR = in_kept ''service_id'' (kp_service_ids kept)"
  "keeps_row z kept CALENDAR_DATES = in_kept ''service_id'' (kp_service_ids kept)"
  by (simp_all add: keeps_row_def table_names)

lemma written_rows:
  assumes "read_tables z" "name \<in> set TABLES"
  shows "rows_of (write_filtered_feed z kept) name = filter (keeps_row z kept name) (rows_of z name)"
proof -
  have n: "name \<in> {ROUTES, TRIPS, STOP_TIMES, STOPS, AGENCY, CALENDAR, CALENDAR_DATES, SHAPES, TRANSFERS, FREQUENCIES}"
    using assms(2) by (simp add: TABLES_def)
  have "map_of (ar_tables (write_filtered_feed z kept)) name
      = (if fst (read_csv z name) \<noteq> [] then Some (fst (read_csv z name), filter (keeps_row z kept name) (rows_of z name)) else None)"
    using n by (elim insertE emptyE)
      (simp_all add: write_filtered_feed_def write_agency_filter map_of_read_filter map_add_def keeps_row_def table_names)
  then show ?thesis using read_tables_rows [OF assms(1), of name] by (simp add: rows_of_def read_csv_def)
qed

section \<open>References\<close>

definition REFERENCES :: "(str \<times> str \<times> str \<times> str) list" where
  "REFERENCES = [(TRIPS, ''route_id'', ROUTES, ''route_id''), (TRIPS, ''service_id'', CALENDAR, ''service_id''),
     (TRIPS, ''service_id'', CALENDAR_DATES, ''service_id''), (TRIPS, ''shape_id'', SHAPES, ''shape_id''),
     (STOP_TIMES, ''trip_id'', TRIPS, ''trip_id''), (STOP_TIMES, ''stop_id'', STOPS, ''stop_id''),
     (ROUTES, ''agency_id'', AGENCY, ''agency_id''), (TRANSFERS, ''from_stop_id'', STOPS, ''stop_id''),
     (TRANSFERS, ''to_stop_id'', STOPS, ''stop_id''), (TRANSFERS, ''from_trip_id'', TRIPS, ''trip_id''),
     (TRANSFERS, ''to_trip_id'', TRIPS, ''trip_id''), (FREQUENCIES, ''trip_id'', TRIPS, ''trip_id'')]"

definition ids_in :: "archive \<Rightarrow> str \<Rightarrow> str \<Rightarrow> cell set" where
  "ids_in z name key = (\<lambda>r. cell_or r key) ` set (rows_of z name)"

text \<open>What a row of the output refers to is in the output when it was in the input.\<close>

definition keeps_reference :: "archive \<Rightarrow> archive \<Rightarrow> str \<times> str \<times> str \<times> str \<Rightarrow> bool" where
  "keeps_reference z out ref = (case ref of (name, key, target, target_key) \<Rightarrow>
     list_all (\<lambda>r. truthy (cell r key) \<and> cell r key \<in> ids_in z target target_key \<longrightarrow> cell r key \<in> ids_in out target target_key)
       (rows_of out name))"

lemma truthy_cell: "truthy (cell r k) \<Longrightarrow> cell_or r k = cell r k"
  by (auto simp: cell_def cell_or_def split: option.splits)

lemma kept_refs_mem: "r \<in> set rows \<Longrightarrow> truthy (cell r key) \<Longrightarrow> cell r key \<in> set (kept_refs key rows)"
  by (auto simp: kept_refs_def truthy_cell intro!: rev_image_eqI [of r])

text \<open>A reference is kept when the ids it names are ids the target is filtered by.\<close>

lemma written_reference:
  assumes "read_tables z" "name \<in> set TABLES" "target \<in> set TABLES"
    "\<And>r. r \<in> set (rows_of z target) \<Longrightarrow> cell_or r target_key \<in> ids \<Longrightarrow> keeps_row z kept target r"
    "\<And>r. r \<in> set (rows_of z name) \<Longrightarrow> keeps_row z kept name r \<Longrightarrow> truthy (cell r key) \<Longrightarrow> cell r key \<in> ids"
  shows "keeps_reference z (write_filtered_feed z kept) (name, key, target, target_key)"
  using assms by (fastforce simp: keeps_reference_def list_all_iff ids_in_def written_rows)

definition kept_sets_of :: "(str \<Rightarrow> real option) \<Rightarrow> country_polygon list \<Rightarrow> bool \<Rightarrow> str option \<Rightarrow> archive \<Rightarrow> kept_sets" where
  "kept_sets_of fl ps rail_only home z =
     (let c = classify_routes (rows_of z STOP_TIMES) (trip_routes (rail_route_ids rail_only (rows_of z ROUTES)) (rows_of z TRIPS))
            (fst (stop_country_map fl ps (rows_of z STOPS)))
      in kept_of (kept_trip_ids c home (rows_of z TRIPS)) (rows_of z ROUTES) (rows_of z TRIPS) (rows_of z STOP_TIMES)
           (snd (stop_country_map fl ps (rows_of z STOPS))))"

text \<open>The kept sets are closed under what the rows they keep refer to.\<close>

lemma kept_of_closed:
  fixes ids routes trips calls parents
  defines "kept \<equiv> kept_of ids routes trips calls parents"
  shows "r \<in> set trips \<Longrightarrow> in_kept ''trip_id'' (kp_trip_ids kept) r \<Longrightarrow> truthy (cell r ''route_id'') \<Longrightarrow> cell r ''route_id'' \<in> set (kp_route_ids kept)"
    and "r \<in> set trips \<Longrightarrow> in_kept ''trip_id'' (kp_trip_ids kept) r \<Longrightarrow> truthy (cell r ''service_id'') \<Longrightarrow> cell r ''service_id'' \<in> set (kp_service_ids kept)"
    and "r \<in> set trips \<Longrightarrow> in_kept ''trip_id'' (kp_trip_ids kept) r \<Longrightarrow> truthy (cell r ''shape_id'') \<Longrightarrow> cell r ''shape_id'' \<in> set (kp_shape_ids kept)"
    and "r \<in> set routes \<Longrightarrow> in_kept ''route_id'' (kp_route_ids kept) r \<Longrightarrow> truthy (cell r ''agency_id'') \<Longrightarrow> cell r ''agency_id'' \<in> set (kp_agency_ids kept)"
    and "r \<in> set calls \<Longrightarrow> in_kept ''trip_id'' (kp_trip_ids kept) r \<Longrightarrow> cell_or r ''stop_id'' \<in> set (kp_stop_ids kept)"
    and "r \<in> set calls \<Longrightarrow> in_kept ''trip_id'' (kp_trip_ids kept) r \<Longrightarrow> map_of parents (cell_or r ''stop_id'') = Some p \<Longrightarrow> Some p \<in> set (kp_stop_ids kept)"
proof -
  assume r: "r \<in> set trips" "in_kept ''trip_id'' (kp_trip_ids kept) r"
  then have mem: "r \<in> set (filter (\<lambda>t. cell_or t ''trip_id'' \<in> set ids) trips)"
    by (simp add: kept_def kept_of_def in_kept_def Let_def)
  show "truthy (cell r ''route_id'') \<Longrightarrow> cell r ''route_id'' \<in> set (kp_route_ids kept)"
    using mem by (auto simp: kept_def kept_of_def Let_def truthy_cell intro!: rev_image_eqI [of r])
  show "truthy (cell r ''service_id'') \<Longrightarrow> cell r ''service_id'' \<in> set (kp_service_ids kept)"
    using kept_refs_mem [OF mem] by (simp add: kept_def kept_of_def Let_def)
  show "truthy (cell r ''shape_id'') \<Longrightarrow> cell r ''shape_id'' \<in> set (kp_shape_ids kept)"
    using kept_refs_mem [OF mem] by (simp add: kept_def kept_of_def Let_def)
next
  assume "r \<in> set routes" "in_kept ''route_id'' (kp_route_ids kept) r" "truthy (cell r ''agency_id'')"
  then show "cell r ''agency_id'' \<in> set (kp_agency_ids kept)"
    unfolding kept_def kept_of_def Let_def kept_sets.simps by (intro kept_refs_mem) (simp_all add: in_kept_def)
next
  assume r: "r \<in> set calls" "in_kept ''trip_id'' (kp_trip_ids kept) r"
  then have mem: "r \<in> set (collect_stop_times calls ids)"
    by (simp add: kept_def kept_of_def in_kept_def collect_stop_times_def Let_def)
  then show "cell_or r ''stop_id'' \<in> set (kp_stop_ids kept)" by (simp add: kept_def kept_of_def Let_def)
  show "map_of parents (cell_or r ''stop_id'') = Some p \<Longrightarrow> Some p \<in> set (kp_stop_ids kept)"
    using mem by (force simp: kept_def kept_of_def Let_def List.map_filter_def)
qed

lemma in_keptI: "cell_or r key \<in> set ids \<Longrightarrow> in_kept key ids r"
  by (simp add: in_kept_def)

lemma kept_agencies: "cell_or r ''agency_id'' \<in> set ids \<Longrightarrow> kept_agency z ids r"
  by (simp add: kept_agency_def in_kept_def)

lemma filter_result:
  "filter_to_cross_border rt fl ps rail_only home_country z = Inr (out, stats) \<Longrightarrow>
     \<exists>home. home_prefix rt home_country = Inr home \<and> out = write_filtered_feed z (kept_sets_of fl ps rail_only home z)"
  by (auto simp: filter_to_cross_border_def kept_sets_of_def rows_of_def Let_def case_prod_unfold)

definition parents_kept :: "(cell \<times> str) list \<Rightarrow> archive \<Rightarrow> archive \<Rightarrow> bool" where
  "parents_kept stop_parent z out = list_all (\<lambda>r. case map_of stop_parent (cell_or r ''stop_id'') of
       None \<Rightarrow> True | Some p \<Rightarrow> Some p \<in> ids_in z STOPS ''stop_id'' \<longrightarrow> Some p \<in> ids_in out STOPS ''stop_id'') (rows_of out STOP_TIMES)"


section \<open>Which trips are kept\<close>

text \<open>A row of the stop times is a call of a route in a country.\<close>

definition called_in :: "(cell \<times> cell) list \<Rightarrow> stop_countries \<Rightarrow> str \<Rightarrow> str \<Rightarrow> csv_row \<Rightarrow> bool" where
  "called_in tr sc route cc row \<longleftrightarrow> map_of tr (cell_or row ''trip_id'') = Some (Some route) \<and> country_at sc (cell_or row ''stop_id'') = Some cc"

definition countries_of :: "classified \<Rightarrow> str \<Rightarrow> str list" where
  "countries_of c route = alist_get (cl_countries c) route []"

lemma countries_classify_row:
  "cl_countries (classify_row tr sc c row) = (case map_of tr (cell_or row ''trip_id'') of
     Some (Some route) \<Rightarrow> (case country_at sc (cell_or row ''stop_id'') of
         Some cc \<Rightarrow> alist_set route (List.insert cc (countries_of c route)) (cl_countries c) | None \<Rightarrow> cl_countries c)
   | _ \<Rightarrow> cl_countries c)"
proof (cases "map_of tr (cell_or row ''trip_id'')")
  case (Some route)
  then show ?thesis
    by (cases route; cases "country_at sc (cell_or row ''stop_id'')"; cases "map_of (cl_origins c) (cell_or row ''trip_id'')")
      (simp_all add: classify_row_def Let_def countries_of_def split: prod.split)
qed (simp add: classify_row_def Let_def)

lemma countries_of_classify_row:
  "countries_of (classify_row tr sc c row) route = (if map_of tr (cell_or row ''trip_id'') = Some (Some route)
     then (case country_at sc (cell_or row ''stop_id'') of Some cc \<Rightarrow> List.insert cc (countries_of c route) | None \<Rightarrow> countries_of c route)
     else countries_of c route)"
  unfolding countries_of_def [of "classify_row tr sc c row"] countries_classify_row
  by (simp add: countries_of_def alist_get_def split: option.split)

lemma keys_classify_row: "distinct (map fst (cl_countries c)) \<Longrightarrow> distinct (map fst (cl_countries (classify_row tr sc c row)))"
  by (simp add: countries_classify_row distinct_alist_set split: option.split)

lemma countries_of_classified:
  "set (countries_of (foldl (classify_row tr sc) c rows) route) = set (countries_of c route) \<union> {cc. \<exists>row\<in>set rows. called_in tr sc route cc row}"
  by (induction rows arbitrary: c) (auto simp: countries_of_classify_row called_in_def split: option.splits if_splits)

lemma distinct_countries_of: "distinct (countries_of c route) \<Longrightarrow> distinct (countries_of (foldl (classify_row tr sc) c rows) route)"
  by (induction rows arbitrary: c) (auto simp: countries_of_classify_row split: option.split)

lemma keys_classified: "distinct (map fst (cl_countries c)) \<Longrightarrow> distinct (map fst (cl_countries (foldl (classify_row tr sc) c rows)))"
  by (induction rows arbitrary: c) (simp_all add: keys_classify_row)

lemma two_or_more: "distinct xs \<Longrightarrow> 2 \<le> length xs \<longleftrightarrow> (\<exists>a\<in>set xs. \<exists>b\<in>set xs. a \<noteq> b)"
  by (cases xs; cases "tl xs") auto

lemma cross_border_two_countries:
  "route \<in> set (cross_border (classify_routes rows tr sc))
     \<longleftrightarrow> (\<exists>r1\<in>set rows. \<exists>r2\<in>set rows. \<exists>c1 c2. c1 \<noteq> c2 \<and> called_in tr sc route c1 r1 \<and> called_in tr sc route c2 r2)"
proof -
  define c where "c = classify_routes rows tr sc"
  have keys: "distinct (map fst (cl_countries c))" unfolding c_def classify_routes_def by (rule keys_classified) simp
  have "route \<in> set (cross_border c) \<longleftrightarrow> 2 \<le> length (countries_of c route)"
  proof
    assume "route \<in> set (cross_border c)"
    then obtain l where l: "(route, l) \<in> set (cl_countries c)" "2 \<le> length l" by (auto simp: cross_border_def)
    then show "2 \<le> length (countries_of c route)" using keys by (simp add: countries_of_def alist_get_def)
  next
    assume "2 \<le> length (countries_of c route)"
    then obtain l where "map_of (cl_countries c) route = Some l" "2 \<le> length l"
      by (auto simp: countries_of_def alist_get_def split: option.splits)
    then show "route \<in> set (cross_border c)" by (force simp: cross_border_def dest: map_of_SomeD)
  qed
  also have "\<dots> \<longleftrightarrow> (\<exists>a\<in>set (countries_of c route). \<exists>b\<in>set (countries_of c route). a \<noteq> b)"
    unfolding c_def classify_routes_def by (rule two_or_more, rule distinct_countries_of) (simp add: countries_of_def alist_get_def)
  also have "set (countries_of c route) = {cc. \<exists>row\<in>set rows. called_in tr sc route cc row}"
    unfolding c_def classify_routes_def countries_of_classified by (simp add: countries_of_def alist_get_def)
  finally show ?thesis by (auto simp: c_def)
qed

text \<open>The origin of a trip is its call of least sequence number, the first of them in the file.\<close>

lemma arg_min_list_snoc: "xs \<noteq> [] \<Longrightarrow> arg_min_list f (xs @ [y]) = (if f y < f (arg_min_list f xs) then y else arg_min_list f xs)"
  for f :: "'a \<Rightarrow> 'b::linorder"
proof (induction xs)
  case (Cons x xs)
  then show ?case by (cases xs) (auto simp: Let_def not_le not_less)
qed simp

definition calls_of :: "csv_row list \<Rightarrow> cell \<Rightarrow> csv_row list" where
  "calls_of rows tid = filter (\<lambda>r. cell_or r ''trip_id'' = tid) rows"

definition first_call :: "csv_row list \<Rightarrow> csv_row" where
  "first_call calls = arg_min_list (\<lambda>r. stop_sequence (cell r ''stop_sequence'')) calls"

lemma origins_classify_row:
  assumes "map_of tr tid = Some (Some route)"
  shows "map_of (cl_origins (classify_row tr sc c row)) tid = (if cell_or row ''trip_id'' \<noteq> tid then map_of (cl_origins c) tid
     else let here = Some (stop_sequence (cell row ''stop_sequence''), country_at sc (cell_or row ''stop_id''))
       in (case map_of (cl_origins c) tid of None \<Rightarrow> here
             | Some (least, at_least) \<Rightarrow> if stop_sequence (cell row ''stop_sequence'') < least then here else map_of (cl_origins c) tid))"
proof (cases "cell_or row ''trip_id'' = tid")
  case True
  have same: "cl_origins (case y of None \<Rightarrow> c | Some cc \<Rightarrow> c\<lparr>cl_countries := g cc\<rparr>) = cl_origins c" for c :: classified and y :: "str option" and g
    by (simp split: option.split)
  show ?thesis
    using True assms by (simp add: classify_row_def Let_def same split: option.split prod.split)
next
  case False
  then show ?thesis by (simp add: classify_row_def Let_def split: option.split)
qed

lemma classified_origin:
  "map_of tr tid = Some (Some route) \<Longrightarrow> map_of (cl_origins (classify_routes rows tr sc)) tid
     = (if calls_of rows tid = [] then None
        else Some (stop_sequence (cell (first_call (calls_of rows tid)) ''stop_sequence''), country_at sc (cell_or (first_call (calls_of rows tid)) ''stop_id'')))"
proof (induction rows rule: rev_induct)
  case Nil
  then show ?case by (simp add: classify_routes_def calls_of_def)
next
  case (snoc row rows)
  have step: "classify_routes (rows @ [row]) tr sc = classify_row tr sc (classify_routes rows tr sc) row" by (simp add: classify_routes_def)
  have calls: "calls_of (rows @ [row]) tid = calls_of rows tid @ (if cell_or row ''trip_id'' = tid then [row] else [])"
    by (simp add: calls_of_def)
  show ?case unfolding step origins_classify_row [OF snoc.prems] snoc.IH [OF snoc.prems] calls
    by (simp add: first_call_def arg_min_list_snoc Let_def)
qed

definition rail_trip_routes :: "bool \<Rightarrow> archive \<Rightarrow> (cell \<times> cell) list" where
  "rail_trip_routes rail_only z = trip_routes (rail_route_ids rail_only (rows_of z ROUTES)) (rows_of z TRIPS)"

definition stop_countries_of :: "(str \<Rightarrow> real option) \<Rightarrow> country_polygon list \<Rightarrow> archive \<Rightarrow> stop_countries" where
  "stop_countries_of fl ps z = fst (stop_country_map fl ps (rows_of z STOPS))"

text \<open>A route crosses a border when its trips call in two countries.\<close>

definition crosses_border :: "(cell \<times> cell) list \<Rightarrow> stop_countries \<Rightarrow> csv_row list \<Rightarrow> cell \<Rightarrow> bool" where
  "crosses_border tr sc calls route \<longleftrightarrow> (\<exists>r. route = Some r \<and> (\<exists>r1\<in>set calls. \<exists>r2\<in>set calls. \<exists>c1 c2.
     c1 \<noteq> c2 \<and> called_in tr sc r c1 r1 \<and> called_in tr sc r c2 r2))"

text \<open>The country a rail trip departs is the country of its first call; a trip of no rail route departs none.\<close>

definition departs_in :: "(cell \<times> cell) list \<Rightarrow> stop_countries \<Rightarrow> csv_row list \<Rightarrow> cell \<Rightarrow> str option" where
  "departs_in tr sc calls tid = (case map_of tr tid of
     Some (Some route) \<Rightarrow> if calls_of calls tid = [] then None else country_at sc (cell_or (first_call (calls_of calls tid)) ''stop_id'')
   | _ \<Rightarrow> None)"

lemma no_origin: "\<nexists>route. map_of tr tid = Some (Some route) \<Longrightarrow> map_of (cl_origins (classify_routes rows tr sc)) tid = None"
proof (induction rows rule: rev_induct)
  case (snoc row rows)
  have "map_of (cl_origins (classify_row tr sc c row)) tid = map_of (cl_origins c) tid" for c
    using snoc.prems by (cases "cell_or row ''trip_id'' = tid") (auto simp: classify_row_def Let_def split: option.split)
  with snoc show ?case by (simp add: classify_routes_def)
qed (simp add: classify_routes_def)

lemma trip_origin_departs_in: "trip_origin (classify_routes rows tr sc) tid = departs_in tr sc rows tid"
proof (cases "\<exists>route. map_of tr tid = Some (Some route)")
  case True
  then show ?thesis by (auto simp: trip_origin_def classified_origin departs_in_def)
next
  case False
  then show ?thesis by (auto simp: trip_origin_def no_origin departs_in_def split: option.split)
qed

lemma kept_trip_id:
  "tid \<in> set (kept_trip_ids (classify_routes calls tr sc) home trips)
     \<longleftrightarrow> (\<exists>t\<in>set trips. cell_or t ''trip_id'' = tid \<and> crosses_border tr sc calls (cell_or t ''route_id''))
         \<and> (home = None \<or> trip_origin (classify_routes calls tr sc) tid = home)"
proof -
  have "(case cell_or t ''route_id'' of Some r \<Rightarrow> r \<in> set (cross_border (classify_routes calls tr sc)) | None \<Rightarrow> False)
      = crosses_border tr sc calls (cell_or t ''route_id'')" for t
    by (simp add: crosses_border_def cross_border_two_countries split: option.split)
  then show ?thesis by (auto simp: kept_trip_ids_def)
qed

lemma kept_trip_rows:
  assumes "filter_to_cross_border rt fl ps rail_only home_country z = Inr (out, stats)" "read_tables z"
  obtains home where "home_prefix rt home_country = Inr home"
    "rows_of out TRIPS = filter (\<lambda>t. cell_or t ''trip_id'' \<in> set (kept_trip_ids
        (classify_routes (rows_of z STOP_TIMES) (rail_trip_routes rail_only z) (stop_countries_of fl ps z)) home (rows_of z TRIPS))) (rows_of z TRIPS)"
proof -
  obtain home where home: "home_prefix rt home_country = Inr home" and out: "out = write_filtered_feed z (kept_sets_of fl ps rail_only home z)"
    using filter_result [OF assms(1)] by blast
  have "rows_of out TRIPS = filter (in_kept ''trip_id'' (kp_trip_ids (kept_sets_of fl ps rail_only home z))) (rows_of z TRIPS)"
    by (simp add: out written_rows [OF assms(2)])
  then show thesis
    by (intro that [OF home]) (simp add: in_kept_def [abs_def] kept_sets_of_def kept_of_def rail_trip_routes_def stop_countries_of_def Let_def)
qed

text \<open>A trip is kept when a row of it is on a route that crosses a border and, for a home country, it
  departs that country.\<close>

definition border_trip :: "(str \<Rightarrow> real option) \<Rightarrow> country_polygon list \<Rightarrow> bool \<Rightarrow> archive \<Rightarrow> str option \<Rightarrow> cell \<Rightarrow> bool" where
  "border_trip fl ps rail_only z home tid \<longleftrightarrow>
     (\<exists>t\<in>set (rows_of z TRIPS). cell_or t ''trip_id'' = tid
        \<and> crosses_border (rail_trip_routes rail_only z) (stop_countries_of fl ps z) (rows_of z STOP_TIMES) (cell_or t ''route_id''))
     \<and> (home = None \<or> departs_in (rail_trip_routes rail_only z) (stop_countries_of fl ps z) (rows_of z STOP_TIMES) tid = home)"

lemma kept_trips:
  assumes "filter_to_cross_border rt fl ps rail_only home_country z = Inr (out, stats)" "read_tables z"
  obtains home where "home_prefix rt home_country = Inr home"
    "rows_of out TRIPS = filter (\<lambda>t. border_trip fl ps rail_only z home (cell_or t ''trip_id'')) (rows_of z TRIPS)"
proof (rule kept_trip_rows [OF assms])
  fix home
  assume home: "home_prefix rt home_country = Inr home" and rows: "rows_of out TRIPS = filter (\<lambda>t. cell_or t ''trip_id'' \<in> set (kept_trip_ids
        (classify_routes (rows_of z STOP_TIMES) (rail_trip_routes rail_only z) (stop_countries_of fl ps z)) home (rows_of z TRIPS))) (rows_of z TRIPS)"
  show thesis by (rule that [OF home]) (simp only: rows kept_trip_id trip_origin_departs_in border_trip_def)
qed

text \<open>C29: the trips the filter keeps are the trips of border-crossing routes, and with a home country those
  of them that depart it. A route crosses a border when its rail trips call in two different
  countries; the departure is the call of the least stop sequence, the first such row of the file;
  and no trip of a feed is kept for two home countries.\<close>

theorem border_trips_kept_once:
  assumes "filter_to_cross_border rt fl ps rail_only home1 z = Inr (out1, stats1)" "filter_to_cross_border rt fl ps rail_only home2 z = Inr (out2, stats2)"
    "read_tables z"
  shows "\<exists>own1 own2. home_prefix rt home1 = Inr own1 \<and> home_prefix rt home2 = Inr own2
     \<and> rows_of out1 TRIPS = filter (\<lambda>t. border_trip fl ps rail_only z own1 (cell_or t ''trip_id'')) (rows_of z TRIPS)
     \<and> (own1 = None \<or> own2 = None \<or> own1 = own2 \<or> ids_in out1 TRIPS ''trip_id'' \<inter> ids_in out2 TRIPS ''trip_id'' = {})"
proof -
  obtain own1 where 1: "home_prefix rt home1 = Inr own1"
    "rows_of out1 TRIPS = filter (\<lambda>t. border_trip fl ps rail_only z own1 (cell_or t ''trip_id'')) (rows_of z TRIPS)"
    by (rule kept_trips [OF assms(1,3)])
  obtain own2 where 2: "home_prefix rt home2 = Inr own2"
    "rows_of out2 TRIPS = filter (\<lambda>t. border_trip fl ps rail_only z own2 (cell_or t ''trip_id'')) (rows_of z TRIPS)"
    by (rule kept_trips [OF assms(2,3)])
  have "own1 = None \<or> own2 = None \<or> own1 = own2" if "border_trip fl ps rail_only z own1 tid" "border_trip fl ps rail_only z own2 tid" for tid
    using that by (auto simp: border_trip_def)
  then have "own1 = None \<or> own2 = None \<or> own1 = own2 \<or> ids_in out1 TRIPS ''trip_id'' \<inter> ids_in out2 TRIPS ''trip_id'' = {}"
    by (fastforce simp: ids_in_def 1(2) 2(2))
  then show ?thesis using 1 2 by blast
qed

text \<open>Every other file is copied whole, whatever it refers to.\<close>

lemma others_copied_whole:
  "filter_to_cross_border rt fl ps rail_only home_country z = Inr (out, stats) \<Longrightarrow> ar_others out = filter (\<lambda>(name, bytes). \<not> ends_with name ''/'') (ar_others z)"
  by (auto dest!: filter_result simp: write_filtered_feed_def)

section \<open>A small feed\<close>

definition sample_row :: "(str \<times> str) list \<Rightarrow> csv_row" where
  "sample_row cells = map (\<lambda>(k, v). (k, Some v)) cells"

definition sample_table :: "str list \<Rightarrow> str list list \<Rightarrow> csv_table" where
  "sample_table header rows = (header, map (\<lambda>r. sample_row (zip header r)) rows)"

definition sample_feed :: archive where
  "sample_feed = \<lparr>ar_tables =
     [(ROUTES, sample_table [''route_id'', ''route_type'', ''agency_id''] [[''lyria'', ''2'', ''a''], [''ter'', ''2'', ''b'']]),
      (TRIPS, sample_table [''trip_id'', ''route_id'', ''service_id''] [[''t1'', ''lyria'', ''s1''], [''t2'', ''ter'', ''s2''], [''t3'', ''lyria'', ''s1'']]),
      (STOP_TIMES, sample_table [''trip_id'', ''stop_id'', ''stop_sequence'']
         [[''t1'', ''8768600'', ''1''], [''t1'', ''8500010'', ''2''], [''t2'', ''8768600'', ''1''], [''t3'', ''8500010'', ''1''], [''t3'', ''8768600'', ''2'']]),
      (STOPS, sample_table [''stop_id'', ''parent_station''] [[''8768600'', []], [''8500010'', []]])], ar_others = []\<rparr>"

lemma sample_feed_read: "read_tables sample_feed" by code_simp

lemma sample_feed_trips:
  "map_sum id (\<lambda>(out, stats). map (\<lambda>t. cell t ''trip_id'') (rows_of out TRIPS)) (filter_to_cross_border ascii_runtime (\<lambda>t. None) [] True (Some ''FR'') sample_feed)
     = Inr [Some ''t1'']"
  by code_simp

lemma sample_feed_swiss_trips:
  "map_sum id (\<lambda>(out, stats). map (\<lambda>t. cell t ''trip_id'') (rows_of out TRIPS)) (filter_to_cross_border ascii_runtime (\<lambda>t. None) [] True (Some ''CH'') sample_feed)
     = Inr [Some ''t3'']"
  by code_simp

lemma mapped_inr: "map_sum id f r = Inr y \<Longrightarrow> \<exists>x. r = Inr x \<and> f x = y"
  by (cases r) auto


theorem border_trips_kept_once_witness:
  "\<exists>out1 stats1 out2 stats2. filter_to_cross_border ascii_runtime (\<lambda>t. None) [] True (Some ''FR'') sample_feed = Inr (out1, stats1)
     \<and> filter_to_cross_border ascii_runtime (\<lambda>t. None) [] True (Some ''CH'') sample_feed = Inr (out2, stats2)
     \<and> map (\<lambda>t. cell t ''trip_id'') (rows_of out1 TRIPS) = [Some ''t1''] \<and> map (\<lambda>t. cell t ''trip_id'') (rows_of out2 TRIPS) = [Some ''t3'']
     \<and> ids_in out1 TRIPS ''trip_id'' \<inter> ids_in out2 TRIPS ''trip_id'' = {}"
proof -
  obtain out1 stats1 where f1: "filter_to_cross_border ascii_runtime (\<lambda>t. None) [] True (Some ''FR'') sample_feed = Inr (out1, stats1)"
    "map (\<lambda>t. cell t ''trip_id'') (rows_of out1 TRIPS) = [Some ''t1'']"
    using mapped_inr [OF sample_feed_trips] by auto
  obtain out2 stats2 where f2: "filter_to_cross_border ascii_runtime (\<lambda>t. None) [] True (Some ''CH'') sample_feed = Inr (out2, stats2)"
    "map (\<lambda>t. cell t ''trip_id'') (rows_of out2 TRIPS) = [Some ''t3'']"
    using mapped_inr [OF sample_feed_swiss_trips] by auto
  have "home_prefix ascii_runtime (Some ''FR'') = Inr (Some ''87'')" "home_prefix ascii_runtime (Some ''CH'') = Inr (Some ''85'')" by code_simp+
  then have "ids_in out1 TRIPS ''trip_id'' \<inter> ids_in out2 TRIPS ''trip_id'' = {}"
    using border_trips_kept_once [OF f1(1) f2(1) sample_feed_read] by auto
  with f1 f2 show ?thesis
    by (intro exI [of _ out1] exI [of _ stats1] exI [of _ out2] exI [of _ stats2]) simp
qed

end
