(* ===== verification/Station_Build_Wait.thy ===== *)
theory Station_Build_Wait
  imports Adapters
begin

text \<open>
  The wait for a station build before a MOTIS graph build, \<open>app/station_builds.py\<close>. What the wait
  meets is the record \<open>wait_env\<close>: the reply to each call and how long it took, how far each pause
  ran over, and what \<open>should_stop\<close> and \<open>on_waiting\<close> did. A step moves \<open>wait_state\<close>, which keeps the
  clock and the calls made. The poll loop is a partial function: that it ends is a theorem.
\<close>

section \<open>The contract's numbers and words\<close>

definition POLL_SECONDS :: real where "POLL_SECONDS = 10"
definition CALL_SECONDS :: real where "CALL_SECONDS = 5"
definition WAIT_LIMIT_SECONDS :: real where "WAIT_LIMIT_SECONDS = 30 * 60"
definition POST_RETRY_SECONDS :: real where "POST_RETRY_SECONDS = 10"
definition MAX_BYTES :: nat where "MAX_BYTES = 4 * 1024"
definition BUILD_ID_MAX :: int where "BUILD_ID_MAX = 10 ^ 18 - 1"

definition POST_STATES :: "str list" where "POST_STATES = [''queued'', ''running'', ''done'', ''failed'', ''up_to_date'']"
definition GET_STATES :: "str list" where "GET_STATES = filter (\<lambda>s. s \<noteq> ''up_to_date'') POST_STATES"

datatype wait_outcome = Off | Done | Up_to_date | Unavailable | Cancelled

definition WAITING :: str where "WAITING = ''waiting''"

definition outcome_word :: "wait_outcome \<Rightarrow> str" where
  "outcome_word x = (case x of Off \<Rightarrow> ''off'' | Done \<Rightarrow> ''done'' | Up_to_date \<Rightarrow> ''up_to_date''
     | Unavailable \<Rightarrow> ''unavailable'' | Cancelled \<Rightarrow> ''cancelled'')"

section \<open>The line of the rebuild job's log\<close>

definition LOG_MARKER :: str where "LOG_MARKER = ''[viator] station-build=''"

text \<open>The dash of the sentence and the dot of the line are arguments, one of them beyond Latin-1.\<close>

definition STATUS_TEXTS :: "str \<Rightarrow> (str \<times> str) list" where
  "STATUS_TEXTS dash =
     [(WAITING, ''Waiting for the station module build''),
      (outcome_word Done, ''Station build done''),
      (outcome_word Up_to_date, ''Station build up to date''),
      (outcome_word Unavailable, ''Station module unavailable '' @ dash @ '' graph built on the last station build''),
      (outcome_word Cancelled, ''Cancelled while waiting for the station module build'')]"

definition middle_dot :: str where "middle_dot = [char_of (183 :: nat)]"

definition newline :: char where "newline = char_of (10 :: nat)"

definition log_line :: "str \<Rightarrow> str \<Rightarrow> int option \<Rightarrow> str option \<Rightarrow> py_error + str" where
  "log_line dash word build_id why =
     (case map_of (STATUS_TEXTS dash) word of
        None \<Rightarrow> Inl KeyError
      | Some shown \<Rightarrow> Inr (LOG_MARKER @ word
          @ (case build_id of None \<Rightarrow> [] | Some n \<Rightarrow> '' build='' @ show_int n)
          @ (case why of None \<Rightarrow> [] | Some r \<Rightarrow> '' reason='' @ r)
          @ '' '' @ middle_dot @ '' '' @ shown @ [newline]))"

fun lines_of :: "str \<Rightarrow> str list" where
  "lines_of [] = [[]]"
| "lines_of (x # xs) = (if x = newline then [] # lines_of xs
     else (case lines_of xs of [] \<Rightarrow> [[x]] | line # more_lines \<Rightarrow> (x # line) # more_lines))"

definition is_marker_char :: "char \<Rightarrow> bool" where "is_marker_char c = (is_lower_az c \<or> c = CHR ''_'')"

text \<open>\<open>_MARKER_LINE\<close> on one line: the run of word characters is followed by a space or the end.\<close>

definition marker_word :: "str \<Rightarrow> str option" where
  "marker_word line =
     (if starts_with line LOG_MARKER then
        (let after = drop (length LOG_MARKER) line; word = takeWhile is_marker_char after; tail = dropWhile is_marker_char after
         in if word \<noteq> [] \<and> (tail = [] \<or> starts_with tail '' '') then Some word else None)
      else None)"

definition status_from_log :: "str \<Rightarrow> str option \<Rightarrow> (str \<times> str) option" where
  "status_from_log dash text =
     (if \<not> truthy text then None
      else (case foldl (\<lambda>word found. if map_of (STATUS_TEXTS dash) found \<noteq> None then Some found else word) None
              (List.map_filter marker_word (lines_of (or_empty text))) of
          None \<Rightarrow> None
        | Some word \<Rightarrow> Some (word, alist_get (STATUS_TEXTS dash) word [])))"

section \<open>One call\<close>

record build_state =
  bs_build_id :: int
  bs_state :: str

record wait_result =
  wr_outcome :: wait_outcome
  wr_reason :: "str option"
  wr_build_id :: "int option"

definition build_graph :: "wait_result \<Rightarrow> bool" where "build_graph r = (wr_outcome r \<noteq> Cancelled)"

text \<open>The exceptions \<open>_Transient\<close> and \<open>_Ended\<close> with their word; \<open>Crashed\<close> is any other \<open>Exception\<close>.\<close>

datatype failure = Transient str | Ended str | Crashed

datatype json_read = Parsed json | Not_json | Unreadable

text \<open>What httpx gives for one call: no answer within the limit, a lost connection, any other error, or a
  status with the headers and the chunks of its body.\<close>

datatype reply = No_answer | Connection_lost | Call_error | Answer nat str str "str list"

definition iso_or_null :: "(str \<Rightarrow> bool) \<Rightarrow> json \<Rightarrow> bool" where
  "iso_or_null aware v = (case v of JNull \<Rightarrow> True | JStr s \<Rightarrow> aware s | _ \<Rightarrow> False)"

definition build_state_of :: "(str \<Rightarrow> json_read) \<Rightarrow> (str \<Rightarrow> bool) \<Rightarrow> str list \<Rightarrow> str \<Rightarrow> failure + build_state" where
  "build_state_of loads aware states body = (case loads body of
      Unreadable \<Rightarrow> Inl Crashed
    | Not_json \<Rightarrow> Inl (Transient ''shape'')
    | Parsed (JObj kvs) \<Rightarrow>
        (case (map_of kvs ''build_id'', map_of kvs ''state'', map_of kvs ''started_at'', map_of kvs ''finished_at'') of
           (Some (JInt n), Some (JStr s), Some a, Some b) \<Rightarrow>
             if 1 \<le> n \<and> n \<le> BUILD_ID_MAX \<and> s \<in> set states \<and> iso_or_null aware a \<and> iso_or_null aware b
             then Inr \<lparr>bs_build_id = n, bs_state = s\<rparr> else Inl (Transient ''shape'')
         | _ \<Rightarrow> Inl (Transient ''shape''))
    | _ \<Rightarrow> Inl (Transient ''shape''))"

fun read_chunks :: "str \<Rightarrow> str list \<Rightarrow> failure + str" where
  "read_chunks body [] = Inr body"
| "read_chunks body (chunk # chunks) =
     (if length (body @ chunk) > MAX_BYTES then Inl (Transient ''shape'') else read_chunks (body @ chunk) chunks)"

definition read_body :: "str \<Rightarrow> str \<Rightarrow> str list \<Rightarrow> failure + str" where
  "read_body content_encoding content_length chunks =
     (let encoding = map ascii_lower (py_strip content_encoding) in
      if encoding \<noteq> [] \<and> encoding \<noteq> ''identity'' then Inl (Transient ''shape'')
      else if py_isdigit content_length then
        (case py_int content_length of
           None \<Rightarrow> Inl Crashed
         | Some n \<Rightarrow> if n > int MAX_BYTES then Inl (Transient ''shape'') else read_chunks [] chunks)
      else read_chunks [] chunks)"

definition send_within :: "reply \<Rightarrow> failure + nat \<times> str" where
  "send_within r = (case r of
      No_answer \<Rightarrow> Inl (Transient ''timeout'')
    | Connection_lost \<Rightarrow> Inl (Transient ''network'')
    | Call_error \<Rightarrow> Inl Crashed
    | Answer status content_encoding content_length chunks \<Rightarrow>
        (case read_body content_encoding content_length chunks of Inl e \<Rightarrow> Inl e | Inr body \<Rightarrow> Inr (status, body)))"

definition REFUSAL_CODES :: "(nat \<times> str) list" where
  "REFUSAL_CODES = [(409, ''no_inputs''), (429, ''build_interval''), (403, ''token'')]"

definition status_word :: "nat \<Rightarrow> str" where "status_word n = ''status_'' @ show_nat n"

definition request :: "(str \<Rightarrow> json_read) \<Rightarrow> (str \<Rightarrow> bool) \<Rightarrow> reply \<Rightarrow> failure + build_state" where
  "request loads aware r = (case send_within r of
      Inl e \<Rightarrow> Inl e
    | Inr (status, body) \<Rightarrow>
        if status = 200 then (case build_state_of loads aware POST_STATES body of Inl (Transient w) \<Rightarrow> Inl (Ended ''shape'') | found \<Rightarrow> found)
        else if status = 503 then Inl (Transient ''status_503'')
        else Inl (Ended (alist_get REFUSAL_CODES status (status_word status))))"

definition state_of :: "(str \<Rightarrow> json_read) \<Rightarrow> (str \<Rightarrow> bool) \<Rightarrow> int \<Rightarrow> reply \<Rightarrow> failure + build_state" where
  "state_of loads aware build_id r = (case send_within r of
      Inl e \<Rightarrow> Inl e
    | Inr (status, body) \<Rightarrow>
        if status = 200 then
          (case build_state_of loads aware GET_STATES body of
             Inl e \<Rightarrow> Inl e
           | Inr found \<Rightarrow> if bs_build_id found \<noteq> build_id then Inl (Transient ''shape'') else Inr found)
        else if status = 403 then Inl (Ended ''token'')
        else if status = 404 then Inl (Ended ''unknown_build'')
        else Inl (Transient (status_word status)))"

definition ready :: "build_state \<Rightarrow> wait_result option" where
  "ready found =
     (if bs_state found = ''up_to_date'' then Some \<lparr>wr_outcome = Up_to_date, wr_reason = None, wr_build_id = Some (bs_build_id found)\<rparr>
      else if bs_state found = ''done'' then Some \<lparr>wr_outcome = Done, wr_reason = None, wr_build_id = Some (bs_build_id found)\<rparr>
      else if bs_state found = ''failed'' then Some \<lparr>wr_outcome = Unavailable, wr_reason = Some ''failed'', wr_build_id = Some (bs_build_id found)\<rparr>
      else None)"

section \<open>The wait\<close>

datatype call = Post | Get int

text \<open>The reply to the call of a number, what it took given its limit, how far the pause of a number ran over,
  and the answer of the question after it, None when \<open>should_stop\<close> raises.\<close>

record wait_env =
  we_loads :: "str \<Rightarrow> json_read"
  we_aware :: "str \<Rightarrow> bool"
  we_reply :: "nat \<Rightarrow> call \<Rightarrow> reply"
  we_took :: "nat \<Rightarrow> real \<Rightarrow> real"
  we_over :: "nat \<Rightarrow> real"
  we_stop :: "nat \<Rightarrow> bool option"
  we_waiting_raises :: bool

text \<open>A call made: when it started, its limit and what it was.\<close>

record wait_state =
  ws_now :: real
  ws_calls :: "(real \<times> real \<times> call) list"
  ws_pauses :: nat
  ws_shown :: "int list"

definition limit_at :: "real \<Rightarrow> wait_state \<Rightarrow> real" where
  "limit_at deadline s = max 0 (min CALL_SECONDS (deadline - ws_now s))"

definition make_call :: "wait_env \<Rightarrow> real \<Rightarrow> call \<Rightarrow> wait_state \<Rightarrow> reply \<times> wait_state" where
  "make_call env deadline c s =
     (let n = length (ws_calls s); lim_s = limit_at deadline s
      in (we_reply env n c, s\<lparr>ws_now := ws_now s + we_took env n lim_s, ws_calls := ws_calls s @ [(ws_now s, lim_s, c)]\<rparr>))"

definition pause :: "wait_env \<Rightarrow> real \<Rightarrow> wait_state \<Rightarrow> wait_state" where
  "pause env seconds s = s\<lparr>ws_now := ws_now s + seconds + we_over env (ws_pauses s), ws_pauses := ws_pauses s + 1\<rparr>"

text \<open>\<open>should_stop\<close> is asked once after each pause.\<close>

definition stop_asked :: "wait_env \<Rightarrow> wait_state \<Rightarrow> bool option" where
  "stop_asked env s = we_stop env (ws_pauses s)"

definition the_post :: "wait_env \<Rightarrow> real \<Rightarrow> wait_state \<Rightarrow> (failure + build_state) \<times> wait_state" where
  "the_post env deadline s = (case make_call env deadline Post s of (r, s1) \<Rightarrow> (request (we_loads env) (we_aware env) r, s1))"

definition the_get :: "wait_env \<Rightarrow> real \<Rightarrow> int \<Rightarrow> wait_state \<Rightarrow> (failure + build_state) \<times> wait_state" where
  "the_get env deadline build_id s =
     (case make_call env deadline (Get build_id) s of (r, s1) \<Rightarrow> (state_of (we_loads env) (we_aware env) build_id r, s1))"

text \<open>\<open>_request\<close>: an answer, an end of the wait, or an exception that leaves it.\<close>

definition request_build :: "wait_env \<Rightarrow> real \<Rightarrow> wait_state \<Rightarrow> (failure + wait_result + build_state) \<times> wait_state" where
  "request_build env deadline s = (case the_post env deadline s of
      (Inr found, s1) \<Rightarrow> (Inr (Inr found), s1)
    | (Inl (Transient w), s1) \<Rightarrow>
        (let s2 = pause env POST_RETRY_SECONDS s1 in
         case stop_asked env s2 of
           None \<Rightarrow> (Inl Crashed, s2)
         | Some True \<Rightarrow> (Inr (Inl \<lparr>wr_outcome = Cancelled, wr_reason = None, wr_build_id = None\<rparr>), s2)
         | Some False \<Rightarrow>
             (case the_post env deadline s2 of
                (Inr found, s3) \<Rightarrow> (Inr (Inr found), s3)
              | (Inl (Transient w), s3) \<Rightarrow> (Inr (Inl \<lparr>wr_outcome = Unavailable, wr_reason = Some ''unreachable'', wr_build_id = None\<rparr>), s3)
              | (Inl e, s3) \<Rightarrow> (Inl e, s3)))
    | (Inl e, s1) \<Rightarrow> (Inl e, s1))"

definition timed_out :: "int \<Rightarrow> wait_result" where
  "timed_out build_id = \<lparr>wr_outcome = Unavailable, wr_reason = Some ''timeout'', wr_build_id = Some build_id\<rparr>"

text \<open>One round of \<open>_poll\<close>: how it ends the wait, None when the loop goes on.\<close>

definition poll_round :: "wait_env \<Rightarrow> real \<Rightarrow> int \<Rightarrow> wait_state \<Rightarrow> (failure + wait_result) option \<times> wait_state" where
  "poll_round env deadline build_id s =
     (let remaining = deadline - ws_now s in
      if remaining \<le> 0 then (Some (Inr (timed_out build_id)), s)
      else (let s1 = pause env (min POLL_SECONDS remaining) s in
        case stop_asked env s1 of
          None \<Rightarrow> (Some (Inl Crashed), s1)
        | Some True \<Rightarrow> (Some (Inr \<lparr>wr_outcome = Cancelled, wr_reason = None, wr_build_id = Some build_id\<rparr>), s1)
        | Some False \<Rightarrow>
            (if ws_now s1 \<ge> deadline then (Some (Inr (timed_out build_id)), s1)
             else (case the_get env deadline build_id s1 of
                 (Inl (Transient w), s2) \<Rightarrow> (None, s2)
               | (Inl (Ended w), s2) \<Rightarrow> (Some (Inr \<lparr>wr_outcome = Unavailable, wr_reason = Some w, wr_build_id = Some build_id\<rparr>), s2)
               | (Inl Crashed, s2) \<Rightarrow> (Some (Inl Crashed), s2)
               | (Inr found, s2) \<Rightarrow> (map_option Inr (ready found), s2)))))"

partial_function (option) poll_loop :: "wait_env \<Rightarrow> real \<Rightarrow> int \<Rightarrow> wait_state \<Rightarrow> ((failure + wait_result) \<times> wait_state) option" where
  "poll_loop env deadline build_id s = (case poll_round env deadline build_id s of
      (Some r, s1) \<Rightarrow> Some (r, s1)
    | (None, s1) \<Rightarrow> poll_loop env deadline build_id s1)"

declare poll_loop.simps [code]

definition poll :: "wait_env \<Rightarrow> real \<Rightarrow> int \<Rightarrow> wait_state \<Rightarrow> ((failure + wait_result) \<times> wait_state) option" where
  "poll env deadline build_id s =
     (let s1 = s\<lparr>ws_shown := ws_shown s @ [build_id]\<rparr>
      in if we_waiting_raises env then Some (Inl Crashed, s1) else poll_loop env deadline build_id s1)"

definition run_wait :: "wait_env \<Rightarrow> wait_state \<Rightarrow> ((failure + wait_result) \<times> wait_state) option" where
  "run_wait env s =
     (let deadline = ws_now s + WAIT_LIMIT_SECONDS in
      case request_build env deadline s of
        (Inl (Ended w), s1) \<Rightarrow> Some (Inr \<lparr>wr_outcome = Unavailable, wr_reason = Some w, wr_build_id = None\<rparr>, s1)
      | (Inl e, s1) \<Rightarrow> Some (Inl e, s1)
      | (Inr (Inl res), s1) \<Rightarrow> Some (Inr res, s1)
      | (Inr (Inr answer), s1) \<Rightarrow>
          (case ready answer of Some res \<Rightarrow> Some (Inr res, s1) | None \<Rightarrow> poll env deadline (bs_build_id answer) s1))"

definition wait_before_graph :: "bool \<Rightarrow> wait_env \<Rightarrow> real \<Rightarrow> (wait_result \<times> wait_state) option" where
  "wait_before_graph enabled env started =
     (let s = \<lparr>ws_now = started, ws_calls = [], ws_pauses = 0, ws_shown = []\<rparr> in
      if \<not> enabled then Some (\<lparr>wr_outcome = Off, wr_reason = None, wr_build_id = None\<rparr>, s)
      else (case run_wait env s of
          None \<Rightarrow> None
        | Some (Inr res, s1) \<Rightarrow> Some (res, s1)
        | Some (Inl e, s1) \<Rightarrow> Some (\<lparr>wr_outcome = Unavailable, wr_reason = Some ''error'', wr_build_id = None\<rparr>, s1)))"

end
