(* ===== verification/Station_Wait_Properties.thy ===== *)
theory Station_Wait_Properties
  imports Station_Build_Wait
begin

text \<open>
  The wait for a station build keeps its contract: it ends within its thirty minutes, asks for a build at
  most twice and never while it polls, and ends as the last answer says.
\<close>

section \<open>What the runtime does\<close>

text \<open>A call ends within its limit (\<open>asyncio.timeout\<close>) and a pause lasts at least what was asked
  (\<open>time.sleep\<close>), and \<open>over\<close> more at most.\<close>

definition keeps_time :: "real \<Rightarrow> wait_env \<Rightarrow> bool" where
  "keeps_time over env \<longleftrightarrow> (\<forall>n l. 0 \<le> l \<longrightarrow> 0 \<le> we_took env n l \<and> we_took env n l \<le> l) \<and> (\<forall>n. 0 \<le> we_over env n \<and> we_over env n \<le> over)"

lemma keeps_timeD:
  "keeps_time over env \<Longrightarrow> 0 \<le> l \<Longrightarrow> 0 \<le> we_took env n l" "keeps_time over env \<Longrightarrow> 0 \<le> l \<Longrightarrow> we_took env n l \<le> l"
  "keeps_time over env \<Longrightarrow> 0 \<le> we_over env n" "keeps_time over env \<Longrightarrow> we_over env n \<le> over"
  by (simp_all add: keeps_time_def)

lemma limit_at_bounds: "0 \<le> limit_at d s" "limit_at d s \<le> CALL_SECONDS" "ws_now s \<le> d \<Longrightarrow> ws_now s + limit_at d s \<le> d"
  by (simp_all add: limit_at_def CALL_SECONDS_def)

lemma pause_fields [simp]: "ws_calls (pause env x s) = ws_calls s" "ws_pauses (pause env x s) = ws_pauses s + 1" "ws_shown (pause env x s) = ws_shown s"
  "ws_now (pause env x s) = ws_now s + x + we_over env (ws_pauses s)"
  by (simp_all add: pause_def)

lemma make_call_fields [simp]: "ws_calls (snd (make_call env d c s)) = ws_calls s @ [(ws_now s, limit_at d s, c)]"
  "ws_pauses (snd (make_call env d c s)) = ws_pauses s" "ws_shown (snd (make_call env d c s)) = ws_shown s"
  "ws_now (snd (make_call env d c s)) = ws_now s + we_took env (length (ws_calls s)) (limit_at d s)"
  "fst (make_call env d c s) = we_reply env (length (ws_calls s)) c"
  by (simp_all add: make_call_def Let_def)

lemma the_get_eq: "the_get env d i s = (state_of (we_loads env) (we_aware env) i (we_reply env (length (ws_calls s)) (Get i)), snd (make_call env d (Get i) s))"
  by (simp add: the_get_def case_prod_unfold)

lemma the_post_eq: "the_post env d s = (request (we_loads env) (we_aware env) (we_reply env (length (ws_calls s)) Post), snd (make_call env d Post s))"
  by (simp add: the_post_def case_prod_unfold)

section \<open>The poll ends\<close>

text \<open>The calls of a poll: of one build, ten seconds apart, each within the deadline.\<close>

definition is_get :: "real \<Rightarrow> int \<Rightarrow> real \<Rightarrow> real \<times> real \<times> call \<Rightarrow> bool" where
  "is_get d i t0 c = (case c of (start, lim_s, what) \<Rightarrow> what = Get i \<and> t0 \<le> start \<and> lim_s \<le> CALL_SECONDS \<and> start + lim_s \<le> d)"

definition spaced :: "(real \<times> real \<times> call) list \<Rightarrow> bool" where
  "spaced calls = sorted_wrt (\<lambda>a b. fst a + POLL_SECONDS \<le> fst b) calls"

lemma poll_round_cases:
  assumes "poll_round env d i s = (r, s')" "keeps_time over env"
  shows "(\<exists>x. r = Some x) \<and> ws_calls s' = ws_calls s \<and> ws_now s' \<le> max (ws_now s) (d + over)
       \<or> (\<exists>start lim_s. ws_calls s' = ws_calls s @ [(start, lim_s, Get i)] \<and> is_get d i (ws_now s + POLL_SECONDS) (start, lim_s, Get i)
           \<and> start < d \<and> start \<le> ws_now s' \<and> ws_now s' \<le> d)"
proof -
  define s1 where "s1 = pause env (min POLL_SECONDS (d - ws_now s)) s"
  note time = keeps_timeD [OF assms(2)]
  have early: "ws_now s1 \<le> max (ws_now s) (d + over)" if "0 < d - ws_now s"
    using time(4) [of "ws_pauses s"] by (simp add: s1_def)
  consider "d - ws_now s \<le> 0" | "0 < d - ws_now s" "stop_asked env s1 \<noteq> Some False \<or> d \<le> ws_now s1"
    | "0 < d - ws_now s" "stop_asked env s1 = Some False" "ws_now s1 < d" by fastforce
  then show ?thesis
  proof cases
    case 1
    then show ?thesis using assms(1) by (auto simp: poll_round_def)
  next
    case 2
    have "(\<exists>x. r = Some x) \<and> s' = s1"
      using assms(1) 2 by (auto simp: poll_round_def Let_def s1_def [symmetric] split: option.splits bool.splits if_splits)
    moreover have "ws_calls s1 = ws_calls s" by (simp add: s1_def)
    ultimately show ?thesis using early [OF 2(1)] by simp
  next
    case 3
    have ten: "min POLL_SECONDS (d - ws_now s) = POLL_SECONDS"
      using 3(3) time(3) [of "ws_pauses s"] by (simp add: s1_def min_def split: if_splits)
    then have s1: "s1 = pause env POLL_SECONDS s" by (simp add: s1_def)
    have s': "s' = snd (make_call env d (Get i) s1)"
      using assms(1) 3 by (auto simp: poll_round_def Let_def s1_def [symmetric] the_get_eq split: sum.splits failure.splits)
    have took: "0 \<le> we_took env (length (ws_calls s1)) (limit_at d s1)" "we_took env (length (ws_calls s1)) (limit_at d s1) \<le> limit_at d s1"
      using time(1,2) limit_at_bounds(1) by blast+
    show ?thesis
      by (rule disjI2, rule exI [of _ "ws_now s1"], rule exI [of _ "limit_at d s1"])
        (use 3(3) took limit_at_bounds(2) [of d s1] limit_at_bounds(3) [of s1 d] time(3) [of "ws_pauses s"] in \<open>simp add: s' s1 is_get_def\<close>)
  qed
qed

lemma is_get_later: "is_get d i t call \<Longrightarrow> t' \<le> t \<Longrightarrow> is_get d i t' call"
  by (auto simp: is_get_def)

lemma poll_loop_ends:
  assumes "keeps_time over env"
  shows "d - ws_now s \<le> POLL_SECONDS * real n \<Longrightarrow>
    \<exists>r s' gets. poll_loop env d i s = Some (r, s') \<and> ws_calls s' = ws_calls s @ gets \<and> length gets \<le> n - 1
      \<and> list_all (is_get d i (ws_now s + POLL_SECONDS)) gets \<and> spaced gets \<and> ws_now s' \<le> max (ws_now s) (d + over)"
proof (induction n arbitrary: s)
  case 0
  then show ?case
    by (simp add: poll_loop.simps [of env d i s] poll_round_def spaced_def)
next
  case (Suc n)
  obtain r s1 where round: "poll_round env d i s = (r, s1)" by (cases "poll_round env d i s")
  have over: "0 \<le> over" using keeps_timeD(3,4) [OF assms, of 0] by linarith
  from poll_round_cases [OF round assms] show ?case
  proof (elim disjE exE conjE)
    fix x assume "r = Some x" "ws_calls s1 = ws_calls s" "ws_now s1 \<le> max (ws_now s) (d + over)"
    then show ?thesis by (simp add: poll_loop.simps [of env d i s] round spaced_def)
  next
    fix start lim_s
    assume one: "ws_calls s1 = ws_calls s @ [(start, lim_s, Get i)]" "is_get d i (ws_now s + POLL_SECONDS) (start, lim_s, Get i)"
      "start < d" "start \<le> ws_now s1" "ws_now s1 \<le> d"
    have ten: "ws_now s + POLL_SECONDS \<le> start" using one(2) by (simp add: is_get_def)
    have n: "0 < n" using Suc.prems one(3) ten by (cases n) simp_all
    show ?thesis
    proof (cases r)
      case (Some x)
      then show ?thesis using one n over
        by (intro exI [of _ x] exI [of _ s1] exI [of _ "[(start, lim_s, Get i)]"]) (simp add: poll_loop.simps [of env d i s] round spaced_def)
    next
      case None
      have "d - ws_now s1 \<le> POLL_SECONDS * real n" using Suc.prems ten one(4) by (simp add: algebra_simps)
      from Suc.IH [OF this] obtain x s' gets where rest: "poll_loop env d i s1 = Some (x, s')" "ws_calls s' = ws_calls s1 @ gets"
        "length gets \<le> n - 1" "list_all (is_get d i (ws_now s1 + POLL_SECONDS)) gets" "spaced gets" "ws_now s' \<le> max (ws_now s1) (d + over)" by blast
      have later: "list_all (\<lambda>c. start + POLL_SECONDS \<le> fst c) gets" "list_all (is_get d i (ws_now s + POLL_SECONDS)) gets"
        using rest(4) one(4) ten by (auto simp: list_all_iff is_get_def POLL_SECONDS_def split: prod.splits)
      show ?thesis
        by (intro exI [of _ x] exI [of _ s'] exI [of _ "(start, lim_s, Get i) # gets"])
          (use rest later one n over in \<open>auto simp: poll_loop.simps [of env d i s] round None spaced_def list_all_iff\<close>)
    qed
  qed
qed

section \<open>The request\<close>

definition is_post :: "real \<times> real \<times> call \<Rightarrow> bool" where
  "is_post call = (case call of (start, lim_s, what) \<Rightarrow> what = Post \<and> lim_s \<le> CALL_SECONDS)"

lemma the_post_time:
  assumes "keeps_time over env" "the_post env d s = (r, s')"
  shows "ws_calls s' = ws_calls s @ [(ws_now s, limit_at d s, Post)]" "ws_now s \<le> ws_now s'" "ws_now s' \<le> ws_now s + CALL_SECONDS"
    "ws_pauses s' = ws_pauses s"
proof -
  have s': "s' = snd (make_call env d Post s)" using assms(2) by (simp add: the_post_eq)
  show "ws_calls s' = ws_calls s @ [(ws_now s, limit_at d s, Post)]" "ws_pauses s' = ws_pauses s" by (simp_all add: s')
  show "ws_now s \<le> ws_now s'" "ws_now s' \<le> ws_now s + CALL_SECONDS"
    using keeps_timeD(1,2) [OF assms(1) limit_at_bounds(1) [of d s], of "length (ws_calls s)"] limit_at_bounds(2) [of d s] by (simp_all add: s')
qed

lemma request_build_contract:
  assumes "keeps_time over env" "request_build env d s = (r, s')"
  shows "\<exists>posts. ws_calls s' = ws_calls s @ posts \<and> 1 \<le> length posts \<and> length posts \<le> 2 \<and> list_all is_post posts
    \<and> ws_now s \<le> ws_now s' \<and> ws_now s' \<le> ws_now s + (POST_RETRY_SECONDS + 2 * CALL_SECONDS + over)"
proof -
  obtain a s1 where first: "the_post env d s = (a, s1)" by (cases "the_post env d s")
  note t1 = the_post_time [OF assms(1) first]
  define s2 where "s2 = pause env POST_RETRY_SECONDS s1"
  have over: "0 \<le> we_over env (ws_pauses s1)" "we_over env (ws_pauses s1) \<le> over" using keeps_timeD(3,4) [OF assms(1)] by blast+
  obtain b s3 where second: "the_post env d s2 = (b, s3)" by (cases "the_post env d s2")
  note t3 = the_post_time [OF assms(1) second]
  have "s' \<in> {s1, s2, s3}"
    using assms(2) by (auto simp: request_build_def first second s2_def [symmetric] Let_def split: sum.splits failure.splits option.splits bool.splits)
  then consider "s' = s1" | "s' = s2" | "s' = s3" by blast
  then show ?thesis
  proof cases
    case 1
    then show ?thesis using t1 over limit_at_bounds(2) [of d s]
      by (intro exI [of _ "[(ws_now s, limit_at d s, Post)]"]) (simp add: is_post_def POST_RETRY_SECONDS_def CALL_SECONDS_def)
  next
    case 2
    then show ?thesis using t1 over limit_at_bounds(2) [of d s]
      by (intro exI [of _ "[(ws_now s, limit_at d s, Post)]"]) (simp add: s2_def is_post_def POST_RETRY_SECONDS_def CALL_SECONDS_def)
  next
    case 3
    then show ?thesis using t1 t3 over limit_at_bounds(2) [of d s] limit_at_bounds(2) [of d s2]
      by (intro exI [of _ "[(ws_now s, limit_at d s, Post), (ws_now s2, limit_at d s2, Post)]"])
        (simp add: s2_def is_post_def POST_RETRY_SECONDS_def CALL_SECONDS_def)
  qed
qed

lemma run_wait_contract:
  assumes "keeps_time over env"
  shows "\<exists>r s' posts gets i. run_wait env s = Some (r, s') \<and> ws_calls s' = ws_calls s @ posts @ gets
    \<and> 1 \<le> length posts \<and> length posts \<le> 2 \<and> list_all is_post posts
    \<and> list_all (is_get (ws_now s + WAIT_LIMIT_SECONDS) i (ws_now s)) gets \<and> spaced gets \<and> length gets \<le> 179
    \<and> ws_now s' \<le> ws_now s + WAIT_LIMIT_SECONDS + over"
proof -
  define d where "d = ws_now s + WAIT_LIMIT_SECONDS"
  obtain a s1 where req: "request_build env d s = (a, s1)" by (cases "request_build env d s")
  obtain posts where posts: "ws_calls s1 = ws_calls s @ posts" "1 \<le> length posts" "length posts \<le> 2" "list_all is_post posts"
    "ws_now s \<le> ws_now s1" "ws_now s1 \<le> ws_now s + (POST_RETRY_SECONDS + 2 * CALL_SECONDS + over)"
    using request_build_contract [OF assms req] by blast
  have soon: "ws_now s1 \<le> d + over" using posts(6) by (simp add: d_def WAIT_LIMIT_SECONDS_def POST_RETRY_SECONDS_def CALL_SECONDS_def)
  show ?thesis
  proof (cases "\<exists>answer. a = Inr (Inr answer) \<and> ready answer = None \<and> \<not> we_waiting_raises env")
    case False
    then have "\<exists>r s'. run_wait env s = Some (r, s') \<and> ws_calls s' = ws_calls s1 \<and> ws_now s' = ws_now s1"
      by (auto simp: run_wait_def Let_def d_def [symmetric] req poll_def split: sum.split failure.split option.split)
    then obtain r s' where "run_wait env s = Some (r, s')" "ws_calls s' = ws_calls s1" "ws_now s' = ws_now s1" by blast
    then show ?thesis using posts soon by (intro exI [of _ r] exI [of _ s'] exI [of _ posts] exI [of _ "[]"]) (simp add: spaced_def d_def)
  next
    case True
    then obtain answer where answer: "a = Inr (Inr answer)" "ready answer = None" "\<not> we_waiting_raises env" by blast
    define s2 where "s2 = s1\<lparr>ws_shown := ws_shown s1 @ [bs_build_id answer]\<rparr>"
    have "d - ws_now s2 \<le> POLL_SECONDS * real 180" using posts(5) by (simp add: s2_def d_def WAIT_LIMIT_SECONDS_def POLL_SECONDS_def)
    from poll_loop_ends [OF assms this, of "bs_build_id answer"] obtain r s' gets where loop: "poll_loop env d (bs_build_id answer) s2 = Some (r, s')"
      "ws_calls s' = ws_calls s2 @ gets" "length gets \<le> 179" "list_all (is_get d (bs_build_id answer) (ws_now s2 + POLL_SECONDS)) gets" "spaced gets"
      "ws_now s' \<le> max (ws_now s2) (d + over)" by auto
    have "run_wait env s = Some (r, s')"
      using answer loop(1) by (simp add: run_wait_def Let_def d_def [symmetric] req poll_def s2_def)
    moreover have "list_all (is_get d (bs_build_id answer) (ws_now s)) gets"
      using loop(4) posts(5) by (auto simp: list_all_iff s2_def POLL_SECONDS_def is_get_def split: prod.splits)
    ultimately show ?thesis using posts loop soon
      by (intro exI [of _ r] exI [of _ s'] exI [of _ posts] exI [of _ gets] exI [of _ "bs_build_id answer"]) (simp add: s2_def d_def)
  qed
qed

text \<open>C32: the wait always ends, and keeps its contract with the station module. Whatever the module answers
  or does not answer, it makes one or two \<open>POST\<close>s and then polls one build only, at most 179 times, the
  \<open>GET\<close>s at least ten seconds apart; no call lasts more than five seconds and no poll passes the thirty
  minutes, at which the wait is over but for what a last pause ran over.\<close>

theorem station_wait_keeps_contract:
  assumes "keeps_time over env"
  shows "\<exists>res s posts gets i. wait_before_graph True env started = Some (res, s) \<and> ws_calls s = posts @ gets
    \<and> 1 \<le> length posts \<and> length posts \<le> 2 \<and> list_all is_post posts
    \<and> list_all (is_get (started + WAIT_LIMIT_SECONDS) i started) gets \<and> spaced gets \<and> length gets \<le> 179
    \<and> ws_now s \<le> started + WAIT_LIMIT_SECONDS + over"
proof -
  define s0 where "s0 = \<lparr>ws_now = started, ws_calls = [], ws_pauses = 0, ws_shown = []\<rparr>"
  obtain r s posts gets i where w: "run_wait env s0 = Some (r, s)" "ws_calls s = ws_calls s0 @ posts @ gets"
    "1 \<le> length posts" "length posts \<le> 2" "list_all is_post posts"
    "list_all (is_get (ws_now s0 + WAIT_LIMIT_SECONDS) i (ws_now s0)) gets" "spaced gets" "length gets \<le> 179"
    "ws_now s \<le> ws_now s0 + WAIT_LIMIT_SECONDS + over"
    using run_wait_contract [OF assms, of s0] by blast
  obtain res where "wait_before_graph True env started = Some (res, s)"
    using w(1) by (cases r) (simp_all add: wait_before_graph_def s0_def [symmetric] Let_def)
  then show ?thesis using w(2-)
    by (intro exI [of _ res] exI [of _ s] exI [of _ posts] exI [of _ gets] exI [of _ i]) (simp add: s0_def)
qed

section \<open>How the wait ends\<close>

text \<open>The reading of the last call made.\<close>

definition last_answer :: "wait_env \<Rightarrow> wait_state \<Rightarrow> failure + build_state" where
  "last_answer env s = (case last (ws_calls s) of (start, lim_s, what) \<Rightarrow>
     (let r = we_reply env (length (ws_calls s) - 1) what in
      case what of Post \<Rightarrow> request (we_loads env) (we_aware env) r | Get i \<Rightarrow> state_of (we_loads env) (we_aware env) i r))"

definition says :: "wait_env \<Rightarrow> wait_state \<Rightarrow> wait_result \<Rightarrow> str \<Rightarrow> bool" where
  "says env s res st = (case wr_build_id res of None \<Rightarrow> False | Some i \<Rightarrow> last_answer env s = Inr \<lparr>bs_build_id = i, bs_state = st\<rparr>)"

definition refused :: "wait_env \<Rightarrow> wait_state \<Rightarrow> wait_result \<Rightarrow> bool" where
  "refused env s res = (case last_answer env s of Inl (Ended w) \<Rightarrow> wr_reason res = Some w
     | Inl (Transient w) \<Rightarrow> wr_reason res = Some ''unreachable'' | _ \<Rightarrow> False)"

definition raised :: "wait_env \<Rightarrow> wait_state \<Rightarrow> bool" where
  "raised env s \<longleftrightarrow> we_waiting_raises env \<or> we_stop env (ws_pauses s) = None \<or> last_answer env s = Inl Crashed"

definition told :: "wait_env \<Rightarrow> real \<Rightarrow> wait_state \<Rightarrow> wait_result \<Rightarrow> bool" where
  "told env d s res = (case wr_outcome res of
      Off \<Rightarrow> False
    | Done \<Rightarrow> says env s res ''done''
    | Up_to_date \<Rightarrow> says env s res ''up_to_date''
    | Cancelled \<Rightarrow> we_stop env (ws_pauses s) = Some True
    | Unavailable \<Rightarrow> wr_reason res = Some ''failed'' \<and> says env s res ''failed'' \<or> wr_reason res = Some ''timeout'' \<and> d \<le> ws_now s \<or> refused env s res)"

definition ended_rightly :: "wait_env \<Rightarrow> real \<Rightarrow> wait_state \<Rightarrow> failure + wait_result \<Rightarrow> bool" where
  "ended_rightly env d s r = (case r of Inl e \<Rightarrow> raised env s | Inr res \<Rightarrow> told env d s res)"

lemma last_answer_get: "last_answer env (snd (make_call env d (Get i) s)) = fst (the_get env d i s)"
  by (simp add: last_answer_def the_get_eq)

lemma last_answer_post: "last_answer env (snd (make_call env d Post s)) = fst (the_post env d s)"
  by (simp add: last_answer_def the_post_eq)

lemma ready_told: "ready found = Some res \<Longrightarrow> last_answer env s = Inr found \<Longrightarrow> told env d s res"
  by (cases found) (auto simp: ready_def told_def says_def split: if_splits)

lemma poll_round_told:
  assumes "poll_round env d i s = (Some r, s')"
  shows "ended_rightly env d s' r"
proof -
  define s1 where "s1 = pause env (min POLL_SECONDS (d - ws_now s)) s"
  consider "d - ws_now s \<le> 0" | "0 < d - ws_now s" "stop_asked env s1 \<noteq> Some False \<or> d \<le> ws_now s1"
    | "0 < d - ws_now s" "stop_asked env s1 = Some False" "ws_now s1 < d" by fastforce
  then show ?thesis
  proof cases
    case 1
    then show ?thesis using assms by (auto simp: poll_round_def ended_rightly_def told_def timed_out_def)
  next
    case 2
    then show ?thesis using assms
      by (auto simp: poll_round_def Let_def s1_def [symmetric] stop_asked_def ended_rightly_def told_def timed_out_def raised_def split: option.splits bool.splits if_splits)
  next
    case 3
    obtain a where a: "the_get env d i s1 = (a, s')" "(case a of Inl (Transient w) \<Rightarrow> None
        | Inl (Ended w) \<Rightarrow> Some (Inr \<lparr>wr_outcome = Unavailable, wr_reason = Some w, wr_build_id = Some i\<rparr>)
        | Inl Crashed \<Rightarrow> Some (Inl Crashed) | Inr found \<Rightarrow> map_option Inr (ready found)) = Some r"
      using assms 3 by (auto simp: poll_round_def Let_def s1_def [symmetric] split: prod.splits sum.splits failure.splits)
    then have "last_answer env s' = a" using last_answer_get [of env d i s1] by (simp add: the_get_eq)
    moreover have "ended_rightly env d s' r" if "a = Inr found" for found
      using a(2) that \<open>last_answer env s' = a\<close> by (auto simp: ended_rightly_def intro: ready_told)
    ultimately show ?thesis using a(2)
      by (cases a) (auto simp: ended_rightly_def raised_def told_def refused_def split: failure.splits)
  qed
qed

lemma poll_loop_told:
  assumes "poll_loop env d i s = Some r"
  shows "ended_rightly env d (snd r) (fst r)"
proof (rule poll_loop.raw_induct [where P = "\<lambda>env d i s r. ended_rightly env d (snd r) (fst r)", OF _ assms])
  fix loop env d i s r
  assume step: "\<And>env d i s r. loop env d i s = Some r \<Longrightarrow> ended_rightly env d (snd r) (fst r)"
    "(case poll_round env d i s of (None, s1) \<Rightarrow> loop env d i s1 | (Some r, s1) \<Rightarrow> Some (r, s1)) = Some r"
  then show "ended_rightly env d (snd r) (fst r)"
    by (cases "poll_round env d i s") (auto intro: poll_round_told split: option.splits)
qed

lemma request_build_told:
  assumes "request_build env d s = (r, s')"
  shows "case r of Inl e \<Rightarrow> last_answer env s' = Inl e \<and> (\<forall>w. e \<noteq> Transient w) \<or> e = Crashed \<and> raised env s'
    | Inr (Inl res) \<Rightarrow> told env d s' res | Inr (Inr found) \<Rightarrow> last_answer env s' = Inr found"
proof -
  obtain a s1 where first: "the_post env d s = (a, s1)" by (cases "the_post env d s")
  define s2 where "s2 = pause env POST_RETRY_SECONDS s1"
  obtain b s3 where second: "the_post env d s2 = (b, s3)" by (cases "the_post env d s2")
  have last: "last_answer env s1 = a" "last_answer env s3 = b"
    using last_answer_post [of env d s] last_answer_post [of env d s2] first second by (simp_all add: the_post_eq)
  show ?thesis
  proof (cases "\<exists>w. a = Inl (Transient w)")
    case False
    then show ?thesis using assms last by (auto simp: request_build_def first raised_def split: sum.splits failure.splits)
  next
    case True
    then show ?thesis using assms last
      by (auto simp: request_build_def first second s2_def [symmetric] Let_def stop_asked_def raised_def told_def refused_def
          split: sum.splits failure.splits option.splits bool.splits)
  qed
qed

text \<open>C33: the wait ends as it was told. It is cancelled only when the operator's cancel was asked for last and
  answered yes; it counts a build done or up to date only when the last answer says so of that build;
  it gives up only on a build that failed, at the deadline, on the refusal last answered with that
  refusal's word, or on a second lost \<open>POST\<close>; any other exception is an end, too, and is never raised.\<close>

theorem station_wait_ends_as_told:
  assumes "wait_before_graph True env started = Some (res, s)"
  shows "told env (started + WAIT_LIMIT_SECONDS) s res \<or> raised env s \<and> res = \<lparr>wr_outcome = Unavailable, wr_reason = Some ''error'', wr_build_id = None\<rparr>"
proof -
  define s0 where "s0 = \<lparr>ws_now = started, ws_calls = [], ws_pauses = 0, ws_shown = []\<rparr>"
  define d where "d = started + WAIT_LIMIT_SECONDS"
  obtain r where r: "run_wait env s0 = Some (r, s)" "case r of Inl e \<Rightarrow> res = \<lparr>wr_outcome = Unavailable, wr_reason = Some ''error'', wr_build_id = None\<rparr> | Inr x \<Rightarrow> res = x"
    using assms by (auto simp: wait_before_graph_def s0_def [symmetric] Let_def split: option.splits sum.splits)
  obtain a s1 where req: "request_build env d s0 = (a, s1)" by (cases "request_build env d s0")
  have d: "ws_now s0 + WAIT_LIMIT_SECONDS = d" by (simp add: d_def s0_def)
  have "ended_rightly env d s r"
  proof (cases "\<exists>answer. a = Inr (Inr answer) \<and> ready answer = None \<and> \<not> we_waiting_raises env")
    case True
    then show ?thesis using r(1) poll_loop_told by (fastforce simp: run_wait_def Let_def d req poll_def)
  next
    case False
    then show ?thesis using r(1) request_build_told [OF req]
      by (auto simp: run_wait_def Let_def d req poll_def ended_rightly_def raised_def told_def refused_def
          split: sum.splits failure.splits option.splits dest!: ready_told)
  qed
  then show ?thesis using r(2) by (auto simp: ended_rightly_def d_def split: sum.splits)
qed

text \<open>A refusal whose body is compressed is not taken as one: the \<open>POST\<close> is tried again.\<close>

lemma compressed_refusal_retried: "request loads aware (Answer 409 ''gzip'' [] [''{}'']) = Inl (Transient ''shape'')"
  by code_simp

section \<open>The line in the job's log\<close>

lemma lines_of_line: "newline \<notin> set line \<Longrightarrow> lines_of (line @ newline # rest) = line # lines_of rest"
  by (induction line) auto

lemma lines_of_ended: "lines_of (joblog @ newline # rest) = lines_of joblog @ lines_of rest"
proof (induction joblog)
  case (Cons x xs)
  have "lines_of xs \<noteq> []" by (cases xs) (simp_all split: list.split)
  then show ?case using Cons by (auto split: list.splits)
qed simp

definition good_note :: "str option \<Rightarrow> bool" where "good_note why \<longleftrightarrow> (case why of None \<Rightarrow> True | Some w \<Rightarrow> newline \<notin> set w)"

lemma marker_line: "list_all is_marker_char word \<Longrightarrow> word \<noteq> [] \<Longrightarrow> marker_word (LOG_MARKER @ word @ '' '' @ rest) = Some word"
proof -
  assume w: "list_all is_marker_char word" "word \<noteq> []"
  have "\<not> is_marker_char (CHR '' '')" by code_simp
  then have "takeWhile is_marker_char (word @ '' '' @ rest) = word" "dropWhile is_marker_char (word @ '' '' @ rest) = '' '' @ rest"
    using w by (simp_all add: list_all_iff takeWhile_append dropWhile_append)
  then show ?thesis using w(2) by (simp add: marker_word_def Let_def starts_with_def)
qed

lemma decimal_not_newline: "list_all is_decimal s \<Longrightarrow> newline \<notin> set s"
proof
  assume s: "list_all is_decimal s" "newline \<in> set s"
  have "\<not> is_decimal newline" by code_simp
  with s show False by (auto simp: list_all_iff)
qed

lemma show_int_not_newline: "newline \<notin> set (show_int n)"
proof -
  have "newline \<noteq> CHR ''-''" by code_simp
  then show ?thesis using decimal_not_newline [OF show_nat_decimal] by (simp add: show_int_def)
qed

definition wait_words :: "str list" where
  "wait_words = WAITING # map outcome_word [Done, Up_to_date, Unavailable, Cancelled]"

lemma status_words: "word \<in> set wait_words \<Longrightarrow> list_all is_marker_char word \<and> word \<noteq> [] \<and> newline \<notin> set word"
proof -
  have "list_all (\<lambda>w. list_all is_marker_char w \<and> w \<noteq> [] \<and> newline \<notin> set w) wait_words" by code_simp
  then show "word \<in> set wait_words \<Longrightarrow> ?thesis" by (simp add: list_all_iff)
qed

lemma status_sentence:
  assumes "word \<in> set wait_words" "newline \<notin> set dash"
  obtains shown where "map_of (STATUS_TEXTS dash) word = Some shown" "newline \<notin> set shown"
proof -
  have words: "map fst (STATUS_TEXTS dash) = wait_words" by (simp add: STATUS_TEXTS_def wait_words_def)
  then have "word \<in> fst ` set (STATUS_TEXTS dash)" using assms(1) by (metis list.set_map)
  then obtain shown where s: "map_of (STATUS_TEXTS dash) word = Some shown" by (metis map_of_eq_None_iff not_None_eq)
  have "list_all (\<lambda>t. newline \<notin> set t) [''Waiting for the station module build'', ''Station build done'', ''Station build up to date'',
      ''Station module unavailable '', '' graph built on the last station build'', ''Cancelled while waiting for the station module build'']"
    by code_simp
  then have "newline \<notin> set shown" using map_of_SomeD [OF s] assms(2) by (auto simp: STATUS_TEXTS_def)
  then show thesis using that s by blast
qed

text \<open>The page reads back what the worker wrote. After a log that is empty or ends a line, the line of a
  step of the wait, of any word with any build and any reason of one line, is written and is the step
  \<open>status_from_log\<close> gives, with that word's fixed sentence and nothing else of the line.\<close>

theorem log_line_reads_back:
  assumes "word \<in> set wait_words" "newline \<notin> set dash" "good_note why" "joblog = [] \<or> ends_with joblog [newline]"
  shows "\<exists>line shown. log_line dash word build_id why = Inr line \<and> map_of (STATUS_TEXTS dash) word = Some shown
     \<and> status_from_log dash (Some (joblog @ line)) = Some (word, shown)"
proof -
  obtain shown where shown: "map_of (STATUS_TEXTS dash) word = Some shown" "newline \<notin> set shown"
    using status_sentence [OF assms(1,2)] by blast
  note word = status_words [OF assms(1)]
  define extras where "extras = (case build_id of None \<Rightarrow> [] | Some n \<Rightarrow> '' build='' @ show_int n) @ (case why of None \<Rightarrow> [] | Some r \<Rightarrow> '' reason='' @ r)"
  define rest where "rest = extras @ '' '' @ middle_dot @ '' '' @ shown"
  have line: "log_line dash word build_id why = Inr (LOG_MARKER @ word @ rest @ [newline])"
    using shown(1) by (simp add: log_line_def rest_def extras_def)
  obtain tail where tail: "rest = '' '' @ tail"
    by (cases build_id; cases why) (simp_all add: rest_def extras_def)
  have fixed: "list_all (\<lambda>t. newline \<notin> set t) [LOG_MARKER, '' build='', '' reason='', '' '', middle_dot]" by code_simp
  have extras: "newline \<notin> set extras"
    using fixed assms(3) show_int_not_newline by (auto simp: extras_def good_note_def split: option.splits)
  then have one_line: "newline \<notin> set (LOG_MARKER @ word @ rest)"
    using fixed word shown(2) by (simp add: rest_def)
  have "lines_of (LOG_MARKER @ word @ rest @ [newline]) = [LOG_MARKER @ word @ rest, []]"
    using lines_of_line [OF one_line, of "[]"] by simp
  moreover have "marker_word (LOG_MARKER @ word @ rest) = Some word" using marker_line [of word tail] word by (simp add: tail)
  moreover have "marker_word [] = None" by code_simp
  ultimately have last: "List.map_filter marker_word (lines_of (LOG_MARKER @ word @ rest @ [newline])) = [word]"
    by (simp add: List.map_filter_def)
  obtain earlier where "List.map_filter marker_word (lines_of (joblog @ LOG_MARKER @ word @ rest @ [newline])) = earlier @ [word]"
  proof (cases "joblog = []")
    case True
    then show thesis using that last by auto
  next
    case False
    then obtain before where joblog: "joblog = before @ [newline]" using assms(4) by (auto simp: ends_with_iff)
    show thesis using last that by (simp add: joblog lines_of_ended List.map_filter_def)
  qed
  then have "status_from_log dash (Some (joblog @ LOG_MARKER @ word @ rest @ [newline])) = Some (word, shown)"
    using shown(1) by (simp add: status_from_log_def alist_get_def)
  then show ?thesis using line shown(1) by blast
qed

section \<open>A wait\<close>

definition sample_state :: "str \<Rightarrow> json_read" where
  "sample_state st = Parsed (JObj [(''build_id'', JInt 7), (''state'', JStr st), (''started_at'', JNull), (''finished_at'', JNull)])"

text \<open>The module loses the first \<open>POST\<close>, queues the second, is down at the first poll, and then has built.\<close>

definition sample_env :: wait_env where
  "sample_env = \<lparr>we_loads = sample_state, we_aware = (\<lambda>t. False),
     we_reply = (\<lambda>n c. if n = 0 then No_answer else if n = 1 then Answer 200 [] [] [''queued''] else if n = 2 then Answer 503 [] [] [] else Answer 200 [] [] [''done'']),
     we_took = (\<lambda>n l. 0), we_over = (\<lambda>n. 0), we_stop = (\<lambda>n. Some False), we_waiting_raises = False\<rparr>"

lemma sample_env_keeps_time: "keeps_time 0 sample_env" by (simp add: keeps_time_def sample_env_def)

lemma sample_wait:
  "map_option (\<lambda>(res, s). (res, map (\<lambda>(start, lim_s, c). c) (ws_calls s))) (wait_before_graph True sample_env 0)
     = Some (\<lparr>wr_outcome = Done, wr_reason = None, wr_build_id = Some 7\<rparr>, [Post, Post, Get 7, Get 7])"
  by code_simp

theorem station_wait_keeps_contract_witness:
  "\<exists>res s posts gets i. wait_before_graph True sample_env 0 = Some (res, s) \<and> wr_outcome res = Done \<and> ws_calls s = posts @ gets
     \<and> length posts \<le> 2 \<and> list_all (is_get 1800 i 0) gets \<and> map (\<lambda>(start, lim_s, c). c) (posts @ gets) = [Post, Post, Get 7, Get 7]"
proof -
  obtain res s posts gets i where w: "wait_before_graph True sample_env 0 = Some (res, s)" "ws_calls s = posts @ gets" "length posts \<le> 2"
    "list_all (is_get (0 + WAIT_LIMIT_SECONDS) i 0) gets"
    using station_wait_keeps_contract [OF sample_env_keeps_time, of 0] by blast
  show ?thesis using w sample_wait
    by (intro exI [of _ res] exI [of _ s] exI [of _ posts] exI [of _ gets] exI [of _ i]) (simp add: WAIT_LIMIT_SECONDS_def)
qed

theorem station_wait_ends_as_told_witness:
  "\<exists>res s. wait_before_graph True sample_env 0 = Some (res, s) \<and> wr_build_id res = Some 7 \<and> says sample_env s res ''done''"
proof -
  obtain res s where w: "wait_before_graph True sample_env 0 = Some (res, s)" "res = \<lparr>wr_outcome = Done, wr_reason = None, wr_build_id = Some 7\<rparr>"
    using sample_wait by auto
  then show ?thesis using station_wait_ends_as_told [OF w(1)]
    by (intro exI [of _ res] exI [of _ s]) (simp add: told_def)
qed

theorem log_line_reads_back_witness:
  "\<exists>line. log_line ''-'' (outcome_word Unavailable) (Some 7) (Some ''timeout'') = Inr line
     \<and> status_from_log ''-'' (Some line) = Some (''unavailable'', ''Station module unavailable - graph built on the last station build'')"
proof -
  have "newline \<notin> set ''-''" "good_note (Some ''timeout'')" by code_simp+
  then show ?thesis
    using log_line_reads_back [of "outcome_word Unavailable" "''-''" "Some ''timeout''" "[]" "Some 7"]
    by (auto simp: wait_words_def STATUS_TEXTS_def outcome_word_def WAITING_def)
qed

end
