(* ===== verification/Feed_Resolvers.thy ===== *)
theory Feed_Resolvers
  imports Hafas_Adapter Civil_Time
begin

text \<open>
  The resolvers of published feeds, \<open>app/feed_resolvers.py\<close>, with the address check of
  \<open>app/master/nap_importer.py\<close> they end in. A stored resolver is a JSON object. The network is the
  record \<open>network\<close>: what a lookup answers, what probing an address answers, the addresses of a host and
  whether one is public; regular expressions given by an operator are compiled by \<open>nw_regex\<close>. Error
  texts are reduced to the field they name.
\<close>

section \<open>What the code uses of the network and the standard library\<close>

datatype resolve_error = Resolve_error | Regex_error | Raised py_error

datatype lookup_answer = Http_status nat | Http_failure | Not_a_document | Document json

datatype probe_answer = Probe_failure | Probe_status nat "str list"

record network =
  nw_regex :: "str \<Rightarrow> (str \<Rightarrow> bool) option"
  nw_ip_host :: "str \<Rightarrow> bool"
  nw_addresses :: "str \<Rightarrow> str list option"
  nw_public :: "str \<Rightarrow> bool"
  nw_get :: "str \<Rightarrow> (str \<times> str) list \<Rightarrow> lookup_answer"
  nw_probe :: "str \<Rightarrow> probe_answer"
  nw_str :: "json \<Rightarrow> str"

text \<open>\<open>urlsplit\<close>: the scheme and the host part, ValueError for a host with an unmatched bracket or a bracketed
  host that is no IP address (\<open>nw_ip_host\<close>).\<close>

definition is_scheme_char :: "char \<Rightarrow> bool" where
  "is_scheme_char c = (is_ascii_letter c \<or> is_decimal c \<or> c \<in> set ''+-.'')"

definition clean_url :: "str \<Rightarrow> str" where
  "clean_url url = filter (\<lambda>c. (of_char c :: nat) \<notin> {9, 10, 13}) (dropWhile (\<lambda>c. (of_char c :: nat) \<le> 32) url)"

definition split_scheme :: "str \<Rightarrow> str \<times> str" where
  "split_scheme url =
     (let before = takeWhile (\<lambda>c. c \<noteq> CHR '':'') url; after = dropWhile (\<lambda>c. c \<noteq> CHR '':'') url
      in if after \<noteq> [] \<and> before \<noteq> [] \<and> is_ascii_letter (hd before) \<and> list_all is_scheme_char before
         then (map ascii_lower before, tl after) else ([], url))"

definition net_location :: "network \<Rightarrow> str \<Rightarrow> py_error + str" where
  "net_location nw rest =
     (if \<not> starts_with rest ''//'' then Inr []
      else (let netloc = takeWhile (\<lambda>c. c \<notin> set ''/?#'') (drop 2 rest);
                opened = CHR ''['' \<in> set netloc; closed_br = CHR '']'' \<in> set netloc;
                bracketed = takeWhile (\<lambda>c. c \<noteq> CHR '']'') (tl (dropWhile (\<lambda>c. c \<noteq> CHR ''['') netloc))
            in if opened \<noteq> closed_br then Inl (ValueError ''url'')
               else if opened \<and> \<not> nw_ip_host nw bracketed then Inl (ValueError ''url'')
               else Inr netloc))"

definition after_last_at :: "str \<Rightarrow> str" where
  "after_last_at netloc = rev (takeWhile (\<lambda>c. c \<noteq> CHR ''@'') (rev netloc))"

definition host_of_location :: "str \<Rightarrow> str option" where
  "host_of_location netloc =
     (let info = after_last_at netloc;
          host = (if CHR ''['' \<in> set info then takeWhile (\<lambda>c. c \<noteq> CHR '']'') (tl (dropWhile (\<lambda>c. c \<noteq> CHR ''['') info))
                  else takeWhile (\<lambda>c. c \<noteq> CHR '':'') info)
      in if host = [] then None
         else Some (map ascii_lower (takeWhile (\<lambda>c. c \<noteq> CHR ''%'') host) @ dropWhile (\<lambda>c. c \<noteq> CHR ''%'') host))"

definition urlparse :: "network \<Rightarrow> str \<Rightarrow> py_error + str \<times> str option" where
  "urlparse nw url = (case split_scheme (clean_url url) of (scheme, rest) \<Rightarrow>
     rbind (net_location nw rest) (\<lambda>netloc. Inr (scheme, host_of_location netloc)))"

text \<open>\<open>_validate_safe_http_url\<close>.\<close>

definition safe_http_url :: "network \<Rightarrow> str \<Rightarrow> py_error + str" where
  "safe_http_url nw url = rbind (urlparse nw url) (\<lambda>(scheme, host).
     if scheme \<noteq> ''http'' \<and> scheme \<noteq> ''https'' then Inl (ValueError ''scheme'')
     else if \<not> truthy host then Inl (ValueError ''hostname'')
     else (case nw_addresses nw (or_empty host) of
         None \<Rightarrow> Inl (ValueError ''hostname'')
       | Some addresses \<Rightarrow>
           if list_all (\<lambda>a. nw_public nw (takeWhile (\<lambda>c. c \<noteq> CHR ''%'') a)) addresses then Inr url else Inl (ValueError ''address'')))"

section \<open>Validation\<close>

definition text_given :: "network \<Rightarrow> json \<Rightarrow> str" where
  "text_given nw v = py_strip (if json_truthy v then py_str (nw_str nw) v else [])"

definition require_https :: "network \<Rightarrow> json \<Rightarrow> str \<Rightarrow> py_error + str" where
  "require_https nw value name = (let s = text_given nw value in
     rbind (urlparse nw s) (\<lambda>(scheme, host). if scheme \<noteq> ''https'' \<or> \<not> truthy host then Inl (ValueError name) else Inr s))"

text \<open>\<open>_PLACEHOLDER_RE\<close>: the text in pieces, literal or the name between braces.\<close>

datatype piece = Literal str | Placeholder str

function pieces :: "str \<Rightarrow> piece list" where
  "pieces [] = []"
| "pieces (c # cs) =
     (if c = CHR ''{'' then
        (let name = takeWhile (\<lambda>x. x \<noteq> CHR ''{'' \<and> x \<noteq> CHR ''}'') cs; after = dropWhile (\<lambda>x. x \<noteq> CHR ''{'' \<and> x \<noteq> CHR ''}'') cs
         in if after \<noteq> [] \<and> hd after = CHR ''}'' then Placeholder name # pieces (tl after) else Literal [c] # pieces cs)
      else Literal [c] # pieces cs)"
  by pat_completeness auto
termination
  by (relation "measure length") (auto intro!: le_imp_less_Suc le_trans [OF diff_le_self length_dropWhile_le])

definition placeholders :: "str \<Rightarrow> str list" where
  "placeholders url = List.map_filter (\<lambda>p. case p of Placeholder n \<Rightarrow> Some n | Literal t \<Rightarrow> None) (pieces url)"

definition check_placeholders :: "str \<Rightarrow> str list \<Rightarrow> str \<Rightarrow> py_error + unit" where
  "check_placeholders url allowed name = (if list_all (\<lambda>n. n \<in> set allowed) (placeholders url) then Inr () else Inl (ValueError name))"

definition is_hex24 :: "str \<Rightarrow> bool" where
  "is_hex24 s = (length s = 24 \<and> list_all (\<lambda>c. is_decimal c \<or> c \<in> set ''abcdef'') s)"

definition validate_tdg :: "runtime \<Rightarrow> network \<Rightarrow> (str \<times> json) list \<Rightarrow> py_error + json" where
  "validate_tdg rt nw raw =
     rbind (case dget raw ''resource_id'' of
         JStr s \<Rightarrow> if py_isdigit (py_strip s) then (case py_int (py_strip s) of Some n \<Rightarrow> Inr (Some n) | None \<Rightarrow> Inl (ValueError ''int'')) else Inr None
       | JInt n \<Rightarrow> Inr (Some n)
       | _ \<Rightarrow> Inr None) (\<lambda>resource_id.
     case resource_id of
       None \<Rightarrow> Inl (ValueError ''resource_id'')
     | Some n \<Rightarrow> if n \<le> 0 then Inl (ValueError ''resource_id'')
         else (let dataset_id = rt_lower rt (text_given nw (dget raw ''dataset_id'')) in
               if is_hex24 dataset_id then Inr (JObj [(''type'', JStr ''tdg''), (''dataset_id'', JStr dataset_id), (''resource_id'', JInt n)])
               else Inl (ValueError ''dataset_id'')))"

definition rstrip_slash :: "str \<Rightarrow> str" where
  "rstrip_slash s = rev (dropWhile (\<lambda>c. c = CHR ''/'') (rev s))"

definition validate_udata :: "network \<Rightarrow> (str \<times> json) list \<Rightarrow> py_error + json" where
  "validate_udata nw raw =
     rbind (require_https nw (dget raw ''api'') ''api'') (\<lambda>api0.
     let api = rstrip_slash api0; dataset_id = text_given nw (dget raw ''dataset_id''); title_regex = text_given nw (dget raw ''title_regex'')
     in if dataset_id = [] \<or> CHR ''/'' \<in> set dataset_id then Inl (ValueError ''dataset_id'')
        else if nw_regex nw title_regex = None then Inl (ValueError ''title_regex'')
        else if title_regex = [] then Inl (ValueError ''title_regex'')
        else Inr (JObj [(''type'', JStr ''udata''), (''api'', JStr api), (''dataset_id'', JStr dataset_id), (''title_regex'', JStr title_regex)]))"

definition validate_permalink :: "network \<Rightarrow> (str \<times> json) list \<Rightarrow> py_error + json" where
  "validate_permalink nw raw =
     rbind (require_https nw (dget raw ''url'') ''url'') (\<lambda>url.
     rbind (check_placeholders url [''timetable_year''] ''url'') (\<lambda>u.
     Inr (JObj [(''type'', JStr ''permalink''), (''url'', JStr url)])))"

definition DATED_DEFAULT_DAYS_BACK :: int where "DATED_DEFAULT_DAYS_BACK = 21"
definition DATED_MAX_DAYS_BACK :: int where "DATED_MAX_DAYS_BACK = 60"

definition validate_dated :: "network \<Rightarrow> (str \<times> json) list \<Rightarrow> py_error + json" where
  "validate_dated nw raw =
     rbind (require_https nw (dget raw ''url'') ''url'') (\<lambda>url.
     if \<not> has_part url ''{date}'' then Inl (ValueError ''url'')
     else rbind (check_placeholders url [''date''] ''url'') (\<lambda>u.
       (case (case map_of raw ''max_days_back'' of None \<Rightarrow> JInt DATED_DEFAULT_DAYS_BACK | Some v \<Rightarrow> v) of
          JInt days \<Rightarrow> if 1 \<le> days \<and> days \<le> DATED_MAX_DAYS_BACK
            then Inr (JObj [(''type'', JStr ''dated''), (''url'', JStr url), (''max_days_back'', JInt days)])
            else Inl (ValueError ''max_days_back'')
        | _ \<Rightarrow> Inl (ValueError ''max_days_back''))))"

text \<open>\<open>_FIELD_PATH_RE\<close>.\<close>

definition is_path_part :: "str \<Rightarrow> bool" where
  "is_path_part p = (p \<noteq> [] \<and> (is_ascii_letter (hd p) \<or> hd p = CHR ''_'') \<and> list_all (\<lambda>c. is_word_char c \<or> c = CHR ''-'') (tl p))"

definition field_path :: "network \<Rightarrow> json \<Rightarrow> str \<Rightarrow> py_error + str" where
  "field_path nw value name = (let s = text_given nw value in
     if list_all is_path_part (split_on (CHR ''.'') s) then Inr s else Inl (ValueError name))"

definition JSON_API_MAX_MATCH :: nat where "JSON_API_MAX_MATCH = 5"

fun match_entries :: "network \<Rightarrow> (str \<times> json) list \<Rightarrow> (str \<times> json) list \<Rightarrow> py_error + (str \<times> json) list" where
  "match_entries nw [] out = Inr out"
| "match_entries nw ((k, v) # kvs) out =
     rbind (field_path nw (JStr k) ''match'') (\<lambda>path.
       (case v of
          JStr pattern \<Rightarrow> if pattern = [] \<or> nw_regex nw pattern = None then Inl (ValueError ''match'')
            else match_entries nw kvs (alist_set path (JStr pattern) out)
        | _ \<Rightarrow> Inl (ValueError ''match'')))"

definition validate_json_api_match :: "network \<Rightarrow> json \<Rightarrow> py_error + json" where
  "validate_json_api_match nw raw = (case raw of
      JObj kvs \<Rightarrow> if kvs = [] \<or> length kvs > JSON_API_MAX_MATCH then Inl (ValueError ''match'')
        else rbind (match_entries nw kvs []) (\<lambda>m. Inr (JObj m))
    | _ \<Rightarrow> Inl (ValueError ''match''))"

fun all_paths :: "network \<Rightarrow> str list \<Rightarrow> py_error + unit" where
  "all_paths nw [] = Inr ()"
| "all_paths nw (n # ns) =
     (if n = ''timetable_year'' then all_paths nw ns
      else rbind (field_path nw (JStr n) ''download'') (\<lambda>p. all_paths nw ns))"

definition download_part :: "network \<Rightarrow> str \<Rightarrow> (str \<times> json) list \<Rightarrow> py_error + (str \<times> json) list" where
  "download_part nw url raw =
     (let download = dget raw ''download''; url_field = dget raw ''url_field'' in
      if json_truthy download = json_truthy url_field then Inl (ValueError ''download'')
      else if json_truthy url_field then rbind (field_path nw url_field ''url_field'') (\<lambda>p. Inr [(''url_field'', JStr p)])
      else rbind (require_https nw download ''download'') (\<lambda>template.
        rbind (all_paths nw (placeholders template)) (\<lambda>u.
        rbind (urlparse nw template) (\<lambda>(s1, host1). rbind (urlparse nw url) (\<lambda>(s2, host2).
        if host1 \<noteq> host2 then Inl (ValueError ''download'') else Inr [(''download'', JStr template)])))))"

definition validate_json_api :: "network \<Rightarrow> (str \<times> json) list \<Rightarrow> py_error + json" where
  "validate_json_api nw raw =
     rbind (require_https nw (dget raw ''url'') ''url'') (\<lambda>url.
     rbind (check_placeholders url [''timetable_year''] ''url'') (\<lambda>u.
     let given = text_given nw (dget raw ''items'') in
     rbind (if given = [] then Inr [] else field_path nw (JStr given) ''items'') (\<lambda>path.
     rbind (validate_json_api_match nw (dget raw ''match'')) (\<lambda>m.
     rbind (if json_truthy (dget raw ''sort'') then rbind (field_path nw (dget raw ''sort'') ''sort'') (\<lambda>p. Inr [(''sort'', JStr p)]) else Inr []) (\<lambda>srt.
     rbind (download_part nw url raw) (\<lambda>dl.
     Inr (JObj ([(''type'', JStr ''json_api''), (''url'', JStr url), (''items'', JStr path), (''match'', m)] @ srt @ dl))))))))"

definition validate_resolver :: "runtime \<Rightarrow> network \<Rightarrow> json \<Rightarrow> py_error + json" where
  "validate_resolver rt nw raw = (case raw of
      JObj kvs \<Rightarrow>
        (let rtype = rt_lower rt (text_given nw (dget kvs ''type'')) in
         if rtype = ''tdg'' then validate_tdg rt nw kvs
         else if rtype = ''udata'' then validate_udata nw kvs
         else if rtype = ''permalink'' then validate_permalink nw kvs
         else if rtype = ''dated'' then validate_dated nw kvs
         else if rtype = ''json_api'' then validate_json_api nw kvs
         else Inl (ValueError ''type''))
    | _ \<Rightarrow> Inl (ValueError ''resolver''))"

text \<open>\<open>describe\<close>: the address shown for a resolver.\<close>

definition TDG_API :: str where "TDG_API = ''https://transport.data.gouv.fr/api/datasets''"

definition TDG_DOWNLOAD :: "str \<Rightarrow> str" where
  "TDG_DOWNLOAD resource_id = ''https://transport.data.gouv.fr/resources/'' @ resource_id @ ''/download''"

definition item :: "network \<Rightarrow> (str \<times> json) list \<Rightarrow> str \<Rightarrow> py_error + str" where
  "item nw r k = (case map_of r k of Some v \<Rightarrow> Inr (py_str (nw_str nw) v) | None \<Rightarrow> Inl KeyError)"

definition describe :: "network \<Rightarrow> (str \<times> json) list \<Rightarrow> py_error + str" where
  "describe nw r =
     (if dget r ''type'' = JStr ''tdg'' then rbind (item nw r ''resource_id'') (\<lambda>n. Inr (TDG_DOWNLOAD n))
      else if dget r ''type'' = JStr ''udata'' then
        rbind (item nw r ''api'') (\<lambda>api. rbind (item nw r ''dataset_id'') (\<lambda>d. Inr (api @ ''/datasets/'' @ d @ ''/'')))
      else Inr (if json_truthy (dget r ''url'') then py_str (nw_str nw) (dget r ''url'') else []))"

section \<open>Dates\<close>

text \<open>A date is the number of days since 1970-01-01, a Thursday; Monday is weekday 0.\<close>

definition days_of_civil :: "int \<Rightarrow> int \<Rightarrow> int \<Rightarrow> int" where
  "days_of_civil y m d =
     (let y' = (if m \<le> 2 then y - 1 else y); era = y' div 400; yoe = y' - era * 400;
          doy = (153 * (if m > 2 then m - 3 else m + 9) + 2) div 5 + d - 1;
          doe = yoe * 365 + yoe div 4 - yoe div 100 + doy
      in era * 146097 + doe - 719468)"

definition weekday :: "int \<Rightarrow> int" where "weekday day = (day + 3) mod 7"

definition change_day :: "int \<Rightarrow> int" where
  "change_day y = (let dec1 = days_of_civil y 12 1; first_saturday = dec1 + (5 - weekday dec1) mod 7 in first_saturday + 8)"

definition timetable_year :: "int \<Rightarrow> int" where
  "timetable_year day = (let y = fst (civil_of_days day) in if day \<ge> change_day y then y + 1 else y)"

definition compact_date :: "int \<Rightarrow> str" where
  "compact_date day = (case civil_of_days day of (y, m, d) \<Rightarrow> pad 4 y @ pad 2 m @ pad 2 d)"

text \<open>\<open>url.replace("{name}", value)\<close>.\<close>

definition fill_name :: "str \<Rightarrow> str \<Rightarrow> str \<Rightarrow> str" where
  "fill_name name value url = concat (map (\<lambda>p. case p of Literal t \<Rightarrow> t
     | Placeholder n \<Rightarrow> if n = name then value else ''{'' @ n @ ''}'') (pieces url))"

section \<open>Lookups\<close>

definition ebind :: "resolve_error + 'a \<Rightarrow> ('a \<Rightarrow> resolve_error + 'b) \<Rightarrow> resolve_error + 'b" where
  "ebind r f = (case r of Inl e \<Rightarrow> Inl e | Inr x \<Rightarrow> f x)"

definition lift_error :: "py_error + 'a \<Rightarrow> resolve_error + 'a" where
  "lift_error r = (case r of Inl e \<Rightarrow> Inl (Raised e) | Inr x \<Rightarrow> Inr x)"

text \<open>\<open>except ValueError\<close> around the address check.\<close>

definition checked_url :: "network \<Rightarrow> str \<Rightarrow> resolve_error + str" where
  "checked_url nw url = (case safe_http_url nw url of Inr u \<Rightarrow> Inr u | Inl (ValueError w) \<Rightarrow> Inl Resolve_error | Inl e \<Rightarrow> Inl (Raised e))"

type_synonym authorizer = "str \<Rightarrow> resolve_error + str \<times> (str \<times> str) list"

definition get_json :: "network \<Rightarrow> authorizer option \<Rightarrow> str \<Rightarrow> resolve_error + json" where
  "get_json nw auth url =
     ebind (checked_url nw url) (\<lambda>safe_url.
     ebind (case auth of None \<Rightarrow> Inr (safe_url, []) | Some a \<Rightarrow> a safe_url) (\<lambda>(fetch_url, headers).
     case nw_get nw fetch_url (foldl (\<lambda>hs (k, v). alist_set k v hs) [(''Accept'', ''application/json'')] headers) of
       Document d \<Rightarrow> Inr d | _ \<Rightarrow> Inl Resolve_error))"

definition resource_list :: "json \<Rightarrow> resolve_error + json list" where
  "resource_list data = (case data of
      JObj kvs \<Rightarrow> (case dget kvs ''resources'' of JArr rs \<Rightarrow> Inr rs | _ \<Rightarrow> Inl Resolve_error)
    | _ \<Rightarrow> Inl Resolve_error)"

text \<open>Python's \<open>==\<close> where one side is a number.\<close>

definition numeric :: "json \<Rightarrow> real option" where
  "numeric v = (case v of JBool b \<Rightarrow> Some (if b then 1 else 0) | JInt n \<Rightarrow> Some (real_of_int n) | JFloat r \<Rightarrow> Some r | _ \<Rightarrow> None)"

definition equal_json :: "json \<Rightarrow> json \<Rightarrow> bool" where
  "equal_json a b = (case (numeric a, numeric b) of (Some x, Some y) \<Rightarrow> x = y | _ \<Rightarrow> a = b)"

fun find_resource :: "json \<Rightarrow> json list \<Rightarrow> resolve_error + (str \<times> json) list option" where
  "find_resource n [] = Inr None"
| "find_resource n (res # rest) = (case res of
      JObj kvs \<Rightarrow> if equal_json (dget kvs ''id'') n then Inr (Some kvs) else find_resource n rest
    | _ \<Rightarrow> Inl (Raised AttributeError))"

definition resolve_tdg :: "network \<Rightarrow> (str \<times> json) list \<Rightarrow> resolve_error + str" where
  "resolve_tdg nw r =
     ebind (lift_error (item nw r ''dataset_id'')) (\<lambda>dataset_id.
     ebind (get_json nw None (TDG_API @ ''/'' @ dataset_id)) (\<lambda>data.
     ebind (resource_list data) (\<lambda>resources.
     ebind (lift_error (item nw r ''resource_id'')) (\<lambda>resource_id.
     ebind (find_resource (dget r ''resource_id'') resources) (\<lambda>found.
     case found of
       None \<Rightarrow> Inl Resolve_error
     | Some kvs \<Rightarrow> if dget kvs ''is_available'' = JBool False then Inl Resolve_error else Inr (TDG_DOWNLOAD resource_id))))))"

text \<open>\<open>max(xs, key=f)\<close>: the first of the greatest.\<close>

fun max_by :: "('a \<Rightarrow> 'b::linorder) \<Rightarrow> 'a \<Rightarrow> 'a list \<Rightarrow> 'a" where
  "max_by f best [] = best"
| "max_by f best (x # xs) = max_by f (if f best < f x then x else best) xs"

definition or_json :: "json \<Rightarrow> json \<Rightarrow> json" where "or_json a b = (if json_truthy a then a else b)"

definition resolve_udata :: "network \<Rightarrow> (str \<times> json) list \<Rightarrow> resolve_error + str" where
  "resolve_udata nw r =
     ebind (lift_error (item nw r ''api'')) (\<lambda>api.
     ebind (lift_error (item nw r ''dataset_id'')) (\<lambda>dataset_id.
     ebind (get_json nw None (api @ ''/datasets/'' @ dataset_id @ ''/'')) (\<lambda>data.
     ebind (resource_list data) (\<lambda>resources.
     ebind (lift_error (item nw r ''title_regex'')) (\<lambda>title_regex.
     case nw_regex nw title_regex of
       None \<Rightarrow> Inl Regex_error
     | Some finds \<Rightarrow>
         (case List.map_filter (\<lambda>res. case res of
              JObj kvs \<Rightarrow> if json_truthy (dget kvs ''url'') \<and> finds (py_str (nw_str nw) (or_json (dget kvs ''title'') (JStr []))) then Some kvs else None
            | _ \<Rightarrow> None) resources of
            [] \<Rightarrow> Inl Resolve_error
          | kvs # more_kvs \<Rightarrow> Inr (py_str (nw_str nw) (dget (max_by (\<lambda>d. py_str (nw_str nw) (or_json (dget d ''created_at'') (dget d ''last_modified''))) kvs more_kvs) ''url''))))))))"

section \<open>Files named by a date\<close>

definition ZIP_MAGIC :: str where "ZIP_MAGIC = ''PK'' @ [char_of (3 :: nat), char_of (4 :: nat)]"
definition DATED_MISS_STATUSES :: "nat list" where "DATED_MISS_STATUSES = [404, 410]"

definition probe_dated :: "network \<Rightarrow> str \<Rightarrow> resolve_error + bool" where
  "probe_dated nw url = (case nw_probe nw url of
      Probe_failure \<Rightarrow> Inl Resolve_error
    | Probe_status status chunks \<Rightarrow>
        if status \<in> set DATED_MISS_STATUSES then Inr False
        else if status \<noteq> 200 \<and> status \<noteq> 206 then Inl Resolve_error
        else Inr (case chunks of [] \<Rightarrow> False | chunk # rest \<Rightarrow> take 4 chunk = ZIP_MAGIC))"

fun dated_walk :: "network \<Rightarrow> str \<Rightarrow> int \<Rightarrow> nat \<Rightarrow> resolve_error + str" where
  "dated_walk nw url day 0 = Inl Resolve_error"
| "dated_walk nw url day (Suc n) =
     ebind (probe_dated nw (fill_name ''date'' (compact_date day) url)) (\<lambda>hit.
       if hit then Inr (fill_name ''date'' (compact_date day) url) else dated_walk nw url (day - 1) n)"

definition resolve_dated :: "network \<Rightarrow> (str \<times> json) list \<Rightarrow> int \<Rightarrow> resolve_error + str" where
  "resolve_dated nw r today = (case map_of r ''max_days_back'' of
      None \<Rightarrow> Inl (Raised KeyError)
    | Some (JInt days) \<Rightarrow>
        if days < 0 then Inl (Raised IndexError)
        else ebind (lift_error (item nw r ''url'')) (\<lambda>url. dated_walk nw url today (nat (days + 1)))
    | Some v \<Rightarrow> Inl (Raised TypeError))"

section \<open>JSON catalogues\<close>

fun field_of_parts :: "json \<Rightarrow> str list \<Rightarrow> json" where
  "field_of_parts obj [] = obj"
| "field_of_parts obj (p # ps) = (case obj of JObj kvs \<Rightarrow> field_of_parts (dget kvs p) ps | _ \<Rightarrow> JNull)"

definition field_at :: "json \<Rightarrow> str \<Rightarrow> json" where "field_at obj path = field_of_parts obj (split_on (CHR ''.'') path)"

lemma dget_size: "size (dget kvs k) < Suc (size_list (size_prod (\<lambda>x. 0) size) kvs)"
proof (induction kvs)
  case (Cons kv kvs)
  then show ?case by (cases kv) (auto simp: dget_def split: option.splits)
qed (simp add: dget_def)

function walk_items :: "json \<Rightarrow> str list \<Rightarrow> json \<Rightarrow> (str \<times> json) list list" where
  "walk_items (JArr es) parts parent = concat (map (\<lambda>e. walk_items e parts parent) es)"
| "walk_items (JObj kvs) [] parent = [alist_set ''_parent'' parent kvs]"
| "walk_items (JObj kvs) (p # ps) parent = walk_items (dget kvs p) ps (JObj (alist_set ''_parent'' parent kvs))"
| "walk_items JNull parts parent = []"
| "walk_items (JBool b) parts parent = []"
| "walk_items (JInt n) parts parent = []"
| "walk_items (JFloat r) parts parent = []"
| "walk_items (JStr s) parts parent = []"
  by pat_completeness auto
termination
proof (relation "measure (\<lambda>(node, parts, parent). size node)")
  fix es :: "json list" and parts parent e
  assume "e \<in> set es"
  then have "size e \<le> size_list size es" by (rule size_list_estimation') simp
  then show "((e, parts, parent), (JArr es, parts, parent)) \<in> measure (\<lambda>(node, parts, parent). size node)" by simp
qed (use dget_size in \<open>auto simp: less_Suc_eq_le\<close>)

definition sort_value :: "network \<Rightarrow> json \<Rightarrow> nat \<times> real \<times> str" where
  "sort_value nw v = (case v of JInt n \<Rightarrow> (1, real_of_int n, []) | JFloat r \<Rightarrow> (1, r, []) | JNull \<Rightarrow> (0, 0, [])
     | _ \<Rightarrow> (0, 0, py_str (nw_str nw) v))"

fun compiled :: "network \<Rightarrow> (str \<times> json) list \<Rightarrow> resolve_error + (str \<times> (str \<Rightarrow> bool)) list" where
  "compiled nw [] = Inr []"
| "compiled nw ((path, rx) # rest) = (case rx of
      JStr pattern \<Rightarrow> (case nw_regex nw pattern of None \<Rightarrow> Inl Regex_error
        | Some finds \<Rightarrow> ebind (compiled nw rest) (\<lambda>ps. Inr ((path, finds) # ps)))
    | _ \<Rightarrow> Inl (Raised TypeError))"

definition entry_matches :: "network \<Rightarrow> (str \<times> (str \<Rightarrow> bool)) list \<Rightarrow> (str \<times> json) list \<Rightarrow> bool" where
  "entry_matches nw patterns e = list_all (\<lambda>(path, finds).
     field_at (JObj e) path \<noteq> JNull \<and> finds (py_str (nw_str nw) (field_at (JObj e) path))) patterns"

definition pick_json_api_entry :: "network \<Rightarrow> json \<Rightarrow> (str \<times> json) list \<Rightarrow> resolve_error + (str \<times> json) list" where
  "pick_json_api_entry nw data r =
     ebind (case map_of r ''items'' of None \<Rightarrow> Inl (Raised KeyError) | Some v \<Rightarrow> if \<not> json_truthy v then Inr []
         else (case v of JStr items \<Rightarrow> Inr (split_on (CHR ''.'') items) | _ \<Rightarrow> Inl (Raised AttributeError))) (\<lambda>parts.
     let entries = walk_items data parts JNull in
     if entries = [] then Inl Resolve_error
     else ebind (case map_of r ''match'' of Some (JObj m) \<Rightarrow> compiled nw m | Some v \<Rightarrow> Inl (Raised AttributeError) | None \<Rightarrow> Inl (Raised KeyError)) (\<lambda>patterns.
       case filter (entry_matches nw patterns) entries of
         [] \<Rightarrow> Inl Resolve_error
       | e # es \<Rightarrow> (case map_of r ''sort'' of
             Some v \<Rightarrow> Inr (max_by (\<lambda>d. sort_value nw (field_at (JObj d) (py_str (nw_str nw) v))) e es)
           | None \<Rightarrow> if es \<noteq> [] then Inl Resolve_error else Inr e)))"

text \<open>\<open>urllib.parse.quote(text, safe="")\<close>: UTF-8 bytes, percent-encoded but for the unreserved ones.\<close>

definition hex_digit :: "nat \<Rightarrow> char" where "hex_digit n = (''0123456789ABCDEF'' ! n)"

definition percent_byte :: "nat \<Rightarrow> str" where "percent_byte n = [CHR ''%'', hex_digit (n div 16), hex_digit (n mod 16)]"

definition quote_char :: "char \<Rightarrow> str" where
  "quote_char c = (let n = of_char c :: nat in
     if is_ascii_letter c \<or> is_decimal c \<or> c \<in> set ''_.-~'' then [c]
     else if n < 128 then percent_byte n
     else percent_byte (192 + n div 64) @ percent_byte (128 + n mod 64))"

definition quote :: "str \<Rightarrow> str" where "quote s = concat (map quote_char s)"

fun fill_pieces :: "network \<Rightarrow> int \<Rightarrow> (str \<times> json) list \<Rightarrow> piece list \<Rightarrow> resolve_error + str" where
  "fill_pieces nw today e [] = Inr []"
| "fill_pieces nw today e (Literal t # ps) = ebind (fill_pieces nw today e ps) (\<lambda>s. Inr (t @ s))"
| "fill_pieces nw today e (Placeholder name # ps) =
     (let value = (if name = ''timetable_year'' then JInt (timetable_year today) else field_at (JObj e) name) in
      case value of
        JNull \<Rightarrow> Inl Resolve_error | JObj kvs \<Rightarrow> Inl Resolve_error | JArr es \<Rightarrow> Inl Resolve_error
      | _ \<Rightarrow> ebind (fill_pieces nw today e ps) (\<lambda>s. Inr (quote (py_str (nw_str nw) value) @ s)))"

definition json_api_file_url :: "network \<Rightarrow> (str \<times> json) list \<Rightarrow> (str \<times> json) list \<Rightarrow> int \<Rightarrow> resolve_error + str" where
  "json_api_file_url nw e r today = (case map_of r ''url_field'' of
      Some path \<Rightarrow>
        (case field_at (JObj e) (py_str (nw_str nw) path) of
           JStr value \<Rightarrow> if value = [] then Inl Resolve_error
             else ebind (lift_error (urlparse nw value)) (\<lambda>(s1, host1).
               ebind (lift_error (item nw r ''url'')) (\<lambda>url. ebind (lift_error (urlparse nw url)) (\<lambda>(s2, host2).
               if host1 \<noteq> host2 then Inl Resolve_error else Inr value)))
         | _ \<Rightarrow> Inl Resolve_error)
    | None \<Rightarrow> ebind (lift_error (item nw r ''download'')) (\<lambda>download. fill_pieces nw today e (pieces download)))"

definition resolve_json_api :: "network \<Rightarrow> (str \<times> json) list \<Rightarrow> int \<Rightarrow> authorizer option \<Rightarrow> resolve_error + str" where
  "resolve_json_api nw r today auth =
     ebind (lift_error (item nw r ''url'')) (\<lambda>url0.
     ebind (get_json nw auth (fill_name ''timetable_year'' (show_int (timetable_year today)) url0)) (\<lambda>data.
     ebind (pick_json_api_entry nw data r) (\<lambda>e. json_api_file_url nw e r today)))"

definition resolve :: "network \<Rightarrow> (str \<times> json) list \<Rightarrow> int \<Rightarrow> authorizer option \<Rightarrow> resolve_error + str" where
  "resolve nw r today auth =
     (let rtype = dget r ''type'' in
      ebind (if rtype = JStr ''tdg'' then resolve_tdg nw r
         else if rtype = JStr ''udata'' then resolve_udata nw r
         else if rtype = JStr ''permalink'' then ebind (lift_error (item nw r ''url'')) (\<lambda>url. Inr (fill_name ''timetable_year'' (show_int (timetable_year today)) url))
         else if rtype = JStr ''dated'' then resolve_dated nw r today
         else if rtype = JStr ''json_api'' then resolve_json_api nw r today auth
         else Inl Resolve_error) (checked_url nw))"

end
