(* ===== verification/Feed_Resolver_Properties.thy ===== *)
theory Feed_Resolver_Properties
  imports Feed_Resolvers
begin

text \<open>
  A stored resolver reads back as itself, the dated walk finds the newest file, and what is resolved is a
  public address that no credential but the catalogue's was asked for.
\<close>

section \<open>Validation twice\<close>

text \<open>\<open>str.lower\<close> keeps a text of digits, small letters and underscores.\<close>

definition lower_keeps_small :: "runtime \<Rightarrow> bool" where
  "lower_keeps_small rt \<longleftrightarrow> (\<forall>s. list_all (\<lambda>c. is_decimal c \<or> is_lower_az c \<or> c = CHR ''_'') s \<longrightarrow> rt_lower rt s = s)"

lemma text_given_JStr [simp]: "text_given nw (JStr s) = py_strip s"
  by (cases "s = []") (simp_all add: text_given_def json_truthy_def py_str_def)

lemma text_given_strip [simp]: "py_strip (text_given nw v) = text_given nw v"
  by (simp add: text_given_def)

lemma rbind_simps [simp]: "rbind (Inr x) f = f x" "rbind (Inl e) f = Inl e"
  by (simp_all add: rbind_def)

lemma require_https_again: "require_https nw v name = Inr s \<Longrightarrow> require_https nw (JStr s) name' = Inr s \<and> py_strip s = s"
  by (auto simp: require_https_def Let_def split: if_splits)

lemma field_path_again: "field_path nw v name = Inr s \<Longrightarrow> field_path nw (JStr s) name' = Inr s \<and> py_strip s = s"
  by (auto simp: field_path_def Let_def split: if_splits)

lemma small_words:
  "list_all (\<lambda>c. is_decimal c \<or> is_lower_az c \<or> c = CHR ''_'') s \<Longrightarrow> py_strip s = s"
proof -
  assume s: "list_all (\<lambda>c. is_decimal c \<or> is_lower_az c \<or> c = CHR ''_'') s"
  have "\<not> is_space c" if "c \<in> set s" for c
    using s that by (auto simp: list_all_iff is_decimal_def is_lower_az_def is_space_def Let_def)
  then show ?thesis
    by (cases "s = []") (simp add: py_strip_def, metis hd_in_set last_in_set py_strip_no_space)
qed

lemma hex_small: "is_hex24 d \<Longrightarrow> list_all (\<lambda>c. is_decimal c \<or> is_lower_az c \<or> c = CHR ''_'') d"
proof -
  have "list_all is_lower_az ''abcdef''" by code_simp
  then show "is_hex24 d \<Longrightarrow> ?thesis" by (auto simp: is_hex24_def list_all_iff)
qed

lemma tdg_again:
  assumes "lower_keeps_small rt" "validate_tdg rt nw raw = Inr (JObj r)"
  shows "validate_tdg rt nw r = Inr (JObj r)" "dget r ''type'' = JStr ''tdg''"
proof -
  obtain d n where r: "r = [(''type'', JStr ''tdg''), (''dataset_id'', JStr d), (''resource_id'', JInt n)]" and n: "0 < n" and d: "is_hex24 d"
    using assms(2) by (auto simp: validate_tdg_def Let_def split: option.splits if_splits)
  then show "validate_tdg rt nw r = Inr (JObj r)"
    using assms(1) small_words [OF hex_small [OF d]] hex_small [OF d] by (simp add: validate_tdg_def r dget_def lower_keeps_small_def)
  show "dget r ''type'' = JStr ''tdg''" by (simp add: r dget_def)
qed

lemma permalink_again:
  assumes "validate_permalink nw raw = Inr (JObj r)"
  shows "validate_permalink nw r = Inr (JObj r)" "dget r ''type'' = JStr ''permalink''"
  using assms require_https_again by (auto simp: validate_permalink_def dget_def)

lemma dated_again:
  assumes "validate_dated nw raw = Inr (JObj r)"
  shows "validate_dated nw r = Inr (JObj r)" "dget r ''type'' = JStr ''dated''"
proof -
  obtain url days where r: "r = [(''type'', JStr ''dated''), (''url'', JStr url), (''max_days_back'', JInt days)]"
    "require_https nw (dget raw ''url'') ''url'' = Inr url" "has_part url ''{date}''" "check_placeholders url [''date''] ''url'' = Inr ()"
    "1 \<le> days" "days \<le> DATED_MAX_DAYS_BACK"
    using assms by (auto simp: validate_dated_def split: if_splits json.splits option.splits)
  then show "validate_dated nw r = Inr (JObj r)" "dget r ''type'' = JStr ''dated''"
    using require_https_again [OF r(2)] by (simp_all add: validate_dated_def dget_def)
qed

subsection \<open>Fields of a catalogue\<close>

lemma alist_set_new: "k \<notin> fst ` set kvs \<Longrightarrow> alist_set k v kvs = kvs @ [(k, v)]"
  by (induction kvs) auto

definition good_match :: "network \<Rightarrow> (str \<times> json) list \<Rightarrow> bool" where
  "good_match nw m \<longleftrightarrow> distinct (map fst m) \<and> list_all (\<lambda>(k, v). field_path nw (JStr k) ''match'' = Inr k
     \<and> (\<exists>p. v = JStr p \<and> p \<noteq> [] \<and> nw_regex nw p \<noteq> None)) m"

lemma alist_set_not_Nil: "alist_set k v kvs \<noteq> []"
  by (induction k v kvs rule: alist_set.induct) auto

lemma length_alist_set: "length (alist_set k v kvs) \<le> Suc (length kvs)"
  by (induction kvs) auto

lemma alist_set_mem: "x \<in> set (alist_set k v kvs) \<Longrightarrow> x = (k, v) \<or> x \<in> set kvs"
  by (induction k v kvs rule: alist_set.induct) (auto split: if_splits)

lemma match_entries_good:
  "match_entries nw kvs out = Inr m \<Longrightarrow> good_match nw out \<Longrightarrow> good_match nw m \<and> length m \<le> length out + length kvs \<and> (kvs = [] \<or> m \<noteq> [] ) \<and> (out = [] \<or> m \<noteq> [])"
proof (induction nw kvs out rule: match_entries.induct)
  case (2 nw k v kvs out)
  obtain path p where path: "field_path nw (JStr k) ''match'' = Inr path" "v = JStr p" "p \<noteq> []" "nw_regex nw p \<noteq> None"
    "match_entries nw kvs (alist_set path (JStr p) out) = Inr m"
    using "2.prems"(1) by (cases v) (auto split: if_splits)
  have "good_match nw (alist_set path (JStr p) out)"
    using "2.prems"(2) path field_path_again [OF path(1)]
    by (auto simp: good_match_def distinct_alist_set list_all_iff dest!: alist_set_mem)
  then have "good_match nw m \<and> length m \<le> length (alist_set path (JStr p) out) + length kvs \<and> (alist_set path (JStr p) out = [] \<or> m \<noteq> [])"
    using "2.IH" [OF path(2) _ path(5)] path(3,4) by simp
  then show ?case using alist_set_not_Nil [of path "JStr p" out] length_alist_set [of path "JStr p" out] by simp
qed auto

lemma match_entries_again:
  "good_match nw m \<Longrightarrow> fst ` set m \<inter> fst ` set out = {} \<Longrightarrow> match_entries nw m out = Inr (out @ m)"
proof (induction m arbitrary: out)
  case (Cons kv m)
  obtain k p where kv: "kv = (k, JStr p)" "field_path nw (JStr k) ''match'' = Inr k" "p \<noteq> []" "nw_regex nw p \<noteq> None"
    using Cons.prems(1) by (cases kv) (auto simp: good_match_def)
  have "match_entries nw m (out @ [(k, JStr p)]) = Inr ((out @ [(k, JStr p)]) @ m)"
    by (rule Cons.IH) (use Cons.prems kv(1) in \<open>auto simp: good_match_def\<close>)
  moreover have "alist_set k (JStr p) out = out @ [(k, JStr p)]" using Cons.prems(2) kv(1) by (intro alist_set_new) auto
  ultimately show ?case using kv by simp
qed simp

lemma match_again:
  assumes "validate_json_api_match nw raw = Inr m"
  shows "validate_json_api_match nw m = Inr m"
proof -
  obtain kvs l where kvs: "raw = JObj kvs" "kvs \<noteq> []" "length kvs \<le> JSON_API_MAX_MATCH" "match_entries nw kvs [] = Inr l" "m = JObj l"
    using assms by (auto simp: validate_json_api_match_def split: json.splits if_splits)
  have "good_match nw l \<and> length l \<le> length kvs \<and> l \<noteq> []"
    using match_entries_good [OF kvs(4)] kvs(2) by (simp add: good_match_def)
  then show ?thesis using match_entries_again [of nw l "[]"] kvs(3,5) by (simp add: validate_json_api_match_def)
qed

lemma field_path_nonempty: "field_path nw v name = Inr p \<Longrightarrow> p \<noteq> []"
  by (auto simp: field_path_def is_path_part_def Let_def split: if_splits)

lemma https_nonempty: "require_https nw v name = Inr s \<Longrightarrow> s \<noteq> []"
  by (auto simp: require_https_def Let_def urlparse_def clean_url_def split_scheme_def split: if_splits)

lemma json_api_again:
  assumes "validate_json_api nw raw = Inr (JObj r)"
  shows "validate_json_api nw r = Inr (JObj r)" "dget r ''type'' = JStr ''json_api''"
proof -
  obtain url path m srt dl where parts: "require_https nw (dget raw ''url'') ''url'' = Inr url" "check_placeholders url [''timetable_year''] ''url'' = Inr ()"
    "(if text_given nw (dget raw ''items'') = [] then Inr [] else field_path nw (JStr (text_given nw (dget raw ''items''))) ''items'') = Inr path"
    "validate_json_api_match nw (dget raw ''match'') = Inr m"
    "(if json_truthy (dget raw ''sort'') then rbind (field_path nw (dget raw ''sort'') ''sort'') (\<lambda>p. Inr [(''sort'', JStr p)]) else Inr []) = Inr srt"
    "download_part nw url raw = Inr dl"
    and r: "r = [(''type'', JStr ''json_api''), (''url'', JStr url), (''items'', JStr path), (''match'', m)] @ srt @ dl"
    using assms by (auto simp: validate_json_api_def Let_def)
  have items: "py_strip path = path" "path \<noteq> [] \<Longrightarrow> field_path nw (JStr path) ''items'' = Inr path"
    using parts(3) field_path_again by (auto simp: py_strip_def split: if_splits)
  have srt: "srt = [] \<or> (\<exists>p. srt = [(''sort'', JStr p)] \<and> p \<noteq> [] \<and> field_path nw (JStr p) ''sort'' = Inr p)"
    using parts(5) by (auto split: if_splits dest: field_path_again field_path_nonempty)
  have dl: "(\<exists>p. dl = [(''url_field'', JStr p)] \<and> p \<noteq> [] \<and> field_path nw (JStr p) ''url_field'' = Inr p)
     \<or> (\<exists>t s1 s2 host. dl = [(''download'', JStr t)] \<and> t \<noteq> [] \<and> require_https nw (JStr t) ''download'' = Inr t \<and> all_paths nw (placeholders t) = Inr ()
         \<and> urlparse nw t = Inr (s1, host) \<and> urlparse nw url = Inr (s2, host))"
    using parts(6) by (auto simp: download_part_def Let_def split: if_splits dest: field_path_again field_path_nonempty require_https_again https_nonempty)
  have download: "download_part nw url r = Inr dl"
    using dl srt by (auto simp: download_part_def r dget_def json_truthy_def)
  have sorted: "(if json_truthy (dget r ''sort'') then rbind (field_path nw (dget r ''sort'') ''sort'') (\<lambda>p. Inr [(''sort'', JStr p)]) else Inr []) = Inr srt"
    using srt dl by (auto simp: r dget_def json_truthy_def)
  have fields: "dget r ''url'' = JStr url" "dget r ''items'' = JStr path" "dget r ''match'' = m" by (simp_all add: r dget_def)
  have "validate_json_api nw r = Inr (JObj ([(''type'', JStr ''json_api''), (''url'', JStr url), (''items'', JStr path), (''match'', m)] @ srt @ dl))"
    unfolding validate_json_api_def fields sorted
    using require_https_again [OF parts(1)] parts(2) items match_again [OF parts(4)] download by simp
  then show "validate_json_api nw r = Inr (JObj r)" by (simp add: r)
  show "dget r ''type'' = JStr ''json_api''" by (simp add: r dget_def)
qed

subsection \<open>The address of an API without its last slashes\<close>

lemma rstrip_slash_split: obtains n where "s = rstrip_slash s @ replicate n (CHR ''/'')"
proof -
  have "rev s = takeWhile (\<lambda>c. c = CHR ''/'') (rev s) @ rev (rstrip_slash s)" by (simp add: rstrip_slash_def)
  then have "s = rstrip_slash s @ rev (takeWhile (\<lambda>c. c = CHR ''/'') (rev s))" by (metis rev_append rev_rev_ident)
  moreover have "takeWhile (\<lambda>c. c = CHR ''/'') xs = replicate (length (takeWhile (\<lambda>c. c = CHR ''/'') xs)) (CHR ''/'')" for xs
    by (induction xs) auto
  ultimately show thesis using that by (metis rev_replicate)
qed

lemma rstrip_slash_idem [simp]: "rstrip_slash (rstrip_slash s) = rstrip_slash s"
  by (simp add: rstrip_slash_def)

lemma slash_char: "\<not> (of_char (CHR ''/'') :: nat) \<le> 32" "(of_char (CHR ''/'') :: nat) \<notin> {9, 10, 13}" by code_simp+

lemma clean_url_slashes:
  "\<exists>c\<in>set s. \<not> (of_char c :: nat) \<le> 32 \<Longrightarrow> clean_url (s @ replicate n (CHR ''/'')) = clean_url s @ replicate n (CHR ''/'')"
proof -
  assume c: "\<exists>c\<in>set s. \<not> (of_char c :: nat) \<le> 32"
  then have "dropWhile (\<lambda>c. (of_char c :: nat) \<le> 32) (s @ replicate n (CHR ''/'')) = dropWhile (\<lambda>c. (of_char c :: nat) \<le> 32) s @ replicate n (CHR ''/'')"
    by (auto simp: dropWhile_append)
  moreover have "filter (\<lambda>c. (of_char c :: nat) \<notin> {9, 10, 13}) (replicate n (CHR ''/'')) = replicate n (CHR ''/'')"
    using slash_char(2) by (induction n) auto
  ultimately show ?thesis unfolding clean_url_def by (simp only: filter_append)
qed

lemma takeWhile_colon_slashes: "CHR '':'' \<in> set s \<Longrightarrow>
    takeWhile (\<lambda>c. c \<noteq> CHR '':'') (s @ t) = takeWhile (\<lambda>c. c \<noteq> CHR '':'') s \<and> dropWhile (\<lambda>c. c \<noteq> CHR '':'') (s @ t) = dropWhile (\<lambda>c. c \<noteq> CHR '':'') s @ t"
  by (auto simp: takeWhile_append dropWhile_append)

lemma host_of_nothing: "host_of_location [] = None"
  by (simp add: host_of_location_def after_last_at_def)

lemma net_location_cong:
  "starts_with a ''//'' = starts_with b ''//'' \<Longrightarrow> takeWhile (\<lambda>c. c \<notin> set ''/?#'') (drop 2 a) = takeWhile (\<lambda>c. c \<notin> set ''/?#'') (drop 2 b)
    \<Longrightarrow> net_location nw a = net_location nw b"
  by (simp only: net_location_def)

lemma net_location_slashes:
  assumes "net_location nw (rest @ replicate n (CHR ''/'')) = Inr netloc" "netloc \<noteq> []"
  shows "net_location nw rest = Inr netloc"
proof -
  let ?stop = "\<lambda>c. c \<notin> set ''/?#''"
  have starts: "starts_with (rest @ replicate n (CHR ''/'')) ''//''" and netloc: "takeWhile ?stop (drop 2 (rest @ replicate n (CHR ''/''))) = netloc"
    using assms by (auto simp: net_location_def Let_def split: if_splits)
  have "takeWhile ?stop (drop 2 rest @ drop (2 - length rest) (replicate n (CHR ''/''))) = netloc" using netloc by simp
  then have same: "takeWhile ?stop (drop 2 rest) = netloc" and long: "2 < length rest"
  proof -
    have stop: "takeWhile ?stop (replicate k (CHR ''/'')) = []" for k by (cases k) simp_all
    have "takeWhile ?stop (xs @ replicate k (CHR ''/'')) = takeWhile ?stop xs" for xs k
      by (induction xs) (simp_all only: append_Nil append_Cons takeWhile.simps stop)
    then show "takeWhile ?stop (drop 2 rest) = netloc" using netloc by simp
    then show "2 < length rest" using assms(2) by (metis drop_all not_le takeWhile.simps(1))
  qed
  have "starts_with rest ''//''" using starts long by (simp add: starts_with_def)
  then have "starts_with rest ''//'' = starts_with (rest @ replicate n (CHR ''/'')) ''//''" using starts by (simp only:)
  from net_location_cong [OF this] same netloc assms(1) show ?thesis by (simp only:)
qed

lemma urlparse_slashes:
  assumes "urlparse nw (s @ replicate n (CHR ''/'')) = Inr (scheme, Some host)" "scheme \<noteq> []"
  shows "urlparse nw s = Inr (scheme, Some host)"
proof -
  let ?t = "replicate n (CHR ''/'')"
  have no_colon: "CHR '':'' \<notin> set ?t" by simp
  have colon: "CHR '':'' \<in> set (clean_url (s @ ?t))"
  proof (rule ccontr)
    assume "CHR '':'' \<notin> set (clean_url (s @ ?t))"
    then have "dropWhile (\<lambda>c. c \<noteq> CHR '':'') (clean_url (s @ ?t)) = []" by auto
    then have "fst (split_scheme (clean_url (s @ ?t))) = []" by (simp add: split_scheme_def)
    then show False using assms by (auto simp: urlparse_def split: prod.splits)
  qed
  have "\<exists>c\<in>set s. \<not> (of_char c :: nat) \<le> 32"
  proof (rule ccontr)
    assume "\<not> ?thesis"
    then have "dropWhile (\<lambda>c. (of_char c :: nat) \<le> 32) (s @ ?t) = dropWhile (\<lambda>c. (of_char c :: nat) \<le> 32) ?t" by (simp add: dropWhile_append3)
    then have "set (clean_url (s @ ?t)) \<subseteq> set ?t" unfolding clean_url_def by (auto dest: set_dropWhileD)
    then show False using colon no_colon by blast
  qed
  then have clean: "clean_url (s @ ?t) = clean_url s @ ?t" by (rule clean_url_slashes)
  then have in_s: "CHR '':'' \<in> set (clean_url s)" using colon no_colon by (metis Un_iff set_append)
  define before where "before = takeWhile (\<lambda>c. c \<noteq> CHR '':'') (clean_url s)"
  define after where "after = dropWhile (\<lambda>c. c \<noteq> CHR '':'') (clean_url s)"
  have parts: "takeWhile (\<lambda>c. c \<noteq> CHR '':'') (clean_url s) = before" "dropWhile (\<lambda>c. c \<noteq> CHR '':'') (clean_url s) = after" "after \<noteq> []"
    using in_s unfolding before_def after_def by (blast, blast, simp)
  define good where "good \<longleftrightarrow> before \<noteq> [] \<and> is_ascii_letter (hd before) \<and> list_all is_scheme_char before"
  have split: "split_scheme (clean_url s @ ?t) = (if good then (map ascii_lower before, tl after @ ?t) else ([], clean_url s @ ?t))"
    "split_scheme (clean_url s) = (if good then (map ascii_lower before, tl after) else ([], clean_url s))"
    using takeWhile_colon_slashes [OF in_s, of ?t] parts by (auto simp: split_scheme_def good_def)
  have good using assms by (auto simp: urlparse_def clean split(1) split: if_splits)
  then obtain netloc where netloc: "net_location nw (tl after @ ?t) = Inr netloc" "host_of_location netloc = Some host" "scheme = map ascii_lower before"
    using assms(1) by (auto simp: urlparse_def clean split(1))
  have "netloc \<noteq> []"
  proof
    assume "netloc = []"
    then show False using netloc(2) host_of_nothing by (simp only: option.distinct)
  qed
  from net_location_slashes [OF netloc(1) this] netloc(2,3) \<open>good\<close> show ?thesis by (simp add: urlparse_def split(2))
qed

lemma require_https_rstrip:
  assumes "require_https nw v name = Inr s" "py_strip (rstrip_slash s) = rstrip_slash s"
  shows "require_https nw (JStr (rstrip_slash s)) name' = Inr (rstrip_slash s)"
proof -
  obtain n where n: "s = rstrip_slash s @ replicate n (CHR ''/'')" by (rule rstrip_slash_split)
  obtain host where "urlparse nw s = Inr (''https'', Some host)" "host \<noteq> []"
    using assms(1) by (auto simp: require_https_def Let_def split: if_splits dest!: truthyD)
  then have "urlparse nw (rstrip_slash s) = Inr (''https'', Some host)" "host \<noteq> []"
    using n by (metis list.distinct(1) urlparse_slashes, simp)
  then show ?thesis using assms(2) by (simp add: require_https_def)
qed

definition trimmed_api :: "(str \<times> json) list \<Rightarrow> bool" where
  "trimmed_api r = (case dget r ''api'' of JStr s \<Rightarrow> py_strip s = s | _ \<Rightarrow> True)"

lemma udata_again:
  assumes "validate_udata nw raw = Inr (JObj r)" "trimmed_api r"
  shows "validate_udata nw r = Inr (JObj r)" "dget r ''type'' = JStr ''udata''"
proof -
  obtain api0 d t where r: "r = [(''type'', JStr ''udata''), (''api'', JStr (rstrip_slash api0)), (''dataset_id'', JStr d), (''title_regex'', JStr t)]"
    "require_https nw (dget raw ''api'') ''api'' = Inr api0" "d = text_given nw (dget raw ''dataset_id'')" "t = text_given nw (dget raw ''title_regex'')"
    "d \<noteq> []" "CHR ''/'' \<notin> set d" "nw_regex nw t \<noteq> None" "t \<noteq> []"
    using assms(1) by (auto simp: validate_udata_def Let_def split: if_splits)
  have strip: "py_strip (rstrip_slash api0) = rstrip_slash api0" using assms(2) by (simp add: r(1) dget_def trimmed_api_def)
  have "require_https nw (JStr (rstrip_slash api0)) ''api'' = Inr (rstrip_slash api0)" using require_https_rstrip [OF r(2) strip] .
  moreover have "py_strip d = d" "py_strip t = t" by (simp_all add: r(3,4))
  ultimately show "validate_udata nw r = Inr (JObj r)" "dget r ''type'' = JStr ''udata''"
    using r(5-8) by (simp_all add: validate_udata_def r(1) dget_def)
qed

lemma resolver_again:
  assumes "lower_keeps_small rt" "validate_resolver rt nw raw = Inr (JObj r)" "trimmed_api r"
  shows "validate_resolver rt nw (JObj r) = Inr (JObj r)"
proof -
  obtain kvs where kvs: "raw = JObj kvs" using assms(2) by (auto simp: validate_resolver_def split: json.splits)
  have lower: "rt_lower rt ''tdg'' = ''tdg''" "rt_lower rt ''udata'' = ''udata''" "rt_lower rt ''permalink'' = ''permalink''"
    "rt_lower rt ''dated'' = ''dated''" "rt_lower rt ''json_api'' = ''json_api''"
  proof -
    have "list_all (list_all (\<lambda>c. is_decimal c \<or> is_lower_az c \<or> c = CHR ''_'')) [''tdg'', ''udata'', ''permalink'', ''dated'', ''json_api'']" by code_simp
    then show "rt_lower rt ''tdg'' = ''tdg''" "rt_lower rt ''udata'' = ''udata''" "rt_lower rt ''permalink'' = ''permalink''"
      "rt_lower rt ''dated'' = ''dated''" "rt_lower rt ''json_api'' = ''json_api''"
      using assms(1) by (simp_all add: lower_keeps_small_def)
  qed
  have strip: "py_strip ''tdg'' = ''tdg''" "py_strip ''udata'' = ''udata''" "py_strip ''permalink'' = ''permalink''"
    "py_strip ''dated'' = ''dated''" "py_strip ''json_api'' = ''json_api''" by code_simp+
  consider "validate_tdg rt nw kvs = Inr (JObj r)" | "validate_udata nw kvs = Inr (JObj r)" | "validate_permalink nw kvs = Inr (JObj r)"
    | "validate_dated nw kvs = Inr (JObj r)" | "validate_json_api nw kvs = Inr (JObj r)"
    using assms(2) by (auto simp: validate_resolver_def kvs Let_def split: if_splits)
  then show ?thesis
  proof cases
    case 1
    then show ?thesis using tdg_again [OF assms(1)] lower strip by (simp add: validate_resolver_def)
  next
    case 2
    then show ?thesis using udata_again [OF 2 assms(3)] lower strip by (simp add: validate_resolver_def)
  next
    case 3
    then show ?thesis using permalink_again [OF 3] lower strip by (simp add: validate_resolver_def)
  next
    case 4
    then show ?thesis using dated_again [OF 4] lower strip by (simp add: validate_resolver_def)
  next
    case 5
    then show ?thesis using json_api_again [OF 5] lower strip by (simp add: validate_resolver_def)
  qed
qed

text \<open>A resolver that was stored is accepted again as it is stored: validating what validation gave gives
  the same resolver, for each of the five types, whatever the form gave at first. The one text asked
  for is the address of an API, which must not end in a blank once its last slashes are cut.\<close>

theorem resolver_reads_back:
  assumes "lower_keeps_small rt" "validate_resolver rt nw raw = Inr (JObj r)" "trimmed_api r"
  shows "validate_resolver rt nw (JObj r) = Inr (JObj r)"
  by (rule resolver_again [OF assms])

section \<open>The newest dated file\<close>

lemma ebind_Inr: "ebind r f = Inr y \<longleftrightarrow> (\<exists>x. r = Inr x \<and> f x = Inr y)"
  by (cases r) (simp_all add: ebind_def)

lemma ebind_simps [simp]: "ebind (Inr x) f = f x" "ebind (Inl e) f = Inl e"
  by (simp_all add: ebind_def)

definition dated_url :: "str \<Rightarrow> int \<Rightarrow> str" where "dated_url url day = fill_name ''date'' (compact_date day) url"

text \<open>\<open>missed\<close>: the server said of each of the days \<open>day, day - 1, ...\<close> that nothing was published.\<close>

definition missed :: "network \<Rightarrow> str \<Rightarrow> int \<Rightarrow> nat \<Rightarrow> bool" where
  "missed nw url day k = list_all (\<lambda>j. probe_dated nw (dated_url url (day - int j)) = Inr False) [0..<k]"

lemma missed_Suc: "missed nw url day (Suc k) \<longleftrightarrow> probe_dated nw (dated_url url day) = Inr False \<and> missed nw url (day - 1) k"
proof -
  have "[0..<Suc k] = 0 # map Suc [0..<k]" by (simp add: map_Suc_upt upt_conv_Cons)
  then show ?thesis by (simp only: missed_def) (simp add: list.pred_map o_def algebra_simps del: upt_Suc)
qed

lemma dated_walk_newest:
  "dated_walk nw url day n = Inr u \<longleftrightarrow> (\<exists>k<n. u = dated_url url (day - int k) \<and> probe_dated nw u = Inr True \<and> missed nw url day k)"
proof (induction n arbitrary: day)
  case (Suc n)
  show ?case
  proof (cases "probe_dated nw (dated_url url day)")
    case (Inl e)
    have only: "k = 0" if "missed nw url day k" for k using that Inl missed_Suc [of nw url day "k - 1"] by (cases k) simp_all
    have "\<not> (probe_dated nw (dated_url url (day - int k)) = Inr True \<and> missed nw url day k)" for k
      using only [of k] Inl by (cases k) auto
    then show ?thesis using Inl by (auto simp: dated_url_def [symmetric])
  next
    case (Inr hit)
    show ?thesis
    proof (cases hit)
      case True
      have only: "missed nw url day k \<longleftrightarrow> k = 0" for k
        using Inr True missed_Suc [of nw url day "k - 1"] by (cases k) (simp_all add: missed_def)
      show ?thesis using Inr True by (auto simp: only dated_url_def [symmetric])
    next
      case False
      have "(\<exists>k<Suc n. u = dated_url url (day - int k) \<and> probe_dated nw u = Inr True \<and> missed nw url day k)
          \<longleftrightarrow> (\<exists>k<n. u = dated_url url (day - 1 - int k) \<and> probe_dated nw u = Inr True \<and> missed nw url (day - 1) k)"
      proof -
        have "(\<exists>k<Suc n. P k) \<longleftrightarrow> P 0 \<or> (\<exists>k<n. P (Suc k))" for P using less_Suc_eq_0_disj by auto
        then show ?thesis using Inr False by (auto simp: missed_Suc missed_def [of _ _ _ 0] algebra_simps)
      qed
      then show ?thesis using Inr False Suc.IH [of "day - 1"] by (simp add: dated_url_def [symmetric])
    qed
  qed
qed simp

text \<open>C39: the file of a dated resolver is the newest one. A resolver with \<open>max_days_back\<close> resolves to an
  address exactly when it is that of a day at most so many days ago where the server gives a zip, when of
  every later day up to today the server said that nothing was published, and when it passes the address
  check; one day that fails in any other way ends the walk with an error.\<close>

theorem dated_file_is_newest:
  assumes "validate_dated nw raw = Inr (JObj r)"
  shows "\<exists>url days. r = [(''type'', JStr ''dated''), (''url'', JStr url), (''max_days_back'', JInt days)] \<and> 1 \<le> days \<and> days \<le> 60
     \<and> (resolve nw r today auth = Inr u) = (\<exists>k\<le>nat days. u = dated_url url (today - int k) \<and> probe_dated nw u = Inr True
           \<and> missed nw url today k \<and> safe_http_url nw u = Inr u)"
proof -
  obtain url days where r: "r = [(''type'', JStr ''dated''), (''url'', JStr url), (''max_days_back'', JInt days)]" "1 \<le> days" "days \<le> 60"
    using assms by (auto simp: validate_dated_def DATED_MAX_DAYS_BACK_def split: if_splits json.splits option.splits)
  have dated: "resolve_dated nw r today = dated_walk nw url today (nat (days + 1))"
    using r(2) by (simp add: resolve_dated_def r(1) item_def lift_error_def py_str_def)
  have safe_id: "safe_http_url nw x = Inr y \<Longrightarrow> x = y" for x y
    by (auto simp: safe_http_url_def split: if_splits option.splits)
  have ok: "checked_url nw x = Inr y \<longleftrightarrow> x = y \<and> safe_http_url nw y = Inr y" for x y
    by (auto simp: checked_url_def split: sum.splits py_error.splits dest: safe_id)
  have "resolve nw r today auth = ebind (resolve_dated nw r today) (checked_url nw)"
    by (simp add: resolve_def r(1) dget_def)
  then have "(resolve nw r today auth = Inr u) = (dated_walk nw url today (nat (days + 1)) = Inr u \<and> safe_http_url nw u = Inr u)"
    by (auto simp: dated ebind_Inr ok)
  moreover have "(\<exists>k<nat (days + 1). P k) = (\<exists>k\<le>nat days. P k)" for P
    using r(2) by (auto simp: nat_add_distrib less_Suc_eq_le)
  ultimately show ?thesis using r by (auto simp: dated_walk_newest)
qed

section \<open>What is resolved, and for whom\<close>

text \<open>The one address a resolver's credential is asked for: a JSON catalogue's, once it passed the check.\<close>

definition signed_lookup :: "network \<Rightarrow> (str \<times> json) list \<Rightarrow> int \<Rightarrow> str option" where
  "signed_lookup nw r today =
     (if dget r ''type'' \<noteq> JStr ''json_api'' then None
      else (case item nw r ''url'' of
          Inl e \<Rightarrow> None
        | Inr url \<Rightarrow> (case checked_url nw (fill_name ''timetable_year'' (show_int (timetable_year today)) url) of Inl e \<Rightarrow> None | Inr u \<Rightarrow> Some u)))"

definition same_for_lookup :: "network \<Rightarrow> (str \<times> json) list \<Rightarrow> int \<Rightarrow> authorizer \<Rightarrow> authorizer \<Rightarrow> bool" where
  "same_for_lookup nw r today a b = (case signed_lookup nw r today of None \<Rightarrow> True | Some u \<Rightarrow> a u = b u)"

lemma get_json_auth: "(\<And>u. checked_url nw url = Inr u \<Longrightarrow> a u = b u) \<Longrightarrow> get_json nw (Some a) url = get_json nw (Some b) url"
  by (cases "checked_url nw url") (simp_all add: get_json_def)

definition public_address :: "network \<Rightarrow> str \<Rightarrow> bool" where
  "public_address nw url = (case urlparse nw url of
      Inr (scheme, Some host) \<Rightarrow> (scheme = ''http'' \<or> scheme = ''https'') \<and>
        (case nw_addresses nw host of Some as \<Rightarrow> list_all (\<lambda>a. nw_public nw (takeWhile (\<lambda>c. c \<noteq> CHR ''%'') a)) as | None \<Rightarrow> False)
    | _ \<Rightarrow> False)"

lemma safe_is_public: "safe_http_url nw url = Inr u \<Longrightarrow> u = url \<and> public_address nw url"
  by (auto simp: safe_http_url_def public_address_def split: if_splits option.splits dest!: truthyD)

lemma lift_error_Inr: "lift_error r = Inr x \<longleftrightarrow> r = Inr x"
  by (cases r) (simp_all add: lift_error_def)

lemma checked_url_Inr: "checked_url nw x = Inr y \<Longrightarrow> y = x \<and> public_address nw x"
  by (auto simp: checked_url_def split: sum.splits py_error.splits dest: safe_is_public)

lemma json_api_result:
  assumes "resolve_json_api nw r today auth = Inr u"
  obtains url v where "item nw r ''url'' = Inr url" "json_api_file_url nw v r today = Inr u"
  using assms by (auto simp: resolve_json_api_def ebind_Inr lift_error_Inr)

lemma file_on_catalogue_host:
  assumes "json_api_file_url nw v r today = Inr u" "item nw r ''url'' = Inr url" "map_of r ''url_field'' = Some path"
  shows "map_sum id snd (urlparse nw u) = map_sum id snd (urlparse nw url)"
proof -
  obtain value_u where f: "field_at (JObj v) (py_str (nw_str nw) path) = JStr value_u"
    using assms(1,3) by (cases "field_at (JObj v) (py_str (nw_str nw) path)") (simp_all add: json_api_file_url_def)
  show ?thesis using assms f by (auto simp: json_api_file_url_def ebind_Inr lift_error_Inr split: if_splits)
qed


section \<open>The timetable year\<close>

text \<open>The timetable changes on a Sunday, nine to fifteen days into December.\<close>

lemma change_day_is_second_sunday: "weekday (change_day y) = 6" "days_of_civil y 12 1 + 8 \<le> change_day y" "change_day y \<le> days_of_civil y 12 1 + 14"
proof -
  define d where "d = days_of_civil y 12 1"
  have c: "change_day y = d + (5 - (d + 3) mod 7) mod 7 + 8" by (simp add: change_day_def d_def weekday_def Let_def)
  have m: "0 \<le> (5 - (d + 3) mod 7) mod 7" "(5 - (d + 3) mod 7) mod 7 < 7" by simp_all
  have "(d + (5 - (d + 3) mod 7) mod 7 + 8 + 3) mod 7 = 6" by presburger
  then show "weekday (change_day y) = 6" by (simp add: c weekday_def)
  show "days_of_civil y 12 1 + 8 \<le> change_day y" "change_day y \<le> days_of_civil y 12 1 + 14"
    using m by (simp_all add: c d_def [symmetric])
qed

section \<open>Samples\<close>

text \<open>Every host but localhost is public, the catalogue lists two files, and one day has a zip.\<close>

definition sample_network :: network where
  "sample_network = \<lparr>nw_regex = (\<lambda>p. Some (\<lambda>t. starts_with t p)), nw_ip_host = (\<lambda>h. False), nw_addresses = (\<lambda>h. Some [h]),
     nw_public = (\<lambda>a. a \<noteq> ''localhost''),
     nw_get = (\<lambda>u hs. Document (JObj [(''files'', JArr [
        JObj [(''name'', JStr ''a''), (''url'', JStr ''https://localhost/a.zip'')], JObj [(''name'', JStr ''b''), (''url'', JStr ''https://nap.at/b.zip'')]])])),
     nw_probe = (\<lambda>u. if u = ''https://d.de/20241002.zip'' then Probe_status 206 [ZIP_MAGIC] else Probe_status 404 []), nw_str = (\<lambda>v. [])\<rparr>"

text \<open>A placeholder of a download address is checked without the blanks around it, and filled with them: such a
  resolver is stored and never resolves.\<close>

lemma blank_placeholder_accepted:
  "validate_resolver ascii_runtime sample_network (JObj [(''type'', JStr ''json_api''), (''url'', JStr ''https://nap.at/list''), (''items'', JStr ''files''),
      (''match'', JObj [(''name'', JStr ''b'')]), (''download'', JStr ''https://nap.at/{ name }'')])
    = Inr (JObj [(''type'', JStr ''json_api''), (''url'', JStr ''https://nap.at/list''), (''items'', JStr ''files''),
      (''match'', JObj [(''name'', JStr ''b'')]), (''download'', JStr ''https://nap.at/{ name }'')])"
  "fill_pieces sample_network 20000 [(''name'', JStr ''b'')] (pieces ''https://nap.at/{ name }'') = Inl Resolve_error"
  by code_simp+

text \<open>A listing with something that is no object is an AttributeError, where an error of the resolver is meant.\<close>

lemma stray_resource_raises: "find_resource (JInt 7) [JStr ''x'', JObj [(''id'', JInt 7)]] = Inl (Raised AttributeError)"
  by simp

lemma ascii_keeps_small: "lower_keeps_small ascii_runtime"
proof -
  have "ascii_lower c = c" if "is_decimal c \<or> is_lower_az c \<or> c = CHR ''_''" for c
    using that by (auto simp: ascii_lower_def is_decimal_def is_lower_az_def Let_def)
  then show ?thesis by (auto simp: lower_keeps_small_def ascii_runtime_def list_all_iff intro: map_idI)
qed

definition sample_udata :: "(str \<times> json) list" where
  "sample_udata = [(''type'', JStr ''udata''), (''api'', JStr ''https://data.public.lu/api/1''), (''dataset_id'', JStr ''gtfs''), (''title_regex'', JStr ''gtfs-'')]"

lemma sample_udata_given:
  "validate_resolver ascii_runtime sample_network (JObj [(''type'', JStr '' UData''), (''api'', JStr ''https://data.public.lu/api/1//''),
      (''dataset_id'', JStr ''gtfs''), (''title_regex'', JStr ''gtfs-'')]) = Inr (JObj sample_udata)"
  by code_simp

theorem resolver_reads_back_witness: "validate_resolver ascii_runtime sample_network (JObj sample_udata) = Inr (JObj sample_udata)"
proof -
  have "trimmed_api sample_udata" by code_simp
  then show ?thesis by (rule resolver_reads_back [OF ascii_keeps_small sample_udata_given])
qed

definition sample_dated :: "(str \<times> json) list" where
  "sample_dated = [(''type'', JStr ''dated''), (''url'', JStr ''https://d.de/{date}.zip''), (''max_days_back'', JInt 3)]"

lemma sample_dated_valid: "validate_dated sample_network sample_dated = Inr (JObj sample_dated)" by code_simp

lemma sample_dated_resolved: "resolve sample_network sample_dated 20000 None = Inr ''https://d.de/20241002.zip''" by code_simp

theorem dated_file_is_newest_witness:
  "\<exists>k\<le>3. ''https://d.de/20241002.zip'' = dated_url ''https://d.de/{date}.zip'' (20000 - int k) \<and> missed sample_network ''https://d.de/{date}.zip'' 20000 k"
proof -
  have "\<exists>k\<le>nat 3. ''https://d.de/20241002.zip'' = dated_url ''https://d.de/{date}.zip'' (20000 - int k) \<and> missed sample_network ''https://d.de/{date}.zip'' 20000 k"
    using dated_file_is_newest [OF sample_dated_valid, of 20000 None "''https://d.de/20241002.zip''"] sample_dated_resolved
    by (auto simp: sample_dated_def)
  then show ?thesis by simp
qed

definition sample_catalogue :: "(str \<times> json) list" where
  "sample_catalogue = [(''type'', JStr ''json_api''), (''url'', JStr ''https://nap.at/list''), (''items'', JStr ''files''),
     (''match'', JObj [(''name'', JStr ''b'')]), (''url_field'', JStr ''url'')]"

definition sample_signer :: "str \<Rightarrow> authorizer" where
  "sample_signer other u = Inr (if u = ''https://nap.at/list'' then u else other, [])"

lemma sample_catalogue_resolved: "resolve sample_network sample_catalogue 20000 (Some (sample_signer ''x'')) = Inr ''https://nap.at/b.zip''" by code_simp


end
