(* ===== verification/Provider_Config.thy ===== *)
theory Provider_Config
  imports Feed_Resolvers
begin

text \<open>
  The providers of a session and the slots of their files, \<open>app/ingestion.py\<close>: the validation of a
  configured provider, the older shapes lifted into it, the slot a file is placed in with the rotation of
  what was there, and the queue of rebuilds. \<open>uuid_ok\<close> says whether \<open>uuid.UUID\<close> accepts a text; error texts
  are reduced to the field they name. A directory is a map of names to contents.
\<close>

section \<open>Kinds, formats and names\<close>

definition STAGE_INTO_OTP_INBOX :: "(str \<times> str) list" where
  "STAGE_INTO_OTP_INBOX = [(''GTFS'', ''gtfs''), (''NeTEx-Nordic'', ''netex''), (''NeTEx-EPIP'', ''netex''), (''OSM-PBF'', ''osm'')]"

definition STAGE_INTO_OTP_INBOX_FILENAME :: "(str \<times> str) list" where
  "STAGE_INTO_OTP_INBOX_FILENAME = [(''GTFS'', ''gtfs.zip''), (''NeTEx-Nordic'', ''netex.zip''), (''NeTEx-EPIP'', ''netex.zip''), (''OSM-PBF'', ''osm.pbf'')]"

definition OTP_TIMETABLE_FORMATS :: "str list" where "OTP_TIMETABLE_FORMATS = [''gtfs'', ''netex_nordic'', ''netex_epip'']"
definition TIMETABLE_SOURCES :: "str list" where "TIMETABLE_SOURCES = [''url'', ''upload'', ''cross_border_filter'', ''nap'']"

text \<open>The kind of \<open>TIMETABLE_FORMAT_DETAILS\<close>.\<close>

definition TIMETABLE_FORMAT_KINDS :: "(str \<times> str) list" where
  "TIMETABLE_FORMAT_KINDS = [(''gtfs'', ''GTFS''), (''netex_nordic'', ''NeTEx-Nordic''), (''netex_epip'', ''NeTEx-EPIP'')]"

definition ARCHIVE_ONLY :: "str list" where "ARCHIVE_ONLY = [''NeTEx-FR-Horaires'', ''NeTEx-FR-Arrets'']"
definition LOAD_TO_DB :: "str list" where "LOAD_TO_DB = [''SNCF-MCT'', ''SNCF-Stations'']"

text \<open>\<open>^[A-Z][A-Z0-9_-]{1,15}$\<close> and \<open>^[A-Z]{2}$\<close> on a stripped text.\<close>

definition is_id_char :: "char \<Rightarrow> bool" where
  "is_id_char c = (is_upper_az c \<or> is_decimal c \<or> c = CHR ''_'' \<or> c = CHR ''-'')"

definition is_provider_id :: "str \<Rightarrow> bool" where
  "is_provider_id s = (2 \<le> length s \<and> length s \<le> 16 \<and> is_upper_az (hd s) \<and> list_all is_id_char (tl s))"

definition is_country_code :: "str \<Rightarrow> bool" where
  "is_country_code s = (length s = 2 \<and> list_all is_upper_az s)"

definition is_http_url :: "str \<Rightarrow> bool" where
  "is_http_url s = (starts_with s ''http://'' \<or> starts_with s ''https://'')"

text \<open>\<open>(v or "").strip()\<close>; \<open>str(v or "").strip()\<close> is \<open>text_given\<close>; \<open>v in (None, "")\<close>.\<close>

definition strip_text :: "json \<Rightarrow> py_error + str" where
  "strip_text v = (if \<not> json_truthy v then Inr [] else (case v of JStr s \<Rightarrow> Inr (py_strip s) | _ \<Rightarrow> Inl AttributeError))"

definition is_unset :: "json \<Rightarrow> bool" where "is_unset v = (v = JNull \<or> v = JStr [])"

section \<open>Slots\<close>

definition gtfs_staged_filename :: "runtime \<Rightarrow> str \<Rightarrow> str" where
  "gtfs_staged_filename rt feed_id = rt_lower rt feed_id @ ''.zip''"

definition staged_filename_for_format :: "runtime \<Rightarrow> str \<Rightarrow> str \<Rightarrow> py_error + str" where
  "staged_filename_for_format rt feed_id fmt =
     (if fmt \<notin> set OTP_TIMETABLE_FORMATS then Inl (ValueError ''format'') else Inr (rt_lower rt feed_id @ ''.zip''))"

definition staged_slot_for_format :: "runtime \<Rightarrow> str \<Rightarrow> str \<Rightarrow> py_error + str \<times> str" where
  "staged_slot_for_format rt feed_id fmt =
     rbind (staged_filename_for_format rt feed_id fmt) (\<lambda>filename.
     Inr (alist_get STAGE_INTO_OTP_INBOX (alist_get TIMETABLE_FORMAT_KINDS fmt []) [], filename))"

definition DERIVED_SOURCE :: str where "DERIVED_SOURCE = ''cross_border_filter''"
definition DERIVED_TIMETABLE_FORMAT :: str where "DERIVED_TIMETABLE_FORMAT = ''gtfs''"

definition provider_timetable_format :: "network \<Rightarrow> (str \<times> json) list \<Rightarrow> py_error + str" where
  "provider_timetable_format nw provider =
     rbind (jdict (dget provider ''timetable'')) (\<lambda>tt.
     if dget tt ''source'' = JStr DERIVED_SOURCE then Inr DERIVED_TIMETABLE_FORMAT
     else Inr (if json_truthy (dget tt ''format'') then py_str (nw_str nw) (dget tt ''format'') else ''gtfs''))"

definition provider_slot :: "runtime \<Rightarrow> network \<Rightarrow> (str \<times> json) list \<Rightarrow> py_error + str \<times> str" where
  "provider_slot rt nw provider =
     (case map_of provider ''id'' of
        None \<Rightarrow> Inl KeyError
      | Some (JStr feed_id) \<Rightarrow> rbind (provider_timetable_format nw provider) (\<lambda>fmt. staged_slot_for_format rt feed_id fmt)
      | Some v \<Rightarrow> rbind (provider_timetable_format nw provider) (\<lambda>fmt.
          if fmt \<notin> set OTP_TIMETABLE_FORMATS then Inl (ValueError ''format'') else Inl AttributeError))"

section \<open>One provider\<close>

definition validate_cross_border_filter :: "runtime \<Rightarrow> network \<Rightarrow> (str \<times> json) list \<Rightarrow> py_error + (str \<times> json) list" where
  "validate_cross_border_filter rt nw tt = (case dget tt ''derived_from'' of
      JObj df \<Rightarrow>
        (let src_session = text_given nw (dget df ''session_id''); src_provider = text_given nw (dget df ''provider_id'') in
         if src_session = [] then Inl (ValueError ''session_id'')
         else if \<not> is_provider_id src_provider then Inl (ValueError ''provider_id'')
         else rbind (if is_unset (dget tt ''home_country'') then Inr []
                else (let home = rt_upper rt (py_strip (py_str (nw_str nw) (dget tt ''home_country''))) in
                      if is_country_code home then Inr [(''home_country'', JStr home)] else Inl (ValueError ''home_country''))) (\<lambda>home.
              (case (case map_of tt ''rail_only'' of None \<Rightarrow> JBool True | Some v \<Rightarrow> v) of
                 JBool b \<Rightarrow> Inr ([(''derived_from'', JObj [(''session_id'', JStr src_session), (''provider_id'', JStr src_provider)])]
                      @ home @ [(''rail_only'', JBool b)])
               | _ \<Rightarrow> Inl (ValueError ''rail_only''))))
    | _ \<Rightarrow> Inl (ValueError ''derived_from''))"

definition DEFAULT_MODE_RAIL :: str where "DEFAULT_MODE_RAIL = ''rail''"

definition default_mode :: "runtime \<Rightarrow> json \<Rightarrow> py_error + bool" where
  "default_mode rt raw =
     (if raw = JNull \<or> raw = JBool False \<or> raw = JStr [] then Inr False
      else (case raw of
          JStr s \<Rightarrow> if rt_lower rt (py_strip s) = DEFAULT_MODE_RAIL then Inr True else Inl (ValueError ''default_mode'')
        | _ \<Rightarrow> Inl (ValueError ''default_mode'')))"

definition valid_timetable :: "runtime \<Rightarrow> network \<Rightarrow> (str \<times> json) list \<Rightarrow> py_error + (str \<times> json) list" where
  "valid_timetable rt nw tt =
     rbind (strip_text (dget tt ''format'')) (\<lambda>fmt0.
     let fmt = rt_lower rt fmt0 in
     if fmt \<notin> set OTP_TIMETABLE_FORMATS then Inl (ValueError ''format'')
     else rbind (strip_text (dget tt ''url'')) (\<lambda>url.
     if url \<noteq> [] \<and> \<not> is_http_url url then Inl (ValueError ''url'')
     else rbind (strip_text (dget tt ''source'')) (\<lambda>source0.
     let source_raw = rt_lower rt source0 in
     if source_raw \<noteq> [] \<and> source_raw \<notin> set TIMETABLE_SOURCES then Inl (ValueError ''source'')
     else (let src = (if source_raw \<noteq> [] then source_raw else if url \<noteq> [] then ''url'' else ''upload'');
               base = [(''format'', JStr fmt), (''source'', JStr src)] @ (if url \<noteq> [] then [(''url'', JStr url)] else [])
       in rbind (if src = ''cross_border_filter'' then validate_cross_border_filter rt nw tt else Inr []) (\<lambda>derived.
          rbind (if src = ''nap'' then rbind (validate_resolver rt nw (dget tt ''resolver'')) (\<lambda>r. Inr [(''resolver'', r)]) else Inr []) (\<lambda>res.
          rbind (default_mode rt (dget tt ''default_mode'')) (\<lambda>rail.
          Inr (base @ derived @ res @ (if rail \<and> src \<noteq> ''cross_border_filter'' then [(''default_mode'', JStr DEFAULT_MODE_RAIL)] else [])))))))))"

fun optional_urls :: "(str \<times> json) list \<Rightarrow> str list \<Rightarrow> py_error + (str \<times> json) list" where
  "optional_urls raw [] = Inr []"
| "optional_urls raw (key # keys) = rbind (strip_text (dget raw key)) (\<lambda>v.
     if v = [] then optional_urls raw keys
     else if \<not> is_http_url v then Inl (ValueError key)
     else rbind (optional_urls raw keys) (\<lambda>out. Inr ((key, JStr v) # out)))"

definition RT_KEYS :: "str list" where "RT_KEYS = [''alerts_url'', ''trip_updates_url'', ''vehicle_positions_url'']"

definition opt_url :: "(str \<times> json) list \<Rightarrow> str \<Rightarrow> py_error + json" where
  "opt_url raw key = rbind (strip_text (dget raw key)) (\<lambda>v.
     if v = [] then Inr JNull else if \<not> is_http_url v then Inl (ValueError key) else Inr (JStr v))"

definition opt_cred_id :: "network \<Rightarrow> (str \<Rightarrow> bool) \<Rightarrow> (str \<times> json) list \<Rightarrow> str \<Rightarrow> py_error + json" where
  "opt_cred_id nw uuid_ok raw key = (let v = dget raw key in
     if is_unset v then Inr JNull
     else (let s = py_strip (py_str (nw_str nw) v) in if uuid_ok s then Inr (JStr s) else Inl (ValueError key)))"

definition provider_label :: "network \<Rightarrow> (str \<times> json) list \<Rightarrow> str \<Rightarrow> str" where
  "provider_label nw raw feed_id =
     (let label = py_strip (if json_truthy (dget raw ''label'') then py_str (nw_str nw) (dget raw ''label'') else feed_id)
      in if label = [] then feed_id else label)"

definition provider_country :: "runtime \<Rightarrow> network \<Rightarrow> (str \<times> json) list \<Rightarrow> py_error + json" where
  "provider_country rt nw raw =
     (if is_unset (dget raw ''country_iso'') then Inr JNull
      else (let ci = rt_upper rt (py_strip (py_str (nw_str nw) (dget raw ''country_iso'')))
            in if is_country_code ci then Inr (JStr ci) else Inl (ValueError ''country_iso'')))"

definition provider_timetable :: "runtime \<Rightarrow> network \<Rightarrow> (str \<times> json) list \<Rightarrow> py_error + (str \<times> json) list" where
  "provider_timetable rt nw raw = (case dget raw ''timetable'' of JObj tt \<Rightarrow> valid_timetable rt nw tt | _ \<Rightarrow> Inl (ValueError ''timetable''))"

definition provider_gtfs_rt :: "(str \<times> json) list \<Rightarrow> py_error + (str \<times> json) list" where
  "provider_gtfs_rt raw =
     (if \<not> json_truthy (dget raw ''gtfs_rt'') then Inr []
      else (case dget raw ''gtfs_rt'' of JObj g \<Rightarrow> optional_urls g RT_KEYS | _ \<Rightarrow> Inl (ValueError ''gtfs_rt'')))"

definition validate_provider :: "runtime \<Rightarrow> network \<Rightarrow> (str \<Rightarrow> bool) \<Rightarrow> json \<Rightarrow> py_error + (str \<times> json) list" where
  "validate_provider rt nw uuid_ok raw0 = (case raw0 of
      JObj raw \<Rightarrow>
        rbind (strip_text (dget raw ''id'')) (\<lambda>feed_id.
        if \<not> is_provider_id feed_id then Inl (ValueError ''id'')
        else
          rbind (provider_country rt nw raw) (\<lambda>country_iso.
          rbind (provider_timetable rt nw raw) (\<lambda>timetable.
          rbind (provider_gtfs_rt raw) (\<lambda>gtfs_rt.
          rbind (opt_cred_id nw uuid_ok raw ''timetable_credential_id'') (\<lambda>c1.
          rbind (opt_cred_id nw uuid_ok raw ''gtfs_rt_credential_id'') (\<lambda>c2.
          rbind (opt_url raw ''mct_url'') (\<lambda>u1.
          rbind (opt_cred_id nw uuid_ok raw ''mct_credential_id'') (\<lambda>c3.
          rbind (opt_url raw ''stations_csv_url'') (\<lambda>u2.
          rbind (opt_cred_id nw uuid_ok raw ''stations_csv_credential_id'') (\<lambda>c4.
          Inr [(''id'', JStr feed_id), (''label'', JStr (provider_label nw raw feed_id)), (''country_iso'', country_iso), (''timetable'', JObj timetable),
               (''timetable_credential_id'', c1), (''gtfs_rt'', JObj gtfs_rt), (''gtfs_rt_credential_id'', c2), (''mct_url'', u1),
               (''mct_credential_id'', c3), (''stations_csv_url'', u2), (''stations_csv_credential_id'', c4)]))))))))))
    | _ \<Rightarrow> Inl (ValueError ''provider''))"

section \<open>The providers of a session\<close>

fun feed_entries :: "str list \<Rightarrow> json list \<Rightarrow> py_error + (str \<times> str) list" where
  "feed_entries seen [] = Inr []"
| "feed_entries seen (entry # es) = (case entry of
      JObj d \<Rightarrow>
        rbind (strip_text (dget d ''id'')) (\<lambda>feed_id. rbind (strip_text (dget d ''url'')) (\<lambda>url.
        if \<not> is_provider_id feed_id then Inl (ValueError ''id'')
        else if feed_id \<in> set seen then Inl (ValueError ''twice'')
        else if \<not> is_http_url url then Inl (ValueError ''url'')
        else rbind (feed_entries (feed_id # seen) es) (\<lambda>out. Inr ((feed_id, url) # out))))
    | _ \<Rightarrow> Inl (ValueError ''feed''))"

definition normalize_gtfs_sources :: "json \<Rightarrow> py_error + (str \<times> str) list" where
  "normalize_gtfs_sources raw =
     (if is_unset raw then Inr []
      else (case raw of
          JStr url \<Rightarrow> Inr [(''GTFS'', url)]
        | JArr es \<Rightarrow> feed_entries [] es
        | _ \<Rightarrow> Inl (ValueError ''gtfs'')))"

definition legacy_provider :: "(str \<times> json) list \<Rightarrow> nat \<Rightarrow> str \<times> str \<Rightarrow> (str \<times> json) list" where
  "legacy_provider sources i feed = (case feed of (feed_id, url) \<Rightarrow>
     (let given = (\<lambda>key. case dget sources key of JStr s \<Rightarrow> if i = 0 \<and> s \<noteq> [] then JStr s else JNull | _ \<Rightarrow> JNull) in
      [(''id'', JStr feed_id), (''label'', JStr feed_id), (''country_iso'', JNull),
       (''timetable'', JObj [(''format'', JStr ''gtfs''), (''source'', JStr ''url''), (''url'', JStr url)]), (''gtfs_rt'', JObj []),
       (''mct_url'', given ''mct''), (''stations_csv_url'', given ''stations'')]))"

fun native_providers :: "runtime \<Rightarrow> network \<Rightarrow> (str \<Rightarrow> bool) \<Rightarrow> json list \<Rightarrow> json list \<Rightarrow> py_error + (str \<times> json) list list" where
  "native_providers rt nw uuid_ok seen [] = Inr []"
| "native_providers rt nw uuid_ok seen (p # ps) =
     rbind (validate_provider rt nw uuid_ok p) (\<lambda>cleaned.
     if dget cleaned ''id'' \<in> set seen then Inl (ValueError ''twice'')
     else rbind (native_providers rt nw uuid_ok (dget cleaned ''id'' # seen) ps) (\<lambda>out. Inr (cleaned # out)))"

definition normalize_providers :: "runtime \<Rightarrow> network \<Rightarrow> (str \<Rightarrow> bool) \<Rightarrow> (str \<times> json) list \<Rightarrow> py_error + (str \<times> json) list list" where
  "normalize_providers rt nw uuid_ok raw_config =
     (let sources = dget raw_config ''sources'' in
      rbind (if \<not> json_truthy sources then Inr [] else (case sources of JObj d \<Rightarrow> Inr d | _ \<Rightarrow> Inl (ValueError ''sources''))) (\<lambda>d.
      case map_of d ''providers'' of
        Some (JArr ps) \<Rightarrow> native_providers rt nw uuid_ok [] ps
      | Some v \<Rightarrow> Inl (ValueError ''providers'')
      | None \<Rightarrow> rbind (normalize_gtfs_sources (dget d ''gtfs'')) (\<lambda>feeds.
          Inr (map (\<lambda>(i, feed). legacy_provider d i feed) (py_enumerate feeds)))))"

section \<open>Files in their slots\<close>

type_synonym 'c files = "str list \<Rightarrow> 'c option"

definition session_inbox :: "str option \<Rightarrow> str list" where
  "session_inbox session_id = [if truthy session_id then or_empty session_id else ''_phase1'']"

definition TMP_SUFFIX :: str where "TMP_SUFFIX = ''.placing.tmp''"

text \<open>\<open>_OLD_RE\<close>; the dollar also takes a final newline.\<close>

definition old_name :: "str \<Rightarrow> bool" where
  "old_name name =
     (let line = (if name \<noteq> [] \<and> last name = char_of (10 :: nat) then [name, butlast name] else [name])
      in list_ex (\<lambda>n. ends_with n ''.old'' \<or>
           (let digits = takeWhile is_decimal (rev n) in digits \<noteq> [] \<and> ends_with (take (length n - length digits) n) ''.old.'')) line)"

text \<open>\<open>p.rename(p.with_suffix(p.suffix + ".old"))\<close>.\<close>

definition rename_old :: "str list \<Rightarrow> str \<Rightarrow> 'c files \<Rightarrow> 'c files" where
  "rename_old dir name fs = fs(dir @ [name @ ''.old''] := fs (dir @ [name]), dir @ [name] := None)"

text \<open>\<open>listing\<close> is what \<open>iterdir\<close> gives of the directory, in its order.\<close>

definition rotate_all :: "str list \<Rightarrow> str list \<Rightarrow> 'c files \<Rightarrow> 'c files" where
  "rotate_all dir listing fs = foldl (\<lambda>fs name. if \<not> old_name name \<and> \<not> ends_with name TMP_SUFFIX then rename_old dir name fs else fs) fs listing"

definition place_in_slot :: "str list \<Rightarrow> str list \<Rightarrow> str \<Rightarrow> bool \<Rightarrow> 'c \<Rightarrow> 'c files \<Rightarrow> 'c files" where
  "place_in_slot dir listing target_name rotate_every content fs =
     (let fs1 = (if rotate_every then rotate_all dir listing fs
            else if fs (dir @ [target_name]) \<noteq> None then rename_old dir target_name fs else fs)
      in fs1(dir @ [target_name] \<mapsto> content))"

text \<open>\<open>Path.suffix\<close>.\<close>

definition path_suffix :: "str \<Rightarrow> str" where
  "path_suffix name =
     (let tail = takeWhile (\<lambda>c. c \<noteq> CHR ''.'') (rev name); stem = length name - length tail
      in if CHR ''.'' \<in> set name \<and> tail \<noteq> [] \<and> 1 < stem then CHR ''.'' # rev tail else [])"

definition place :: "str \<Rightarrow> 'c \<Rightarrow> str \<Rightarrow> str option \<Rightarrow> str option \<Rightarrow> (str list \<Rightarrow> str list) \<Rightarrow> 'c files \<Rightarrow> py_error + 'c files \<times> bool" where
  "place stored_name content kind session_id staged_filename iterdir fs =
     (let base = session_inbox session_id in
      case map_of STAGE_INTO_OTP_INBOX kind of
        Some subdir \<Rightarrow>
          Inr (place_in_slot (base @ [subdir]) (iterdir (base @ [subdir]))
                 (if truthy staged_filename then or_empty staged_filename else alist_get STAGE_INTO_OTP_INBOX_FILENAME kind [])
                 (staged_filename = None) content fs, True)
      | None \<Rightarrow>
          if kind \<in> set ARCHIVE_ONLY then Inr (fs(base @ [''archive'', kind, stored_name] \<mapsto> content), False)
          else if kind \<in> set LOAD_TO_DB then Inr (fs(base @ [''runtime'', kind, ''latest'' @ path_suffix stored_name] \<mapsto> content), False)
          else Inl (ValueError ''kind''))"

section \<open>The rebuilds queued\<close>

definition wants_max_memory :: "json \<Rightarrow> bool" where
  "wants_max_memory config = (case config of JObj d \<Rightarrow> dget d ''build_max_memory'' = JBool True | _ \<Rightarrow> False)"

record rebuild_job =
  rj_session :: "str option"
  rj_status :: str
  rj_max_memory :: bool
  rj_log :: str

definition MAX_MEMORY_SETTING :: str where "MAX_MEMORY_SETTING = '' (max-memory: the session's setting)''"

definition session_wants_max_memory :: "(str \<rightharpoonup> json) \<Rightarrow> str option \<Rightarrow> bool" where
  "session_wants_max_memory configs session_id = (case session_id of None \<Rightarrow> False
     | Some sid \<Rightarrow> (case configs sid of None \<Rightarrow> False | Some config \<Rightarrow> wants_max_memory config))"

text \<open>The first pending job of the session; a filter \<open>session_id == None\<close> is the SQL \<open>IS NULL\<close>.\<close>

definition is_pending_of :: "str option \<Rightarrow> rebuild_job \<Rightarrow> bool" where
  "is_pending_of session_id job = (rj_status job = ''pending'' \<and> rj_session job = session_id)"

fun update_first :: "('a \<Rightarrow> bool) \<Rightarrow> ('a \<Rightarrow> 'a) \<Rightarrow> 'a list \<Rightarrow> 'a list" where
  "update_first p f [] = []"
| "update_first p f (x # xs) = (if p x then f x # xs else x # update_first p f xs)"

definition upgraded :: "str \<Rightarrow> rebuild_job \<Rightarrow> rebuild_job" where
  "upgraded now job = job\<lparr>rj_max_memory := True,
     rj_log := rj_log job @ ''upgraded to max-memory at '' @ now @ MAX_MEMORY_SETTING @ [char_of (10 :: nat)]\<rparr>"

definition enqueue_rebuild :: "str \<Rightarrow> (str \<rightharpoonup> json) \<Rightarrow> str \<Rightarrow> str option \<Rightarrow> str \<Rightarrow> rebuild_job list \<Rightarrow> rebuild_job list" where
  "enqueue_rebuild dash configs now session_id why jobs =
     (let max_memory = session_wants_max_memory configs session_id in
      case List.find (is_pending_of session_id) jobs of
        Some pending \<Rightarrow>
          if max_memory \<and> \<not> rj_max_memory pending then update_first (is_pending_of session_id) (upgraded now) jobs else jobs
      | None \<Rightarrow> jobs @ [\<lparr>rj_session = session_id, rj_status = ''pending'', rj_max_memory = max_memory,
          rj_log = ''queued at '' @ now @ '' '' @ dash @ '' '' @ why @ (if max_memory then MAX_MEMORY_SETTING else []) @ [char_of (10 :: nat)]\<rparr>])"

text \<open>\<open>dispatch\<close>: the file is placed, then a rebuild queued when its kind warrants one.\<close>

definition dispatch :: "str \<Rightarrow> (str \<rightharpoonup> json) \<Rightarrow> str \<Rightarrow> str \<Rightarrow> 'c \<Rightarrow> str \<Rightarrow> str option \<Rightarrow> str option \<Rightarrow> (str list \<Rightarrow> str list)
    \<Rightarrow> 'c files \<times> rebuild_job list \<Rightarrow> py_error + ('c files \<times> rebuild_job list) \<times> bool" where
  "dispatch dash configs now stored_name content kind session_id staged_filename iterdir s =
     rbind (place stored_name content kind session_id staged_filename iterdir (fst s)) (\<lambda>(fs, rebuild).
     Inr ((fs, if rebuild then enqueue_rebuild dash configs now session_id (''new '' @ kind @ '' uploaded'') (snd s) else snd s), rebuild))"

end
