(* ===== verification/Provider_Properties.thy ===== *)
theory Provider_Properties
  imports Provider_Config Feed_Resolver_Properties
begin

text \<open>
  Stored providers read back as themselves and have slots of their own, a file placed in a slot leaves the
  other files alone, and requests for a rebuild are coalesced.
\<close>

section \<open>Letters\<close>

text \<open>\<open>str.lower\<close> and \<open>str.upper\<close> on ASCII text.\<close>

definition ascii_cases :: "runtime \<Rightarrow> bool" where
  "ascii_cases rt \<longleftrightarrow> (\<forall>s. list_all (\<lambda>c. (of_char c :: nat) < 128) s \<longrightarrow> rt_lower rt s = map ascii_lower s \<and> rt_upper rt s = map ascii_upper s)"

lemma ascii_lower_small: "is_decimal c \<or> is_lower_az c \<or> c = CHR ''_'' \<Longrightarrow> ascii_lower c = c \<and> (of_char c :: nat) < 128"
  by (auto simp: ascii_lower_def is_decimal_def is_lower_az_def Let_def)

lemma ascii_cases_small: "ascii_cases rt \<Longrightarrow> lower_keeps_small rt"
proof -
  assume a: "ascii_cases rt"
  have "rt_lower rt s = s" if "list_all (\<lambda>c. is_decimal c \<or> is_lower_az c \<or> c = CHR ''_'') s" for s
  proof -
    have "ascii_lower c = c \<and> (of_char c :: nat) < 128" if "c \<in> set s" for c
      using \<open>list_all _ s\<close> that ascii_lower_small by (auto simp only: list_all_iff)
    then show ?thesis using a by (simp add: ascii_cases_def list_all_iff map_idI)
  qed
  then show ?thesis by (simp add: lower_keeps_small_def)
qed

lemma ascii_upper_capital: "is_upper_az c \<Longrightarrow> ascii_upper c = c \<and> (of_char c :: nat) < 128 \<and> \<not> is_space c"
  by (auto simp: ascii_upper_def is_upper_az_def is_space_def Let_def)

lemma upper_country: "ascii_cases rt \<Longrightarrow> is_country_code s \<Longrightarrow> rt_upper rt (py_strip s) = s"
proof -
  assume a: "ascii_cases rt" "is_country_code s"
  then have c: "\<And>c. c \<in> set s \<Longrightarrow> ascii_upper c = c \<and> (of_char c :: nat) < 128 \<and> \<not> is_space c" "s \<noteq> []"
    using ascii_upper_capital by (auto simp: is_country_code_def list_all_iff)
  then have "py_strip s = s" by (intro py_strip_no_space) simp_all
  moreover have "rt_upper rt s = map ascii_upper s" using a(1) c(1) by (simp add: ascii_cases_def list_all_iff)
  ultimately show ?thesis using c(1) by (simp add: map_idI)
qed

lemma lower_small: "lower_keeps_small rt \<Longrightarrow> list_all (\<lambda>c. is_decimal c \<or> is_lower_az c \<or> c = CHR ''_'') s \<Longrightarrow> rt_lower rt (py_strip s) = s \<and> py_strip s = s"
  by (simp add: small_words lower_keeps_small_def)

lemma small_texts: "list_all (list_all (\<lambda>c. is_decimal c \<or> is_lower_az c \<or> c = CHR ''_'')) (DEFAULT_MODE_RAIL # OTP_TIMETABLE_FORMATS @ TIMETABLE_SOURCES)"
  by code_simp

lemma small_words_kept:
  assumes "lower_keeps_small rt"
  shows "s \<in> set OTP_TIMETABLE_FORMATS \<or> s \<in> set TIMETABLE_SOURCES \<or> s = DEFAULT_MODE_RAIL \<Longrightarrow> rt_lower rt (py_strip s) = s \<and> py_strip s = s"
  using lower_small [OF assms] small_texts by (auto simp: list_all_iff)

section \<open>Providers twice\<close>

lemma strip_nothing [simp]: "py_strip [] = []" by (simp add: py_strip_def)

lemma strip_text_simps [simp]: "strip_text (JStr s) = Inr (py_strip s)" "strip_text JNull = Inr []"
  by (cases "s = []") (simp_all add: strip_text_def json_truthy_def)

lemma strip_text_stripped: "strip_text v = Inr s \<Longrightarrow> py_strip s = s"
  by (cases v) (auto simp: strip_text_def json_truthy_def split: if_splits)

lemma http_nonempty: "is_http_url s \<Longrightarrow> s \<noteq> []" by (auto simp: is_http_url_def starts_with_def)

lemma provider_id_nonempty: "is_provider_id s \<Longrightarrow> s \<noteq> []" by (auto simp: is_provider_id_def)

lemma cross_border_again:
  assumes "ascii_cases rt" "validate_cross_border_filter rt nw tt = Inr d" "\<And>k. k \<in> {''derived_from'', ''home_country'', ''rail_only''} \<Longrightarrow> map_of tt' k = map_of d k"
  shows "validate_cross_border_filter rt nw tt' = Inr d" "fst ` set d \<subseteq> {''derived_from'', ''home_country'', ''rail_only''}"
proof -
  obtain sid pid home b where d: "d = [(''derived_from'', JObj [(''session_id'', JStr sid), (''provider_id'', JStr pid)])] @ home @ [(''rail_only'', JBool b)]"
    and ids: "py_strip sid = sid" "sid \<noteq> []" "py_strip pid = pid" "is_provider_id pid"
    and home: "home = [] \<or> (\<exists>h. home = [(''home_country'', JStr h)] \<and> is_country_code h)"
  proof -
    obtain df where df: "dget tt ''derived_from'' = JObj df" using assms(2) by (auto simp: validate_cross_border_filter_def split: json.splits)
    obtain b where b: "(case map_of tt ''rail_only'' of None \<Rightarrow> JBool True | Some v \<Rightarrow> v) = JBool b"
      using assms(2) by (cases "case map_of tt ''rail_only'' of None \<Rightarrow> JBool True | Some v \<Rightarrow> v")
        (auto simp: validate_cross_border_filter_def df Let_def split: if_splits)
    show thesis
    proof (cases "is_unset (dget tt ''home_country'')")
      case True
      then show thesis using assms(2) by (intro that [where home = "[]" and b = b]) (auto simp: validate_cross_border_filter_def df b Let_def split: if_splits)
    next
      case False
      then show thesis using assms(2)
        by (intro that [where home = "[(''home_country'', JStr (rt_upper rt (py_strip (py_str (nw_str nw) (dget tt ''home_country'')))))]" and b = b])
          (auto simp: validate_cross_border_filter_def df b Let_def split: if_splits)
    qed
  qed
  have fields: "dget tt' ''derived_from'' = JObj [(''session_id'', JStr sid), (''provider_id'', JStr pid)]" "map_of tt' ''rail_only'' = Some (JBool b)"
    "dget tt' ''home_country'' = (case home of [] \<Rightarrow> JNull | (k, v) # rest \<Rightarrow> v)"
  proof -
    have m: "map_of tt' ''derived_from'' = map_of d ''derived_from''" "map_of tt' ''home_country'' = map_of d ''home_country''"
      "map_of tt' ''rail_only'' = map_of d ''rail_only''" using assms(3) by simp_all
    show "dget tt' ''derived_from'' = JObj [(''session_id'', JStr sid), (''provider_id'', JStr pid)]" "map_of tt' ''rail_only'' = Some (JBool b)"
      "dget tt' ''home_country'' = (case home of [] \<Rightarrow> JNull | (k, v) # rest \<Rightarrow> v)"
      unfolding dget_def m using home by (auto simp: d)
  qed
  show "validate_cross_border_filter rt nw tt' = Inr d"
  proof -
    have got: "text_given nw (dget [(''session_id'', JStr sid), (''provider_id'', JStr pid)] ''session_id'') = sid"
      "text_given nw (dget [(''session_id'', JStr sid), (''provider_id'', JStr pid)] ''provider_id'') = pid"
      using ids by (simp_all add: dget_def)
    have "(if is_unset (dget tt' ''home_country'') then Inr []
        else (let home = rt_upper rt (py_strip (py_str (nw_str nw) (dget tt' ''home_country''))) in
              if is_country_code home then Inr [(''home_country'', JStr home)] else Inl (ValueError ''home_country''))) = Inr home"
    proof (cases "home = []")
      case True
      then show ?thesis by (simp add: fields is_unset_def)
    next
      case False
      then obtain h where h: "home = [(''home_country'', JStr h)]" "is_country_code h" using home by blast
      then have "h \<noteq> []" by (auto simp: is_country_code_def)
      then show ?thesis using upper_country [OF assms(1) h(2)] h by (simp add: fields is_unset_def py_str_def)
    qed
    then show ?thesis using ids by (simp add: validate_cross_border_filter_def fields got d Let_def)
  qed
  show "fst ` set d \<subseteq> {''derived_from'', ''home_country'', ''rail_only''}" using home by (auto simp: d)
qed

definition trimmed_timetable :: "(str \<times> json) list \<Rightarrow> bool" where
  "trimmed_timetable tt = (case dget tt ''resolver'' of JObj r \<Rightarrow> trimmed_api r | _ \<Rightarrow> True)"

lemma default_mode_again: "lower_keeps_small rt \<Longrightarrow> default_mode rt (JStr DEFAULT_MODE_RAIL) = Inr True"
proof -
  assume "lower_keeps_small rt"
  then have "rt_lower rt (py_strip DEFAULT_MODE_RAIL) = DEFAULT_MODE_RAIL" using small_words_kept by blast
  then show ?thesis by (simp add: default_mode_def DEFAULT_MODE_RAIL_def)
qed

lemma dated_object: "validate_dated nw kvs = Inr r \<Longrightarrow> \<exists>d. r = JObj d"
proof -
  assume v: "validate_dated nw kvs = Inr r"
  define days where "days = (case map_of kvs ''max_days_back'' of None \<Rightarrow> JInt DATED_DEFAULT_DAYS_BACK | Some v \<Rightarrow> v)"
  show ?thesis using v unfolding validate_dated_def days_def [symmetric] by (cases days) (auto split: if_splits)
qed

lemma validated_object: "validate_resolver rt nw raw = Inr r \<Longrightarrow> \<exists>d. r = JObj d"
proof -
  assume v: "validate_resolver rt nw raw = Inr r"
  then obtain kvs where "validate_tdg rt nw kvs = Inr r \<or> validate_udata nw kvs = Inr r \<or> validate_permalink nw kvs = Inr r
      \<or> validate_dated nw kvs = Inr r \<or> validate_json_api nw kvs = Inr r"
    by (cases raw) (auto simp: validate_resolver_def Let_def split: if_splits)
  then show ?thesis using dated_object
    by (auto simp: validate_tdg_def validate_udata_def validate_permalink_def validate_json_api_def Let_def split: if_splits option.splits)
qed

lemma timetable_again:
  assumes "ascii_cases rt" "valid_timetable rt nw tt = Inr t" "trimmed_timetable t"
  shows "valid_timetable rt nw t = Inr t"
proof -
  note small = ascii_cases_small [OF assms(1)]
  obtain fmt url src derived res dm where t: "t = [(''format'', JStr fmt), (''source'', JStr src)] @ (if url \<noteq> [] then [(''url'', JStr url)] else []) @ derived @ res @ dm"
    and fmt: "fmt \<in> set OTP_TIMETABLE_FORMATS" and url: "url = [] \<or> is_http_url url" "py_strip url = url" and src: "src \<in> set TIMETABLE_SOURCES"
    and derived: "(if src = ''cross_border_filter'' then validate_cross_border_filter rt nw tt else Inr []) = Inr derived"
    and res: "(if src = ''nap'' then rbind (validate_resolver rt nw (dget tt ''resolver'')) (\<lambda>r. Inr [(''resolver'', r)]) else Inr []) = Inr res"
    and dm: "dm = [] \<or> dm = [(''default_mode'', JStr DEFAULT_MODE_RAIL)] \<and> src \<noteq> ''cross_border_filter''"
  proof -
    obtain fmt0 url source0 where given: "strip_text (dget tt ''format'') = Inr fmt0" "strip_text (dget tt ''url'') = Inr url" "strip_text (dget tt ''source'') = Inr source0"
      using assms(2) by (auto simp: valid_timetable_def Let_def split: if_splits)
    define src where "src = (if rt_lower rt source0 \<noteq> [] then rt_lower rt source0 else if url \<noteq> [] then ''url'' else ''upload'')"
    have ok: "rt_lower rt fmt0 \<in> set OTP_TIMETABLE_FORMATS" "url = [] \<or> is_http_url url" "rt_lower rt source0 = [] \<or> rt_lower rt source0 \<in> set TIMETABLE_SOURCES"
      and built: "rbind (if src = ''cross_border_filter'' then validate_cross_border_filter rt nw tt else Inr []) (\<lambda>derived.
          rbind (if src = ''nap'' then rbind (validate_resolver rt nw (dget tt ''resolver'')) (\<lambda>r. Inr [(''resolver'', r)]) else Inr []) (\<lambda>res.
          rbind (default_mode rt (dget tt ''default_mode'')) (\<lambda>rail.
          Inr ((''format'', JStr (rt_lower rt fmt0)) # (''source'', JStr src) # (if url \<noteq> [] then [(''url'', JStr url)] else []) @ derived @ res
            @ (if rail \<and> src \<noteq> ''cross_border_filter'' then [(''default_mode'', JStr DEFAULT_MODE_RAIL)] else []))))) = Inr t"
      using assms(2) unfolding valid_timetable_def given rbind_simps Let_def src_def [symmetric]
      by (simp_all only: append_Cons append_Nil append_assoc split: if_splits) auto
    obtain derived res rail where parts: "(if src = ''cross_border_filter'' then validate_cross_border_filter rt nw tt else Inr []) = Inr derived"
      "(if src = ''nap'' then rbind (validate_resolver rt nw (dget tt ''resolver'')) (\<lambda>r. Inr [(''resolver'', r)]) else Inr []) = Inr res"
      "t = (''format'', JStr (rt_lower rt fmt0)) # (''source'', JStr src) # (if url \<noteq> [] then [(''url'', JStr url)] else []) @ derived @ res
            @ (if rail \<and> src \<noteq> ''cross_border_filter'' then [(''default_mode'', JStr DEFAULT_MODE_RAIL)] else [])"
      using built unfolding rbind_Inr by blast
    have "src \<in> set TIMETABLE_SOURCES" using ok(3) by (auto simp: src_def TIMETABLE_SOURCES_def)
    then show thesis using ok strip_text_stripped [OF given(2)] parts
      by (intro that [where fmt = "rt_lower rt fmt0" and src = src and url = url and derived = derived and res = res
          and dm = "if rail \<and> src \<noteq> ''cross_border_filter'' then [(''default_mode'', JStr DEFAULT_MODE_RAIL)] else []"]) simp_all
  qed
  have no_derived: "src \<noteq> ''cross_border_filter'' \<Longrightarrow> derived = []" and no_res: "src \<noteq> ''nap'' \<Longrightarrow> res = []" using derived res by auto
  have res_key: "res = [] \<or> (\<exists>r. res = [(''resolver'', JObj r)] \<and> validate_resolver rt nw (dget tt ''resolver'') = Inr (JObj r))"
  proof (cases "src = ''nap''")
    case True
    then obtain r where "validate_resolver rt nw (dget tt ''resolver'') = Inr r" "res = [(''resolver'', r)]" using res by auto
    then show ?thesis using validated_object by fastforce
  next
    case False
    then show ?thesis using res by simp
  qed
  have keys: "fst ` set derived \<subseteq> {''derived_from'', ''home_country'', ''rail_only''}" "fst ` set res \<subseteq> {''resolver''}" "fst ` set dm \<subseteq> {''default_mode''}"
    using cross_border_again(2) [OF assms(1)] derived res_key dm by (auto split: if_splits)
  have nowhere: "map_of derived k = None" if "k \<notin> {''derived_from'', ''home_country'', ''rail_only''}" for k
    using keys(1) that by (auto simp: map_of_eq_None_iff)
  have nowhere': "map_of res k = None" if "k \<noteq> ''resolver''" for k using keys(2) that by (auto simp: map_of_eq_None_iff)
  have nowhere'': "map_of dm k = None" if "k \<noteq> ''default_mode''" for k using keys(3) that by (auto simp: map_of_eq_None_iff)
  have fields: "dget t ''format'' = JStr fmt" "dget t ''source'' = JStr src" "strip_text (dget t ''url'') = Inr url"
    "dget t ''resolver'' = (case map_of res ''resolver'' of Some v \<Rightarrow> v | None \<Rightarrow> JNull)"
    "dget t ''default_mode'' = (case map_of dm ''default_mode'' of Some v \<Rightarrow> v | None \<Rightarrow> JNull)"
    using url(2) by (simp_all add: dget_def t map_add_def nowhere nowhere' nowhere'' split: option.split)
  have derived_fields: "map_of t k = map_of derived k" if "k \<in> {''derived_from'', ''home_country'', ''rail_only''}" for k
  proof -
    have ne: "k \<noteq> ''format''" "k \<noteq> ''source''" "k \<noteq> ''url''" "k \<noteq> ''resolver''" "k \<noteq> ''default_mode''" using that by fastforce+
    show ?thesis by (simp add: t ne map_add_def nowhere' [OF ne(4)] nowhere'' [OF ne(5)] split: option.split)
  qed
  have nonempty: "[] \<notin> set TIMETABLE_SOURCES" by code_simp
  have texts: "rt_lower rt (py_strip fmt) = fmt" "rt_lower rt (py_strip src) = src" "src \<noteq> []"
    using small_words_kept [OF small, of fmt] small_words_kept [OF small, of src] fmt src nonempty by blast+
  have again: "(if src = ''cross_border_filter'' then validate_cross_border_filter rt nw t else Inr []) = Inr derived"
    using derived cross_border_again(1) [OF assms(1) _ derived_fields] by (auto split: if_splits)
  have res_again: "(if src = ''nap'' then rbind (validate_resolver rt nw (dget t ''resolver'')) (\<lambda>r. Inr [(''resolver'', r)]) else Inr []) = Inr res"
  proof (cases "src = ''nap''")
    case True
    then obtain r where r: "res = [(''resolver'', JObj r)]" "validate_resolver rt nw (dget tt ''resolver'') = Inr (JObj r)" using res res_key by auto
    have "trimmed_api r" using assms(3) fields(4) by (simp add: trimmed_timetable_def r(1))
    then show ?thesis using True resolver_again [OF small r(2)] fields(4) by (simp add: r(1))
  qed (use res in simp)
  obtain rail where rail: "default_mode rt (dget t ''default_mode'') = Inr rail"
      "(if rail \<and> src \<noteq> ''cross_border_filter'' then [(''default_mode'', JStr DEFAULT_MODE_RAIL)] else []) = dm"
  proof (cases "dm = []")
    case True
    then show thesis using fields(5) by (intro that [of False]) (simp_all add: default_mode_def)
  next
    case False
    then show thesis using dm default_mode_again [OF small] fields(5) by (intro that [of True]) auto
  qed
  have checks: "(fmt \<notin> set OTP_TIMETABLE_FORMATS) = False" "(url \<noteq> [] \<and> \<not> is_http_url url) = False"
    "(src \<noteq> [] \<and> src \<notin> set TIMETABLE_SOURCES) = False" "(src \<noteq> []) = True"
    using fmt url(1) src texts(3) by blast+
  show ?thesis
    unfolding valid_timetable_def fields(1,2,3) strip_text_simps rbind_simps Let_def texts(1,2) checks if_True if_False again res_again rail
    using src by (simp only: t append_assoc simp_thms if_False)
qed

lemma optional_urls_keys: "optional_urls raw keys = Inr out \<Longrightarrow> fst ` set out \<subseteq> set keys"
proof (induction keys arbitrary: out)
  case (Cons k ks)
  obtain v where v: "strip_text (dget raw k) = Inr v" using Cons.prems by auto
  show ?case
  proof (cases "v = []")
    case True
    then show ?thesis using Cons.IH [of out] Cons.prems v by auto
  next
    case False
    then obtain rest where "optional_urls raw ks = Inr rest" "out = (k, JStr v) # rest" using Cons.prems v by (auto split: if_splits)
    then show ?thesis using Cons.IH [of rest] by auto
  qed
qed simp

lemma optional_urls_again:
  "optional_urls raw keys = Inr out \<Longrightarrow> distinct keys \<Longrightarrow> (\<And>k. k \<in> set keys \<Longrightarrow> dget raw' k = dget out k) \<Longrightarrow> optional_urls raw' keys = Inr out"
proof (induction keys arbitrary: out)
  case (Cons k ks)
  obtain v where v: "strip_text (dget raw k) = Inr v" using Cons.prems(1) by auto
  have k: "py_strip v = v" using strip_text_stripped [OF v] .
  show ?case
  proof (cases "v = []")
    case True
    then have out: "optional_urls raw ks = Inr out" using Cons.prems(1) v by simp
    then have "map_of out k = None" using optional_urls_keys [OF out] Cons.prems(2) by (auto simp: map_of_eq_None_iff)
    then have "dget raw' k = JNull" using Cons.prems(3) [of k] by (simp add: dget_def)
    moreover have "optional_urls raw' ks = Inr out" using Cons.IH [OF out] Cons.prems(2,3) by simp
    ultimately show ?thesis by simp
  next
    case False
    then obtain rest where rest: "is_http_url v" "optional_urls raw ks = Inr rest" "out = (k, JStr v) # rest"
      using Cons.prems(1) v by (auto split: if_splits)
    have "dget raw' j = dget rest j" if "j \<in> set ks" for j
      using Cons.prems(2,3) that rest(3) by (auto simp: dget_def)
    then have "optional_urls raw' ks = Inr rest" using Cons.IH [OF rest(2)] Cons.prems(2) by simp
    moreover have "dget raw' k = JStr v" using Cons.prems(3) [of k] rest(3) by (simp add: dget_def)
    ultimately show ?thesis using False rest k by simp
  qed
qed simp

lemma opt_url_again:
  assumes "opt_url raw key = Inr u" "dget raw' key = u"
  shows "opt_url raw' key = Inr u"
proof -
  obtain v where v: "strip_text (dget raw key) = Inr v" using assms(1) by (auto simp: opt_url_def)
  then have "u = JNull \<or> u = JStr v \<and> v \<noteq> [] \<and> is_http_url v" using assms(1) by (simp add: opt_url_def split: if_splits)
  then show ?thesis using assms(2) strip_text_stripped [OF v] by (elim disjE conjE) (simp_all add: opt_url_def)
qed

definition uuid_texts :: "(str \<Rightarrow> bool) \<Rightarrow> bool" where "uuid_texts uuid_ok \<longleftrightarrow> \<not> uuid_ok []"

lemma opt_cred_again:
  assumes "uuid_texts uuid_ok" "opt_cred_id nw uuid_ok raw key = Inr u" "dget raw' key = u"
  shows "opt_cred_id nw uuid_ok raw' key = Inr u"
proof -
  define given where "given = py_strip (py_str (nw_str nw) (dget raw key))"
  have "u = JNull \<or> u = JStr given \<and> uuid_ok given"
    using assms(2) unfolding opt_cred_id_def given_def [symmetric] Let_def by (simp split: if_splits)
  moreover have "py_strip given = given" by (simp add: given_def)
  ultimately show ?thesis
    using assms(1,3) by (elim disjE conjE) (auto simp: opt_cred_id_def is_unset_def py_str_def uuid_texts_def)
qed

definition resolver_trimmed :: "(str \<times> json) list \<Rightarrow> bool" where
  "resolver_trimmed p = (case dget p ''timetable'' of JObj tt \<Rightarrow> trimmed_timetable tt | _ \<Rightarrow> True)"

lemma provider_fields:
  assumes "validate_provider rt nw uuid_ok raw0 = Inr p"
  obtains raw feed_id ci t g c1 c2 u1 c3 u2 c4 where "raw0 = JObj raw"
    "strip_text (dget raw ''id'') = Inr feed_id" "is_provider_id feed_id" "provider_country rt nw raw = Inr ci"
    "provider_timetable rt nw raw = Inr t" "provider_gtfs_rt raw = Inr g"
    "opt_cred_id nw uuid_ok raw ''timetable_credential_id'' = Inr c1" "opt_cred_id nw uuid_ok raw ''gtfs_rt_credential_id'' = Inr c2"
    "opt_url raw ''mct_url'' = Inr u1" "opt_cred_id nw uuid_ok raw ''mct_credential_id'' = Inr c3"
    "opt_url raw ''stations_csv_url'' = Inr u2" "opt_cred_id nw uuid_ok raw ''stations_csv_credential_id'' = Inr c4"
    "p = [(''id'', JStr feed_id), (''label'', JStr (provider_label nw raw feed_id)), (''country_iso'', ci), (''timetable'', JObj t),
          (''timetable_credential_id'', c1), (''gtfs_rt'', JObj g), (''gtfs_rt_credential_id'', c2), (''mct_url'', u1),
          (''mct_credential_id'', c3), (''stations_csv_url'', u2), (''stations_csv_credential_id'', c4)]"
  using assms by (cases raw0) (auto simp: validate_provider_def split: if_splits)

lemma provider_again:
  assumes "ascii_cases rt" "uuid_texts uuid_ok" "validate_provider rt nw uuid_ok raw0 = Inr p" "resolver_trimmed p"
  shows "validate_provider rt nw uuid_ok (JObj p) = Inr p"
proof (rule provider_fields [OF assms(3)])
  fix raw feed_id ci t g c1 c2 u1 c3 u2 c4
  assume parts: "raw0 = JObj raw"
    "strip_text (dget raw ''id'') = Inr feed_id" "is_provider_id feed_id" "provider_country rt nw raw = Inr ci"
    "provider_timetable rt nw raw = Inr t" "provider_gtfs_rt raw = Inr g"
    "opt_cred_id nw uuid_ok raw ''timetable_credential_id'' = Inr c1" "opt_cred_id nw uuid_ok raw ''gtfs_rt_credential_id'' = Inr c2"
    "opt_url raw ''mct_url'' = Inr u1" "opt_cred_id nw uuid_ok raw ''mct_credential_id'' = Inr c3"
    "opt_url raw ''stations_csv_url'' = Inr u2" "opt_cred_id nw uuid_ok raw ''stations_csv_credential_id'' = Inr c4"
    and p: "p = [(''id'', JStr feed_id), (''label'', JStr (provider_label nw raw feed_id)), (''country_iso'', ci), (''timetable'', JObj t),
          (''timetable_credential_id'', c1), (''gtfs_rt'', JObj g), (''gtfs_rt_credential_id'', c2), (''mct_url'', u1),
          (''mct_credential_id'', c3), (''stations_csv_url'', u2), (''stations_csv_credential_id'', c4)]"
  have fields: "dget p ''id'' = JStr feed_id" "dget p ''label'' = JStr (provider_label nw raw feed_id)" "dget p ''country_iso'' = ci"
    "dget p ''timetable'' = JObj t" "dget p ''timetable_credential_id'' = c1" "dget p ''gtfs_rt'' = JObj g" "dget p ''gtfs_rt_credential_id'' = c2"
    "dget p ''mct_url'' = u1" "dget p ''mct_credential_id'' = c3" "dget p ''stations_csv_url'' = u2" "dget p ''stations_csv_credential_id'' = c4"
    by (simp_all add: p dget_def)
  have id: "py_strip feed_id = feed_id" "feed_id \<noteq> []" using strip_text_stripped [OF parts(2)] provider_id_nonempty [OF parts(3)] .
  have label: "provider_label nw p feed_id = provider_label nw raw feed_id"
  proof -
    have "provider_label nw raw feed_id \<noteq> []" "py_strip (provider_label nw raw feed_id) = provider_label nw raw feed_id"
      using id by (simp_all add: provider_label_def Let_def)
    then show ?thesis unfolding provider_label_def [of nw p] fields by (simp add: json_truthy_def py_str_def)
  qed
  have country: "provider_country rt nw p = Inr ci"
  proof (cases "ci = JNull")
    case True
    then show ?thesis by (simp add: provider_country_def fields is_unset_def)
  next
    case False
    then obtain c where c: "ci = JStr c" "is_country_code c"
      using parts(4) by (auto simp: provider_country_def Let_def split: if_splits)
    then have "c \<noteq> []" by (auto simp: is_country_code_def)
    then show ?thesis using upper_country [OF assms(1) c(2)] c by (simp add: provider_country_def fields is_unset_def py_str_def)
  qed
  have timetable: "provider_timetable rt nw p = Inr t"
  proof -
    obtain tt where "valid_timetable rt nw tt = Inr t" using parts(5) by (auto simp: provider_timetable_def split: json.splits)
    then show ?thesis using timetable_again [OF assms(1)] assms(4) by (simp add: provider_timetable_def fields resolver_trimmed_def)
  qed
  have rt_urls: "provider_gtfs_rt p = Inr g"
  proof (cases "g = []")
    case True
    then show ?thesis by (simp add: provider_gtfs_rt_def fields json_truthy_def)
  next
    case False
    then obtain given where "optional_urls given RT_KEYS = Inr g" using parts(6) by (auto simp: provider_gtfs_rt_def split: json.splits if_splits)
    moreover have "distinct RT_KEYS" by code_simp
    ultimately show ?thesis using False optional_urls_again [of given RT_KEYS g g] by (simp add: provider_gtfs_rt_def fields json_truthy_def)
  qed
  note creds = opt_cred_again [OF assms(2)]
  show ?thesis
    using parts(3) id country timetable rt_urls creds [OF parts(7) fields(5)] creds [OF parts(8) fields(7)] opt_url_again [OF parts(9) fields(8)]
      creds [OF parts(10) fields(9)] opt_url_again [OF parts(11) fields(10)] creds [OF parts(12) fields(11)]
    by (simp add: validate_provider_def fields label) (simp add: p)
qed

lemma native_again:
  assumes "ascii_cases rt" "uuid_texts uuid_ok"
  shows "native_providers rt nw uuid_ok seen ps = Inr out \<Longrightarrow> list_all resolver_trimmed out \<Longrightarrow> native_providers rt nw uuid_ok seen (map JObj out) = Inr out"
proof (induction ps arbitrary: seen out)
  case (Cons p ps)
  obtain c rest where c: "validate_provider rt nw uuid_ok p = Inr c" "dget c ''id'' \<notin> set seen"
    "native_providers rt nw uuid_ok (dget c ''id'' # seen) ps = Inr rest" "out = c # rest"
    using Cons.prems(1) by (auto split: if_splits)
  then show ?case using Cons.IH [OF c(3)] Cons.prems(2) provider_again [OF assms c(1)] by simp
qed simp


lemma ascii_runtime_cases: "ascii_cases ascii_runtime" by (simp add: ascii_cases_def ascii_runtime_def)

definition sample_given :: "json list" where
  "sample_given =
     [JObj [(''id'', JStr '' SNCF''), (''country_iso'', JStr ''fr ''), (''mct_url'', JStr ''''),
            (''timetable'', JObj [(''format'', JStr '' GTFS''), (''url'', JStr '' https://sncf.fr/gtfs.zip ''), (''default_mode'', JStr ''Rail'')])],
      JObj [(''id'', JStr ''TGV-X''), (''label'', JStr ''TGV''),
            (''timetable'', JObj [(''format'', JStr ''gtfs''), (''source'', JStr ''cross_border_filter''), (''home_country'', JStr ''fr''),
               (''derived_from'', JObj [(''session_id'', JStr ''s1''), (''provider_id'', JStr ''SNCF'')])])],
      JObj [(''id'', JStr ''CFL''), (''timetable'', JObj [(''format'', JStr ''NETEX_EPIP''), (''source'', JStr ''nap''),
               (''resolver'', JObj [(''type'', JStr '' UData''), (''api'', JStr ''https://data.public.lu/api/1//''),
                  (''dataset_id'', JStr ''gtfs''), (''title_regex'', JStr ''gtfs-'')])])]]"

lemma sample_given_normal: "case native_providers ascii_runtime sample_network (\<lambda>s. length s = 36) [] sample_given of Inl e \<Rightarrow> False
    | Inr ps \<Rightarrow> length ps = 3 \<and> list_all resolver_trimmed ps"
  by code_simp


section \<open>Slots of their own\<close>

lemma id_chars_kept: "is_id_char c \<Longrightarrow> ascii_upper (ascii_lower c) = c"
proof (cases "65 \<le> (of_char c :: nat) \<and> (of_char c :: nat) \<le> 90")
  case True
  then have l: "ascii_lower c = char_of ((of_char c :: nat) + 32)" by (simp add: ascii_lower_def)
  have "(of_char (char_of ((of_char c :: nat) + 32) :: char) :: nat) = of_char c + 32" using True by simp
  then show ?thesis unfolding l ascii_upper_def Let_def using True by simp
next
  case False
  moreover assume "is_id_char c"
  ultimately show ?thesis by (auto simp: ascii_lower_def ascii_upper_def is_id_char_def is_upper_az_def is_decimal_def Let_def)
qed

lemma id_char_lower: "is_id_char c \<Longrightarrow> is_id_char d \<Longrightarrow> ascii_lower c = ascii_lower d \<Longrightarrow> c = d"
  using id_chars_kept by metis

lemma provider_id_chars: "is_provider_id s \<Longrightarrow> list_all is_id_char s"
  by (cases s) (auto simp: is_provider_id_def is_id_char_def)

lemma id_char_small: "is_id_char c \<Longrightarrow> (of_char c :: nat) < 128"
  by (auto simp: is_id_char_def is_upper_az_def is_decimal_def Let_def)

lemma lower_ids_distinct:
  assumes "ascii_cases rt" "is_provider_id s" "is_provider_id t" "rt_lower rt s = rt_lower rt t"
  shows "s = t"
proof -
  have c: "list_all is_id_char s" "list_all is_id_char t" using provider_id_chars assms(2,3) by blast+
  have "rt_lower rt u = map ascii_lower u" if "list_all is_id_char u" for u
    using assms(1) that id_char_small by (auto simp: ascii_cases_def list_all_iff)
  then have "map ascii_lower s = map ascii_lower t" using c assms(4) by simp
  then show ?thesis using c
  proof (induction s arbitrary: t)
    case (Cons x s)
    then show ?case using id_char_lower by (cases t) auto
  qed simp
qed

text \<open>The directory of a format, and the slot a validated provider has.\<close>

lemma format_dirs: "fmt \<in> set OTP_TIMETABLE_FORMATS \<Longrightarrow>
    map_of STAGE_INTO_OTP_INBOX (alist_get TIMETABLE_FORMAT_KINDS fmt []) = Some (alist_get STAGE_INTO_OTP_INBOX (alist_get TIMETABLE_FORMAT_KINDS fmt []) [])"
  by (auto simp: OTP_TIMETABLE_FORMATS_def TIMETABLE_FORMAT_KINDS_def STAGE_INTO_OTP_INBOX_def alist_get_def)

lemma valid_format:
  assumes "valid_timetable rt nw tt = Inr t"
  obtains fmt where "fmt \<in> set OTP_TIMETABLE_FORMATS" "dget t ''format'' = JStr fmt"
proof -
  obtain fmt0 url source0 where given: "strip_text (dget tt ''format'') = Inr fmt0" "strip_text (dget tt ''url'') = Inr url" "strip_text (dget tt ''source'') = Inr source0"
    using assms by (auto simp: valid_timetable_def Let_def split: if_splits)
  have "rt_lower rt fmt0 \<in> set OTP_TIMETABLE_FORMATS \<and> (\<exists>rest. t = (''format'', JStr (rt_lower rt fmt0)) # rest)"
    using assms unfolding valid_timetable_def given rbind_simps Let_def append_Cons
    by (simp only: rbind_Inr split: if_splits) auto
  then show thesis using that by (auto simp: dget_def)
qed

lemma provider_slot_valid:
  assumes "validate_provider rt nw uuid_ok raw = Inr p"
  obtains feed_id fmt where "is_provider_id feed_id" "fmt \<in> set OTP_TIMETABLE_FORMATS" "dget p ''id'' = JStr feed_id" "provider_timetable_format nw p = Inr fmt"
    "provider_slot rt nw p = Inr (alist_get STAGE_INTO_OTP_INBOX (alist_get TIMETABLE_FORMAT_KINDS fmt []) [], rt_lower rt feed_id @ ''.zip'')"
proof (rule provider_fields [OF assms])
  fix raw' feed_id ci t g c1 c2 u1 c3 u2 c4
  assume id: "is_provider_id feed_id" and t: "provider_timetable rt nw raw' = Inr t"
    and p: "p = [(''id'', JStr feed_id), (''label'', JStr (provider_label nw raw' feed_id)), (''country_iso'', ci), (''timetable'', JObj t),
          (''timetable_credential_id'', c1), (''gtfs_rt'', JObj g), (''gtfs_rt_credential_id'', c2), (''mct_url'', u1),
          (''mct_credential_id'', c3), (''stations_csv_url'', u2), (''stations_csv_credential_id'', c4)]"
  have fields: "dget p ''id'' = JStr feed_id" "map_of p ''id'' = Some (JStr feed_id)" "dget p ''timetable'' = JObj t" by (simp_all add: p dget_def)
  obtain tt where "valid_timetable rt nw tt = Inr t" using t by (auto simp: provider_timetable_def split: json.splits)
  then obtain fmt0 where f0: "fmt0 \<in> set OTP_TIMETABLE_FORMATS" "dget t ''format'' = JStr fmt0" by (rule valid_format)
  have gtfs: "DERIVED_TIMETABLE_FORMAT \<in> set OTP_TIMETABLE_FORMATS" "fmt0 \<noteq> []" using f0(1)
    by (auto simp: DERIVED_TIMETABLE_FORMAT_def OTP_TIMETABLE_FORMATS_def)
  have jd: "jdict (JObj t) = Inr t" by (cases "t = []") (simp_all add: jdict_def json_truthy_def)
  obtain fmt where f: "fmt \<in> set OTP_TIMETABLE_FORMATS" "provider_timetable_format nw p = Inr fmt"
  proof (cases "dget t ''source'' = JStr DERIVED_SOURCE")
    case True
    then show thesis using gtfs(1) jd by (intro that [of DERIVED_TIMETABLE_FORMAT]) (simp_all add: provider_timetable_format_def fields)
  next
    case False
    then show thesis using f0 gtfs(2) jd by (intro that [of fmt0]) (simp_all add: provider_timetable_format_def fields json_truthy_def py_str_def)
  qed
  then have "provider_slot rt nw p = Inr (alist_get STAGE_INTO_OTP_INBOX (alist_get TIMETABLE_FORMAT_KINDS fmt []) [], rt_lower rt feed_id @ ''.zip'')"
    by (simp add: provider_slot_def fields staged_slot_for_format_def staged_filename_for_format_def)
  then show ?thesis using that id f fields(1) by blast
qed

lemma native_valid:
  "native_providers rt nw uuid_ok seen given = Inr ps \<Longrightarrow>
     (\<forall>p\<in>set ps. (\<exists>raw. validate_provider rt nw uuid_ok raw = Inr p) \<and> dget p ''id'' \<notin> set seen) \<and> distinct (map (\<lambda>p. dget p ''id'') ps)"
proof (induction given arbitrary: seen ps)
  case (Cons g given)
  obtain c rest where c: "validate_provider rt nw uuid_ok g = Inr c" "dget c ''id'' \<notin> set seen"
    "native_providers rt nw uuid_ok (dget c ''id'' # seen) given = Inr rest" "ps = c # rest"
    using Cons.prems by (auto split: if_splits)
  then show ?case using Cons.IH [OF c(3)] by auto
qed simp

text \<open>The kind a timetable is handed over with, and placing it: \<open>old_path\<close> is where the file that was there goes.\<close>

definition place_timetable :: "runtime \<Rightarrow> network \<Rightarrow> (str \<times> json) list \<Rightarrow> str option \<Rightarrow> 'c \<Rightarrow> (str list \<Rightarrow> str list) \<Rightarrow> 'c files \<Rightarrow> py_error + 'c files \<times> bool" where
  "place_timetable rt nw p session_id content iterdir fs =
     rbind (provider_timetable_format nw p) (\<lambda>fmt. rbind (provider_slot rt nw p) (\<lambda>(dir, filename).
     place filename content (alist_get TIMETABLE_FORMAT_KINDS fmt []) session_id (Some filename) iterdir fs))"

definition slot_path :: "str option \<Rightarrow> str \<times> str \<Rightarrow> str list" where
  "slot_path session_id slot = session_inbox session_id @ [fst slot, snd slot]"

definition old_path :: "str option \<Rightarrow> str \<times> str \<Rightarrow> str list" where
  "old_path session_id slot = session_inbox session_id @ [fst slot, snd slot @ ''.old'']"

lemma place_timetable_result:
  assumes "validate_provider rt nw uuid_ok raw = Inr p" "provider_slot rt nw p = Inr slot"
  shows "place_timetable rt nw p session_id content iterdir fs =
     Inr ((if fs (slot_path session_id slot) = None then fs else fs(old_path session_id slot := fs (slot_path session_id slot)))
            (slot_path session_id slot \<mapsto> content), True)"
proof (rule provider_slot_valid [OF assms(1)])
  fix feed_id fmt
  assume f: "fmt \<in> set OTP_TIMETABLE_FORMATS" "provider_timetable_format nw p = Inr fmt"
    and s: "provider_slot rt nw p = Inr (alist_get STAGE_INTO_OTP_INBOX (alist_get TIMETABLE_FORMAT_KINDS fmt []) [], rt_lower rt feed_id @ ''.zip'')"
  have slot: "slot = (alist_get STAGE_INTO_OTP_INBOX (alist_get TIMETABLE_FORMAT_KINDS fmt []) [], rt_lower rt feed_id @ ''.zip'')" using assms(2) s by simp
  have old: "old_path session_id slot \<noteq> slot_path session_id slot" by (simp add: old_path_def slot_path_def)
  show ?thesis
    using f(2) s format_dirs [OF f(1)] old
    by (simp add: place_timetable_def slot place_def place_in_slot_def rename_old_def slot_path_def old_path_def truthy_def or_empty_def Let_def fun_upd_twist)
qed

text \<open>C35: a provider's file takes no other provider's place. Every provider of a validated list has a slot, no two
  providers have the same one, and placing a new file of one provider puts it in its slot, keeps the
  file that was there beside it under \<open>.old\<close>, and leaves every other file of every session as it was,
  the slots of the other providers among them; a rebuild is then due.\<close>

theorem placed_file_keeps_others:
  assumes "ascii_cases rt" "native_providers rt nw uuid_ok [] given = Inr ps" "i < length ps"
  shows "\<exists>slots. map (provider_slot rt nw) ps = map Inr slots \<and> distinct slots
    \<and> (\<exists>fs'. place_timetable rt nw (ps ! i) session_id content iterdir fs = Inr (fs', True)
         \<and> fs' (slot_path session_id (slots ! i)) = Some content
         \<and> (fs (slot_path session_id (slots ! i)) \<noteq> None \<longrightarrow> fs' (old_path session_id (slots ! i)) = fs (slot_path session_id (slots ! i)))
         \<and> (\<forall>path. path \<noteq> slot_path session_id (slots ! i) \<and> path \<noteq> old_path session_id (slots ! i) \<longrightarrow> fs' path = fs path)
         \<and> (\<forall>j < length ps. j \<noteq> i \<longrightarrow> fs' (slot_path session_id (slots ! j)) = fs (slot_path session_id (slots ! j))))"
proof -
  note valid = native_valid [OF assms(2)]
  have "\<exists>slot id. provider_slot rt nw p = Inr slot \<and> dget p ''id'' = JStr id \<and> is_provider_id id \<and> snd slot = rt_lower rt id @ ''.zip''" if p: "p \<in> set ps" for p
  proof -
    obtain raw where "validate_provider rt nw uuid_ok raw = Inr p" using valid p by blast
    then show ?thesis by (rule provider_slot_valid) auto
  qed
  then obtain slot id where si: "\<And>p. p \<in> set ps \<Longrightarrow> provider_slot rt nw p = Inr (slot p) \<and> dget p ''id'' = JStr (id p) \<and> is_provider_id (id p) \<and> snd (slot p) = rt_lower rt (id p) @ ''.zip''"
    by metis
  have ne: "snd (slot (ps ! j)) \<noteq> snd (slot (ps ! k))" if jk: "j < length ps" "k < length ps" "j \<noteq> k" for j k
  proof
    assume "snd (slot (ps ! j)) = snd (slot (ps ! k))"
    then have "id (ps ! j) = id (ps ! k)" using si jk lower_ids_distinct [OF assms(1)] by simp
    then have "map (\<lambda>p. dget p ''id'') ps ! j = map (\<lambda>p. dget p ''id'') ps ! k" using si jk by simp
    then show False using valid jk by (simp add: distinct_conv_nth)
  qed
  define slots where "slots = map slot ps"
  have slots: "map (provider_slot rt nw) ps = map Inr slots" "distinct slots" "slots ! i = slot (ps ! i)"
    using si assms(3) by (simp_all add: slots_def distinct_conv_nth) (use ne in metis)
  obtain raw where raw: "validate_provider rt nw uuid_ok raw = Inr (ps ! i)" using valid assms(3) by (meson nth_mem)
  have other: "slot_path session_id (slots ! j) \<noteq> slot_path session_id (slots ! i) \<and> slot_path session_id (slots ! j) \<noteq> old_path session_id (slots ! i)"
    if j: "j < length ps" "j \<noteq> i" for j
  proof -
    have "snd (slots ! j) \<noteq> snd (slots ! i)" using ne [OF j(1) assms(3) j(2)] j(1) assms(3) by (simp add: slots_def)
    moreover have "last (snd (slots ! j)) = CHR ''p''" using si [of "ps ! j"] j(1) by (simp add: slots_def)
    ultimately show ?thesis by (auto simp: slot_path_def old_path_def)
  qed
  have "provider_slot rt nw (ps ! i) = Inr (slots ! i)" using si assms(3) slots(3) by simp
  note r = place_timetable_result [OF raw this, of session_id content iterdir fs]
  have old: "old_path session_id (slots ! i) \<noteq> slot_path session_id (slots ! i)" by (simp add: old_path_def slot_path_def)
  show ?thesis
    by (intro exI [of _ slots] conjI slots exI) (rule r, use other old in auto)
qed

definition sample_inbox :: "nat files" where
  "sample_inbox path = (if path = [''s1'', ''gtfs'', ''sncf.zip''] then Some 1 else if path = [''s1'', ''netex'', ''cfl.zip''] then Some 2 else None)"

theorem placed_file_keeps_others_witness:
  "\<exists>ps fs'. native_providers ascii_runtime sample_network (\<lambda>s. length s = 36) [] sample_given = Inr ps
     \<and> place_timetable ascii_runtime sample_network (ps ! 0) (Some ''s1'') 3 (\<lambda>dir. []) sample_inbox = Inr (fs', True)
     \<and> fs' [''s1'', ''netex'', ''cfl.zip''] = Some 2"
proof -
  have "case native_providers ascii_runtime sample_network (\<lambda>s. length s = 36) [] sample_given of Inl e \<Rightarrow> False
      | Inr ps \<Rightarrow> length ps = 3 \<and> map (provider_slot ascii_runtime sample_network) ps = map Inr [(''gtfs'', ''sncf.zip''), (''gtfs'', ''tgv-x.zip''), (''netex'', ''cfl.zip'')]"
    by code_simp
  then obtain ps where ps: "native_providers ascii_runtime sample_network (\<lambda>s. length s = 36) [] sample_given = Inr ps" "0 < length ps" "2 < length ps"
      "map (provider_slot ascii_runtime sample_network) ps = map Inr [(''gtfs'', ''sncf.zip''), (''gtfs'', ''tgv-x.zip''), (''netex'', ''cfl.zip'')]"
    by (cases "native_providers ascii_runtime sample_network (\<lambda>s. length s = 36) [] sample_given") auto
  obtain slots fs' where r: "map (provider_slot ascii_runtime sample_network) ps = map Inr slots"
    "place_timetable ascii_runtime sample_network (ps ! 0) (Some ''s1'') 3 (\<lambda>dir. []) sample_inbox = Inr (fs', True)"
    "\<forall>j < length ps. j \<noteq> 0 \<longrightarrow> fs' (slot_path (Some ''s1'') (slots ! j)) = sample_inbox (slot_path (Some ''s1'') (slots ! j))"
    using placed_file_keeps_others [OF ascii_runtime_cases ps(1,2), of "Some ''s1''" 3 "\<lambda>dir. []" sample_inbox] by blast
  have "map Inr slots = map (Inr :: str \<times> str \<Rightarrow> py_error + str \<times> str) [(''gtfs'', ''sncf.zip''), (''gtfs'', ''tgv-x.zip''), (''netex'', ''cfl.zip'')]"
    using r(1) ps(4) by (rule trans [OF sym])
  then have "slots = [(''gtfs'', ''sncf.zip''), (''gtfs'', ''tgv-x.zip''), (''netex'', ''cfl.zip'')]"
    by (rule map_injective) (simp add: inj_on_def)
  then have "fs' (slot_path (Some ''s1'') (''netex'', ''cfl.zip'')) = sample_inbox (slot_path (Some ''s1'') (''netex'', ''cfl.zip''))" using r(3) ps(3) by fastforce
  then have "fs' [''s1'', ''netex'', ''cfl.zip''] = Some 2" by (simp add: slot_path_def session_inbox_def truthy_def or_empty_def sample_inbox_def)
  then show ?thesis using ps(1) r(2) by blast
qed

section \<open>Rebuilds asked for\<close>

definition pending_of :: "str option \<Rightarrow> rebuild_job list \<Rightarrow> rebuild_job list" where
  "pending_of session_id jobs = filter (is_pending_of session_id) jobs"

lemma update_first_filter:
  "(\<And>x. q (f x) = q x) \<Longrightarrow> (\<And>x. p x \<Longrightarrow> \<not> q x) \<Longrightarrow> filter q (update_first p f xs) = filter q xs"
  by (induction xs) auto

lemma update_first_same:
  "(\<And>x. p (f x) = p x) \<Longrightarrow> List.find p xs = Some y \<Longrightarrow> filter p (update_first p f xs) = f y # tl (filter p xs)"
  by (induction xs) (auto split: if_splits)

lemma find_filter: "List.find p xs = (case filter p xs of [] \<Rightarrow> None | x # _ \<Rightarrow> Some x)"
  by (induction xs) auto

lemma upgraded_pending [simp]: "is_pending_of s (upgraded now job) = is_pending_of s job" "rj_max_memory (upgraded now job)" "rj_session (upgraded now job) = rj_session job" "rj_status (upgraded now job) = rj_status job"
  by (simp_all add: is_pending_of_def upgraded_def)

lemma enqueue_pending:
  "pending_of other (enqueue_rebuild dash configs now session_id why jobs) =
    (if other \<noteq> session_id then pending_of other jobs
     else (case pending_of session_id jobs of
         [] \<Rightarrow> [\<lparr>rj_session = session_id, rj_status = ''pending'', rj_max_memory = session_wants_max_memory configs session_id,
            rj_log = ''queued at '' @ now @ '' '' @ dash @ '' '' @ why @ (if session_wants_max_memory configs session_id then MAX_MEMORY_SETTING else []) @ [char_of (10 :: nat)]\<rparr>]
       | p # ps \<Rightarrow> (if session_wants_max_memory configs session_id \<and> \<not> rj_max_memory p then upgraded now p else p) # ps))"
proof (cases "List.find (is_pending_of session_id) jobs")
  case None
  then have "pending_of session_id jobs = []" by (simp add: pending_of_def find_filter split: list.splits)
  then show ?thesis using None by (simp add: enqueue_rebuild_def pending_of_def is_pending_of_def)
next
  case (Some p)
  then obtain ps where ps: "pending_of session_id jobs = p # ps" by (auto simp: pending_of_def find_filter split: list.splits)
  have "filter (is_pending_of other) (update_first (is_pending_of session_id) (upgraded now) jobs) = filter (is_pending_of other) jobs" if "other \<noteq> session_id"
    using that by (intro update_first_filter) (auto simp: is_pending_of_def)
  moreover have "filter (is_pending_of session_id) (update_first (is_pending_of session_id) (upgraded now) jobs) = upgraded now p # ps"
    using update_first_same [OF _ Some, of "upgraded now"] ps by (simp add: pending_of_def)
  ultimately show ?thesis using Some ps by (simp add: enqueue_rebuild_def pending_of_def Let_def)
qed

text \<open>What requests make of a queue, each with the settings of its time.\<close>

definition requested :: "str \<Rightarrow> ((str \<rightharpoonup> json) \<times> str \<times> str option \<times> str) list \<Rightarrow> rebuild_job list \<Rightarrow> rebuild_job list" where
  "requested dash rs jobs = foldl (\<lambda>jobs (configs, now, session_id, why). enqueue_rebuild dash configs now session_id why jobs) jobs rs"

definition asked :: "str option \<Rightarrow> ((str \<rightharpoonup> json) \<times> str \<times> str option \<times> str) list \<Rightarrow> bool" where
  "asked session_id rs = list_ex (\<lambda>(configs, now, s, why). s = session_id) rs"

definition asked_max :: "str option \<Rightarrow> ((str \<rightharpoonup> json) \<times> str \<times> str option \<times> str) list \<Rightarrow> bool" where
  "asked_max session_id rs = list_ex (\<lambda>(configs, now, s, why). s = session_id \<and> session_wants_max_memory configs s) rs"

lemma requested_pending:
  "length (pending_of session_id jobs) \<le> 1 \<Longrightarrow>
     length (pending_of session_id (requested dash rs jobs)) = (if asked session_id rs then 1 else length (pending_of session_id jobs))
   \<and> ((\<exists>j \<in> set (pending_of session_id (requested dash rs jobs)). rj_max_memory j) \<longleftrightarrow>
         (\<exists>j \<in> set (pending_of session_id jobs). rj_max_memory j) \<or> asked_max session_id rs)"
proof (induction rs arbitrary: jobs)
  case Nil
  then show ?case by (simp add: requested_def asked_def asked_max_def)
next
  case (Cons r rs)
  obtain configs now s why where r: "r = (configs, now, s, why)" by (cases r) auto
  define after where "after = enqueue_rebuild dash configs now s why jobs"
  have step: "requested dash (r # rs) jobs = requested dash rs after" by (simp add: requested_def r after_def)
  have one: "length (pending_of session_id after) = (if s = session_id then 1 else length (pending_of session_id jobs))"
    "(\<exists>j \<in> set (pending_of session_id after). rj_max_memory j) \<longleftrightarrow>
       (\<exists>j \<in> set (pending_of session_id jobs). rj_max_memory j) \<or> s = session_id \<and> session_wants_max_memory configs s"
    using Cons.prems by (cases "s = session_id"; auto simp: after_def enqueue_pending split: list.splits)+
  then have "length (pending_of session_id after) \<le> 1" using Cons.prems by (auto split: if_splits)
  note ih = Cons.IH [OF this]
  show ?case unfolding step using ih one by (auto simp: r asked_def asked_max_def split: if_splits)
qed

text \<open>Requests for a rebuild are coalesced and none is lost. However many requests a queue with at most one
  pending job of a session receives, from whichever sessions and with whichever settings, the session
  has one pending job once it was asked for, as many as before otherwise, and that job is a max-memory one
  exactly when one was pending before or one of the session's requests was made under that setting; a
  later request without the setting never takes it back.\<close>

theorem rebuild_requests_coalesce:
  assumes "length (pending_of session_id jobs) \<le> 1"
  shows "length (pending_of session_id (requested dash rs jobs)) = (if asked session_id rs then 1 else length (pending_of session_id jobs))
    \<and> ((\<exists>j \<in> set (pending_of session_id (requested dash rs jobs)). rj_max_memory j) \<longleftrightarrow>
         (\<exists>j \<in> set (pending_of session_id jobs). rj_max_memory j) \<or> asked_max session_id rs)"
  by (rule requested_pending [OF assms])

theorem rebuild_requests_coalesce_witness:
  "length (pending_of (Some ''s'') (requested ''-'' [(\<lambda>s. None, ''t1'', Some ''s'', ''a''), (\<lambda>s. None, ''t2'', None, ''b''),
      (\<lambda>s. Some (JObj [(''build_max_memory'', JBool True)]), ''t3'', Some ''s'', ''c''), (\<lambda>s. None, ''t4'', Some ''s'', ''d'')] [])) = 1"
  using rebuild_requests_coalesce [of "Some ''s''" "[]" "''-''"
      "[(\<lambda>s. None, ''t1'', Some ''s'', ''a''), (\<lambda>s. None, ''t2'', None, ''b''),
        (\<lambda>s. Some (JObj [(''build_max_memory'', JBool True)]), ''t3'', Some ''s'', ''c''), (\<lambda>s. None, ''t4'', Some ''s'', ''d'')]"]
  by (simp add: pending_of_def asked_def)

end
