(* ===== verification/Inbox_Sweep.thy ===== *)
theory Inbox_Sweep
  imports Provider_Config
begin

text \<open>
  The quarantine of provider files no provider has a slot for, \<open>app/inbox_sweep.py\<close>: the slots a stored list
  expects, the renames of a sweep, and the ones a save plans. A directory tree is a map of paths to
  contents; \<open>iterdir\<close> gives the names of a directory, \<open>stamp\<close> the time of a rename, \<open>may_rename\<close> the files the
  system lets go. The arrow of an event and a file's path in a log line are arguments too.
\<close>

section \<open>The slots expected\<close>

definition ORPHAN_SUFFIX :: str where "ORPHAN_SUFFIX = ''.orphaned''"
definition SWEPT_SUBDIRS :: "str list" where "SWEPT_SUBDIRS = [''gtfs'', ''netex'']"

text \<open>\<open>normalize_providers\<close> raises more than the caught \<open>ValueError\<close> on some lists, \<open>provider_slot\<close> as well.\<close>

fun slots_of :: "runtime \<Rightarrow> network \<Rightarrow> (str \<times> json) list list \<Rightarrow> py_error + (str \<times> str) list" where
  "slots_of rt nw [] = Inr []"
| "slots_of rt nw (p # ps) = (case provider_slot rt nw p of
      Inr slot \<Rightarrow> rbind (slots_of rt nw ps) (\<lambda>slots. Inr (slot # slots))
    | Inl (ValueError why) \<Rightarrow> slots_of rt nw ps
    | Inl e \<Rightarrow> Inl e)"

definition expected_provider_filenames :: "runtime \<Rightarrow> network \<Rightarrow> (str \<Rightarrow> bool) \<Rightarrow> (str \<times> json) list \<Rightarrow> py_error + (str \<times> str) list option" where
  "expected_provider_filenames rt nw uuid_ok config = (case normalize_providers rt nw uuid_ok config of
      Inl (ValueError why) \<Rightarrow> Inr None
    | Inl e \<Rightarrow> Inl e
    | Inr providers \<Rightarrow> rbind (slots_of rt nw providers) (\<lambda>slots. Inr (Some slots)))"

section \<open>Renames\<close>

text \<open>The names \<open>-2\<close>, \<open>-3\<close> and so on are tried until one is free.\<close>

partial_function (option) free_name :: "(str \<Rightarrow> bool) \<Rightarrow> str \<Rightarrow> nat \<Rightarrow> str option" where
  "free_name taken base n =
     (if taken (base @ ''-'' @ show_nat n @ ORPHAN_SUFFIX) then free_name taken base (n + 1)
      else Some (base @ ''-'' @ show_nat n @ ORPHAN_SUFFIX))"

declare free_name.simps [code]

definition orphan_target :: "(str \<Rightarrow> bool) \<Rightarrow> str \<Rightarrow> str \<Rightarrow> str option" where
  "orphan_target taken stamp name =
     (if \<not> taken (name @ ORPHAN_SUFFIX) then Some (name @ ORPHAN_SUFFIX)
      else (let stamped = name @ ''.'' @ stamp in
            if \<not> taken (stamped @ ORPHAN_SUFFIX) then Some (stamped @ ORPHAN_SUFFIX) else free_name taken stamped 2))"

definition rename_file :: "str list \<Rightarrow> str list \<Rightarrow> 'c files \<Rightarrow> 'c files" where
  "rename_file p q fs = fs(q := fs p, p := None)"

record system =
  sy_iterdir :: "str list \<Rightarrow> str list"
  sy_stamp :: "str list \<Rightarrow> str"
  sy_may_rename :: "str list \<Rightarrow> bool"
  sy_arrow :: str

section \<open>The sweep\<close>

definition timetable_zips :: "system \<Rightarrow> str list \<Rightarrow> 'c files \<Rightarrow> str \<Rightarrow> str list" where
  "timetable_zips sy inbox fs subdir =
     filter (\<lambda>name. fs (inbox @ [subdir, name]) \<noteq> None \<and> path_suffix name = ''.zip'') (sy_iterdir sy (inbox @ [subdir]))"

definition sweep_file :: "system \<Rightarrow> str list \<Rightarrow> (str \<times> str) list \<Rightarrow> (str \<times> str) list option \<Rightarrow> str \<Rightarrow> str
    \<Rightarrow> str list \<times> 'c files \<Rightarrow> (str list \<times> 'c files) option" where
  "sweep_file sy inbox expected_slots only subdir name s = (case s of (events, fs) \<Rightarrow>
     if (subdir, name) \<in> set expected_slots \<or> (case only of None \<Rightarrow> False | Some slots \<Rightarrow> (subdir, name) \<notin> set slots) then Some s
     else (case orphan_target (\<lambda>n. fs (inbox @ [subdir, n]) \<noteq> None) (sy_stamp sy (inbox @ [subdir, name])) name of
         None \<Rightarrow> None
       | Some dst \<Rightarrow>
           if fs (inbox @ [subdir, name]) \<noteq> None \<and> sy_may_rename sy (inbox @ [subdir, name])
           then Some (events @ [subdir @ ''/'' @ name @ sy_arrow sy @ dst], rename_file (inbox @ [subdir, name]) (inbox @ [subdir, dst]) fs)
           else Some s))"

fun sweep_names :: "system \<Rightarrow> str list \<Rightarrow> (str \<times> str) list \<Rightarrow> (str \<times> str) list option \<Rightarrow> str \<Rightarrow> str list
    \<Rightarrow> str list \<times> 'c files \<Rightarrow> (str list \<times> 'c files) option" where
  "sweep_names sy inbox expected_slots only subdir [] s = Some s"
| "sweep_names sy inbox expected_slots only subdir (name # names) s = (case sweep_file sy inbox expected_slots only subdir name s of
      None \<Rightarrow> None | Some s' \<Rightarrow> sweep_names sy inbox expected_slots only subdir names s')"

fun sweep_dirs :: "system \<Rightarrow> str list \<Rightarrow> (str \<times> str) list \<Rightarrow> (str \<times> str) list option \<Rightarrow> str list
    \<Rightarrow> str list \<times> 'c files \<Rightarrow> (str list \<times> 'c files) option" where
  "sweep_dirs sy inbox expected_slots only [] s = Some s"
| "sweep_dirs sy inbox expected_slots only (subdir # subdirs) s =
     (case sweep_names sy inbox expected_slots only subdir (timetable_zips sy inbox (snd s) subdir) s of
        None \<Rightarrow> None | Some s' \<Rightarrow> sweep_dirs sy inbox expected_slots only subdirs s')"

definition sweep_orphaned_provider_files :: "system \<Rightarrow> str list \<Rightarrow> (str \<times> str) list option \<Rightarrow> (str \<times> str) list option \<Rightarrow> 'c files
    \<Rightarrow> (str list \<times> 'c files) option" where
  "sweep_orphaned_provider_files sy inbox expected_slots only fs = (case expected_slots of
      None \<Rightarrow> Some ([], fs)
    | Some slots \<Rightarrow> sweep_dirs sy inbox slots only SWEPT_SUBDIRS ([], fs))"

section \<open>The plan of a save\<close>

record save_plan =
  sp_expected :: "(str \<times> str) list"
  sp_slots :: "(str \<times> str) list"
  sp_switched :: "(str \<times> str) list"

definition or_no_slots :: "(str \<times> str) list option \<Rightarrow> (str \<times> str) list" where
  "or_no_slots slots = (case slots of None \<Rightarrow> [] | Some ss \<Rightarrow> ss)"

definition plan_save_quarantine :: "runtime \<Rightarrow> network \<Rightarrow> (str \<Rightarrow> bool) \<Rightarrow> (str \<times> json) list \<Rightarrow> (str \<times> json) list \<Rightarrow> py_error + save_plan" where
  "plan_save_quarantine rt nw uuid_ok old_config new_config =
     rbind (expected_provider_filenames rt nw uuid_ok new_config) (\<lambda>new0.
     rbind (expected_provider_filenames rt nw uuid_ok old_config) (\<lambda>old0.
     let new = or_no_slots new0; old = or_no_slots old0;
         new_names = map snd new; old_names = map snd old
     in Inr \<lparr>sp_expected = new,
          sp_slots = filter (\<lambda>slot. slot \<notin> set new) (concat (map (\<lambda>name. map (\<lambda>subdir. (subdir, name)) SWEPT_SUBDIRS) new_names)),
          sp_switched = filter (\<lambda>slot. slot \<notin> set old \<and> snd slot \<in> set old_names) new\<rparr>))"

text \<open>The files a switch finds quarantined, one warning for each.\<close>

definition quarantined_switch_targets :: "system \<Rightarrow> str list \<Rightarrow> (str \<times> str) list \<Rightarrow> 'c files \<Rightarrow> str list list" where
  "quarantined_switch_targets sy inbox switched fs =
     concat (map (\<lambda>subdir. map (\<lambda>name. inbox @ [subdir, name])
       (filter (\<lambda>name. let live = (if ends_with name ORPHAN_SUFFIX then take (length name - length ORPHAN_SUFFIX) name else name) in
          live \<noteq> name \<and> (subdir, live) \<in> set switched \<and> fs (inbox @ [subdir, live]) = None)
          (sy_iterdir sy (inbox @ [subdir])))) SWEPT_SUBDIRS)"

definition apply_save_quarantine :: "system \<Rightarrow> str list \<Rightarrow> save_plan \<Rightarrow> 'c files \<Rightarrow> (str list \<times> 'c files) option" where
  "apply_save_quarantine sy inbox plan fs =
     (if sp_slots plan = [] then Some ([], fs)
      else sweep_orphaned_provider_files sy inbox (Some (sp_expected plan)) (Some (sp_slots plan)) fs)"

definition switch_warnings :: "system \<Rightarrow> str list \<Rightarrow> save_plan \<Rightarrow> 'c files \<Rightarrow> str list list" where
  "switch_warnings sy inbox plan fs = (if sp_switched plan = [] then [] else quarantined_switch_targets sy inbox (sp_switched plan) fs)"

end
