(* ===== verification/Inbox_Properties.thy ===== *)
theory Inbox_Properties
  imports Inbox_Sweep Provider_Properties
begin

text \<open>
  A sweep of the inbox ends, loses no file and leaves no orphan; the quarantine of a save touches no current
  provider's file and leaves a build one file per provider.
\<close>

section \<open>A free name\<close>

lemma inj_show_nat: "inj show_nat" by (rule inj_on_inverseI [of _ digits_value]) (rule digits_value_show_nat)

lemma free_name_found:
  "\<not> taken (base @ ''-'' @ show_nat (n + k) @ ORPHAN_SUFFIX) \<Longrightarrow>
     \<exists>m. free_name taken base n = Some (base @ ''-'' @ show_nat m @ ORPHAN_SUFFIX) \<and> \<not> taken (base @ ''-'' @ show_nat m @ ORPHAN_SUFFIX)"
proof (induction k arbitrary: n)
  case 0
  then show ?case by (subst free_name.simps) auto
next
  case (Suc k)
  then have "\<not> taken (base @ ''-'' @ show_nat (n + 1 + k) @ ORPHAN_SUFFIX)" by simp
  then show ?case using Suc.IH [of "n + 1"] by (subst free_name.simps) (cases "taken (base @ ''-'' @ show_nat n @ ORPHAN_SUFFIX)"; auto)
qed

lemma free_name_ends:
  assumes "finite {s. taken s}"
  shows "\<exists>t. free_name taken base n = Some (base @ t @ ORPHAN_SUFFIX) \<and> \<not> taken (base @ t @ ORPHAN_SUFFIX)"
proof -
  define name where "name k = base @ ''-'' @ show_nat (n + k) @ ORPHAN_SUFFIX" for k
  have "inj name" by (rule injI) (use inj_show_nat in \<open>auto simp: name_def dest: injD\<close>)
  then have "infinite (range name)" using finite_imageD [of name UNIV] by blast
  then have "\<not> range name \<subseteq> {s. taken s}" using assms finite_subset by blast
  then obtain k where "\<not> taken (name k)" by blast
  then obtain m where "free_name taken base n = Some (base @ ''-'' @ show_nat m @ ORPHAN_SUFFIX) \<and> \<not> taken (base @ ''-'' @ show_nat m @ ORPHAN_SUFFIX)"
    using free_name_found [of taken base n k] by (auto simp: name_def)
  then show ?thesis by (intro exI [of _ "''-'' @ show_nat m"]) simp
qed

lemma orphan_target_ends:
  assumes "finite {s. taken s}"
  shows "\<exists>t. orphan_target taken stamp name = Some (name @ t @ ORPHAN_SUFFIX) \<and> \<not> taken (name @ t @ ORPHAN_SUFFIX)"
proof (cases "taken (name @ ORPHAN_SUFFIX) \<and> taken (name @ ''.'' @ stamp @ ORPHAN_SUFFIX)")
  case True
  then show ?thesis using free_name_ends [OF assms, of "name @ ''.'' @ stamp" 2] by (auto simp: orphan_target_def Let_def)
next
  case False
  then show ?thesis
    by (cases "taken (name @ ORPHAN_SUFFIX)") (auto simp: orphan_target_def Let_def intro: exI [of _ "[]"] exI [of _ "''.'' @ stamp"])
qed

section \<open>Files moved aside\<close>

text \<open>The files of the swept directories no slot is expected for, within the slots asked for.\<close>

definition orphan :: "str list \<Rightarrow> (str \<times> str) list \<Rightarrow> (str \<times> str) list option \<Rightarrow> str list \<Rightarrow> bool" where
  "orphan inbox expected_slots only p \<longleftrightarrow> (\<exists>subdir \<in> set SWEPT_SUBDIRS. \<exists>name. p = inbox @ [subdir, name] \<and> path_suffix name = ''.zip''
     \<and> (subdir, name) \<notin> set expected_slots \<and> (case only of None \<Rightarrow> True | Some slots \<Rightarrow> (subdir, name) \<in> set slots))"

text \<open>Every file is still there, an orphan perhaps under its name with a suffix that ends in \<open>.orphaned\<close>.\<close>

definition set_aside :: "str list \<Rightarrow> str list \<Rightarrow> bool" where
  "set_aside p q \<longleftrightarrow> (\<exists>t. q = butlast p @ [last p @ t @ ORPHAN_SUFFIX])"

definition moves :: "(str list \<Rightarrow> bool) \<Rightarrow> (str list \<Rightarrow> str list) \<Rightarrow> 'c files \<Rightarrow> 'c files \<Rightarrow> bool" where
  "moves orph move fs fs' \<longleftrightarrow> inj_on move (dom fs) \<and> dom fs' = move ` dom fs
     \<and> (\<forall>p \<in> dom fs. fs' (move p) = fs p \<and> (move p = p \<or> orph p \<and> set_aside p (move p)))"

definition moved_aside :: "(str list \<Rightarrow> bool) \<Rightarrow> 'c files \<Rightarrow> 'c files \<Rightarrow> bool" where
  "moved_aside orph fs fs' \<longleftrightarrow> (\<exists>move. moves orph move fs fs')"

lemma moved_aside_refl: "moved_aside orph fs fs"
  unfolding moved_aside_def moves_def by (rule exI [of _ id]) simp

lemma moved_aside_trans:
  assumes "moved_aside orph fs fs1" "moved_aside orph fs1 fs2" "\<And>p q. set_aside p q \<Longrightarrow> \<not> orph q"
  shows "moved_aside orph fs fs2"
proof -
  obtain f where f: "moves orph f fs fs1" using assms(1) by (auto simp: moved_aside_def)
  obtain g where g: "moves orph g fs1 fs2" using assms(2) by (auto simp: moved_aside_def)
  have there: "f p \<in> dom fs1" if "p \<in> dom fs" for p using f that by (simp add: moves_def)
  have same: "g (f p) = f p" if "p \<in> dom fs" "set_aside p (f p)" for p
    using g there [OF that(1)] assms(3) [OF that(2)] unfolding moves_def by blast
  have "moves orph (g \<circ> f) fs fs2"
    unfolding moves_def
  proof (intro conjI ballI)
    show "inj_on (g \<circ> f) (dom fs)" using f g by (simp add: moves_def comp_inj_on)
    show "dom fs2 = (g \<circ> f) ` dom fs" using f g by (simp add: moves_def image_comp)
    fix p assume p: "p \<in> dom fs"
    show "fs2 ((g \<circ> f) p) = fs p" using f g p there [OF p] by (simp add: moves_def)
    show "(g \<circ> f) p = p \<or> orph p \<and> set_aside p ((g \<circ> f) p)"
    proof (cases "f p = p")
      case True
      then show ?thesis using g there [OF p] by (simp add: moves_def)
    next
      case False
      then have "orph p \<and> set_aside p (f p)" using f p unfolding moves_def by blast
      then show ?thesis using same [OF p] by simp
    qed
  qed
  then show ?thesis by (auto simp: moved_aside_def)
qed

lemma rename_moved_aside:
  assumes "fs p \<noteq> None" "fs q = None" "orph p" "set_aside p q"
  shows "moved_aside orph fs (rename_file p q fs)"
proof -
  have ne: "p \<noteq> q" using assms(1,2) by auto
  have "moves orph (\<lambda>r. if r = p then q else r) fs (rename_file p q fs)"
    unfolding moves_def
  proof (intro conjI ballI)
    show "inj_on (\<lambda>r. if r = p then q else r) (dom fs)" using assms(2) by (auto simp: inj_on_def)
    show "dom (rename_file p q fs) = (\<lambda>r. if r = p then q else r) ` dom fs" using assms(1) ne by (auto simp: rename_file_def image_iff)
    fix r assume "r \<in> dom fs"
    then show "rename_file p q fs (if r = p then q else r) = fs r" using assms(2) ne by (auto simp: rename_file_def)
    show "(if r = p then q else r) = r \<or> orph r \<and> set_aside r (if r = p then q else r)" using assms(3,4) by auto
  qed
  then show ?thesis by (auto simp: moved_aside_def)
qed

lemma moved_aside_finite: "moved_aside orph fs fs' \<Longrightarrow> finite (dom fs) \<Longrightarrow> finite (dom fs')"
  by (auto simp: moved_aside_def moves_def)

text \<open>A name that ends in \<open>.orphaned\<close> is no \<open>.zip\<close>.\<close>

lemma orphaned_suffix: "path_suffix (s @ ORPHAN_SUFFIX) \<noteq> ''.zip''"
proof -
  have "takeWhile (\<lambda>c. c \<noteq> CHR ''.'') (rev (s @ ORPHAN_SUFFIX)) = ''denahpro''" by (simp add: ORPHAN_SUFFIX_def)
  then show ?thesis unfolding path_suffix_def by (simp add: Let_def)
qed

lemma orphaned_no_orphan: "set_aside p q \<Longrightarrow> \<not> orphan inbox expected_slots only q"
proof
  assume a: "set_aside p q" "orphan inbox expected_slots only q"
  obtain t where q: "q = butlast p @ [last p @ t @ ORPHAN_SUFFIX]" using a(1) by (auto simp: set_aside_def)
  obtain subdir name where n: "q = inbox @ [subdir, name]" "path_suffix name = ''.zip''" using a(2) by (auto simp: orphan_def)
  have "last q = last p @ t @ ORPHAN_SUFFIX" "last q = name" using q n(1) by simp_all
  then have "name = (last p @ t) @ ORPHAN_SUFFIX" by simp
  then show False using n(2) orphaned_suffix by blast
qed

section \<open>The sweep, file by file\<close>

lemma sweep_file_step:
  assumes "finite (dom fs)" "subdir \<in> set SWEPT_SUBDIRS" "path_suffix name = ''.zip''"
  obtains events' fs' where "sweep_file sy inbox ex only subdir name (events, fs) = Some (events', fs')"
    "moved_aside (orphan inbox ex only) fs fs'" "\<exists>more_events. events' = events @ more_events"
    "sy_may_rename sy (inbox @ [subdir, name]) \<Longrightarrow> orphan inbox ex only (inbox @ [subdir, name]) \<Longrightarrow> fs' (inbox @ [subdir, name]) = None"
    "\<not> orphan inbox ex only (inbox @ [subdir, name]) \<Longrightarrow> events' = events \<and> fs' = fs"
proof -
  let ?p = "inbox @ [subdir, name]"
  have orph: "orphan inbox ex only ?p \<longleftrightarrow> \<not> ((subdir, name) \<in> set ex \<or> (case only of None \<Rightarrow> False | Some slots \<Rightarrow> (subdir, name) \<notin> set slots))"
    using assms(2,3) by (auto simp: orphan_def split: option.splits)
  define taken where "taken n \<longleftrightarrow> fs (inbox @ [subdir, n]) \<noteq> None" for n
  have "(\<lambda>n. inbox @ [subdir, n]) ` {n. taken n} \<subseteq> dom fs" by (auto simp: taken_def)
  then have "finite ((\<lambda>n. inbox @ [subdir, n]) ` {n. taken n})" by (rule finite_subset) (rule assms(1))
  then have "finite {n. taken n}" by (rule finite_imageD) (simp add: inj_on_def)
  from orphan_target_ends [OF this, of "sy_stamp sy ?p" name] obtain t
    where t: "orphan_target taken (sy_stamp sy ?p) name = Some (name @ t @ ORPHAN_SUFFIX)" "\<not> taken (name @ t @ ORPHAN_SUFFIX)" by blast
  define dst where "dst = name @ t @ ORPHAN_SUFFIX"
  have target: "orphan_target (\<lambda>n. fs (inbox @ [subdir, n]) \<noteq> None) (sy_stamp sy ?p) name = Some dst" "fs (inbox @ [subdir, dst]) = None"
    using t unfolding taken_def dst_def by simp_all
  have aside: "set_aside ?p (inbox @ [subdir, dst])" by (auto simp: set_aside_def dst_def butlast_append)
  show thesis
  proof (cases "orphan inbox ex only ?p \<and> fs ?p \<noteq> None \<and> sy_may_rename sy ?p")
    case True
    then have r: "sweep_file sy inbox ex only subdir name (events, fs) =
        Some (events @ [subdir @ ''/'' @ name @ sy_arrow sy @ dst], rename_file ?p (inbox @ [subdir, dst]) fs)"
      using orph target by (simp add: sweep_file_def)
    show thesis by (rule that [OF r rename_moved_aside]) (use True target(2) aside in \<open>auto simp: rename_file_def\<close>)
  next
    case False
    then have r: "sweep_file sy inbox ex only subdir name (events, fs) = Some (events, fs)"
      using orph target by (auto simp: sweep_file_def)
    show thesis by (rule that [OF r moved_aside_refl]) (use False in auto)
  qed
qed

lemma moved_aside_none:
  assumes "moved_aside orph fs fs'" "fs p = None" "orph p" "\<And>p q. set_aside p q \<Longrightarrow> \<not> orph q"
  shows "fs' p = None"
proof (rule ccontr)
  assume "fs' p \<noteq> None"
  obtain f where f: "moves orph f fs fs'" using assms(1) by (auto simp: moved_aside_def)
  have "p \<in> f ` dom fs" using f \<open>fs' p \<noteq> None\<close> unfolding moves_def by blast
  then obtain q where q: "q \<in> dom fs" "p = f q" by blast
  then have "f q = q \<or> set_aside q (f q)" using f unfolding moves_def by blast
  then show False using q assms(2,3,4) by auto
qed

lemma orphans_gone: "moved_aside (orphan inbox ex only) fs fs' \<Longrightarrow> fs p = None \<Longrightarrow> orphan inbox ex only p \<Longrightarrow> fs' p = None"
  by (rule moved_aside_none) (use orphaned_no_orphan in blast)+

lemma orphans_trans: "moved_aside (orphan inbox ex only) fs fs1 \<Longrightarrow> moved_aside (orphan inbox ex only) fs1 fs2 \<Longrightarrow> moved_aside (orphan inbox ex only) fs fs2"
  by (rule moved_aside_trans) (use orphaned_no_orphan in blast)+

lemma sweep_names_step:
  assumes "subdir \<in> set SWEPT_SUBDIRS"
  shows "finite (dom fs) \<Longrightarrow> \<forall>name \<in> set names. path_suffix name = ''.zip'' \<Longrightarrow>
     \<exists>events' fs'. sweep_names sy inbox ex only subdir names (events, fs) = Some (events', fs') \<and> moved_aside (orphan inbox ex only) fs fs'
       \<and> (\<forall>name \<in> set names. sy_may_rename sy (inbox @ [subdir, name]) \<and> orphan inbox ex only (inbox @ [subdir, name]) \<longrightarrow> fs' (inbox @ [subdir, name]) = None)
       \<and> ((\<forall>name \<in> set names. \<not> orphan inbox ex only (inbox @ [subdir, name])) \<longrightarrow> events' = events \<and> fs' = fs)"
proof (induction names arbitrary: events fs)
  case Nil
  show ?case using moved_aside_refl by auto
next
  case (Cons name names)
  let ?p = "inbox @ [subdir, name]"
  have "path_suffix name = ''.zip''" using Cons.prems(2) by simp
  from sweep_file_step [OF Cons.prems(1) assms this, of sy inbox ex only events] obtain events1 fs1
    where one: "sweep_file sy inbox ex only subdir name (events, fs) = Some (events1, fs1)" "moved_aside (orphan inbox ex only) fs fs1"
      "sy_may_rename sy ?p \<Longrightarrow> orphan inbox ex only ?p \<Longrightarrow> fs1 ?p = None" "\<not> orphan inbox ex only ?p \<Longrightarrow> events1 = events \<and> fs1 = fs" by metis
  have "finite (dom fs1)" "\<forall>name \<in> set names. path_suffix name = ''.zip''"
    using moved_aside_finite [OF one(2)] Cons.prems by simp_all
  from Cons.IH [OF this, of events1] obtain events' fs' where rest: "sweep_names sy inbox ex only subdir names (events1, fs1) = Some (events', fs')"
    "moved_aside (orphan inbox ex only) fs1 fs'"
    "\<forall>name \<in> set names. sy_may_rename sy (inbox @ [subdir, name]) \<and> orphan inbox ex only (inbox @ [subdir, name]) \<longrightarrow> fs' (inbox @ [subdir, name]) = None"
    "(\<forall>name \<in> set names. \<not> orphan inbox ex only (inbox @ [subdir, name])) \<longrightarrow> events' = events1 \<and> fs' = fs1" by blast
  have "moved_aside (orphan inbox ex only) fs fs'" using one(2) rest(2) by (rule orphans_trans)
  moreover have "fs' ?p = None" if "sy_may_rename sy ?p" "orphan inbox ex only ?p"
    using orphans_gone [OF rest(2) one(3) [OF that] that(2)] .
  moreover have "sweep_names sy inbox ex only subdir (name # names) (events, fs) = Some (events', fs')" using one(1) rest(1) by simp
  ultimately show ?case using rest(3,4) one(4) by (intro exI [of _ events'] exI [of _ fs']) auto
qed

text \<open>The listing of a directory names its files.\<close>

definition lists_files :: "system \<Rightarrow> str list \<Rightarrow> 'c files \<Rightarrow> bool" where
  "lists_files sy inbox fs \<longleftrightarrow> (\<forall>subdir \<in> set SWEPT_SUBDIRS. \<forall>name. fs (inbox @ [subdir, name]) \<noteq> None \<longrightarrow> name \<in> set (sy_iterdir sy (inbox @ [subdir])))"

lemma sweep_dirs_step:
  "finite (dom fs) \<Longrightarrow> set subdirs \<subseteq> set SWEPT_SUBDIRS \<Longrightarrow>
     \<exists>events' fs'. sweep_dirs sy inbox ex only subdirs (events, fs) = Some (events', fs') \<and> moved_aside (orphan inbox ex only) fs fs'
       \<and> (\<forall>subdir \<in> set subdirs. \<forall>name \<in> set (sy_iterdir sy (inbox @ [subdir])).
            sy_may_rename sy (inbox @ [subdir, name]) \<and> orphan inbox ex only (inbox @ [subdir, name]) \<longrightarrow> fs' (inbox @ [subdir, name]) = None)
       \<and> ((\<forall>p. orphan inbox ex only p \<longrightarrow> fs p = None) \<longrightarrow> events' = events \<and> fs' = fs)"
proof (induction subdirs arbitrary: events fs)
  case Nil
  show ?case using moved_aside_refl by auto
next
  case (Cons subdir subdirs)
  let ?names = "timetable_zips sy inbox fs subdir"
  have subdir: "subdir \<in> set SWEPT_SUBDIRS" and names: "\<forall>name \<in> set ?names. path_suffix name = ''.zip''"
    using Cons.prems(2) by (simp_all add: timetable_zips_def)
  from sweep_names_step [OF subdir Cons.prems(1) names, of sy inbox ex only events] obtain events1 fs1
    where one: "sweep_names sy inbox ex only subdir ?names (events, fs) = Some (events1, fs1)" "moved_aside (orphan inbox ex only) fs fs1"
      "\<forall>name \<in> set ?names. sy_may_rename sy (inbox @ [subdir, name]) \<and> orphan inbox ex only (inbox @ [subdir, name]) \<longrightarrow> fs1 (inbox @ [subdir, name]) = None"
      "(\<forall>name \<in> set ?names. \<not> orphan inbox ex only (inbox @ [subdir, name])) \<longrightarrow> events1 = events \<and> fs1 = fs" by blast
  have "finite (dom fs1)" "set subdirs \<subseteq> set SWEPT_SUBDIRS" using moved_aside_finite [OF one(2)] Cons.prems by simp_all
  from Cons.IH [OF this, of events1] obtain events' fs' where rest: "sweep_dirs sy inbox ex only subdirs (events1, fs1) = Some (events', fs')"
    "moved_aside (orphan inbox ex only) fs1 fs'"
    "\<forall>subdir \<in> set subdirs. \<forall>name \<in> set (sy_iterdir sy (inbox @ [subdir])).
            sy_may_rename sy (inbox @ [subdir, name]) \<and> orphan inbox ex only (inbox @ [subdir, name]) \<longrightarrow> fs' (inbox @ [subdir, name]) = None"
    "(\<forall>p. orphan inbox ex only p \<longrightarrow> fs1 p = None) \<longrightarrow> events' = events1 \<and> fs' = fs1" by blast
  have "moved_aside (orphan inbox ex only) fs fs'" using one(2) rest(2) by (rule orphans_trans)
  moreover have "fs' (inbox @ [subdir, name]) = None"
    if n: "name \<in> set (sy_iterdir sy (inbox @ [subdir]))" "sy_may_rename sy (inbox @ [subdir, name])" "orphan inbox ex only (inbox @ [subdir, name])" for name
  proof (rule orphans_gone [OF rest(2) _ n(3)])
    have "path_suffix name = ''.zip''" using n(3) by (auto simp: orphan_def)
    then have "fs (inbox @ [subdir, name]) \<noteq> None \<Longrightarrow> name \<in> set ?names" using n(1) by (simp add: timetable_zips_def)
    then show "fs1 (inbox @ [subdir, name]) = None"
      using one(3) n(2,3) orphans_gone [OF one(2) _ n(3)] by blast
  qed
  moreover have "events1 = events \<and> fs1 = fs" if none: "\<forall>p. orphan inbox ex only p \<longrightarrow> fs p = None"
  proof -
    have "\<not> orphan inbox ex only (inbox @ [subdir, name])" if "name \<in> set ?names" for name
      using that none by (auto simp: timetable_zips_def)
    then show ?thesis using one(4) by blast
  qed
  moreover have "sweep_dirs sy inbox ex only (subdir # subdirs) (events, fs) = Some (events', fs')" using one(1) rest(1) by simp
  ultimately show ?case using rest(3,4) by (intro exI [of _ events'] exI [of _ fs']) auto
qed

lemma sweep_result:
  assumes "finite (dom fs)" "lists_files sy inbox fs" "\<forall>p. sy_may_rename sy p"
  obtains events' fs' where "sweep_orphaned_provider_files sy inbox (Some ex) only fs = Some (events', fs')"
    "moved_aside (orphan inbox ex only) fs fs'" "\<And>p. orphan inbox ex only p \<Longrightarrow> fs' p = None"
proof -
  from sweep_dirs_step [OF assms(1), of SWEPT_SUBDIRS sy inbox ex only "[]"] obtain events' fs'
    where r: "sweep_dirs sy inbox ex only SWEPT_SUBDIRS ([], fs) = Some (events', fs')" "moved_aside (orphan inbox ex only) fs fs'"
      "\<forall>subdir \<in> set SWEPT_SUBDIRS. \<forall>name \<in> set (sy_iterdir sy (inbox @ [subdir])).
            sy_may_rename sy (inbox @ [subdir, name]) \<and> orphan inbox ex only (inbox @ [subdir, name]) \<longrightarrow> fs' (inbox @ [subdir, name]) = None" by auto
  have "fs' p = None" if p: "orphan inbox ex only p" for p
  proof -
    obtain subdir name where n: "subdir \<in> set SWEPT_SUBDIRS" "p = inbox @ [subdir, name]" using p by (auto simp: orphan_def)
    show ?thesis
    proof (cases "fs p = None")
      case True
      then show ?thesis using orphans_gone [OF r(2) _ p] by blast
    next
      case False
      then have "name \<in> set (sy_iterdir sy (inbox @ [subdir]))" using assms(2) n by (auto simp: lists_files_def)
      then have "fs' (inbox @ [subdir, name]) = None" using r(3) n(1) p [unfolded n(2)] assms(3) by blast
      then show ?thesis by (simp add: n(2))
    qed
  qed
  then show thesis using that [of events' fs'] r(1,2) by (simp add: sweep_orphaned_provider_files_def)
qed

text \<open>A \<open>.zip\<close> that is no orphan keeps its place, and none takes it.\<close>

lemma slot_kept:
  assumes "moved_aside (orphan inbox ex only) fs fs'" "\<not> orphan inbox ex only (inbox @ [subdir, name])" "path_suffix name = ''.zip''"
  shows "fs' (inbox @ [subdir, name]) = fs (inbox @ [subdir, name])"
proof -
  let ?p = "inbox @ [subdir, name]"
  obtain f where f: "moves (orphan inbox ex only) f fs fs'" using assms(1) by (auto simp: moved_aside_def)
  show ?thesis
  proof (cases "?p \<in> dom fs")
    case True
    then have "f ?p = ?p \<and> fs' (f ?p) = fs ?p" using f assms(2) unfolding moves_def by blast
    then show ?thesis by metis
  next
    case False
    have "?p \<notin> dom fs'"
    proof
      assume "?p \<in> dom fs'"
      then obtain q where q: "q \<in> dom fs" "f q = ?p" using f unfolding moves_def by (metis imageE)
      then have "set_aside q ?p" using f False unfolding moves_def by metis
      then obtain t where "?p = butlast q @ [last q @ t @ ORPHAN_SUFFIX]" by (auto simp: set_aside_def)
      then have "last ?p = (last q @ t) @ ORPHAN_SUFFIX" by (metis append_assoc last_snoc)
      then have "name = (last q @ t) @ ORPHAN_SUFFIX" by simp
      then show False using assms(3) orphaned_suffix by metis
    qed
    then show ?thesis using False by (auto simp: domIff)
  qed
qed

lemma sweep_nothing:
  assumes "finite (dom fs)" "\<And>p. orphan inbox ex only p \<Longrightarrow> fs p = None"
  shows "sweep_orphaned_provider_files sy inbox (Some ex) only fs = Some ([], fs)"
  using sweep_dirs_step [OF assms(1), of SWEPT_SUBDIRS sy inbox ex only "[]"] assms(2)
  by (auto simp: sweep_orphaned_provider_files_def)

text \<open>C36: the sweep of a session's inbox loses no file, leaves no orphan, and comes to rest. Whatever files there are
  and whichever the system lets go, it ends, and every file is still there with its content, under its own
  name or, for an orphan, under a name of its own that ends in \<open>.orphaned\<close>. When the listings name the files and
  every rename succeeds, no \<open>.zip\<close> that is no provider's slot is left, and another sweep changes nothing.\<close>

theorem sweep_quarantines_orphans:
  assumes "finite (dom fs)"
  shows "\<exists>events fs'. sweep_orphaned_provider_files sy inbox (Some slots) only fs = Some (events, fs') \<and> moved_aside (orphan inbox slots only) fs fs'
    \<and> (lists_files sy inbox fs \<and> (\<forall>p. sy_may_rename sy p) \<longrightarrow> (\<forall>p. orphan inbox slots only p \<longrightarrow> fs' p = None)
         \<and> (\<forall>sy'. sweep_orphaned_provider_files sy' inbox (Some slots) only fs' = Some ([], fs')))"
proof (cases "lists_files sy inbox fs \<and> (\<forall>p. sy_may_rename sy p)")
  case True
  then obtain events fs' where r: "sweep_orphaned_provider_files sy inbox (Some slots) only fs = Some (events, fs')"
    "moved_aside (orphan inbox slots only) fs fs'" "\<And>p. orphan inbox slots only p \<Longrightarrow> fs' p = None"
    using sweep_result [OF assms] by metis
  then show ?thesis using sweep_nothing [OF moved_aside_finite [OF r(2) assms] r(3)] by blast
next
  case False
  then show ?thesis using sweep_dirs_step [OF assms, of SWEPT_SUBDIRS sy inbox slots only "[]"] by (auto simp: sweep_orphaned_provider_files_def)
qed

definition sample_tree :: "nat files" where
  "sample_tree = [[''s1'', ''gtfs'', ''sncf.zip''] \<mapsto> 1, [''s1'', ''netex'', ''sncf.zip''] \<mapsto> 2, [''s1'', ''netex'', ''sncf.zip.orphaned''] \<mapsto> 3]"

definition sample_system :: system where
  "sample_system = \<lparr>sy_iterdir = (\<lambda>dir. [''sncf.zip'', ''sncf.zip.orphaned'']), sy_stamp = (\<lambda>p. ''20261119T031500Z''),
     sy_may_rename = (\<lambda>p. True), sy_arrow = '' -> ''\<rparr>"

lemma sample_system_lists: "lists_files sample_system [''s1''] sample_tree"
  by (auto simp: lists_files_def sample_tree_def sample_system_def SWEPT_SUBDIRS_def split: if_splits)

theorem sweep_quarantines_orphans_witness:
  "\<exists>events fs'. sweep_orphaned_provider_files sample_system [''s1''] (Some [(''gtfs'', ''sncf.zip'')]) None sample_tree = Some (events, fs')
     \<and> fs' [''s1'', ''netex'', ''sncf.zip''] = None
     \<and> sweep_orphaned_provider_files sample_system [''s1''] (Some [(''gtfs'', ''sncf.zip'')]) None fs' = Some ([], fs')"
proof -
  have "finite (dom sample_tree)" by (simp add: sample_tree_def)
  from sweep_quarantines_orphans [OF this, of sample_system "[''s1'']" "[(''gtfs'', ''sncf.zip'')]" None] obtain events fs'
    where r: "sweep_orphaned_provider_files sample_system [''s1''] (Some [(''gtfs'', ''sncf.zip'')]) None sample_tree = Some (events, fs')"
      "\<forall>p. orphan [''s1''] [(''gtfs'', ''sncf.zip'')] None p \<longrightarrow> fs' p = None"
      "\<forall>sy'. sweep_orphaned_provider_files sy' [''s1''] (Some [(''gtfs'', ''sncf.zip'')]) None fs' = Some ([], fs')"
    using sample_system_lists by (auto simp: sample_system_def)
  have "path_suffix ''sncf.zip'' = ''.zip''" by code_simp
  then have "orphan [''s1''] [(''gtfs'', ''sncf.zip'')] None [''s1'', ''netex'', ''sncf.zip'']" by (auto simp: orphan_def SWEPT_SUBDIRS_def)
  then show ?thesis using r by blast
qed

section \<open>A save\<close>

definition has_slot :: "runtime \<Rightarrow> network \<Rightarrow> (str \<times> json) list \<Rightarrow> bool" where
  "has_slot rt nw p \<longleftrightarrow> (\<exists>feed_id fmt. dget p ''id'' = JStr feed_id \<and> is_provider_id feed_id \<and> fmt \<in> set OTP_TIMETABLE_FORMATS
     \<and> provider_slot rt nw p = Inr (alist_get STAGE_INTO_OTP_INBOX (alist_get TIMETABLE_FORMAT_KINDS fmt []) [], rt_lower rt feed_id @ ''.zip''))"

lemma legacy_slot: "is_provider_id feed_id \<Longrightarrow> has_slot rt nw (legacy_provider d i (feed_id, url))"
  unfolding has_slot_def
  by (rule exI [of _ feed_id], rule exI [of _ "''gtfs''"])
    (simp add: legacy_provider_def dget_def provider_slot_def provider_timetable_format_def jdict_def json_truthy_def py_str_def
      DERIVED_SOURCE_def OTP_TIMETABLE_FORMATS_def staged_slot_for_format_def staged_filename_for_format_def Let_def)

lemma feed_entries_ids: "feed_entries seen es = Inr out \<Longrightarrow> list_all is_provider_id (map fst out) \<and> distinct (map fst out) \<and> set (map fst out) \<inter> set seen = {}"
proof (induction es arbitrary: seen out)
  case (Cons e es)
  obtain d where d: "e = JObj d" using Cons.prems by (cases e) auto
  obtain feed_id url rest where r: "is_provider_id feed_id" "feed_id \<notin> set seen" "feed_entries (feed_id # seen) es = Inr rest" "out = (feed_id, url) # rest"
    using Cons.prems by (auto simp: d split: if_splits)
  then show ?case using Cons.IH [OF r(3)] by auto
qed simp

lemma normal_feeds: "normalize_gtfs_sources raw = Inr feeds \<Longrightarrow> list_all is_provider_id (map fst feeds) \<and> distinct (map fst feeds)"
proof -
  assume a: "normalize_gtfs_sources raw = Inr feeds"
  have gtfs: "is_provider_id ''GTFS''" by code_simp
  show ?thesis using a gtfs feed_entries_ids [of "[]" _ feeds] by (cases raw) (auto simp: normalize_gtfs_sources_def split: if_splits)
qed

lemma normal_slots:
  assumes "normalize_providers rt nw uuid_ok config = Inr ps"
  shows "list_all (has_slot rt nw) ps \<and> distinct (map (\<lambda>p. dget p ''id'') ps)"
proof -
  obtain d where d: "(case map_of d ''providers'' of Some (JArr ps) \<Rightarrow> native_providers rt nw uuid_ok [] ps
      | Some v \<Rightarrow> Inl (ValueError ''providers'')
      | None \<Rightarrow> rbind (normalize_gtfs_sources (dget d ''gtfs'')) (\<lambda>feeds. Inr (map (\<lambda>(i, feed). legacy_provider d i feed) (py_enumerate feeds)))) = Inr ps"
    using assms unfolding normalize_providers_def Let_def rbind_Inr by blast
  show ?thesis
  proof (cases "map_of d ''providers''")
    case None
    then obtain feeds where f: "normalize_gtfs_sources (dget d ''gtfs'') = Inr feeds" "ps = map (\<lambda>(i, feed). legacy_provider d i feed) (py_enumerate feeds)" using d unfolding None option.case rbind_Inr by blast
    have ids: "map (\<lambda>p. dget p ''id'') ps = map (\<lambda>feed. JStr (fst feed)) feeds"
      by (rule nth_equalityI) (simp_all add: f(2) py_enumerate_def legacy_provider_def dget_def split_def Let_def)
    have "has_slot rt nw (legacy_provider d i feed)" if "feed \<in> set feeds" for i feed
      using legacy_slot [of "fst feed" rt nw d i "snd feed"] normal_feeds [OF f(1)] that by (simp add: list_all_iff)
    then have "list_all (has_slot rt nw) ps" by (auto simp: f(2) list_all_iff py_enumerate_def simp del: split_paired_All dest: set_zip_rightD)
    moreover have "distinct (map (\<lambda>feed. JStr (fst feed)) feeds)"
      using normal_feeds [OF f(1)] by (auto simp: distinct_map inj_on_def)
    ultimately show ?thesis unfolding ids by blast
  next
    case (Some v)
    then obtain ps' where "native_providers rt nw uuid_ok [] ps' = Inr ps" using d by (cases v) simp_all
    note valid = native_valid [OF this]
    have "has_slot rt nw p" if "p \<in> set ps" for p
    proof -
      obtain raw where "validate_provider rt nw uuid_ok raw = Inr p" using valid \<open>p \<in> set ps\<close> by blast
      then show ?thesis by (rule provider_slot_valid) (auto simp: has_slot_def)
    qed
    then show ?thesis using valid by (simp add: list_all_iff)
  qed
qed

text \<open>A slot of the swept directories with a \<open>.zip\<close> name, and names of their own.\<close>

lemma zip_suffix: "s \<noteq> [] \<Longrightarrow> path_suffix (s @ ''.zip'') = ''.zip''"
  by (simp add: path_suffix_def Let_def)

lemma slots_of_all: "list_all (has_slot rt nw) ps \<Longrightarrow> \<exists>slots. slots_of rt nw ps = Inr slots \<and> map (provider_slot rt nw) ps = map Inr slots"
proof (induction ps)
  case (Cons p ps)
  obtain slot where "provider_slot rt nw p = Inr slot" using Cons.prems by (auto simp: has_slot_def)
  then show ?case using Cons by auto
qed simp

lemma expected_slots:
  assumes "ascii_cases rt" "expected_provider_filenames rt nw uuid_ok config = Inr (Some slots)"
  shows "\<forall>slot \<in> set slots. fst slot \<in> set SWEPT_SUBDIRS \<and> path_suffix (snd slot) = ''.zip''" "distinct (map snd slots)"
proof -
  obtain ps where ps: "normalize_providers rt nw uuid_ok config = Inr ps" "slots_of rt nw ps = Inr slots"
    using assms(2) by (auto simp: expected_provider_filenames_def split: sum.splits py_error.splits)
  note normal = normal_slots [OF ps(1)]
  then have at_slots: "map (provider_slot rt nw) ps = map Inr slots" using slots_of_all [of rt nw ps] ps(2) by auto
  then have len: "length ps = length slots" by (metis length_map)
  have slot: "\<exists>feed_id fmt. dget (ps ! i) ''id'' = JStr feed_id \<and> is_provider_id feed_id \<and> fmt \<in> set OTP_TIMETABLE_FORMATS
      \<and> slots ! i = (alist_get STAGE_INTO_OTP_INBOX (alist_get TIMETABLE_FORMAT_KINDS fmt []) [], rt_lower rt feed_id @ ''.zip'')" if i: "i < length slots" for i
  proof -
    have "provider_slot rt nw (ps ! i) = Inr (slots ! i)" using arg_cong [OF at_slots, of "\<lambda>xs. xs ! i"] i len by simp
    moreover have "has_slot rt nw (ps ! i)" using normal i len by (simp add: list_all_length)
    ultimately show ?thesis by (auto simp: has_slot_def)
  qed
  have lower_nonempty: "rt_lower rt feed_id \<noteq> []" if "is_provider_id feed_id" for feed_id
  proof -
    have "rt_lower rt feed_id = map ascii_lower feed_id"
      using assms(1) provider_id_chars [OF that] id_char_small by (auto simp: ascii_cases_def list_all_iff)
    then show ?thesis using provider_id_nonempty [OF that] by simp
  qed
  have dirs: "alist_get STAGE_INTO_OTP_INBOX (alist_get TIMETABLE_FORMAT_KINDS fmt []) [] \<in> set SWEPT_SUBDIRS" if "fmt \<in> set OTP_TIMETABLE_FORMATS" for fmt
    using that by (auto simp: OTP_TIMETABLE_FORMATS_def TIMETABLE_FORMAT_KINDS_def STAGE_INTO_OTP_INBOX_def alist_get_def SWEPT_SUBDIRS_def)
  show "\<forall>slot \<in> set slots. fst slot \<in> set SWEPT_SUBDIRS \<and> path_suffix (snd slot) = ''.zip''"
  proof
    fix s assume "s \<in> set slots"
    then obtain i where "i < length slots" "s = slots ! i" by (metis in_set_conv_nth)
    then show "fst s \<in> set SWEPT_SUBDIRS \<and> path_suffix (snd s) = ''.zip''" using slot dirs zip_suffix [OF lower_nonempty] by fastforce
  qed
  have "snd (slots ! i) \<noteq> snd (slots ! j)" if ij: "i < length slots" "j < length slots" "i \<noteq> j" for i j
  proof -
    obtain a where a: "dget (ps ! i) ''id'' = JStr a" "is_provider_id a" "snd (slots ! i) = rt_lower rt a @ ''.zip''" using slot [OF ij(1)] by auto
    obtain b where b: "dget (ps ! j) ''id'' = JStr b" "is_provider_id b" "snd (slots ! j) = rt_lower rt b @ ''.zip''" using slot [OF ij(2)] by auto
    have "dget (ps ! i) ''id'' \<noteq> dget (ps ! j) ''id''" using normal ij len by (simp add: distinct_conv_nth)
    then have "a \<noteq> b" using a b by auto
    then show ?thesis using lower_ids_distinct [OF assms(1) a(2) b(2)] a(3) b(3) by auto
  qed
  then show "distinct (map snd slots)" by (simp add: distinct_conv_nth)
qed

lemma swept_pair: "(subdir, name) \<in> set (concat (map (\<lambda>name. map (\<lambda>subdir. (subdir, name)) SWEPT_SUBDIRS) names)) \<longleftrightarrow> name \<in> set names \<and> subdir \<in> set SWEPT_SUBDIRS"
  by auto

text \<open>C37: a save leaves a build one file of each provider. Once the quarantine planned for a saved list of providers
  was applied, every provider's slot holds what it held, and the other directory holds no file of that name,
  however the list stored before read; nothing but those files of the other format was renamed, and none is
  lost. The listings name the files and every rename succeeds.\<close>

theorem save_leaves_one_file:
  assumes "ascii_cases rt" "expected_provider_filenames rt nw uuid_ok new_config = Inr (Some slots)"
    "plan_save_quarantine rt nw uuid_ok old_config new_config = Inr plan"
    "finite (dom fs)" "lists_files sy inbox fs" "\<forall>p. sy_may_rename sy p"
  shows "\<exists>events fs'. apply_save_quarantine sy inbox plan fs = Some (events, fs')
    \<and> moved_aside (\<lambda>p. \<exists>slot \<in> set slots. \<exists>subdir \<in> set SWEPT_SUBDIRS. subdir \<noteq> fst slot \<and> p = inbox @ [subdir, snd slot]) fs fs'
    \<and> (\<forall>slot \<in> set slots. fs' (inbox @ [fst slot, snd slot]) = fs (inbox @ [fst slot, snd slot])
        \<and> (\<forall>subdir \<in> set SWEPT_SUBDIRS. subdir \<noteq> fst slot \<longrightarrow> fs' (inbox @ [subdir, snd slot]) = None))"
proof -
  note slots = expected_slots [OF assms(1,2)]
  have "sp_expected plan = slots" "sp_slots plan = filter (\<lambda>slot. slot \<notin> set slots) (concat (map (\<lambda>name. map (\<lambda>subdir. (subdir, name)) SWEPT_SUBDIRS) (map snd slots)))"
    using assms(2,3) by (auto simp: plan_save_quarantine_def or_no_slots_def Let_def)
  then have plan: "sp_expected plan = slots" "set (sp_slots plan) = {(subdir, name). name \<in> snd ` set slots \<and> subdir \<in> set SWEPT_SUBDIRS \<and> (subdir, name) \<notin> set slots}"
    by (simp_all only: set_filter) (use swept_pair [of _ _ "map snd slots"] in auto)
  have other: "(subdir, snd slot) \<in> set (sp_slots plan)" if "slot \<in> set slots" "subdir \<in> set SWEPT_SUBDIRS" "subdir \<noteq> fst slot" for slot subdir
  proof -
    have "(subdir, snd slot) \<notin> set slots" using slots(2) that(1,3) by (metis eq_key_imp_eq_value fst_conv distinct_map inj_onD snd_conv)
    then show ?thesis using that plan(2) by auto
  qed
  have orph: "orphan inbox slots (Some (sp_slots plan)) p \<longleftrightarrow> (\<exists>slot \<in> set slots. \<exists>subdir \<in> set SWEPT_SUBDIRS. subdir \<noteq> fst slot \<and> p = inbox @ [subdir, snd slot])" for p
  proof
    assume "orphan inbox slots (Some (sp_slots plan)) p"
    then obtain subdir name where n: "subdir \<in> set SWEPT_SUBDIRS" "p = inbox @ [subdir, name]" "(subdir, name) \<notin> set slots" "(subdir, name) \<in> set (sp_slots plan)"
      by (auto simp: orphan_def)
    then obtain slot where "slot \<in> set slots" "snd slot = name" using plan(2) by auto
    then show "\<exists>slot \<in> set slots. \<exists>subdir \<in> set SWEPT_SUBDIRS. subdir \<noteq> fst slot \<and> p = inbox @ [subdir, snd slot]" using n by (metis prod.collapse)
  next
    assume "\<exists>slot \<in> set slots. \<exists>subdir \<in> set SWEPT_SUBDIRS. subdir \<noteq> fst slot \<and> p = inbox @ [subdir, snd slot]"
    then obtain slot subdir where s: "slot \<in> set slots" "subdir \<in> set SWEPT_SUBDIRS" "subdir \<noteq> fst slot" "p = inbox @ [subdir, snd slot]" by blast
    have "(subdir, snd slot) \<in> set (sp_slots plan)" by (rule other [OF s(1-3)])
    moreover from this have "(subdir, snd slot) \<notin> set slots" using plan(2) by simp
    ultimately show "orphan inbox slots (Some (sp_slots plan)) p" using s slots(1) unfolding orphan_def by auto
  qed
  note orph' = ext [of "orphan inbox slots (Some (sp_slots plan))", OF orph]
  obtain events fs' where r: "apply_save_quarantine sy inbox plan fs = Some (events, fs')"
    "moved_aside (orphan inbox slots (Some (sp_slots plan))) fs fs'" "\<And>p. orphan inbox slots (Some (sp_slots plan)) p \<Longrightarrow> fs' p = None"
  proof (cases "sp_slots plan = []")
    case True
    then have "\<not> orphan inbox slots (Some (sp_slots plan)) p" for p by (simp add: orphan_def)
    then show thesis using True by (intro that [of "[]" fs]) (auto simp: apply_save_quarantine_def moved_aside_refl)
  next
    case False
    obtain events fs' where "sweep_orphaned_provider_files sy inbox (Some slots) (Some (sp_slots plan)) fs = Some (events, fs')"
      "moved_aside (orphan inbox slots (Some (sp_slots plan))) fs fs'" "\<And>p. orphan inbox slots (Some (sp_slots plan)) p \<Longrightarrow> fs' p = None"
      by (rule sweep_result [OF assms(4-6), where ex = slots and only = "Some (sp_slots plan)"]) blast
    then show thesis using False that by (simp add: apply_save_quarantine_def plan(1))
  qed
  have kept: "fs' (inbox @ [fst slot, snd slot]) = fs (inbox @ [fst slot, snd slot])" if "slot \<in> set slots" for slot
    by (rule slot_kept [OF r(2)]) (use that slots(1) in \<open>auto simp: orphan_def\<close>)
  show ?thesis using r kept other unfolding orph' by blast
qed

definition sample_config :: "(str \<times> json) list" where
  "sample_config = [(''sources'', JObj [(''providers'', JArr [JObj [(''id'', JStr ''SNCF''), (''timetable'', JObj [(''format'', JStr ''gtfs'')])]])])]"

lemma sample_config_slots: "expected_provider_filenames ascii_runtime sample_network (\<lambda>s. length s = 36) sample_config = Inr (Some [(''gtfs'', ''sncf.zip'')])"
  by code_simp

lemma sample_plan: "plan_save_quarantine ascii_runtime sample_network (\<lambda>s. length s = 36) [] sample_config =
    Inr \<lparr>sp_expected = [(''gtfs'', ''sncf.zip'')], sp_slots = [(''netex'', ''sncf.zip'')], sp_switched = []\<rparr>"
  by code_simp

theorem save_leaves_one_file_witness:
  "\<exists>events fs'. apply_save_quarantine sample_system [''s1''] \<lparr>sp_expected = [(''gtfs'', ''sncf.zip'')], sp_slots = [(''netex'', ''sncf.zip'')], sp_switched = []\<rparr>
       sample_tree = Some (events, fs')
     \<and> fs' [''s1'', ''gtfs'', ''sncf.zip''] = Some 1 \<and> fs' [''s1'', ''netex'', ''sncf.zip''] = None"
proof -
  have "finite (dom sample_tree)" "\<forall>p. sy_may_rename sample_system p" by (simp_all add: sample_tree_def sample_system_def)
  then show ?thesis
    using save_leaves_one_file [OF ascii_runtime_cases sample_config_slots sample_plan _ sample_system_lists]
    by (fastforce simp: SWEPT_SUBDIRS_def sample_tree_def)
qed

end
