(* ===== verification/Motis_Timezones.thy ===== *)
theory Motis_Timezones
  imports Hafas_Ids Provider_Config
begin

text \<open>
  The default time zones of a MOTIS build, \<open>app/motis_timezones.py\<close>: the zone of a provider's country, the lines
  written into \<open>config.yml\<close>, and the summary of the import errors. The arrow and the ellipsis of the texts are
  outside the characters modelled and are arguments; so is the decoding of the log.
\<close>

section \<open>Zones of countries\<close>

definition COUNTRY_TIMEZONES :: "(str \<times> str) list" where
  "COUNTRY_TIMEZONES =
     [(''AD'', ''Europe/Andorra''), (''AL'', ''Europe/Tirane''), (''AT'', ''Europe/Vienna''), (''BA'', ''Europe/Sarajevo''),
      (''BE'', ''Europe/Brussels''), (''BG'', ''Europe/Sofia''), (''BY'', ''Europe/Minsk''), (''CH'', ''Europe/Zurich''),
      (''CY'', ''Asia/Nicosia''), (''CZ'', ''Europe/Prague''), (''DE'', ''Europe/Berlin''), (''DK'', ''Europe/Copenhagen''),
      (''EE'', ''Europe/Tallinn''), (''ES'', ''Europe/Madrid''), (''FI'', ''Europe/Helsinki''), (''FR'', ''Europe/Paris''),
      (''GB'', ''Europe/London''), (''GR'', ''Europe/Athens''), (''HR'', ''Europe/Zagreb''), (''HU'', ''Europe/Budapest''),
      (''IE'', ''Europe/Dublin''), (''IS'', ''Atlantic/Reykjavik''), (''IT'', ''Europe/Rome''), (''LI'', ''Europe/Vaduz''),
      (''LT'', ''Europe/Vilnius''), (''LU'', ''Europe/Luxembourg''), (''LV'', ''Europe/Riga''), (''MC'', ''Europe/Monaco''),
      (''MD'', ''Europe/Chisinau''), (''ME'', ''Europe/Podgorica''), (''MK'', ''Europe/Skopje''), (''MT'', ''Europe/Malta''),
      (''NL'', ''Europe/Amsterdam''), (''NO'', ''Europe/Oslo''), (''PL'', ''Europe/Warsaw''), (''PT'', ''Europe/Lisbon''),
      (''RO'', ''Europe/Bucharest''), (''RS'', ''Europe/Belgrade''), (''RU'', ''Europe/Moscow''), (''SE'', ''Europe/Stockholm''),
      (''SI'', ''Europe/Ljubljana''), (''SK'', ''Europe/Bratislava''), (''SM'', ''Europe/San_Marino''), (''TR'', ''Europe/Istanbul''),
      (''UA'', ''Europe/Kyiv''), (''VA'', ''Europe/Vatican''), (''XK'', ''Europe/Belgrade'')]"

definition NETEX_DIRS :: "str list" where "NETEX_DIRS = [''netex'', ''_netex'']"
definition TZ_KEY :: str where "TZ_KEY = ''default_timezone:''"

definition timezone_for_country :: "runtime \<Rightarrow> str option \<Rightarrow> str option" where
  "timezone_for_country rt country_iso =
     (if \<not> truthy country_iso then None else map_of COUNTRY_TIMEZONES (rt_upper rt (py_strip (or_empty country_iso))))"

text \<open>A country is a text or null in a validated provider; \<open>.strip()\<close> of anything else that is true raises.\<close>

definition country_given :: "json \<Rightarrow> py_error + str option" where
  "country_given v = (if \<not> json_truthy v then Inr None else (case v of JStr s \<Rightarrow> Inr (Some s) | _ \<Rightarrow> Inl AttributeError))"

fun zones_from :: "runtime \<Rightarrow> network \<Rightarrow> (str \<rightharpoonup> str) \<Rightarrow> (str \<times> json) list list \<Rightarrow> py_error + (str \<rightharpoonup> str)" where
  "zones_from rt nw zones [] = Inr zones"
| "zones_from rt nw zones (p # ps) = (case provider_slot rt nw p of
      Inl KeyError \<Rightarrow> zones_from rt nw zones ps
    | Inl (ValueError why) \<Rightarrow> zones_from rt nw zones ps
    | Inl e \<Rightarrow> Inl e
    | Inr (subdir, filename) \<Rightarrow> rbind (country_given (dget p ''country_iso'')) (\<lambda>country.
        zones_from rt nw (case timezone_for_country rt country of
            Some zone \<Rightarrow> if subdir = ''netex'' then zones(filename \<mapsto> zone) else zones
          | None \<Rightarrow> zones) ps))"

definition dataset_timezones :: "runtime \<Rightarrow> network \<Rightarrow> (str \<times> json) list list \<Rightarrow> py_error + (str \<rightharpoonup> str)" where
  "dataset_timezones rt nw providers = zones_from rt nw Map.empty providers"

section \<open>The lines of a configuration\<close>

text \<open>\<open>str.splitlines(keepends=True)\<close> of a text read with universal newlines.\<close>

definition ends_line :: "char \<Rightarrow> bool" where
  "ends_line c = (of_char c \<in> ({10, 11, 12, 13, 28, 29, 30, 133} :: nat set))"

fun keep_lines :: "str \<Rightarrow> str list" where
  "keep_lines [] = []"
| "keep_lines (c # cs) = (if ends_line c then [c] # keep_lines cs
     else (case keep_lines cs of [] \<Rightarrow> [[c]] | line # lines \<Rightarrow> (c # line) # lines))"

definition rstrip_break :: "str \<Rightarrow> str" where
  "rstrip_break line = rev (dropWhile (\<lambda>c. of_char c = (10 :: nat) \<or> of_char c = (13 :: nat)) (rev line))"

definition is_quote :: "char \<Rightarrow> bool" where "is_quote c = (of_char c = (34 :: nat) \<or> of_char c = (39 :: nat))"

definition drop_quote :: "str \<Rightarrow> str" where
  "drop_quote s = (case s of c # cs \<Rightarrow> if is_quote c then cs else s | [] \<Rightarrow> [])"

definition drop_spaces :: "str \<Rightarrow> str" where "drop_spaces = dropWhile (\<lambda>c. c = CHR '' '')"

text \<open>\<open>_PATH_LINE_RE\<close>: the indent and the path.\<close>

definition path_line :: "str \<Rightarrow> (nat \<times> str) option" where
  "path_line line =
     (let body = drop_spaces line; indent = length line - length body;
          after = drop_quote (drop_spaces (drop (length ''path:'') body));
          path = takeWhile (\<lambda>c. \<not> is_space c \<and> \<not> is_quote c) after
      in if 0 < indent \<and> starts_with body ''path:'' \<and> path \<noteq> [] \<and> drop_spaces (drop_quote (drop (length path) after)) = []
         then Some (indent, path) else None)"

definition netex_file :: "str \<Rightarrow> str option" where
  "netex_file path =
     (let parts = split_on (CHR ''/'') (rstrip_slash path)
      in if 2 \<le> length parts \<and> last (butlast parts) \<in> set NETEX_DIRS then Some (last parts) else None)"

definition block_line :: "str \<Rightarrow> nat option \<Rightarrow> bool \<times> nat option" where
  "block_line line block_indent = (case block_indent of
      None \<Rightarrow> (True, None)
    | Some open_at \<Rightarrow>
        (let body = drop_spaces line; indent = length line - length body
         in if py_strip body \<noteq> [] \<and> indent < open_at then (True, None)
            else (\<not> (indent = open_at \<and> starts_with body TZ_KEY), block_indent)))"

definition zone_note :: "str \<Rightarrow> str \<Rightarrow> str option \<Rightarrow> str" where
  "zone_note arrow name zone = (case zone of
      None \<Rightarrow> ''motis time zone: '' @ name @ '' gets no default (its provider declares no country): a file of it without a time zone of its own is dropped''
    | Some z \<Rightarrow> ''motis time zone: '' @ name @ '' '' @ arrow @ '' '' @ z @ '', for its files that declare none (from the provider's country)'')"

definition zone_line :: "nat \<Rightarrow> str \<Rightarrow> str" where
  "zone_line indent zone = replicate indent (CHR '' '') @ TZ_KEY @ '' '' @ zone @ [char_of (10 :: nat)]"

definition dataset_of :: "str \<Rightarrow> (nat \<times> str) option" where
  "dataset_of line = (case path_line (rstrip_break line) of
      None \<Rightarrow> None
    | Some (indent, path) \<Rightarrow> (case netex_file path of None \<Rightarrow> None | Some name \<Rightarrow> Some (indent, name)))"

fun zoned_lines :: "str \<Rightarrow> (str \<rightharpoonup> str) \<Rightarrow> nat option \<Rightarrow> str list \<Rightarrow> str list \<times> str list" where
  "zoned_lines arrow zones block_indent [] = ([], [])"
| "zoned_lines arrow zones block_indent (line # lines) = (case block_line line block_indent of (keep, block) \<Rightarrow>
     if \<not> keep then zoned_lines arrow zones block lines
     else (case dataset_of line of
         None \<Rightarrow> (case zoned_lines arrow zones block lines of (out, notes) \<Rightarrow> (line # out, notes))
       | Some (indent, name) \<Rightarrow> (case zones name of
             None \<Rightarrow> (case zoned_lines arrow zones block lines of (out, notes) \<Rightarrow> (line # out, zone_note arrow name None # notes))
           | Some zone \<Rightarrow> (case zoned_lines arrow zones (Some indent) lines of (out, notes) \<Rightarrow>
               (line # zone_line indent zone # out, zone_note arrow name (Some zone) # notes)))))"

definition set_default_timezones :: "str \<Rightarrow> (str \<rightharpoonup> str) \<Rightarrow> str \<Rightarrow> str \<times> str list" where
  "set_default_timezones arrow zones config =
     (case zoned_lines arrow zones None (keep_lines config) of (out, notes) \<Rightarrow> (concat out, notes))"

section \<open>The import errors\<close>

definition NO_ZONE_MESSAGES :: "str list" where "NO_ZONE_MESSAGES = [''not found in timezone database'', ''missing timezone'']"
definition MAX_MESSAGES :: nat where "MAX_MESSAGES = 10"
definition MAX_MESSAGE_CHARS :: nat where "MAX_MESSAGE_CHARS = 160"
definition MAX_LOG_BYTES :: nat where "MAX_LOG_BYTES = 64 * 1024 * 1024"

definition unprintable :: "char \<Rightarrow> bool" where
  "unprintable c = (let n = of_char c :: nat in n < 32 \<or> 127 \<le> n \<and> n \<le> 159)"

definition clean_message :: "str \<Rightarrow> str \<Rightarrow> str" where
  "clean_message ellipsis message =
     (let text = py_join '' '' (py_split (map (\<lambda>c. if unprintable c then CHR ''?'' else c) message))
      in if MAX_MESSAGE_CHARS < length text then take (MAX_MESSAGE_CHARS - 1) text @ ellipsis else text)"

text \<open>A line of \<open>splitlines()\<close>; that a carriage return before a newline ends a line of its own adds only an empty line.\<close>

definition without_break :: "str \<Rightarrow> str" where
  "without_break line = (if line \<noteq> [] \<and> ends_line (last line) then butlast line else line)"

text \<open>\<open>line.split("ERROR:")\<close>, and the text in \<open>message\<close> anywhere.\<close>

fun split_text :: "str \<Rightarrow> str \<Rightarrow> str list" where
  "split_text sep [] = [[]]"
| "split_text sep (c # cs) =
     (if sep \<noteq> [] \<and> starts_with (c # cs) sep then [] # split_text sep (drop (length sep - 1) cs)
      else (case split_text sep cs of [] \<Rightarrow> [[c]] | found # others \<Rightarrow> (c # found) # others))"

fun holds_text :: "str \<Rightarrow> str \<Rightarrow> bool" where
  "holds_text [] part = (part = [])"
| "holds_text (c # cs) part = (starts_with (c # cs) part \<or> holds_text cs part)"

fun count_message :: "str \<Rightarrow> (str \<times> nat) list \<Rightarrow> (str \<times> nat) list" where
  "count_message x [] = [(x, 1)]"
| "count_message x ((y, n) # rest) = (if x = y then (y, n + 1) # rest else (y, n) # count_message x rest)"

definition error_messages :: "str \<Rightarrow> str \<Rightarrow> str list" where
  "error_messages ellipsis text =
     filter (\<lambda>m. m \<noteq> []) (map (clean_message ellipsis) (concat (map (\<lambda>line. tl (split_text ''ERROR:'' line)) (map without_break (keep_lines text)))))"

definition tally :: "str list \<Rightarrow> (str \<times> nat) list" where "tally messages = foldl (\<lambda>counts m. count_message m counts) [] messages"

text \<open>\<open>Counter.most_common\<close>: the highest counts first, the first seen first among equals.\<close>

definition most_common :: "nat \<Rightarrow> (str \<times> nat) list \<Rightarrow> (str \<times> nat) list" where
  "most_common n counts = take n (sort_key (\<lambda>(m, k). - int k) counts)"

definition right_aligned :: "nat \<Rightarrow> str \<Rightarrow> str" where "right_aligned w s = replicate (w - length s) (CHR '' '') @ s"

definition import_error_lines :: "(str \<Rightarrow> str) \<Rightarrow> str \<Rightarrow> str option \<Rightarrow> str list" where
  "import_error_lines decode ellipsis log_file = (case log_file of
      None \<Rightarrow> []
    | Some raw \<Rightarrow>
        (let counts = tally (error_messages ellipsis (decode (take MAX_LOG_BYTES raw)));
             total = sum_list (map snd counts)
         in if total = 0 then []
            else [''motis import errors (logs/tt.txt): '' @ show_nat total]
              @ map (\<lambda>(m, k). ''  '' @ right_aligned 7 (show_nat k) @ ''  '' @ m) (most_common MAX_MESSAGES counts)
              @ (if MAX_MESSAGES < length counts then [''  '' @ ellipsis @ '' and '' @ show_nat (length counts - MAX_MESSAGES) @ '' other messages''] else [])
              @ (if list_ex (\<lambda>(m, k). list_ex (holds_text m) NO_ZONE_MESSAGES) counts
                 then [''  a NeTEx file declares no time zone and its feed has no default: give its provider a country so the build sets one''] else [])))"

end
