(* ===== verification/Motis_Timezone_Properties.thy ===== *)
theory Motis_Timezone_Properties
  imports Motis_Timezones Provider_Properties
begin

text \<open>
  The zones written into a configuration are written once: the second run changes nothing, only lines of the
  time zone differ, and every dataset with a zone has it on the next line.
\<close>

section \<open>Lines\<close>

lemma keep_lines_concat [simp]: "concat (keep_lines s) = s"
  by (induction s) (auto split: list.splits)

text \<open>A line ends at its break and holds none before.\<close>

definition whole_line :: "str \<Rightarrow> bool" where
  "whole_line line \<longleftrightarrow> line \<noteq> [] \<and> ends_line (last line) \<and> list_all (\<lambda>c. \<not> ends_line c) (butlast line)"

lemma keep_lines_whole: "whole_line line \<Longrightarrow> keep_lines (line @ s) = line # keep_lines s"
proof (induction line)
  case (Cons c line)
  show ?case
  proof (cases "line = []")
    case True
    then show ?thesis using Cons.prems by (simp add: whole_line_def)
  next
    case False
    then have "whole_line line" "\<not> ends_line c" using Cons.prems by (simp_all add: whole_line_def)
    then show ?thesis using Cons.IH by simp
  qed
qed (simp add: whole_line_def)

lemma keep_lines_wholes: "list_all whole_line lines \<Longrightarrow> keep_lines (concat lines) = lines"
  by (induction lines) (simp_all add: keep_lines_whole)

lemma whole_keep_lines: "s = [] \<or> ends_line (last s) \<Longrightarrow> list_all whole_line (keep_lines s)"
proof (induction s)
  case (Cons c s)
  show ?case
  proof (cases "s = []")
    case True
    then show ?thesis using Cons.prems by (simp add: whole_line_def)
  next
    case False
    then have w: "list_all whole_line (keep_lines s)" using Cons by simp
    obtain line lines where k: "keep_lines s = line # lines" using False by (metis concat.simps(1) keep_lines_concat list.exhaust)
    then show ?thesis using w by (auto simp: whole_line_def list_all_iff)
  qed
qed simp

section \<open>Zones\<close>

definition is_zone_line :: "str \<Rightarrow> bool" where "is_zone_line line \<longleftrightarrow> starts_with (drop_spaces line) TZ_KEY"

lemma drop_key: "drop_spaces (replicate n (CHR '' '') @ TZ_KEY @ s) = TZ_KEY @ s"
  by (induction n) (simp_all add: drop_spaces_def TZ_KEY_def)

lemma zone_line_body: "drop_spaces (zone_line n zone) = TZ_KEY @ '' '' @ zone @ [char_of (10 :: nat)]"
  unfolding zone_line_def drop_key by simp

lemma zone_line_is [simp]: "is_zone_line (zone_line n zone)"
  by (simp add: is_zone_line_def zone_line_body)

lemma zone_line_dropped: "block_line (zone_line n zone) (Some n) = (False, Some n)"
proof -
  have "length (zone_line n zone) - length (drop_spaces (zone_line n zone)) = n" unfolding zone_line_body by (simp add: zone_line_def)
  moreover have "starts_with (drop_spaces (zone_line n zone)) TZ_KEY" by (simp add: zone_line_body)
  ultimately show ?thesis unfolding block_line_def by (simp add: Let_def)
qed

lemma dropped_same: "block_line line block = (False, block') \<Longrightarrow> block' = block \<and> is_zone_line line"
  by (auto simp: block_line_def is_zone_line_def Let_def split: option.splits if_splits)

text \<open>The cases of one line.\<close>

lemma zoned_dropped: "block_line line block = (False, block') \<Longrightarrow> zoned_lines arrow zones block (line # lines) = zoned_lines arrow zones block lines"
  using dropped_same by fastforce

lemma zoned_kept:
  assumes "block_line line block = (True, block')" "zoned_lines arrow zones block (line # lines) = (out, told)"
  obtains out' told' where "dataset_of line = None" "zoned_lines arrow zones block' lines = (out', told')" "out = line # out'" "told = told'"
  | indent name out' told' where "dataset_of line = Some (indent, name)" "zones name = None" "zoned_lines arrow zones block' lines = (out', told')"
      "out = line # out'" "told = zone_note arrow name None # told'"
  | indent name zone out' told' where "dataset_of line = Some (indent, name)" "zones name = Some zone" "zoned_lines arrow zones (Some indent) lines = (out', told')"
      "out = line # zone_line indent zone # out'" "told = zone_note arrow name (Some zone) # told'"
proof (cases "dataset_of line")
  case None
  then show ?thesis using assms that(1) by (auto split: prod.splits)
next
  case (Some d)
  obtain indent name where d: "d = (indent, name)" by (cases d)
  show ?thesis
  proof (cases "zones name")
    case None
    then show ?thesis using assms Some d that(2) by (auto split: prod.splits)
  next
    case (Some zone)
    then show ?thesis using assms \<open>dataset_of line = Some d\<close> d that(3) by (auto split: prod.splits)
  qed
qed

lemma zoned_again: "zoned_lines arrow zones block lines = (out, told) \<Longrightarrow> zoned_lines arrow zones block out = (out, told)"
proof (induction lines arbitrary: block out told)
  case (Cons line lines)
  obtain keep block' where b: "block_line line block = (keep, block')" by (cases "block_line line block")
  show ?case
  proof (cases keep)
    case False
    then have "block_line line block = (False, block')" using b by simp
    then have "zoned_lines arrow zones block lines = (out, told)" using Cons.prems by (simp only: zoned_dropped)
    then show ?thesis by (rule Cons.IH)
  next
    case True
    then have k: "block_line line block = (True, block')" using b by simp
    from zoned_kept [OF k Cons.prems] show ?thesis
    proof cases
      case 1
      then show ?thesis using Cons.IH [OF 1(2)] k by simp
    next
      case 2
      then show ?thesis using Cons.IH [OF 2(3)] k by simp
    next
      case 3
      then show ?thesis using Cons.IH [OF 3(3)] k zone_line_dropped by simp
    qed
  qed
qed simp

lemma zoned_others: "zoned_lines arrow zones block lines = (out, told) \<Longrightarrow>
    filter (\<lambda>line. \<not> is_zone_line line) out = filter (\<lambda>line. \<not> is_zone_line line) lines"
proof (induction lines arbitrary: block out told)
  case (Cons line lines)
  obtain keep block' where b: "block_line line block = (keep, block')" by (cases "block_line line block")
  show ?case
  proof (cases keep)
    case False
    then have d: "block_line line block = (False, block')" using b by simp
    then have "zoned_lines arrow zones block lines = (out, told)" using Cons.prems by (simp only: zoned_dropped)
    then show ?thesis using Cons.IH dropped_same [OF d] by simp
  next
    case True
    then have k: "block_line line block = (True, block')" using b by simp
    from zoned_kept [OF k Cons.prems] show ?thesis using Cons.IH by cases auto
  qed
qed simp

text \<open>A line of a dataset with a zone has that zone on the line after it.\<close>

fun zones_follow :: "(str \<rightharpoonup> str) \<Rightarrow> str list \<Rightarrow> bool" where
  "zones_follow zones [] = True"
| "zones_follow zones (line # lines) = ((case dataset_of line of None \<Rightarrow> True | Some (indent, name) \<Rightarrow> (case zones name of None \<Rightarrow> True
     | Some zone \<Rightarrow> (case lines of after # rest \<Rightarrow> after = zone_line indent zone | [] \<Rightarrow> False))) \<and> zones_follow zones lines)"

lemma rstrip_break_app: "of_char c \<noteq> (10 :: nat) \<Longrightarrow> of_char c \<noteq> (13 :: nat) \<Longrightarrow> rstrip_break (s @ c # t) = s @ c # rstrip_break t"
  by (cases "\<forall>x \<in> set t. of_char x = (10 :: nat) \<or> of_char x = (13 :: nat)") (simp_all add: rstrip_break_def dropWhile_append dropWhile_eq_self_iff)

lemma zone_line_no_dataset: "dataset_of (zone_line n zone) = None"
proof -
  have "zone_line n zone = (replicate n (CHR '' '') @ TZ_KEY) @ CHR '' '' # (zone @ [char_of (10 :: nat)])" by (simp add: zone_line_def)
  then have "rstrip_break (zone_line n zone) = replicate n (CHR '' '') @ TZ_KEY @ CHR '' '' # rstrip_break (zone @ [char_of (10 :: nat)])"
    using rstrip_break_app [of "CHR '' ''" "replicate n (CHR '' '') @ TZ_KEY" "zone @ [char_of (10 :: nat)]"] by simp
  then have "drop_spaces (rstrip_break (zone_line n zone)) = TZ_KEY @ CHR '' '' # rstrip_break (zone @ [char_of (10 :: nat)])" by (simp only: drop_key)
  then have "\<not> starts_with (drop_spaces (rstrip_break (zone_line n zone))) ''path:''" by (auto simp: starts_with_def TZ_KEY_def)
  then show ?thesis by (simp add: dataset_of_def path_line_def Let_def)
qed

lemma zoned_follow: "zoned_lines arrow zones block lines = (out, told) \<Longrightarrow> zones_follow zones out"
proof (induction lines arbitrary: block out told)
  case (Cons line lines)
  obtain keep block' where b: "block_line line block = (keep, block')" by (cases "block_line line block")
  show ?case
  proof (cases keep)
    case False
    then have "block_line line block = (False, block')" using b by simp
    then have "zoned_lines arrow zones block lines = (out, told)" using Cons.prems by (simp only: zoned_dropped)
    then show ?thesis by (rule Cons.IH)
  next
    case True
    then have k: "block_line line block = (True, block')" using b by simp
    from zoned_kept [OF k Cons.prems] show ?thesis using Cons.IH zone_line_no_dataset by cases auto
  qed
qed simp

lemma zoned_wholes:
  assumes "\<And>name zone. zones name = Some zone \<Longrightarrow> list_all (\<lambda>c. \<not> ends_line c) zone"
  shows "zoned_lines arrow zones block lines = (out, told) \<Longrightarrow> list_all whole_line lines \<Longrightarrow> list_all whole_line out"
proof (induction lines arbitrary: block out told)
  case (Cons line lines)
  have whole: "whole_line (zone_line n zone)" if "zones name = Some zone" for n name zone
    using assms [OF that] by (simp add: whole_line_def zone_line_def TZ_KEY_def ends_line_def butlast_append list_all_iff ball_Un)
  obtain keep block' where b: "block_line line block = (keep, block')" by (cases "block_line line block")
  show ?case
  proof (cases keep)
    case False
    then have "block_line line block = (False, block')" using b by simp
    then have "zoned_lines arrow zones block lines = (out, told)" using Cons.prems(1) by (simp only: zoned_dropped)
    then show ?thesis by (rule Cons.IH) (use Cons.prems(2) in simp)
  next
    case True
    then have k: "block_line line block = (True, block')" using b by simp
    from zoned_kept [OF k Cons.prems(1)] show ?thesis using Cons.IH Cons.prems(2) whole by cases auto
  qed
qed simp

text \<open>Zones without a line break, as those of the table are.\<close>

definition plain_zones :: "(str \<rightharpoonup> str) \<Rightarrow> bool" where
  "plain_zones zones \<longleftrightarrow> (\<forall>name zone. zones name = Some zone \<longrightarrow> list_all (\<lambda>c. \<not> ends_line c) zone)"

lemma table_zones: "map_of COUNTRY_TIMEZONES country = Some zone \<Longrightarrow> list_all (\<lambda>c. \<not> ends_line c) zone"
proof -
  have all: "list_all (\<lambda>(country, zone). list_all (\<lambda>c. \<not> ends_line c) zone) COUNTRY_TIMEZONES" by code_simp
  assume "map_of COUNTRY_TIMEZONES country = Some zone"
  then have "(country, zone) \<in> set COUNTRY_TIMEZONES" by (rule map_of_SomeD)
  then show ?thesis using all by (auto simp: list_all_iff)
qed

lemma zones_from_plain: "zones_from rt nw zones ps = Inr zones' \<Longrightarrow> plain_zones zones \<Longrightarrow> plain_zones zones'"
proof (induction ps arbitrary: zones)
  case (Cons p ps)
  show ?case
  proof (cases "provider_slot rt nw p")
    case (Inl e)
    then have "zones_from rt nw zones ps = Inr zones'" using Cons.prems(1) by (cases e) simp_all
    then show ?thesis using Cons.IH Cons.prems(2) by blast
  next
    case (Inr slot)
    obtain subdir filename where s: "slot = (subdir, filename)" by (cases slot)
    obtain country where c: "country_given (dget p ''country_iso'') = Inr country" using Cons.prems(1) Inr s by auto
    define next_zones where "next_zones = (case timezone_for_country rt country of
            Some zone \<Rightarrow> if subdir = ''netex'' then zones(filename \<mapsto> zone) else zones | None \<Rightarrow> zones)"
    have "zones_from rt nw next_zones ps = Inr zones'" using Cons.prems(1) Inr s c by (simp add: next_zones_def)
    moreover have "plain_zones next_zones"
      using Cons.prems(2) table_zones by (auto simp: next_zones_def plain_zones_def timezone_for_country_def split: option.splits if_splits)
    ultimately show ?thesis using Cons.IH by blast
  qed
qed simp


definition sample_dataset :: str where
  "sample_dataset = ''timetable:'' @ [char_of (10 :: nat)] @ ''  datasets:'' @ [char_of (10 :: nat)] @ ''    obb.zip:'' @ [char_of (10 :: nat)]
     @ ''      path: /inbox/s1/netex/obb.zip'' @ [char_of (10 :: nat)] @ ''      default_timezone: Europe/Paris'' @ [char_of (10 :: nat)]
     @ ''      rt: []'' @ [char_of (10 :: nat)]"

definition sample_austria :: "(str \<times> json) list list" where
  "sample_austria = [[(''id'', JStr ''OBB''), (''country_iso'', JStr ''AT''), (''timetable'', JObj [(''format'', JStr ''netex_epip'')])]]"

lemma sample_zone: "map_sum id (\<lambda>zones. zones ''obb.zip'') (dataset_timezones ascii_runtime sample_network sample_austria) = Inr (Some ''Europe/Vienna'')"
  by code_simp


text \<open>A path on a last line without a line break gets its zone on the same line, where no reader of YAML finds it.\<close>

lemma zone_glued_to_last_line:
  "fst (set_default_timezones ''>'' [''obb.zip'' \<mapsto> ''Europe/Vienna''] ''  path: /i/netex/obb.zip'')
     = ''  path: /i/netex/obb.zip  default_timezone: Europe/Vienna'' @ [char_of (10 :: nat)]"
  by code_simp

section \<open>The errors counted\<close>

lemma count_message_total: "sum_list (map snd (count_message x counts)) = sum_list (map snd counts) + 1"
  by (induction x counts rule: count_message.induct) auto

lemma tally_total: "sum_list (map snd (tally messages)) = length messages"
proof -
  have "sum_list (map snd (foldl (\<lambda>counts m. count_message m counts) counts messages)) = sum_list (map snd counts) + length messages" for counts
    by (induction messages arbitrary: counts) (simp_all add: count_message_total)
  then show ?thesis by (simp add: tally_def)
qed

lemma import_errors_told:
  "import_error_lines decode ellipsis (Some raw) = [] \<longleftrightarrow> error_messages ellipsis (decode (take MAX_LOG_BYTES raw)) = []"
  unfolding import_error_lines_def option.case Let_def tally_total by simp

end
