(* ===== verification/Spec2Isabelle.thy ===== *)
theory Spec2Isabelle
  imports Engine_Properties Component_Properties Coverage_Properties Sweep_Writer Page_Properties Federated_Properties
    Hafas_Properties Adapter_Properties Engine_Sizing Config_Properties Refresh_Properties Refresh_Run_Properties Refresh_Page
    Netex_Stream Ojp_Adapter Country_Geometry_Properties Cross_Border_Properties Station_Wait_Properties Feed_Resolver_Properties
    Provider_Properties Inbox_Properties Motis_Timezone_Properties
begin

text \<open>
  \<^bold>\<open>VIATOR.\<close> VIATOR asks several journey planners the same question (its own OTP and
  MOTIS sessions, the reference planners HAFAS of the Austrian railways and OJP of Switzerland), turns
  every answer into one canonical form, pairs the journeys of two sides, explains what was paired and what
  was not, and runs that comparison over a matrix of stations (network coverage). Around it, the web process keeps
  the feeds of its sessions fresh, prepares them for the engines, sizes the engines' containers and holds
  the settings. This library models the logic of both sides, under \<open>src/app/journey\<close>,
  \<open>src/app/network_coverage\<close> and \<open>src/app\<close>, and states what makes it correct.

  \<^bold>\<open>How the parts meet.\<close> An adapter makes canonical journeys of an engine's answer; a paginated fetch
  asks a reference planner page by page and joins the pages; where no session routes a trip, the
  federated planner joins journeys of two sessions. Station resolution puts VIATOR's station ids on the
  stops. The matching engine compares the journeys of two sides under a profile: it weighs every pair
  (spines, stations, identifiers, features, scoring), accepts pairs greedily by rank, and gives reasons.
  Coverage alignment calls it for a cell, scores the cell and explains it; the sweep writer saves the
  checked cells in transactions fenced by the run's owner. On the other side a refresh of a session's feeds
  claims its row, writes its progress behind the same kind of fence and leaves a pass for the station
  module; a NeTEx feed that is downloaded has its calendar rewritten into the one form MOTIS reads; a
  change of the settings is checked, stored, audited and carried to the concurrency gates. The providers of a
  session are validated and stored, each with a slot of its own for its file; a resolver finds the address of a
  feed that moves; saves and refreshes quarantine files no slot is for; a file placed queues a rebuild, which
  waits for the station module's build, within limits, and gives MOTIS the time zones of its feeds.

  \<^bold>\<open>Theories and sources\<close> (under \<open>src/app\<close>).
  \<^item> \<open>Viator_Prelude\<close>: text, instants, floats, rounding, ordered dictionaries, loops that can raise; the
    \<open>runtime\<close> record stands for the Unicode tables and SHA-256. \<open>Json_Values\<close>: JSON as Python reads it.
    \<open>Civil_Time\<close>: \<open>isoformat\<close> and \<open>strftime\<close> in UTC.
  \<^item> \<open>Canonical\<close>: \<open>journey/canonical/canonical_*.py\<close>. A class is a record, its validators a predicate
    \<open>valid_...\<close>; \<open>derive_transfers\<close>, \<open>mark_transfers\<close>, \<open>mode_family\<close>.
  \<^item> \<open>Lcs_Alignment\<close>, \<open>Fingerprint\<close>: \<open>journey_fingerprint.py\<close> and the two alignment tables, both proved
    to be the longest common subsequence walk (locale \<open>aligner\<close>).
  \<^item> \<open>Match_Reasons\<close>, \<open>Match_Profiles\<close>, \<open>Match_Stations\<close>, \<open>Match_Identifiers\<close>, \<open>Match_Spines\<close>,
    \<open>Match_Features\<close>, \<open>Match_Scoring\<close>, \<open>Match_Engine\<close>: the modules of \<open>journey/matching\<close> one for one.
    \<open>Engine_Laws\<close> and \<open>Engine_Order\<close> hold the lemmas on \<open>compare\<close> (locale \<open>one_to_one\<close> for the
    acceptance loop), \<open>Sample_Journeys\<close> concrete journeys, \<open>Engine_Properties\<close> and
    \<open>Component_Properties\<close> the properties.
  \<^item> \<open>Station_Resolution\<close>: \<open>journey/canonical/station_resolution.py\<close>; the resolver's answer is an argument.
  \<^item> \<open>Coverage_Alignment\<close>, \<open>Coverage_Properties\<close>: \<open>network_coverage/alignment.py\<close>.
  \<^item> \<open>Sweep_Writer\<close>: \<open>network_coverage/verify_progress.py\<close> as a state machine, an inductive relation of
    the sweep's states with the outcomes of the transactions, and the locale \<open>fenced_transaction\<close>.
  \<^item> \<open>Stop_Tokens\<close>, \<open>Trip_Dict\<close>: \<open>journey/signature.py\<close>, \<open>canonical_adapters/trip_dict.py\<close>.
  \<^item> \<open>Trip_Pages\<close>, \<open>Page_Properties\<close>: \<open>trip_normalize.py\<close> and the pagination loops of \<open>ojp_client.py\<close> and
    \<open>hafas_client.py\<close>; the page calls and the elapsed time are arguments.
  \<^item> \<open>Federated_Planner\<close>, \<open>Federated_Properties\<close>: \<open>federated_planner.py\<close>, with the locale \<open>memo_table\<close>
    for its cache; the staged feeds, \<open>master_stations\<close> and the engines are the record \<open>fed_world\<close>.
  \<^item> \<open>Hafas_Ids\<close>, \<open>Hafas_Properties\<close>: the readers of \<open>network_coverage/external_verify.py\<close>.
  \<^item> \<open>Adapters\<close>, \<open>Hafas_Adapter\<close>, \<open>Adapter_Properties\<close>, \<open>Ojp_Adapter\<close>: \<open>_common.py\<close>, \<open>otp_adapter.py\<close>,
    \<open>motis_adapter.py\<close>, \<open>hafas_adapter.py\<close> and \<open>ojp_adapter.py\<close> of \<open>canonical_adapters\<close>, every raise a
    value of \<open>py_error\<close>; an XML body is the tree of its elements.
  \<^item> \<open>Country_Geometry\<close>, \<open>Country_Geometry_Properties\<close>: \<open>osm_geo.py\<close>, the boundaries an argument.
    \<open>Cross_Border\<close>, \<open>Cross_Border_Properties\<close>: \<open>gtfs_cross_border_filter.py\<close> over the tables of an archive.
  \<^item> \<open>Refresh_Progress\<close>, \<open>Refresh_Run\<close>, \<open>Refresh_Page\<close>: \<open>refresh_progress.py\<close>, in the order claim, run,
    follow-up, page; a row is \<open>progress_row\<close>, a run \<open>refresh_run\<close> with the queue of its writer thread.
    \<open>Refresh_Properties\<close> has the step relation of all sessions' claims and writes,
    \<open>Refresh_Run_Properties\<close> that of one run.
  \<^item> \<open>Runtime_Config\<close>, \<open>Config_Properties\<close>: \<open>config_schema.py\<close>, \<open>config_service.py\<close> with its cache, and the
    PATCH handler of \<open>api/admin/config.py\<close>. \<open>Concurrency_Gate\<close>: \<open>concurrency.py\<close>.
  \<^item> \<open>Engine_Sizing\<close>: \<open>otp_heap.py\<close>, \<open>memory_caps.py\<close>, \<open>otp_start_period.py\<close>, \<open>otp_api_timeout.py\<close>,
    \<open>otp_timezone.py\<close>, \<open>engine_versions.py\<close>.
  \<^item> \<open>Netex_Calendar\<close>, \<open>Netex_Calendar_Properties\<close>, \<open>Netex_Stream\<close>: the calendar of
    \<open>netex_calendar.py\<close>, from the elements of a frame to the texts written, with the locale
    \<open>day_store\<close>; the streamed reading beside the whole one.
  \<^item> \<open>Station_Build_Wait\<close>, \<open>Station_Wait_Properties\<close>: \<open>station_builds.py\<close>, a wait as a state with its clock and the
    calls made; the replies, their durations and the cancel are the record \<open>wait_env\<close>.
  \<^item> \<open>Feed_Resolvers\<close>, \<open>Feed_Resolver_Properties\<close>: \<open>feed_resolvers.py\<close> and \<open>_validate_safe_http_url\<close> of
    \<open>master/nap_importer.py\<close>; fetches, name lookups and regular expressions are the record \<open>network\<close>.
  \<^item> \<open>Provider_Config\<close>, \<open>Provider_Properties\<close>: \<open>ingestion.py\<close>, from the validation of a provider to the
    file in its slot and the queue of rebuilds. \<open>Inbox_Sweep\<close>, \<open>Inbox_Properties\<close>: \<open>inbox_sweep.py\<close>. Both see a
    tree of files as a map from paths to contents.
  \<^item> \<open>Motis_Timezones\<close>, \<open>Motis_Timezone_Properties\<close>: \<open>motis_timezones.py\<close>.

  \<^bold>\<open>What is shown.\<close>
  \<^item> The engine: every journey is accounted for once on its side; the result does not depend on the order
    of the input; a pair that passes is only blocked by a pair that ranks as well; every accepted pair
    passed the gates; summaries, metadata cards and reason counts add up.
  \<^item> Its parts: both alignments are the same longest alignment, comparisons are symmetric, scores lie in
    [0, 1] and fall with conflicts, codes and sentences round-trip and always format, configured profiles
    stay in bounds, trimming only leaves out local rides at the ends.
  \<^item> Coverage: a cell's counts and score, its tier, its reference window and its explanation lines;
    the sweep's recorded progress is always backed by stored answers and every write is fenced.
  \<^item> Fetching: pages are joined without repeats under distinct ids, the anchor always moves on, the time
    budget holds, and both loops collect the same; HAFAS ids are classified in three states and are never
    read back as something else (up to the length the code cuts at); the four adapters give valid journeys.
  \<^item> Federation: how a try ends, that a stitched journey is a valid journey with its connection time, what
    the ranking leaves out, the order of hubs.
  \<^item> Refreshes: no two refreshes of a session that would meet run at once, a claim is refused exactly when
    one stands in its way, a refresh that lost its row changes nothing more, counts add up, the end is the
    last write, and the page shows only texts of the known forms whatever the rows hold.
  \<^item> Settings: a patch is applied whole or refused whole, what was served masked changes nothing when it is
    sent back, secrets stay masked; gates admit exactly below their limit; the heap search ends within
    the host, and a heap gives container limits above it.
  \<^item> Countries: the boxes and shortcuts of the boundary lookups change no answer, a country is named only
    clear of the borders; a feed cut to its border-crossing trips keeps what its rows refer to, and
    the trips are those of the routes that call in two countries.
  \<^item> Calendars: the period written for a day type reads back as exactly the days its assignments come to,
    and a streamed frame is rewritten as a whole one.
  \<^item> Providers and files: a stored list reads back as it was stored, every resolver included; no two providers
    share a slot, a file placed or swept loses no other, requests for a rebuild are coalesced and none is lost; a
    resolved address is the newest of its window, public, and independent of the credential.
  \<^item> Builds: the wait for the station module ends whatever it answers, within its calls and its time, and as the
    last answer says; default time zones are written once.

  \<^bold>\<open>Parameters and bounds.\<close> Nothing of a network, a database or a time zone is defined here: each is an
  argument, and what a theorem needs of it is a hypothesis by name (\<open>reads_back\<close>: printed departures
  parse to themselves; \<open>engine_answers_after\<close>: an engine's journeys are valid and leave no earlier than
  asked; \<open>holds_only\<close>: a cache holds what the feeds say). Floats are reals, so the scores are exact where
  the program rounds to 53 bits, and a text is read as a finite one; text is over Latin-1. Loops recurse on the list they
  read or on the number of pages left, so no fuel is needed; the two that wait for the world, the polls of a station
  build and the search for a free file name, are partial functions of which it is proved that they return.

  Time is an argument of each operation; a transaction is one step, and threads are sequences of steps.
  Error texts of the settings are reduced to their kind, JSON numbers are finite.

  \<^bold>\<open>Not modelled.\<close> The parsers of XML, CSV and zip, request building and HTTP calls; the coverage executor
  and runner (threads over the database); the worker, the session orchestration and the station
  extraction (containers, archives, bulk tables); the byte splicing and the zip pass of the calendar
  rewrite; the redirect guard and the texts of errors of the resolvers, the temporary copies and locks of a slot;
  security and the web layer. What decides something there and is not modelled: timetable windows, hub
  derivation, retention, the versions of graph snapshots, the rules of station extraction.
\<close>

end
